(* ===== verification/Prelude.thy ===== *)
theory Prelude
  imports Main "HOL-Library.Word"
begin

text \<open>
  The vocabulary the component theories share: the names of the machine integers, the
  state-and-error monad in which the reader, the writer and the handlers are written, and
  the translation between bytes, little-endian integers and bit lists that the proofs about
  the wire format use.

  The program is run from its debug build (src/run.bash starts target/debug/dw-server), so
  integer overflow and failed debug assertions are panics. A panic is a value of the error
  type of the model, as an error return is; the error type itself is in the theory Errors.
\<close>

unbundle bit_operations_syntax

named_theorems monad_simps \<open>evaluation of the state-and-error monad\<close>
named_theorems bit_facts \<open>bits of bytes and of little-endian integers\<close>

section \<open>Machine integers\<close>

type_synonym u8 = "8 word"
type_synonym u16 = "16 word"
type_synonym u32 = "32 word"
type_synonym u64 = "64 word"

text \<open>A signed integer is the word of its two's complement representation, read with \<open>sint\<close>.
  A float is the word of its IEEE representation: the program only moves floats about.\<close>

type_synonym i8 = "8 word"
type_synonym i16 = "16 word"
type_synonym i32 = "32 word"
type_synonym i64 = "64 word"
type_synonym f32 = "32 word"
type_synonym f64 = "64 word"

type_synonym bytes = "u8 list"

text \<open>The bytes of an ASCII string literal.\<close>

definition str :: "string \<Rightarrow> bytes" where
  "str s = map of_char s"

section \<open>State and errors\<close>

text \<open>
  A fallible operation on a mutable object takes the object and returns a result together
  with the object as the operation left it: a Rust function that fails halfway has already
  moved the cursor, and some callers go on after an error. \<open>bindE\<close> is the question-mark
  operator: an error ends the computation and is its result.
\<close>

type_synonym ('s, 'e, 'a) sm = "'s \<Rightarrow> ('e + 'a) \<times> 's"

definition returnE :: "'a \<Rightarrow> ('s, 'e, 'a) sm" where
  "returnE x = (\<lambda>s. (Inr x, s))"

definition throwE :: "'e \<Rightarrow> ('s, 'e, 'a) sm" where
  "throwE e = (\<lambda>s. (Inl e, s))"

definition bindE :: "('s, 'e, 'a) sm \<Rightarrow> ('a \<Rightarrow> ('s, 'e, 'b) sm) \<Rightarrow> ('s, 'e, 'b) sm" where
  "bindE m f = (\<lambda>s. case m s of (Inl e, s') \<Rightarrow> (Inl e, s') | (Inr x, s') \<Rightarrow> f x s')"

definition thenE :: "('s, 'e, unit) sm \<Rightarrow> ('s, 'e, 'b) sm \<Rightarrow> ('s, 'e, 'b) sm" where
  "thenE m n = bindE m (\<lambda>_. n)"

definition ensureE :: "bool \<Rightarrow> 'e \<Rightarrow> ('s, 'e, unit) sm" where
  "ensureE b e = (if b then returnE () else throwE e)"

definition modifyE :: "('s \<Rightarrow> 's) \<Rightarrow> ('s, 'e, unit) sm" where
  "modifyE f = (\<lambda>s. (Inr (), f s))"

definition liftE :: "'e + 'a \<Rightarrow> ('s, 'e, 'a) sm" where
  "liftE r = (\<lambda>s. (r, s))"

text \<open>\<open>okE m d\<close> is Rust's \<open>m.unwrap_or(d)\<close>: the error is dropped, the state is kept.\<close>

definition okE :: "('s, 'e, 'a) sm \<Rightarrow> 'a \<Rightarrow> ('s, 'e, 'a) sm" where
  "okE m d = (\<lambda>s. case m s of (Inl _, s') \<Rightarrow> (Inr d, s') | (Inr x, s') \<Rightarrow> (Inr x, s'))"

fun repeatE :: "nat \<Rightarrow> ('s, 'e, 'a) sm \<Rightarrow> ('s, 'e, 'a list) sm" where
  "repeatE 0 m = returnE []"
| "repeatE (Suc n) m = bindE m (\<lambda>x. bindE (repeatE n m) (\<lambda>xs. returnE (x # xs)))"

fun foreachE :: "('a \<Rightarrow> ('s, 'e, unit) sm) \<Rightarrow> 'a list \<Rightarrow> ('s, 'e, unit) sm" where
  "foreachE f [] = returnE ()"
| "foreachE f (x # xs) = thenE (f x) (foreachE f xs)"

lemma returnE_apply [monad_simps]: "returnE x s = (Inr x, s)"
  by (simp add: returnE_def)

lemma throwE_apply [monad_simps]: "throwE e s = (Inl e, s)"
  by (simp add: throwE_def)

lemma modifyE_apply [monad_simps]: "modifyE f s = (Inr (), f s)"
  by (simp add: modifyE_def)

lemma liftE_apply [monad_simps]: "liftE r s = (r, s)"
  by (simp add: liftE_def)

lemma ensureE_apply [monad_simps]: "ensureE b e s = (if b then (Inr (), s) else (Inl e, s))"
  by (simp add: ensureE_def monad_simps)

lemma bindE_ok: "m s = (Inr x, s') \<Longrightarrow> bindE m f s = f x s'"
  by (simp add: bindE_def)

lemma bindE_err: "m s = (Inl e, s') \<Longrightarrow> bindE m f s = (Inl e, s')"
  by (simp add: bindE_def)

lemma thenE_ok: "m s = (Inr (), s') \<Longrightarrow> thenE m n s = n s'"
  by (simp add: thenE_def bindE_def)

lemma thenE_err: "m s = (Inl e, s') \<Longrightarrow> thenE m n s = (Inl e, s')"
  by (simp add: thenE_def bindE_def)

lemma bindE_return [monad_simps]: "bindE (returnE x) f s = f x s"
  by (simp add: bindE_ok monad_simps)

lemma bindE_throw [monad_simps]: "bindE (throwE e) f s = (Inl e, s)"
  by (simp add: bindE_err monad_simps)

lemma bindE_lift_ok [monad_simps]: "bindE (liftE (Inr x)) f s = f x s"
  by (simp add: bindE_ok monad_simps)

lemma bindE_lift_err [monad_simps]: "bindE (liftE (Inl e)) f s = (Inl e, s)"
  by (simp add: bindE_err monad_simps)

lemma thenE_modify [monad_simps]: "thenE (modifyE f) n s = n (f s)"
  by (simp add: thenE_ok monad_simps)

lemma thenE_ensure [monad_simps]:
  "thenE (ensureE b e) n s = (if b then n s else (Inl e, s))"
  by (simp add: thenE_ok thenE_err monad_simps)

lemma bindE_cases:
  obtains (err) e s' where "m s = (Inl e, s')" "bindE m f s = (Inl e, s')"
  | (ok) x s' where "m s = (Inr x, s')" "bindE m f s = f x s'"
proof (cases "m s")
  case (Pair r s')
  then show thesis by (cases r) (auto intro: that simp: bindE_def)
qed

lemma bindE_Inr_E:
  assumes "bindE m f s = (Inr y, s'')"
  obtains x s' where "m s = (Inr x, s')" "f x s' = (Inr y, s'')"
  using assms by (auto simp: bindE_def split: prod.splits sum.splits)

lemma thenE_Inr_E:
  assumes "thenE m n s = (Inr y, s'')"
  obtains s' where "m s = (Inr (), s')" "n s' = (Inr y, s'')"
  using assms by (auto simp: thenE_def elim: bindE_Inr_E)

lemma okE_ok: "m s = (Inr x, s') \<Longrightarrow> okE m d s = (Inr x, s')"
  by (simp add: okE_def)

lemma okE_err: "m s = (Inl e, s') \<Longrightarrow> okE m d s = (Inr d, s')"
  by (simp add: okE_def)

text \<open>A property of the state that the steps of a computation keep.\<close>

definition keepsE :: "('s \<Rightarrow> bool) \<Rightarrow> ('s, 'e, 'a) sm \<Rightarrow> bool" where
  "keepsE P m \<longleftrightarrow> (\<forall>s. P s \<longrightarrow> P (snd (m s)))"

lemma keepsE_I [intro?]: "(\<And>s. P s \<Longrightarrow> P (snd (m s))) \<Longrightarrow> keepsE P m"
  by (simp add: keepsE_def)

lemma keepsE_D: "keepsE P m \<Longrightarrow> P s \<Longrightarrow> P (snd (m s))"
  by (simp add: keepsE_def)

lemma keepsE_return [simp, intro]: "keepsE P (returnE x)"
  by (simp add: keepsE_def monad_simps)

lemma keepsE_throw [simp, intro]: "keepsE P (throwE e)"
  by (simp add: keepsE_def monad_simps)

lemma keepsE_ensure [simp, intro]: "keepsE P (ensureE b e)"
  by (simp add: keepsE_def monad_simps)

lemma keepsE_lift [simp, intro]: "keepsE P (liftE r)"
  by (simp add: keepsE_def monad_simps)

lemma keepsE_bind [intro]:
  assumes "keepsE P m" and "\<And>x. keepsE P (f x)"
  shows "keepsE P (bindE m f)"
proof
  fix s assume s: "P s"
  show "P (snd (bindE m f s))"
  proof (cases rule: bindE_cases [of m s f])
    case (err e s')
    then show ?thesis using keepsE_D [OF assms(1) s] by simp
  next
    case (ok x s')
    then show ?thesis using keepsE_D [OF assms(1) s] keepsE_D [OF assms(2)] by simp
  qed
qed

lemma keepsE_then [intro]: "keepsE P m \<Longrightarrow> keepsE P n \<Longrightarrow> keepsE P (thenE m n)"
  by (auto simp: thenE_def)

lemma keepsE_ok [intro]: "keepsE P m \<Longrightarrow> keepsE P (okE m d)"
  by (auto simp: keepsE_def okE_def split: prod.splits sum.splits)

lemma keepsE_repeat [intro]: "keepsE P m \<Longrightarrow> keepsE P (repeatE n m)"
  by (induction n) auto

section \<open>Bytes and bits\<close>

text \<open>The bits of a byte, least significant first: the order in which the bit mode of the wire
  format lists them.\<close>

definition bits_of :: "u8 \<Rightarrow> bool list" where
  "bits_of b = map (bit b) [0..<8]"

definition byte_of :: "bool list \<Rightarrow> u8" where
  "byte_of xs = horner_sum of_bool 2 xs"

definition bytes_bits :: "bytes \<Rightarrow> bool list" where
  "bytes_bits bs = concat (map bits_of bs)"

function pack :: "bool list \<Rightarrow> bytes" where
  "pack xs = (if xs = [] then [] else byte_of (take 8 xs) # pack (drop 8 xs))"
  by pat_completeness auto
termination by (relation "measure length") auto

declare pack.simps [simp del]

lemma pack_Nil [simp]: "pack [] = []"
  by (simp add: pack.simps)

lemma pack_step: "xs \<noteq> [] \<Longrightarrow> pack xs = byte_of (take 8 xs) # pack (drop 8 xs)"
  by (simp add: pack.simps)

lemma length_bits_of [simp]: "length (bits_of b) = 8"
  by (simp add: bits_of_def)

lemma nth_bits_of [simp]: "i < 8 \<Longrightarrow> bits_of b ! i = bit b i"
  by (simp add: bits_of_def)

lemma bit_byte_of [bit_facts]: "bit (byte_of xs) i \<longleftrightarrow> i < 8 \<and> i < length xs \<and> xs ! i"
  by (auto simp: byte_of_def bit_horner_sum_bit_word_iff)

lemma bit_u8_less: "bit (b :: u8) i \<Longrightarrow> i < 8"
  using bit_imp_le_length by fastforce

lemma byte_of_bits_of [simp]: "byte_of (bits_of b) = b"
  by (rule bit_word_eqI) (auto simp: bit_facts)

lemma bits_of_byte_of: "length xs = 8 \<Longrightarrow> bits_of (byte_of xs) = xs"
  by (rule nth_equalityI) (auto simp: bit_facts)

lemma bytes_bits_Nil [simp]: "bytes_bits [] = []"
  by (simp add: bytes_bits_def)

lemma bytes_bits_Cons [simp]: "bytes_bits (b # bs) = bits_of b @ bytes_bits bs"
  by (simp add: bytes_bits_def)

lemma bytes_bits_append [simp]: "bytes_bits (as @ bs) = bytes_bits as @ bytes_bits bs"
  by (simp add: bytes_bits_def)

lemma length_bytes_bits [simp]: "length (bytes_bits bs) = 8 * length bs"
  by (induction bs) auto

lemma bits_of_not_Nil [simp]: "bits_of b \<noteq> []"
  by (metis length_bits_of list.size(3) zero_neq_numeral)

lemma bytes_bits_eq_Nil [simp]: "bytes_bits bs = [] \<longleftrightarrow> bs = []"
  by (cases bs) auto

lemma pack_bits_append: "pack (bits_of b @ xs) = b # pack xs"
  by (simp add: pack_step)

lemma pack_bytes_bits [simp]: "pack (bytes_bits bs) = bs"
  by (induction bs) (auto simp: pack_bits_append)

lemma take_bytes_bits: "take (8 * n) (bytes_bits bs) = bytes_bits (take n bs)"
proof (induction bs arbitrary: n)
  case (Cons b bs)
  then show ?case by (cases n) auto
qed simp

lemma drop_bytes_bits: "drop (8 * n) (bytes_bits bs) = bytes_bits (drop n bs)"
proof (induction bs arbitrary: n)
  case (Cons b bs)
  then show ?case by (cases n) auto
qed simp

lemma nth_bytes_bits: "i < 8 * length bs \<Longrightarrow> bytes_bits bs ! i = bit (bs ! (i div 8)) (i mod 8)"
proof (induction bs arbitrary: i)
  case (Cons b bs)
  show ?case
  proof (cases "i < 8")
    case False
    then obtain j where j: "i = 8 + j" using le_Suc_ex by (metis not_le)
    moreover have "(8 + j) div 8 = Suc (j div 8)" by simp
    ultimately show ?thesis using Cons.prems Cons.IH [of j] by (simp add: nth_append)
  qed (simp add: nth_append)
qed simp

lemma bytes_bits_pack: "8 dvd length xs \<Longrightarrow> bytes_bits (pack xs) = xs"
proof (induction xs rule: pack.induct)
  case (1 xs)
  show ?case
  proof (cases "xs = []")
    case False
    with "1.prems" have "8 \<le> length xs" by (metis dvd_imp_le length_greater_0_conv)
    with "1.IH" "1.prems" False show ?thesis
      by (simp add: pack_step bits_of_byte_of)
  qed simp
qed

lemma length_pack: "length (pack xs) = (length xs + 7) div 8"
proof (induction xs rule: pack.induct)
  case (1 xs)
  show ?case
  proof (cases "xs = []")
    case False
    then obtain n where n: "length xs = Suc n" by (cases xs) auto
    have "Suc ((Suc n - 8 + 7) div 8) = (Suc n + 7) div 8"
    proof (cases "n < 7")
      case False
      then obtain k where "n = 7 + k" using le_Suc_ex by (metis not_le)
      then show ?thesis by simp
    qed simp
    with "1.IH" [OF False] False n show ?thesis
      by (simp add: pack_step)
  qed simp
qed

section \<open>Little-endian integers\<close>

definition to_le :: "'a::len word \<Rightarrow> bytes" where
  "to_le w = map (\<lambda>i. ucast (drop_bit (8 * i) w)) [0..<LENGTH('a) div 8]"

fun from_le :: "bytes \<Rightarrow> 'a::len word" where
  "from_le [] = 0"
| "from_le (b # bs) = ucast b OR push_bit 8 (from_le bs)"

lemma length_to_le [simp]: "length (to_le (w :: 'a::len word)) = LENGTH('a) div 8"
  by (simp add: to_le_def)

lemma bit_from_le [bit_facts]:
  "bit (from_le bs :: 'a::len word) i \<longleftrightarrow>
     i < LENGTH('a) \<and> i < 8 * length bs \<and> bit (bs ! (i div 8)) (i mod 8)"
proof (induction bs arbitrary: i)
  case (Cons b bs)
  show ?case
  proof (cases "i < 8")
    case True
    then show ?thesis by (auto simp: bit_simps)
  next
    case False
    then obtain j where j: "i = 8 + j" using le_Suc_ex by (metis not_le)
    then have "\<not> bit b i" using False bit_u8_less by blast
    moreover have "(8 + j) div 8 = Suc (j div 8)" by simp
    ultimately show ?thesis using j Cons.IH [of j] by (auto simp: bit_simps)
  qed
qed simp

lemma bytes_bits_to_le [bit_facts]:
  assumes "8 dvd LENGTH('a)"
  shows "bytes_bits (to_le (w :: 'a::len word)) = map (bit w) [0..<LENGTH('a)]"
proof (rule nth_equalityI)
  show len: "length (bytes_bits (to_le w)) = length (map (bit w) [0..<LENGTH('a)])"
    using assms by simp
  fix i assume "i < length (bytes_bits (to_le w))"
  then have i: "i < LENGTH('a)" using len by simp
  have "i div 8 < LENGTH('a) div 8" using i assms by (auto elim!: dvdE)
  with i assms show "bytes_bits (to_le w) ! i = map (bit w) [0..<LENGTH('a)] ! i"
    by (simp add: nth_bytes_bits to_le_def bit_simps)
qed

lemma from_le_to_le [simp]:
  assumes "8 dvd LENGTH('a)"
  shows "from_le (to_le (w :: 'a::len word)) = w"
proof (rule bit_word_eqI)
  fix i assume i: "i < LENGTH('a)"
  then have "i div 8 < LENGTH('a) div 8" using assms by (auto elim!: dvdE)
  with i assms show "bit (from_le (to_le w) :: 'a word) i = bit w i"
    by (simp add: bit_facts to_le_def bit_simps)
qed

lemma to_le_from_le:
  assumes "LENGTH('a) = 8 * length bs"
  shows "to_le (from_le bs :: 'a::len word) = bs"
proof (rule nth_equalityI)
  show "length (to_le (from_le bs :: 'a word)) = length bs" using assms by simp
  fix k assume "k < length (to_le (from_le bs :: 'a word))"
  then have k: "k < length bs" using assms by simp
  show "to_le (from_le bs :: 'a word) ! k = bs ! k"
  proof (rule bit_word_eqI)
    fix i assume i: "i < LENGTH(8)"
    have "8 * k + i < 8 * length bs" using k i by simp
    with k i assms show "bit (to_le (from_le bs :: 'a word) ! k) i = bit (bs ! k) i"
      by (simp add: to_le_def bit_simps bit_facts)
  qed
qed

lemma fold_max_upper: "y \<in> set ys \<Longrightarrow> y \<le> fold max ys z" for y z :: nat
proof (induction ys arbitrary: z)
  case (Cons x xs)
  have "z \<le> fold max xs z" for z :: nat
    by (induction xs arbitrary: z) (simp, metis fold_simps(2) max.bounded_iff le_refl)
  then show ?case using Cons by (metis fold_simps(2) max.bounded_iff set_ConsD)
qed simp

text \<open>The row of a table that a query finds, when only one answers it.\<close>

lemma find_only:
  assumes "x \<in> set xs" "P x" "\<And>y. y \<in> set xs \<Longrightarrow> P y \<Longrightarrow> y = x"
  shows "List.find P xs = Some x"
proof (cases "List.find P xs")
  case None
  then show ?thesis using assms(1,2) by (auto simp: find_None_iff)
next
  case (Some y)
  then have "y \<in> set xs" "P y" by (auto simp: find_Some_iff in_set_conv_nth)
  then show ?thesis using Some assms(3) by simp
qed

end
