(* ===== verification/DataType.thy ===== *)
theory DataType
  imports Prelude
begin

text \<open>
  The type tags of the wire format (libbitdemon/src/messaging/bd_data_type.rs) and the two
  framings of a stream (StreamMode in libbitdemon/src/messaging/mod.rs).

  A tag is a data type and an array flag; it travels as one byte, in which 100 is added for
  an array, or as five bits when the stream is in bit mode.
\<close>

datatype StreamMode = BitMode | ByteMode

datatype BdDataType =
    NoType | BoolType | SignedChar8Type | UnsignedChar8Type | WChar16Type
  | SignedInteger16Type | UnsignedInteger16Type | SignedInteger32Type | UnsignedInteger32Type
  | SignedInteger64Type | UnsignedInteger64Type | RangedSignedInteger32Type
  | RangedUnsignedInteger32Type | Float32Type | Float64Type | RangedFloat32Type
  | SignedChar8StringType | UnsignedChar8StringType | MbStringType | BlobType | NanType
  | FullType | MaxType

text \<open>The discriminants, and the two conversions that the crate num-traits derives from them.\<close>

fun data_type_to_u8 :: "BdDataType \<Rightarrow> u8" where
  "data_type_to_u8 NoType = 0x0"
| "data_type_to_u8 BoolType = 0x1"
| "data_type_to_u8 SignedChar8Type = 0x2"
| "data_type_to_u8 UnsignedChar8Type = 0x3"
| "data_type_to_u8 WChar16Type = 0x4"
| "data_type_to_u8 SignedInteger16Type = 0x5"
| "data_type_to_u8 UnsignedInteger16Type = 0x6"
| "data_type_to_u8 SignedInteger32Type = 0x7"
| "data_type_to_u8 UnsignedInteger32Type = 0x8"
| "data_type_to_u8 SignedInteger64Type = 0x9"
| "data_type_to_u8 UnsignedInteger64Type = 0xA"
| "data_type_to_u8 RangedSignedInteger32Type = 0xB"
| "data_type_to_u8 RangedUnsignedInteger32Type = 0xC"
| "data_type_to_u8 Float32Type = 0xD"
| "data_type_to_u8 Float64Type = 0xE"
| "data_type_to_u8 RangedFloat32Type = 0xF"
| "data_type_to_u8 SignedChar8StringType = 0x10"
| "data_type_to_u8 UnsignedChar8StringType = 0x11"
| "data_type_to_u8 MbStringType = 0x12"
| "data_type_to_u8 BlobType = 0x13"
| "data_type_to_u8 NanType = 0x14"
| "data_type_to_u8 FullType = 0x15"
| "data_type_to_u8 MaxType = 0x20"

definition all_data_types :: "BdDataType list" where
  "all_data_types =
    [NoType, BoolType, SignedChar8Type, UnsignedChar8Type, WChar16Type, SignedInteger16Type,
     UnsignedInteger16Type, SignedInteger32Type, UnsignedInteger32Type, SignedInteger64Type,
     UnsignedInteger64Type, RangedSignedInteger32Type, RangedUnsignedInteger32Type,
     Float32Type, Float64Type, RangedFloat32Type, SignedChar8StringType,
     UnsignedChar8StringType, MbStringType, BlobType, NanType, FullType, MaxType]"

definition data_type_from_u8 :: "u8 \<Rightarrow> BdDataType option" where
  "data_type_from_u8 v = List.find (\<lambda>t. data_type_to_u8 t = v) all_data_types"

record BufferDataType =
  primitive_type :: BdDataType
  is_array :: bool

definition no_array :: "BdDataType \<Rightarrow> BufferDataType" where
  "no_array t = \<lparr>primitive_type = t, is_array = False\<rparr>"

definition array :: "BdDataType \<Rightarrow> BufferDataType" where
  "array t = \<lparr>primitive_type = t, is_array = True\<rparr>"

definition eq_non_array :: "BufferDataType \<Rightarrow> BdDataType \<Rightarrow> bool" where
  "eq_non_array b t \<longleftrightarrow> \<not> is_array b \<and> primitive_type b = t"

definition eq_array :: "BufferDataType \<Rightarrow> BdDataType \<Rightarrow> bool" where
  "eq_array b t \<longleftrightarrow> is_array b \<and> primitive_type b = t"

definition ARRAY_TYPE_OFFSET :: u8 where
  "ARRAY_TYPE_OFFSET = 100"

text \<open>\<open>from_value\<close> rejects a value that is no data type; the rejected value is the error's.\<close>

definition from_value :: "u8 \<Rightarrow> u8 + BufferDataType" where
  "from_value v =
    (let arr = ARRAY_TYPE_OFFSET \<le> v;
         non_array_value = (if arr then v - ARRAY_TYPE_OFFSET else v)
     in case data_type_from_u8 non_array_value of
          None \<Rightarrow> Inl v
        | Some t \<Rightarrow> Inr \<lparr>primitive_type = t, is_array = arr\<rparr>)"

definition to_value :: "BufferDataType \<Rightarrow> u8" where
  "to_value b =
    (let value = data_type_to_u8 (primitive_type b)
     in if is_array b then value + ARRAY_TYPE_OFFSET else value)"

section \<open>The tags survive the wire\<close>

lemma all_data_types_complete: "t \<in> set all_data_types"
  by (cases t) (simp_all add: all_data_types_def)

lemma from_u8_to_u8 [simp]: "data_type_from_u8 (data_type_to_u8 t) = Some t"
  by (cases t) (simp_all add: data_type_from_u8_def all_data_types_def)

lemma data_type_to_u8_inject [simp]: "data_type_to_u8 s = data_type_to_u8 t \<longleftrightarrow> s = t"
  by (metis from_u8_to_u8 option.inject)

lemma to_u8_from_u8: "data_type_from_u8 v = Some t \<Longrightarrow> data_type_to_u8 t = v"
  by (auto simp: data_type_from_u8_def find_Some_iff)

lemma data_type_to_u8_le: "data_type_to_u8 t \<le> 0x20"
  by (cases t) simp_all

lemma to_value_no_array [simp]: "to_value (no_array t) = data_type_to_u8 t"
  by (simp add: to_value_def no_array_def)

lemma eq_non_array_no_array [simp]: "eq_non_array (no_array s) t \<longleftrightarrow> s = t"
  by (simp add: eq_non_array_def no_array_def)

lemma eq_non_array_iff: "eq_non_array b t \<longleftrightarrow> b = no_array t"
  by (cases b) (auto simp: eq_non_array_def no_array_def)

lemma eq_array_iff: "eq_array b t \<longleftrightarrow> b = array t"
  by (cases b) (auto simp: eq_array_def array_def)

lemma from_value_to_value: "from_value (to_value b) = Inr b"
proof (cases b)
  case (fields t a)
  then show ?thesis
    by (cases t; cases a)
      (simp_all add: from_value_def to_value_def Let_def ARRAY_TYPE_OFFSET_def
        data_type_from_u8_def all_data_types_def word_le_nat_alt)
qed

lemma to_value_from_value: "from_value v = Inr b \<Longrightarrow> to_value b = v"
  by (auto simp: from_value_def to_value_def Let_def to_u8_from_u8 ARRAY_TYPE_OFFSET_def
      split: option.splits if_splits)

text \<open>Five bits hold every tag that is no array and is not \<open>MaxType\<close>, and no other tag.\<close>

lemma to_value_five_bits: "to_value b < 32 \<longleftrightarrow> \<not> is_array b \<and> primitive_type b \<noteq> MaxType"
proof (cases b)
  case (fields t a)
  then show ?thesis
    by (cases t; cases a) (simp_all add: to_value_def ARRAY_TYPE_OFFSET_def)
qed

text \<open>
  The type tags round-trip: \<open>from_value\<close> accepts a byte as a tag exactly when the tag is
  written as that byte, so a tag read is the tag written, no byte has two readings, and a
  byte that is rejected is the byte of no tag. In bit mode a tag has five bits; these hold
  exactly the tags of the values, and cut every array tag and \<open>MaxType\<close>.
\<close>

theorem data_type_roundtrip:
  "(from_value v = Inr b) = (to_value b = v)
    \<and> (to_value b < 32) = (\<not> is_array b \<and> primitive_type b \<noteq> MaxType)"
  using from_value_to_value [of b] to_value_from_value [of v b] to_value_five_bits [of b] by auto

end
