(* ===== verification/Errors.thy ===== *)
theory Errors
  imports DataType
begin

text \<open>
  The titles (libbitdemon/src/domain/title.rs) and the errors. The code boxes every error as
  \<open>Box<dyn Error>\<close>; here they are one datatype, a constructor for each variant of an error
  enumeration of the modelled modules, with the fields the source gives it. \<open>Panic\<close> stands
  for a panic (integer overflow, a failed debug assertion, an index out of range, an unwrap
  of an error), \<open>Diverges\<close> for a loop that does not end, and \<open>IoUnexpectedEof\<close> and \<open>Utf8Error\<close> for the errors of the standard library
  that the code passes on.
\<close>

datatype Title = Iw4 | Iw5 | T5 | T6Xenon | T6Ps3 | T6Pc | T6WiiU

fun title_to_u32 :: "Title \<Rightarrow> u32" where
  "title_to_u32 Iw4 = 2010"
| "title_to_u32 Iw5 = 18409"
| "title_to_u32 T5 = 18301"
| "title_to_u32 T6Xenon = 18395"
| "title_to_u32 T6Ps3 = 18396"
| "title_to_u32 T6Pc = 18397"
| "title_to_u32 T6WiiU = 18480"

definition title_from_u32 :: "u32 \<Rightarrow> Title option" where
  "title_from_u32 v =
    List.find (\<lambda>t. title_to_u32 t = v) [Iw4, Iw5, T5, T6Xenon, T6Ps3, T6Pc, T6WiiU]"

lemma title_from_to_u32 [simp]: "title_from_u32 (title_to_u32 t) = Some t"
  by (cases t) (simp_all add: title_from_u32_def)

lemma title_to_from_u32: "title_from_u32 v = Some t \<Longrightarrow> title_to_u32 t = v"
  by (auto simp: title_from_u32_def split: if_splits)

lemma title_to_u32_inject [simp]: "title_to_u32 s = title_to_u32 t \<longleftrightarrow> s = t"
  by (metis title_from_to_u32 option.inject)

datatype bd_error =
    Panic
  | Diverges
  | IoUnexpectedEof
  | Utf8Error
  | IllegalDataTypeError u8
  | UnexpectedDataType BufferDataType BufferDataType
  | ModeError StreamMode StreamMode
  | UnexpectedEndOfMessage
  | NoSessionKeyError
  | TruncatedMessageError nat
  | InvalidHmacError u32 u32
  | DecryptionError
  | BufferSizeError
  | MessageTooLargeError u32
  | IncompleteMessageHeaderError
  | IllegalServiceIdError u8
  | IllegalMessageTypeError u8
  | UnknownTitleError u32
  | InvalidTitleError Title Title
  | AuthenticationExpiredError i64 i64
  | UnknownKeyError
  | RequestDataTooLongError nat
  | SignatureMismatchError u32 u32
  | UnexpectedSecretLengthError nat nat
  | UsernameTooLongError nat
  | TicketUsernameTooLongError nat nat
  | MalformedAdvertisementError nat nat nat
  | InvalidVoteError u8
  | InvalidUpdateTypeError u8
  | InvalidOrderTypeError u8
  | SendError

text \<open>Checked arithmetic on unsigned machine integers: overflow is a panic.\<close>

definition checked_add :: "'a::len word \<Rightarrow> 'a word \<Rightarrow> bd_error + 'a word" where
  "checked_add a b = (if unat a + unat b < 2 ^ LENGTH('a) then Inr (a + b) else Inl Panic)"

definition checked_sub :: "'a::len word \<Rightarrow> 'a word \<Rightarrow> bd_error + 'a word" where
  "checked_sub a b = (if b \<le> a then Inr (a - b) else Inl Panic)"

text \<open>Checked arithmetic on signed machine integers.\<close>

definition fits_signed :: "'a::len itself \<Rightarrow> int \<Rightarrow> bool" where
  "fits_signed _ x \<longleftrightarrow> - (2 ^ (LENGTH('a) - 1)) \<le> x \<and> x < 2 ^ (LENGTH('a) - 1)"

definition checked_sadd :: "'a::len word \<Rightarrow> 'a word \<Rightarrow> bd_error + 'a word" where
  "checked_sadd a b =
    (if fits_signed TYPE('a) (sint a + sint b) then Inr (a + b) else Inl Panic)"

definition checked_ssub :: "'a::len word \<Rightarrow> 'a word \<Rightarrow> bd_error + 'a word" where
  "checked_ssub a b =
    (if fits_signed TYPE('a) (sint a - sint b) then Inr (a - b) else Inl Panic)"

end
