(* ===== verification/Reader.thy ===== *)
theory Reader
  imports Errors
begin

text \<open>
  The reader of messages (libbitdemon/src/messaging/bd_reader.rs): a cursor over the bytes of
  a message with a bit mode beside it. In bit mode the low-order bits of \<open>r_last_byte\<close> that lie
  below \<open>r_bit_offset\<close> have been consumed and the rest of them come next, then the bits of the
  bytes from the cursor on. A type-checked stream has a data type in front of every value,
  and \<open>next_data_type\<close> may have read it ahead into the cache.

  The operations return the reader as they leave it, on errors too. \<open>Cursor::read_exact\<close>
  moves the cursor to the end when the bytes do not suffice, as the standard library does
  since Rust 1.80; \<open>Cursor::read\<close> copies as many bytes as there are.
\<close>

record reader =
  r_buf :: bytes
  r_pos :: nat
  r_bit_offset :: nat
  r_last_byte :: u8
  r_has_data_type_cached :: bool
  r_cached_data_type :: BufferDataType
  r_mode :: StreamMode
  r_type_checked :: bool

type_synonym 'a rd = "(reader, bd_error, 'a) sm"

definition reader_new :: "bytes \<Rightarrow> reader" where
  "reader_new b =
    \<lparr>r_buf = b, r_pos = 0, r_bit_offset = 8, r_last_byte = 0, r_has_data_type_cached = False,
     r_cached_data_type = no_array NoType, r_mode = ByteMode, r_type_checked = False\<rparr>"

definition reader_set_mode :: "StreamMode \<Rightarrow> reader \<Rightarrow> reader" where
  "reader_set_mode m r = r\<lparr>r_mode := m\<rparr>"

definition reader_set_type_checked :: "bool \<Rightarrow> reader \<Rightarrow> reader" where
  "reader_set_type_checked b r = r\<lparr>r_type_checked := b\<rparr>"

section \<open>The standard library: UTF-8 and the cursor\<close>

text \<open>A Rust string is a sequence of bytes that is valid UTF-8. \<open>utf8_char_len\<close> is the number of
  bytes of the encoded character in front, 0 when there is none; surrogates, overlong forms
  and values above U+10FFFF are no characters.\<close>

definition utf8_cont :: "u8 \<Rightarrow> bool" where
  "utf8_cont b \<longleftrightarrow> 0x80 \<le> b \<and> b \<le> 0xBF"

definition utf8_char_len :: "bytes \<Rightarrow> nat" where
  "utf8_char_len bs = (case bs of
     [] \<Rightarrow> 0
   | a # bs1 \<Rightarrow> if a < 0x80 then 1 else (case bs1 of
       [] \<Rightarrow> 0
     | b # bs2 \<Rightarrow> if 0xC2 \<le> a \<and> a \<le> 0xDF then (if utf8_cont b then 2 else 0) else (case bs2 of
         [] \<Rightarrow> 0
       | c # bs3 \<Rightarrow>
           if 0xE0 \<le> a \<and> a \<le> 0xEF then
             (if (if a = 0xE0 then 0xA0 \<le> b \<and> b \<le> 0xBF
                  else if a = 0xED then 0x80 \<le> b \<and> b \<le> 0x9F else utf8_cont b) \<and> utf8_cont c
              then 3 else 0)
           else (case bs3 of
             [] \<Rightarrow> 0
           | d # _ \<Rightarrow>
               if 0xF0 \<le> a \<and> a \<le> 0xF4
                  \<and> (if a = 0xF0 then 0x90 \<le> b \<and> b \<le> 0xBF
                      else if a = 0xF4 then 0x80 \<le> b \<and> b \<le> 0x8F else utf8_cont b)
                  \<and> utf8_cont c \<and> utf8_cont d
               then 4 else 0))))"

function utf8_valid :: "bytes \<Rightarrow> bool" where
  "utf8_valid bs =
    (if bs = [] then True
     else if utf8_char_len bs = 0 then False
     else utf8_valid (drop (utf8_char_len bs) bs))"
  by pat_completeness auto
termination by (relation "measure length") auto

declare utf8_valid.simps [simp del]

definition cursor_rest :: "reader \<Rightarrow> bytes" where
  "cursor_rest r = drop (r_pos r) (r_buf r)"

definition cursor_read_exact :: "nat \<Rightarrow> bytes rd" where
  "cursor_read_exact n = (\<lambda>r.
    if n \<le> length (cursor_rest r)
    then (Inr (take n (cursor_rest r)), r\<lparr>r_pos := r_pos r + n\<rparr>)
    else (Inl IoUnexpectedEof, r\<lparr>r_pos := length (r_buf r)\<rparr>))"

definition cursor_read_u8 :: "u8 rd" where
  "cursor_read_u8 = bindE (cursor_read_exact 1) (\<lambda>bs. returnE (hd bs))"

definition cursor_read_u32 :: "u32 rd" where
  "cursor_read_u32 = bindE (cursor_read_exact 4) (\<lambda>bs. returnE (from_le bs))"

text \<open>\<open>read\<close> into a buffer of \<open>n\<close> bytes: what was there, at most \<open>n\<close> bytes of it.\<close>

definition cursor_read :: "nat \<Rightarrow> bytes rd" where
  "cursor_read n = (\<lambda>r.
    let got = take n (cursor_rest r)
    in (Inr got, r\<lparr>r_pos := r_pos r + length got\<rparr>))"

text \<open>\<open>read_until\<close>: the bytes to the first delimiter, the delimiter included when there is one.\<close>

definition until_inclusive :: "u8 \<Rightarrow> bytes \<Rightarrow> bytes" where
  "until_inclusive d bs =
    (let pre = takeWhile (\<lambda>b. b \<noteq> d) bs
     in if length pre < length bs then pre @ [d] else pre)"

definition cursor_read_until :: "u8 \<Rightarrow> bytes rd" where
  "cursor_read_until d = (\<lambda>r.
    let got = until_inclusive d (cursor_rest r)
    in (Inr got, r\<lparr>r_pos := r_pos r + length got\<rparr>))"

section \<open>Bits\<close>

text \<open>
  One turn of the loop of \<open>read_bits\<close>: the byte that \<open>bits_left\<close> calls for with the number of
  valid bits in it, then the byte that is stored and the bits that are left. The offset lies
  between 1 and 8 at all times, so no shift distance exceeds 7 and no subtraction wraps.
\<close>

definition read_bits_fetch :: "nat \<Rightarrow> (u8 \<times> nat) rd" where
  "read_bits_fetch bits_left = (\<lambda>r.
    let in_byte = r_last_byte r; off = r_bit_offset r
    in if bits_left > 8 - off
       then bindE cursor_read_u8 (\<lambda>in_byte2 r'.
         (Inr ((if off < 8 then drop_bit off in_byte else 0) OR push_bit (8 - off) in_byte2, 8),
          r'\<lparr>r_last_byte := in_byte2\<rparr>)) r
       else (Inr (drop_bit off in_byte, 8 - off), r))"

definition read_bits_step :: "nat \<Rightarrow> (u8 \<times> nat) rd" where
  "read_bits_step bits_left = bindE (read_bits_fetch bits_left) (\<lambda>(out_byte, max_read_bits) r.
    if bits_left \<ge> 8 then (Inr (out_byte, bits_left - max_read_bits), r)
    else
      (let read_bits = min bits_left max_read_bits;
           off = r_bit_offset r + read_bits
       in (Inr (out_byte AND drop_bit (8 - read_bits) 0xFF, bits_left - read_bits),
           r\<lparr>r_bit_offset := (if off > 8 then off - 8 else off)\<rparr>)))"

lemma read_bits_step_decreases:
  assumes "read_bits_step n r = (Inr (b, left), r')" and "0 < n"
  shows "left < n"
  using assms
  by (auto simp: read_bits_step_def read_bits_fetch_def Let_def bindE_def
      split: if_splits prod.splits sum.splits)

text \<open>The loop. \<open>read_bits_step\<close> consumes a bit at least, which the guard makes evident: an index
  beyond the destination is a panic.\<close>

function read_bits_loop :: "nat \<Rightarrow> nat \<Rightarrow> bytes \<Rightarrow> bytes rd" where
  "read_bits_loop bits_left dest_offset buf r =
    (if bits_left = 0 then (Inr buf, r)
     else case read_bits_step bits_left r of
       (Inl e, r') \<Rightarrow> (Inl e, r')
     | (Inr (out_byte, left), r') \<Rightarrow>
         if dest_offset < length buf
         then read_bits_loop left (dest_offset + 1) (buf[dest_offset := out_byte]) r'
         else (Inl Panic, r'))"
  by pat_completeness auto

termination
  by (relation "measure fst") (auto dest: read_bits_step_decreases [OF sym])

declare read_bits_loop.simps [simp del]

definition read_bits :: "bytes \<Rightarrow> nat \<Rightarrow> bytes rd" where
  "read_bits buf count =
    thenE (ensureE (count \<le> length buf * 8) Panic)
      (\<lambda>r. if r_mode r \<noteq> BitMode then (Inl (ModeError BitMode (r_mode r)), r)
           else read_bits_loop count 0 buf r)"

definition read_bytes :: "nat \<Rightarrow> bytes rd" where
  "read_bytes n = (\<lambda>r.
    if r_mode r = BitMode then read_bits (replicate n 0) (n * 8) r
    else bindE (cursor_read n)
           (\<lambda>got. thenE (ensureE (length got = n) UnexpectedEndOfMessage) (returnE got)) r)"

definition read_type_checked_bit :: "unit rd" where
  "read_type_checked_bit = (\<lambda>r.
    if r_mode r \<noteq> BitMode then (Inl (ModeError BitMode (r_mode r)), r)
    else bindE (read_bits [0] 1)
           (\<lambda>buf. modifyE (\<lambda>r. r\<lparr>r_type_checked := (hd buf > 0)\<rparr>)) r)"

section \<open>Data types on the wire\<close>

definition lift_data_type :: "u8 + BufferDataType \<Rightarrow> BufferDataType rd" where
  "lift_data_type x = (case x of Inl v \<Rightarrow> throwE (IllegalDataTypeError v) | Inr t \<Rightarrow> returnE t)"

definition read_data_type :: "BufferDataType rd" where
  "read_data_type = (\<lambda>r.
    if r_has_data_type_cached r
    then (Inr (r_cached_data_type r), r\<lparr>r_has_data_type_cached := False\<rparr>)
    else if r_mode r \<noteq> BitMode
    then bindE cursor_read_u8 (\<lambda>v. lift_data_type (from_value v)) r
    else bindE (read_bits [0] 5) (\<lambda>buf. lift_data_type (from_value (hd buf))) r)"

definition next_data_type :: "BufferDataType rd" where
  "next_data_type = (\<lambda>r.
    if \<not> r_type_checked r then (Inr (no_array NoType), r)
    else if r_has_data_type_cached r then (Inr (r_cached_data_type r), r)
    else bindE read_data_type
           (\<lambda>t r. (Inr t, r\<lparr>r_cached_data_type := t, r_has_data_type_cached := True\<rparr>)) r)"

text \<open>\<open>next_is_bool\<close>, \<open>next_is_i8\<close> and the eleven others differ in the data type they name.\<close>

definition next_is :: "BdDataType \<Rightarrow> bool rd" where
  "next_is t = bindE next_data_type (\<lambda>actual. returnE (eq_non_array actual t))"

definition remaining_bytes :: "nat rd" where
  "remaining_bytes = (\<lambda>r.
    if r_mode r \<noteq> ByteMode then (Inl (ModeError ByteMode (r_mode r)), r)
    else (Inr (length (r_buf r) - r_pos r), r))"

definition remaining_bits :: "nat rd" where
  "remaining_bits = (\<lambda>r.
    if r_mode r \<noteq> BitMode then (Inl (ModeError BitMode (r_mode r)), r)
    else (Inr ((length (r_buf r) - r_pos r) * 8 + (8 - r_bit_offset r)), r))"

text \<open>The check that opens each read: in a type-checked stream the next data type is \<open>t\<close>.\<close>

definition expect_type :: "BdDataType \<Rightarrow> unit rd" where
  "expect_type t = (\<lambda>r.
    if r_type_checked r
    then bindE read_data_type
           (\<lambda>actual. ensureE (eq_non_array actual t) (UnexpectedDataType (no_array t) actual)) r
    else (Inr (), r))"

section \<open>Scalars\<close>

text \<open>The bytes of a scalar of \<open>n\<close> bytes, in either mode.\<close>

definition read_scalar :: "BdDataType \<Rightarrow> nat \<Rightarrow> bytes rd" where
  "read_scalar t n = thenE (expect_type t) (\<lambda>r.
    if r_mode r = ByteMode then cursor_read_exact n r
    else read_bits (replicate n 0) (n * 8) r)"

definition read_bool :: "bool rd" where
  "read_bool = thenE (expect_type BoolType) (\<lambda>r.
    if r_mode r = ByteMode then bindE cursor_read_u8 (\<lambda>b. returnE (b > 0)) r
    else bindE (read_bits [0] 1) (\<lambda>buf. returnE (hd buf > 0)) r)"

definition read_i8 :: "i8 rd" where
  "read_i8 = bindE (read_scalar SignedChar8Type 1) (\<lambda>bs. returnE (from_le bs))"

definition read_u8 :: "u8 rd" where
  "read_u8 = bindE (read_scalar UnsignedChar8Type 1) (\<lambda>bs. returnE (from_le bs))"

definition read_i16 :: "i16 rd" where
  "read_i16 = bindE (read_scalar SignedInteger16Type 2) (\<lambda>bs. returnE (from_le bs))"

definition read_u16 :: "u16 rd" where
  "read_u16 = bindE (read_scalar UnsignedInteger16Type 2) (\<lambda>bs. returnE (from_le bs))"

definition read_i32 :: "i32 rd" where
  "read_i32 = bindE (read_scalar SignedInteger32Type 4) (\<lambda>bs. returnE (from_le bs))"

definition read_u32 :: "u32 rd" where
  "read_u32 = bindE (read_scalar UnsignedInteger32Type 4) (\<lambda>bs. returnE (from_le bs))"

definition read_i64 :: "i64 rd" where
  "read_i64 = bindE (read_scalar SignedInteger64Type 8) (\<lambda>bs. returnE (from_le bs))"

definition read_u64 :: "u64 rd" where
  "read_u64 = bindE (read_scalar UnsignedInteger64Type 8) (\<lambda>bs. returnE (from_le bs))"

definition read_f32 :: "f32 rd" where
  "read_f32 = bindE (read_scalar Float32Type 4) (\<lambda>bs. returnE (from_le bs))"

definition read_f64 :: "f64 rd" where
  "read_f64 = bindE (read_scalar Float64Type 8) (\<lambda>bs. returnE (from_le bs))"

section \<open>Strings and blobs\<close>

text \<open>In bit mode a string is read byte by byte to its terminator. Every byte consumes eight bits
  of the message, so the loop ends: \<open>fuel\<close> counts turns, and one turn more than the message
  has bytes is enough (lemma \<open>read_str_loop_fuel\<close> in the theory Bit_Stream).\<close>

fun read_str_loop :: "nat \<Rightarrow> bytes \<Rightarrow> bytes rd" where
  "read_str_loop 0 acc = throwE Panic"
| "read_str_loop (Suc fuel) acc = bindE (read_bits [0] 8) (\<lambda>byte.
     if hd byte = 0 then returnE acc else read_str_loop fuel (acc @ byte))"

definition from_utf8 :: "bytes \<Rightarrow> bytes rd" where
  "from_utf8 bs = thenE (ensureE (utf8_valid bs) Utf8Error) (returnE bs)"

text \<open>\<open>buf.remove(buf.len() - 1)\<close> drops the last byte, whether or not it is the delimiter.\<close>

definition cursor_read_c_string :: "bytes rd" where
  "cursor_read_c_string = bindE (cursor_read_until 0)
    (\<lambda>got. from_utf8 (if got \<noteq> [] then butlast got else got))"

definition read_str :: "bytes rd" where
  "read_str = thenE (expect_type SignedChar8StringType) (\<lambda>r.
    if r_mode r = BitMode
    then bindE (read_str_loop (Suc (length (r_buf r) + 1)) []) from_utf8 r
    else cursor_read_c_string r)"

definition read_blob :: "bytes rd" where
  "read_blob = thenE (expect_type BlobType) (bindE read_u32 (\<lambda>blob_size r.
    let n = unat blob_size
    in if r_mode r = BitMode then read_bits (replicate n 0) (n * 8) r
       else bindE (cursor_read n)
              (\<lambda>got. thenE (ensureE (length got = n) UnexpectedEndOfMessage) (returnE got)) r))"

section \<open>Arrays\<close>

text \<open>Arrays exist in byte mode only, and they are type-checked in every stream: the array tag,
  then the tag of an unsigned integer, the total size, which nobody reads, and the number of
  elements, which has no tag.\<close>

definition read_array_num_elements :: "nat rd" where
  "read_array_num_elements = bindE read_data_type (\<lambda>t.
    thenE (ensureE (eq_non_array t UnsignedInteger32Type)
             (UnexpectedDataType (no_array UnsignedInteger32Type) t))
    (bindE cursor_read_u32 (\<lambda>_.
     bindE cursor_read_u32 (\<lambda>num_elements. returnE (unat num_elements)))))"

definition read_array :: "BdDataType \<Rightarrow> 'a rd \<Rightarrow> 'a list rd" where
  "read_array t element = (\<lambda>r.
    if r_mode r \<noteq> ByteMode then (Inl (ModeError ByteMode (r_mode r)), r)
    else bindE read_data_type (\<lambda>actual.
      thenE (ensureE (eq_array actual t) (UnexpectedDataType (array t) actual))
      (bindE read_array_num_elements (\<lambda>n. repeatE n element))) r)"

definition cursor_read_le :: "nat \<Rightarrow> ('a::len word) rd" where
  "cursor_read_le n = bindE (cursor_read_exact n) (\<lambda>bs. returnE (from_le bs))"

definition read_i8_array :: "i8 list rd" where
  "read_i8_array = read_array SignedChar8Type (cursor_read_le 1)"

definition read_u8_array :: "u8 list rd" where
  "read_u8_array = read_array UnsignedChar8Type (cursor_read_le 1)"

definition read_i16_array :: "i16 list rd" where
  "read_i16_array = read_array SignedInteger16Type (cursor_read_le 2)"

definition read_u16_array :: "u16 list rd" where
  "read_u16_array = read_array UnsignedInteger16Type (cursor_read_le 2)"

definition read_i32_array :: "i32 list rd" where
  "read_i32_array = read_array SignedInteger32Type (cursor_read_le 4)"

definition read_u32_array :: "u32 list rd" where
  "read_u32_array = read_array UnsignedInteger32Type (cursor_read_le 4)"

definition read_i64_array :: "i64 list rd" where
  "read_i64_array = read_array SignedInteger64Type (cursor_read_le 8)"

definition read_u64_array :: "u64 list rd" where
  "read_u64_array = read_array UnsignedInteger64Type (cursor_read_le 8)"

definition read_f32_array :: "f32 list rd" where
  "read_f32_array = read_array Float32Type (cursor_read_le 4)"

definition read_f64_array :: "f64 list rd" where
  "read_f64_array = read_array Float64Type (cursor_read_le 8)"

definition read_str_array :: "bytes list rd" where
  "read_str_array = read_array SignedChar8StringType cursor_read_c_string"

end
