(* ===== verification/Bit_Stream.thy ===== *)
theory Bit_Stream
  imports Reader
begin

text \<open>
  What the reader does, as a stream of bits: \<open>rbits r\<close> lists the bits that are still to be
  read. The loop of \<open>read_bits\<close> shifts and masks bytes; here it is shown to take the next
  \<open>count\<close> bits of the stream and to fail exactly when there are fewer.
\<close>

definition reader_inv :: "reader \<Rightarrow> bool" where
  "reader_inv r \<longleftrightarrow> 1 \<le> r_bit_offset r \<and> r_bit_offset r \<le> 8 \<and> r_pos r \<le> length (r_buf r)"

definition pending_bits :: "reader \<Rightarrow> bool list" where
  "pending_bits r = (if r_mode r = BitMode then drop (r_bit_offset r) (bits_of (r_last_byte r)) else [])"

definition rbits :: "reader \<Rightarrow> bool list" where
  "rbits r = pending_bits r @ bytes_bits (cursor_rest r)"

text \<open>The part of a reader that reading bits leaves alone.\<close>

definition r_frame :: "reader \<Rightarrow> bytes \<times> StreamMode \<times> bool \<times> bool \<times> BufferDataType" where
  "r_frame r =
    (r_buf r, r_mode r, r_type_checked r, r_has_data_type_cached r, r_cached_data_type r)"

lemma r_frame_simps [simp]:
  "r_frame (r\<lparr>r_pos := p\<rparr>) = r_frame r"
  "r_frame (r\<lparr>r_bit_offset := off\<rparr>) = r_frame r"
  "r_frame (r\<lparr>r_last_byte := b\<rparr>) = r_frame r"
  by (simp_all add: r_frame_def)

lemma r_frameD:
  assumes "r_frame r' = r_frame r"
  shows "r_buf r' = r_buf r" "r_mode r' = r_mode r" "r_type_checked r' = r_type_checked r"
    "r_has_data_type_cached r' = r_has_data_type_cached r"
    "r_cached_data_type r' = r_cached_data_type r"
  using assms by (simp_all add: r_frame_def)

section \<open>The cursor\<close>

lemma cursor_read_exact_ok:
  assumes "n \<le> length (cursor_rest r)"
  shows "cursor_read_exact n r = (Inr (take n (cursor_rest r)), r\<lparr>r_pos := r_pos r + n\<rparr>)"
  using assms by (simp add: cursor_read_exact_def)

lemma cursor_read_exact_eof:
  assumes "length (cursor_rest r) < n"
  shows "cursor_read_exact n r = (Inl IoUnexpectedEof, r\<lparr>r_pos := length (r_buf r)\<rparr>)"
  using assms by (simp add: cursor_read_exact_def)

lemma cursor_rest_advance [simp]:
  "cursor_rest (r\<lparr>r_pos := r_pos r + n\<rparr>) = drop n (cursor_rest r)"
  by (simp add: cursor_rest_def add.commute)

lemma cursor_rest_simps [simp]:
  "cursor_rest (r\<lparr>r_bit_offset := off\<rparr>) = cursor_rest r"
  "cursor_rest (r\<lparr>r_last_byte := b\<rparr>) = cursor_rest r"
  "cursor_rest (r\<lparr>r_pos := length (r_buf r)\<rparr>) = []"
  by (simp_all add: cursor_rest_def)

lemma cursor_read_u8_cons:
  assumes "cursor_rest r = b # bs"
  shows "cursor_read_u8 r = (Inr b, r\<lparr>r_pos := r_pos r + 1\<rparr>)"
  using assms by (simp add: cursor_read_u8_def bindE_def cursor_read_exact_ok monad_simps)

lemma cursor_read_u8_nil:
  assumes "cursor_rest r = []"
  shows "cursor_read_u8 r = (Inl IoUnexpectedEof, r\<lparr>r_pos := length (r_buf r)\<rparr>)"
  using assms by (simp add: cursor_read_u8_def bindE_def cursor_read_exact_eof)

section \<open>The bit loop\<close>

lemma length_pending_bits:
  "reader_inv r \<Longrightarrow> r_mode r = BitMode \<Longrightarrow> length (pending_bits r) = 8 - r_bit_offset r"
  by (simp add: pending_bits_def)

lemma byte_in_pending:
  assumes "k \<le> 8 - off" "off \<le> 8"
  shows "byte_of (take k (drop off (bits_of b))) = drop_bit off b AND mask k"
proof (rule bit_word_eqI)
  fix i assume "i < LENGTH(8)"
  then show "bit (byte_of (take k (drop off (bits_of b)))) i = bit (drop_bit off b AND mask k) i"
    using assms by (auto simp: bit_facts bit_simps)
qed

lemma byte_across:
  assumes "1 \<le> off" "off \<le> 8" "8 - off < k" "k \<le> 8"
  shows "byte_of (take k (drop off (bits_of b) @ bits_of c @ ys))
    = ((if off < 8 then drop_bit off b else 0) OR push_bit (8 - off) c) AND mask k"
proof (rule bit_word_eqI)
  fix i assume i: "i < LENGTH(8)"
  have outside: "\<not> bit b j" if "8 \<le> j" for j
    using bit_u8_less [of b j] that by linarith
  show "bit (byte_of (take k (drop off (bits_of b) @ bits_of c @ ys))) i
    = bit (((if off < 8 then drop_bit off b else 0) OR push_bit (8 - off) c) AND mask k) i"
    using assms i outside
    by (auto simp: bit_facts bit_simps nth_append not_less less_diff_conv)
qed

lemma and_mask_full: "(x :: u8) AND mask 8 = x"
  by (rule bit_word_eqI) (auto simp: bit_simps)

lemma shifted_ones: "0 < k \<Longrightarrow> k \<le> 8 \<Longrightarrow> drop_bit (8 - k) (0xFF :: u8) = mask k"
proof -
  assume k: "0 < k" "k \<le> 8"
  have ones: "(0xFF :: u8) = mask 8" by (simp add: mask_eq_exp_minus_1)
  show ?thesis unfolding ones using k
    by (intro bit_word_eqI) (auto simp: bit_simps)
qed

lemma read_bits_step_ok:
  assumes inv: "reader_inv r" and mode: "r_mode r = BitMode" and n: "0 < n"
    and enough: "min 8 n \<le> length (rbits r)"
  obtains r' where
    "read_bits_step n r = (Inr (byte_of (take (min 8 n) (rbits r)), n - min 8 n), r')"
    "r_frame r' = r_frame r" "reader_inv r'" "rbits r' = drop (min 8 n) (rbits r)"
proof -
  let ?off = "r_bit_offset r" and ?k = "min 8 n"
  have off: "1 \<le> ?off" "?off \<le> 8" and pos: "r_pos r \<le> length (r_buf r)"
    using inv by (auto simp: reader_inv_def)
  show thesis
  proof (cases "n > 8 - ?off")
    case False
    then have k: "?k = n" "n < 8" "n \<le> 8 - ?off" using off by auto
    show thesis
    proof (rule that)
      show "read_bits_step n r
        = (Inr (byte_of (take ?k (rbits r)), n - ?k), r\<lparr>r_bit_offset := ?off + n\<rparr>)"
        using k n off mode
        by (simp add: read_bits_step_def read_bits_fetch_def Let_def bindE_def min_absorb1
            shifted_ones rbits_def pending_bits_def byte_in_pending)
      show "rbits (r\<lparr>r_bit_offset := ?off + n\<rparr>) = drop ?k (rbits r)"
        using k off mode by (simp add: rbits_def pending_bits_def add.commute)
    qed (use k off n pos in \<open>auto simp: reader_inv_def\<close>)
  next
    case True
    then have above: "8 - ?off < ?k" using off by auto
    with enough obtain c cs where rest: "cursor_rest r = c # cs"
      using length_pending_bits [OF inv mode] off
      by (cases "cursor_rest r") (auto simp: rbits_def)
    then have len: "r_pos r + 1 \<le> length (r_buf r)"
      by (auto simp: cursor_rest_def dest: arg_cong [of _ _ length])
    let ?r = "r\<lparr>r_pos := r_pos r + 1, r_last_byte := c\<rparr>"
    let ?out = "(if ?off < 8 then drop_bit ?off (r_last_byte r) else 0) OR push_bit (8 - ?off) c"
    have first: "read_bits_fetch n r = (Inr (?out, 8), ?r)"
      using True by (simp add: read_bits_fetch_def Let_def bindE_def cursor_read_u8_cons [OF rest])
    have byte: "byte_of (take ?k (rbits r)) = ?out AND mask ?k"
      using byte_across [OF off above] rest mode by (simp add: rbits_def pending_bits_def)
    have next_rest: "cursor_rest ?r = cs" using rest cursor_rest_advance [of r 1] by simp
    show thesis
    proof (cases "8 \<le> n")
      case True
      then have k: "?k = 8" by simp
      have byte8: "byte_of (take 8 (rbits r)) = ?out"
        using byte unfolding k and_mask_full .
      show thesis
      proof (rule that)
        show "read_bits_step n r = (Inr (byte_of (take ?k (rbits r)), n - ?k), ?r)"
          unfolding k byte8 using True
          by (simp add: read_bits_step_def bindE_def first)
        show "rbits ?r = drop ?k (rbits r)"
          unfolding k using off mode rest next_rest
          by (simp add: rbits_def pending_bits_def)
      qed (use off len in \<open>auto simp: reader_inv_def\<close>)
    next
      case False
      then have k: "?k = n" by simp
      have byten: "byte_of (take n (rbits r)) = ?out AND mask n"
        using byte unfolding k .
      define off' where "off' = (if ?off + n > 8 then ?off + n - 8 else ?off + n)"
      have off'_eq: "off' = ?off + n - 8" "1 \<le> off'" "off' \<le> 8"
        using above off False unfolding off'_def by auto
      show thesis
      proof (rule that)
        show "read_bits_step n r
          = (Inr (byte_of (take ?k (rbits r)), n - ?k), ?r\<lparr>r_bit_offset := off'\<rparr>)"
          unfolding k byten using False n
          by (simp add: read_bits_step_def Let_def bindE_def first min_absorb1 shifted_ones
              off'_def)
        have "drop n (drop ?off (bits_of (r_last_byte r)) @ bits_of c @ bytes_bits cs)
          = drop (n - (8 - ?off)) (bits_of c @ bytes_bits cs)"
          using above k by simp
        moreover have "n - (8 - ?off) = off'" using off'_eq(1) off by simp
        ultimately show "rbits (?r\<lparr>r_bit_offset := off'\<rparr>) = drop ?k (rbits r)"
          unfolding k using mode rest next_rest off'_eq(3)
          by (simp add: rbits_def pending_bits_def)
      qed (use off'_eq len in \<open>auto simp: reader_inv_def\<close>)
    qed
  qed
qed

lemma read_bits_step_eof:
  assumes inv: "reader_inv r" and mode: "r_mode r = BitMode" and n: "0 < n"
    and few: "length (rbits r) < min 8 n"
  obtains r' where "read_bits_step n r = (Inl IoUnexpectedEof, r')" "r_frame r' = r_frame r"
    "reader_inv r'"
proof -
  have off: "1 \<le> r_bit_offset r" "r_bit_offset r \<le> 8" using inv by (auto simp: reader_inv_def)
  have empty: "cursor_rest r = []" and above: "n > 8 - r_bit_offset r"
    using few length_pending_bits [OF inv mode] by (cases "cursor_rest r"; auto simp: rbits_def)+
  show thesis
  proof (rule that)
    show "read_bits_step n r = (Inl IoUnexpectedEof, r\<lparr>r_pos := length (r_buf r)\<rparr>)"
      using above by (simp add: read_bits_step_def read_bits_fetch_def Let_def bindE_def
          cursor_read_u8_nil [OF empty])
  qed (use off in \<open>auto simp: reader_inv_def\<close>)
qed

text \<open>\<open>takes n r r'\<close>: from \<open>r\<close> to \<open>r'\<close> exactly \<open>n\<close> bits have been read, and nothing else of the
  reader has changed; in byte mode the bit offset stays where it was.\<close>

definition takes :: "nat \<Rightarrow> reader \<Rightarrow> reader \<Rightarrow> bool" where
  "takes n r r' \<longleftrightarrow> r_frame r' = r_frame r \<and> reader_inv r' \<and> rbits r' = drop n (rbits r)
    \<and> (r_mode r = ByteMode \<longrightarrow> r_bit_offset r' = r_bit_offset r)"

lemma takes_trans: "takes m r r' \<Longrightarrow> takes n r' r'' \<Longrightarrow> takes (m + n) r r''"
  by (auto simp: takes_def add.commute dest: r_frameD)

lemma takes_0: "reader_inv r \<Longrightarrow> takes 0 r r"
  by (simp add: takes_def)

lemma takes_mode: "takes n r r' \<Longrightarrow> r_mode r' = r_mode r"
  by (simp add: takes_def r_frame_def)

lemma list_store:
  "d < length buf \<Longrightarrow>
    take (Suc d) (buf[d := b]) = take d buf @ [b] \<and> drop (Suc d + n) (buf[d := b]) = drop (Suc d + n) buf"
  by (simp add: take_Suc_conv_app_nth list_update_append)

lemma bytes_needed_step: "0 < n \<Longrightarrow> (n + 7) div 8 = Suc ((n - min 8 n + 7) div (8 :: nat))"
proof -
  assume n: "0 < n"
  show "(n + 7) div 8 = Suc ((n - min 8 n + 7) div 8)"
  proof (cases "n < 8")
    case True
    with n obtain k where "n = Suc k" "k < 7" by (cases n) auto
    then show ?thesis by simp
  next
    case False
    then obtain k where "n = 8 + k" using le_Suc_ex by (metis not_le)
    then show ?thesis by simp
  qed
qed

lemma read_bits_step_takes:
  assumes "reader_inv r" "r_mode r = BitMode" "0 < n" "min 8 n \<le> length (rbits r)"
  obtains r' where
    "read_bits_step n r = (Inr (byte_of (take (min 8 n) (rbits r)), n - min 8 n), r')"
    "takes (min 8 n) r r'"
  by (rule read_bits_step_ok [OF assms]) (simp add: takes_def assms(2) that)

lemma read_bits_loop_ok:
  assumes "reader_inv r" "r_mode r = BitMode" "n \<le> length (rbits r)"
    "d + (n + 7) div 8 \<le> length buf"
  shows "\<exists>r'. read_bits_loop n d buf r
      = (Inr (take d buf @ pack (take n (rbits r)) @ drop (d + (n + 7) div 8) buf), r') \<and> takes n r r'"
  using assms
proof (induction n arbitrary: d buf r rule: less_induct)
  case (less n)
  show ?case
  proof (cases "n = 0")
    case True
    then show ?thesis using less.prems by (simp add: read_bits_loop.simps takes_0)
  next
    case False
    let ?k = "min 8 n" let ?b = "byte_of (take ?k (rbits r))"
    have pos: "0 < n" and enough: "?k \<le> length (rbits r)" using False less.prems(3) by auto
    obtain r1 where step: "read_bits_step n r = (Inr (?b, n - ?k), r1)" and k: "takes ?k r r1"
      using read_bits_step_takes [OF less.prems(1,2) pos enough] .
    note need = bytes_needed_step [of n]
    have d: "d < length buf" using need less.prems(4) False by linarith
    have bits1: "rbits r1 = drop ?k (rbits r)" "reader_inv r1" "r_mode r1 = BitMode"
      using k less.prems(2) takes_mode [OF k] by (simp_all add: takes_def)
    have "\<exists>r'. read_bits_loop (n - ?k) (Suc d) (buf[d := ?b]) r1
      = (Inr (take (Suc d) (buf[d := ?b]) @ pack (take (n - ?k) (rbits r1))
              @ drop (Suc d + (n - ?k + 7) div 8) (buf[d := ?b])), r') \<and> takes (n - ?k) r1 r'"
      using False need less.prems(3,4) bits1
      by (intro less.IH) (auto intro: diff_le_mono)
    then obtain r2 where loop: "read_bits_loop (n - ?k) (Suc d) (buf[d := ?b]) r1
      = (Inr (take d buf @ [?b] @ pack (take (n - ?k) (rbits r1))
              @ drop (Suc d + (n - ?k + 7) div 8) buf), r2)" and k2: "takes (n - ?k) r1 r2"
      using list_store [OF d] by auto
    have bits: "[?b] @ pack (take (n - ?k) (rbits r1)) = pack (take n (rbits r))"
    proof -
      have "take n (rbits r) \<noteq> []" using pos less.prems(3) by auto
      moreover have "take (n - ?k) (drop ?k (rbits r)) = drop 8 (take n (rbits r))"
        by (cases "n \<le> 8") (simp_all add: drop_take)
      ultimately show ?thesis using pack_step [of "take n (rbits r)"] bits1(1)
        by (simp add: min.commute)
    qed
    have "d + (n + 7) div 8 = Suc d + (n - ?k + 7) div 8" using need False by linarith
    then have "read_bits_loop n d buf r
      = (Inr (take d buf @ pack (take n (rbits r)) @ drop (d + (n + 7) div 8) buf), r2)"
      using False step loop d bits by (subst read_bits_loop.simps) simp
    moreover have "takes n r r2" using takes_trans [OF k k2] by simp
    ultimately show ?thesis by blast
  qed
qed

lemma read_bits_loop_eof:
  assumes "reader_inv r" "r_mode r = BitMode" "length (rbits r) < n"
    "d + (n + 7) div 8 \<le> length buf"
  shows "\<exists>r'. read_bits_loop n d buf r = (Inl IoUnexpectedEof, r') \<and> r_frame r' = r_frame r \<and> reader_inv r'"
  using assms
proof (induction n arbitrary: d buf r rule: less_induct)
  case (less n)
  let ?k = "min 8 n"
  from less.prems have n: "0 < n" by auto
  show ?case
  proof (cases "length (rbits r) < ?k")
    case True
    obtain r1 where "read_bits_step n r = (Inl IoUnexpectedEof, r1)"
        "r_frame r1 = r_frame r" "reader_inv r1"
      using read_bits_step_eof [OF less.prems(1,2) n True] .
    then show ?thesis using n by (subst read_bits_loop.simps) simp
  next
    case False
    then have enough: "?k \<le> length (rbits r)" by linarith
    obtain r1 where step: "read_bits_step n r = (Inr (byte_of (take ?k (rbits r)), n - ?k), r1)"
        and k: "takes ?k r r1"
      using read_bits_step_takes [OF less.prems(1,2) n enough] .
    note need = bytes_needed_step [OF n]
    have d: "d < length buf" using need less.prems(4) by linarith
    have bits1: "rbits r1 = drop ?k (rbits r)" "reader_inv r1" "r_mode r1 = BitMode"
      "r_frame r1 = r_frame r"
      using k less.prems(2) takes_mode [OF k] by (simp_all add: takes_def)
    have "\<exists>r'. read_bits_loop (n - ?k) (Suc d) (buf[d := byte_of (take ?k (rbits r))]) r1
      = (Inl IoUnexpectedEof, r') \<and> r_frame r' = r_frame r1 \<and> reader_inv r'"
      using n need less.prems(3,4) bits1 enough
      by (intro less.IH) (auto intro: diff_less_mono)
    then show ?thesis using n step d bits1(4) by (subst read_bits_loop.simps) auto
  qed
qed

lemma read_bits_ok:
  assumes "reader_inv r" "r_mode r = BitMode" "n \<le> length (rbits r)" "m = (n + 7) div 8"
  obtains r' where "read_bits (replicate m 0) n r = (Inr (pack (take n (rbits r))), r')" "takes n r r'"
proof -
  have "n \<le> m * 8" using assms(4) by linarith
  then show thesis
    using read_bits_loop_ok [OF assms(1-3), of 0 "replicate m 0"] assms that
    by (auto simp: read_bits_def monad_simps)
qed

lemma read_bits_eof:
  assumes "reader_inv r" "r_mode r = BitMode" "length (rbits r) < n" "m = (n + 7) div 8"
  obtains r' where "read_bits (replicate m 0) n r = (Inl IoUnexpectedEof, r')"
    "r_frame r' = r_frame r" "reader_inv r'"
proof -
  have "n \<le> m * 8" using assms(4) by linarith
  then show thesis
    using read_bits_loop_eof [OF assms(1-3), of 0 "replicate m 0"] assms that
    by (auto simp: read_bits_def monad_simps)
qed

text \<open>
  C1. \<open>read_bits\<close> on a reader in bit mode: when \<open>n\<close> bits are left it stores exactly the next
  \<open>n\<close> bits of the stream in the first bytes of the buffer, least significant bit first and the
  rest of the last byte clear, leaves the other bytes of the buffer alone, and advances the
  stream by \<open>n\<close> bits; when fewer are left it fails with an end-of-file error. The offset
  arithmetic and the masks of the loop are those of any bit position.
\<close>

theorem read_bits_spec:
  assumes "reader_inv r" "r_mode r = BitMode" "n \<le> length buf * 8"
  shows "if n \<le> length (rbits r)
    then \<exists>r'. read_bits buf n r = (Inr (pack (take n (rbits r)) @ drop ((n + 7) div 8) buf), r')
      \<and> takes n r r'
    else \<exists>r'. read_bits buf n r = (Inl IoUnexpectedEof, r') \<and> r_frame r' = r_frame r \<and> reader_inv r'"
proof -
  have "(n + 7) div 8 \<le> length buf" using assms(3) by linarith
  then show ?thesis
    using read_bits_loop_ok [OF assms(1,2), of n 0 buf] read_bits_loop_eof [OF assms(1,2), of n 0 buf]
      assms(2,3) by (simp add: read_bits_def monad_simps not_le)
qed

definition example_reader :: reader where
  "example_reader = (reader_new [0xB5, 0x0F])\<lparr>r_mode := BitMode, r_pos := 1, r_bit_offset := 3,
     r_last_byte := 0xB5\<rparr>"

theorem read_bits_spec_witness:
  "\<exists>r'. read_bits [0, 0, 7] 12 example_reader
      = (Inr (pack (take 12 (rbits example_reader)) @ [7]), r') \<and> takes 12 example_reader r'"
  using read_bits_spec [of example_reader 12 "[0, 0, 7]"]
  by (simp add: example_reader_def reader_new_def reader_inv_def rbits_def pending_bits_def
      cursor_rest_def)

section \<open>No panic\<close>

text \<open>A safe read does not panic and keeps the invariant of the reader, whatever the message.\<close>

definition safe :: "'a rd \<Rightarrow> bool" where
  "safe m \<longleftrightarrow> (\<forall>r. reader_inv r \<longrightarrow> fst (m r) \<noteq> Inl Panic \<and> reader_inv (snd (m r)))"

named_theorems safe_intros \<open>composition of safe reads\<close>

lemma safeI: "(\<And>r. reader_inv r \<Longrightarrow> fst (m r) \<noteq> Inl Panic \<and> reader_inv (snd (m r))) \<Longrightarrow> safe m"
  by (simp add: safe_def)

lemma safeD: "safe m \<Longrightarrow> reader_inv r \<Longrightarrow> fst (m r) \<noteq> Inl Panic \<and> reader_inv (snd (m r))"
  by (simp add: safe_def)

lemma safe_return [safe_intros]: "safe (returnE x)"
  by (simp add: safe_def monad_simps)

lemma safe_throw [safe_intros]: "e \<noteq> Panic \<Longrightarrow> safe (throwE e)"
  by (simp add: safe_def monad_simps)

lemma safe_ensure [safe_intros]: "e \<noteq> Panic \<Longrightarrow> safe (ensureE b e)"
  by (simp add: safe_def monad_simps)

lemma safe_bind_at:
  assumes "fst (m r) \<noteq> Inl Panic" "reader_inv (snd (m r))" "\<And>x. safe (f x)"
  shows "fst (bindE m f r) \<noteq> Inl Panic \<and> reader_inv (snd (bindE m f r))"
  using assms(1,2) safeD [OF assms(3)] by (cases rule: bindE_cases [of m r f]) auto

lemma safe_bind [safe_intros]:
  assumes "safe m" "\<And>x. safe (f x)"
  shows "safe (bindE m f)"
  using safe_bind_at safeD [OF assms(1)] assms(2) by (intro safeI) blast

lemma safe_then [safe_intros]: "safe m \<Longrightarrow> safe n \<Longrightarrow> safe (thenE m n)"
  by (simp add: thenE_def safe_bind)

lemma safe_if [safe_intros]: "safe m \<Longrightarrow> safe n \<Longrightarrow> safe (\<lambda>r. if b r then m r else n r)"
  by (simp add: safe_def)

lemma safe_cond [safe_intros]: "safe m \<Longrightarrow> safe n \<Longrightarrow> safe (if b then m else n)"
  by simp

lemma safe_repeat [safe_intros]: "safe m \<Longrightarrow> safe (repeatE n m)"
  by (induction n) (auto intro: safe_intros)

lemma safe_error [safe_intros]: "(\<And>r. e r \<noteq> Panic) \<Longrightarrow> safe (\<lambda>r. (Inl (e r), r))"
  by (simp add: safe_def)

lemma safe_value [safe_intros]: "safe (\<lambda>r. (Inr (v r), r))"
  by (simp add: safe_def)

lemma reader_inv_simps [simp]:
  "reader_inv (r\<lparr>r_has_data_type_cached := b\<rparr>) = reader_inv r"
  "reader_inv (r\<lparr>r_cached_data_type := t\<rparr>) = reader_inv r"
  "reader_inv (r\<lparr>r_type_checked := b\<rparr>) = reader_inv r"
  "reader_inv (r\<lparr>r_mode := m\<rparr>) = reader_inv r"
  by (simp_all add: reader_inv_def)

lemma reader_inv_advance:
  "reader_inv r \<Longrightarrow> n \<le> length (cursor_rest r) \<Longrightarrow> reader_inv (r\<lparr>r_pos := r_pos r + n\<rparr>)"
  by (auto simp: reader_inv_def cursor_rest_def)

lemma safe_read_exact [safe_intros]: "safe (cursor_read_exact n)"
  by (rule safeI) (auto simp: cursor_read_exact_def reader_inv_advance, simp add: reader_inv_def)

lemma length_until_inclusive: "length (until_inclusive d bs) \<le> length bs"
  by (auto simp: until_inclusive_def Let_def length_takeWhile_le)

lemma safe_cursor_read [safe_intros]: "safe (cursor_read n)"
  by (rule safeI) (simp add: cursor_read_def Let_def reader_inv_advance)

lemma safe_read_until [safe_intros]: "safe (cursor_read_until d)"
  by (rule safeI) (simp add: cursor_read_until_def Let_def reader_inv_advance length_until_inclusive)

lemma safe_cursor_u8 [safe_intros]: "safe cursor_read_u8"
  unfolding cursor_read_u8_def by (intro safe_intros)

lemma safe_cursor_u32 [safe_intros]: "safe cursor_read_u32"
  unfolding cursor_read_u32_def by (intro safe_intros)

lemma safe_cursor_le [safe_intros]: "safe (cursor_read_le n)"
  unfolding cursor_read_le_def by (intro safe_intros)

lemma safe_read_bits [safe_intros]:
  assumes "n \<le> length buf * 8"
  shows "safe (read_bits buf n)"
proof (rule safeI)
  fix r assume r: "reader_inv r"
  show "fst (read_bits buf n r) \<noteq> Inl Panic \<and> reader_inv (snd (read_bits buf n r))"
  proof (cases "r_mode r = BitMode")
    case True
    have "(n + 7) div 8 \<le> length buf" using assms by linarith
    then show ?thesis
      using read_bits_loop_ok [OF r True, of n 0 buf] read_bits_loop_eof [OF r True, of n 0 buf]
        assms True by (cases "n \<le> length (rbits r)") (auto simp: read_bits_def monad_simps takes_def)
  qed (use assms r in \<open>simp add: read_bits_def monad_simps\<close>)
qed

lemma safe_lift_data_type [safe_intros]: "safe (lift_data_type x)"
  by (cases x) (auto simp: lift_data_type_def intro: safe_intros)

lemma safe_read_data_type [safe_intros]: "safe read_data_type"
proof -
  have cached: "safe (\<lambda>r. (Inr (r_cached_data_type r), r\<lparr>r_has_data_type_cached := False\<rparr>))"
    by (simp add: safe_def)
  show ?thesis unfolding read_data_type_def by (intro safe_intros cached) simp
qed

lemma safe_next_data_type [safe_intros]: "safe next_data_type"
proof -
  have store: "safe (\<lambda>r. (Inr t, r\<lparr>r_cached_data_type := t, r_has_data_type_cached := True\<rparr>))" for t
    by (simp add: safe_def)
  show ?thesis unfolding next_data_type_def by (intro safe_intros store)
qed

lemma safe_next_is [safe_intros]: "safe (next_is t)"
  unfolding next_is_def by (intro safe_intros)

lemma safe_expect_type [safe_intros]: "safe (expect_type t)"
  unfolding expect_type_def by (intro safe_intros) simp

lemma safe_read_scalar [safe_intros]: "safe (read_scalar t n)"
  unfolding read_scalar_def by (intro safe_intros) simp

lemma safe_scalars [safe_intros]:
  "safe read_i8" "safe read_u8" "safe read_i16" "safe read_u16" "safe read_i32" "safe read_u32"
  "safe read_i64" "safe read_u64" "safe read_f32" "safe read_f64"
  unfolding read_i8_def read_u8_def read_i16_def read_u16_def read_i32_def read_u32_def
    read_i64_def read_u64_def read_f32_def read_f64_def by (intro safe_intros)+

lemma safe_read_bool [safe_intros]: "safe read_bool"
  unfolding read_bool_def by (intro safe_intros) simp

lemma safe_read_bytes [safe_intros]: "safe (read_bytes n)"
  unfolding read_bytes_def by (intro safe_intros) simp_all

lemma safe_type_checked_bit [safe_intros]: "safe read_type_checked_bit"
proof -
  have set: "safe (modifyE (\<lambda>r. r\<lparr>r_type_checked := b\<rparr>))" for b by (simp add: safe_def monad_simps)
  show ?thesis unfolding read_type_checked_bit_def by (intro safe_intros set) simp_all
qed

lemma safe_from_utf8 [safe_intros]: "safe (from_utf8 bs)"
  unfolding from_utf8_def by (intro safe_intros) simp

lemma safe_c_string [safe_intros]: "safe cursor_read_c_string"
  unfolding cursor_read_c_string_def by (intro safe_intros)

text \<open>The loop of \<open>read_str\<close> runs out of message before it runs out of fuel.\<close>

lemma read_str_loop_fuel:
  assumes "reader_inv r" "r_mode r = BitMode" "length (rbits r) < 8 * fuel"
  shows "fst (read_str_loop fuel acc r) \<noteq> Inl Panic \<and> reader_inv (snd (read_str_loop fuel acc r))"
  using assms
proof (induction fuel arbitrary: acc r)
  case (Suc fuel)
  show ?case
  proof (cases "8 \<le> length (rbits r)")
    case True
    obtain r1 where 1: "read_bits [0] 8 r = (Inr (pack (take 8 (rbits r))), r1)" "takes 8 r r1"
      using read_bits_ok [OF Suc.prems(1,2) True, of 1] by auto
    then have "reader_inv r1" "r_mode r1 = BitMode" "length (rbits r1) < 8 * fuel"
      using Suc.prems takes_mode [OF 1(2)] True by (auto simp: takes_def)
    then show ?thesis using Suc.IH [of r1] 1 by (simp add: bindE_def monad_simps takes_def)
  next
    case False
    obtain r1 where "read_bits [0] 8 r = (Inl IoUnexpectedEof, r1)" "reader_inv r1"
      using read_bits_eof [OF Suc.prems(1,2), of 8 1] False by auto
    then show ?thesis by (simp add: bindE_def)
  qed
qed simp

lemma safe_read_str [safe_intros]: "safe read_str"
proof -
  have loop: "safe (\<lambda>r. if r_mode r = BitMode
      then bindE (read_str_loop (Suc (length (r_buf r) + 1)) []) from_utf8 r
      else cursor_read_c_string r)"
  proof (rule safeI)
    fix r assume r: "reader_inv r"
    show "fst (if r_mode r = BitMode
        then bindE (read_str_loop (Suc (length (r_buf r) + 1)) []) from_utf8 r
        else cursor_read_c_string r) \<noteq> Inl Panic
      \<and> reader_inv (snd (if r_mode r = BitMode
        then bindE (read_str_loop (Suc (length (r_buf r) + 1)) []) from_utf8 r
        else cursor_read_c_string r))"
    proof (cases "r_mode r = BitMode")
      case True
      define fuel where "fuel = Suc (length (r_buf r) + 1)"
      have "length (rbits r) < 8 * fuel"
        using length_pending_bits [OF r True] by (simp add: rbits_def cursor_rest_def fuel_def)
      note f = read_str_loop_fuel [OF r True this, of "[]"]
      show ?thesis
        using safe_bind_at [of "read_str_loop fuel []" r from_utf8] f safe_from_utf8 True
        by (simp add: fuel_def del: read_str_loop.simps)
    qed (use r safeD [OF safe_c_string] in simp)
  qed
  show ?thesis unfolding read_str_def by (intro safe_intros loop)
qed

lemma safe_read_blob [safe_intros]: "safe read_blob"
  unfolding read_blob_def Let_def by (intro safe_intros) simp_all

lemma safe_num_elements [safe_intros]: "safe read_array_num_elements"
  unfolding read_array_num_elements_def by (intro safe_intros) simp

lemma safe_read_array [safe_intros]: "safe m \<Longrightarrow> safe (read_array t m)"
  unfolding read_array_def by (intro safe_intros) simp_all

lemma safe_arrays [safe_intros]:
  "safe read_i8_array" "safe read_u8_array" "safe read_i16_array" "safe read_u16_array"
  "safe read_i32_array" "safe read_u32_array" "safe read_i64_array" "safe read_u64_array"
  "safe read_f32_array" "safe read_f64_array" "safe read_str_array"
  unfolding read_i8_array_def read_u8_array_def read_i16_array_def read_u16_array_def
    read_i32_array_def read_u32_array_def read_i64_array_def read_u64_array_def
    read_f32_array_def read_f64_array_def read_str_array_def
  by (intro safe_intros)+

lemma safe_remaining [safe_intros]: "safe remaining_bytes" "safe remaining_bits"
  unfolding remaining_bytes_def remaining_bits_def by (simp_all add: safe_def)

text \<open>
  C5. No message makes a read panic. From any reader whose offset is in range, every read of
  the reader - the scalars, strings, blobs and all eleven arrays, the raw bits and bytes, the
  tags, the tests for the next type and the two counts of what is left - ends with a value or an
  error that is no panic, the bit string loop included, which the end of the message stops, and
  leaves the offset in range. Of raw bits it can be asked for as many as the caller's buffer
  holds.
\<close>

theorem reads_never_panic:
  "safe read_bool \<and> safe read_i8 \<and> safe read_u8 \<and> safe read_i16 \<and> safe read_u16 \<and> safe read_i32
    \<and> safe read_u32 \<and> safe read_i64 \<and> safe read_u64 \<and> safe read_f32 \<and> safe read_f64
    \<and> safe read_str \<and> safe read_blob \<and> safe read_type_checked_bit \<and> safe (next_is t)
    \<and> safe read_i8_array \<and> safe read_u8_array \<and> safe read_i16_array \<and> safe read_u16_array
    \<and> safe read_i32_array \<and> safe read_u32_array \<and> safe read_i64_array \<and> safe read_u64_array
    \<and> safe read_f32_array \<and> safe read_f64_array \<and> safe read_str_array
    \<and> safe remaining_bytes \<and> safe remaining_bits
    \<and> safe (read_bytes n) \<and> safe (read_bits buf (min k (length buf * 8)))
    \<and> reader_inv (reader_new b)"
  by (intro conjI safe_intros) (simp_all add: reader_new_def reader_inv_def)

section \<open>Arrays need byte mode\<close>

lemma read_array_bit_mode:
  "r_mode r = BitMode \<Longrightarrow> read_array t m r = (Inl (ModeError ByteMode BitMode), r)"
  by (simp add: read_array_def)

end
