(* ===== verification/Writer.thy ===== *)
theory Writer
  imports Errors
begin

text \<open>
  The writer of messages (libbitdemon/src/messaging/bd_writer.rs). In bit mode the
  \<open>w_bit_offset\<close> low-order bits of \<open>w_last_byte\<close> are written but not yet in the buffer, unless
  the offset is 8: then nothing is pending. The buffer is a vector that only grows, so a write
  of bytes does not fail; every caller hands the writer an empty vector.
\<close>

record writer =
  w_out :: bytes
  w_bit_offset :: nat
  w_last_byte :: u8
  w_mode :: StreamMode
  w_type_checked :: bool

type_synonym wr = "(writer, bd_error, unit) sm"

definition writer_new :: writer where
  "writer_new =
    \<lparr>w_out = [], w_bit_offset = 8, w_last_byte = 0, w_mode = ByteMode, w_type_checked = False\<rparr>"

definition writer_set_mode :: "StreamMode \<Rightarrow> wr" where
  "writer_set_mode m = modifyE (\<lambda>w. w\<lparr>w_mode := m\<rparr>)"

definition writer_set_type_checked :: "bool \<Rightarrow> wr" where
  "writer_set_type_checked b = modifyE (\<lambda>w. w\<lparr>w_type_checked := b\<rparr>)"

definition cursor_write_all :: "bytes \<Rightarrow> wr" where
  "cursor_write_all bs = modifyE (\<lambda>w. w\<lparr>w_out := w_out w @ bs\<rparr>)"

definition flush :: wr where
  "flush = (\<lambda>w.
    if w_bit_offset w \<ge> 8 then (Inr (), w)
    else (Inr (), w\<lparr>w_out := w_out w @ [w_last_byte w], w_bit_offset := 8\<rparr>))"

section \<open>Bits\<close>

text \<open>One turn of the loop of \<open>write_bits\<close>: \<open>in_bits\<close> bits of a byte whose other bits are clear
  join the pending ones. The offset is never 0, so no shift distance exceeds 7.\<close>

definition write_bits_step :: "u8 \<Rightarrow> nat \<Rightarrow> writer \<Rightarrow> writer" where
  "write_bits_step in_byte in_bits w =
    (let off = w_bit_offset w in
     if off < 8 then
       (let last = w_last_byte w OR push_bit off in_byte in
        if off + in_bits > 8 then
          w\<lparr>w_out := w_out w @ [last], w_bit_offset := off + in_bits - 8,
            w_last_byte := drop_bit (8 - off) in_byte\<rparr>
        else if off + in_bits = 8 then
          w\<lparr>w_out := w_out w @ [last], w_last_byte := 0, w_bit_offset := 8\<rparr>
        else w\<lparr>w_last_byte := last, w_bit_offset := off + in_bits\<rparr>)
     else if in_bits = 8 then w\<lparr>w_out := w_out w @ [in_byte]\<rparr>
     else w\<lparr>w_last_byte := in_byte, w_bit_offset := in_bits\<rparr>)"

text \<open>The loop, over the rest of the source buffer; \<open>buf[src_offset]\<close> beyond its end is a panic.\<close>

fun write_bits_loop :: "bytes \<Rightarrow> nat \<Rightarrow> wr" where
  "write_bits_loop buf bits_left w =
    (if bits_left = 0 then (Inr (), w)
     else case buf of
       [] \<Rightarrow> (Inl Panic, w)
     | b # bs \<Rightarrow>
         let in_bits = (if bits_left < 8 then bits_left else 8);
             in_byte = (if bits_left < 8 then b AND drop_bit (8 - bits_left) 0xFF else b)
         in write_bits_loop bs (bits_left - in_bits) (write_bits_step in_byte in_bits w))"

declare write_bits_loop.simps [simp del]

definition write_bits :: "bytes \<Rightarrow> nat \<Rightarrow> wr" where
  "write_bits buf count = thenE (ensureE (count \<le> length buf * 8) Panic) (\<lambda>w.
    if w_mode w \<noteq> BitMode then (Inl (ModeError BitMode (w_mode w)), w)
    else write_bits_loop buf count w)"

definition write_bytes :: "bytes \<Rightarrow> wr" where
  "write_bytes bs = (\<lambda>w.
    if w_mode w = BitMode then write_bits bs (length bs * 8) w else cursor_write_all bs w)"

definition write_type_checked_bit :: wr where
  "write_type_checked_bit = (\<lambda>w.
    if w_mode w \<noteq> BitMode then (Inl (ModeError BitMode (w_mode w)), w)
    else write_bits (if w_type_checked w then [0x01] else [0x00]) 1 w)"

section \<open>Values\<close>

definition write_data_type :: "BufferDataType \<Rightarrow> wr" where
  "write_data_type t = (\<lambda>w.
    if w_mode w = ByteMode then cursor_write_all [to_value t] w
    else write_bits [to_value t] 5 w)"

text \<open>The tag that a type-checked stream has before every value.\<close>

definition tag_type :: "BdDataType \<Rightarrow> wr" where
  "tag_type t = (\<lambda>w. if w_type_checked w then write_data_type (no_array t) w else (Inr (), w))"

text \<open>A scalar, given by its little-endian bytes.\<close>

definition write_scalar :: "BdDataType \<Rightarrow> bytes \<Rightarrow> wr" where
  "write_scalar t bs = thenE (tag_type t) (\<lambda>w.
    if w_mode w = ByteMode then cursor_write_all bs w else write_bits bs (length bs * 8) w)"

definition write_bool :: "bool \<Rightarrow> wr" where
  "write_bool v = thenE (tag_type BoolType) (\<lambda>w.
    if w_mode w = ByteMode then cursor_write_all [if v then 1 else 0] w
    else write_bits (if v then [0x01] else [0x00]) 1 w)"

definition write_i8 :: "i8 \<Rightarrow> wr" where
  "write_i8 v = write_scalar SignedChar8Type (to_le v)"

definition write_u8 :: "u8 \<Rightarrow> wr" where
  "write_u8 v = write_scalar UnsignedChar8Type (to_le v)"

definition write_i16 :: "i16 \<Rightarrow> wr" where
  "write_i16 v = write_scalar SignedInteger16Type (to_le v)"

definition write_u16 :: "u16 \<Rightarrow> wr" where
  "write_u16 v = write_scalar UnsignedInteger16Type (to_le v)"

definition write_i32 :: "i32 \<Rightarrow> wr" where
  "write_i32 v = write_scalar SignedInteger32Type (to_le v)"

definition write_u32 :: "u32 \<Rightarrow> wr" where
  "write_u32 v = write_scalar UnsignedInteger32Type (to_le v)"

definition write_i64 :: "i64 \<Rightarrow> wr" where
  "write_i64 v = write_scalar SignedInteger64Type (to_le v)"

definition write_u64 :: "u64 \<Rightarrow> wr" where
  "write_u64 v = write_scalar UnsignedInteger64Type (to_le v)"

definition write_f32 :: "f32 \<Rightarrow> wr" where
  "write_f32 v = write_scalar Float32Type (to_le v)"

definition write_f64 :: "f64 \<Rightarrow> wr" where
  "write_f64 v = write_scalar Float64Type (to_le v)"

definition write_str :: "bytes \<Rightarrow> wr" where
  "write_str v = thenE (tag_type SignedChar8StringType) (\<lambda>w.
    if w_mode w = BitMode
    then thenE (write_bits v (length v * 8)) (write_bits [0] 8) w
    else thenE (cursor_write_all v) (cursor_write_all [0]) w)"

text \<open>The length of a blob is cut to 32 bits (\<open>value.len() as u32\<close>).\<close>

definition write_blob :: "bytes \<Rightarrow> wr" where
  "write_blob v = thenE (tag_type BlobType) (thenE (write_u32 (of_nat (length v))) (\<lambda>w.
    if w_mode w = BitMode then write_bits v (length v * 8) w else cursor_write_all v w))"

section \<open>Arrays\<close>

definition write_array_num_elements :: "nat \<Rightarrow> wr" where
  "write_array_num_elements n =
    thenE (write_data_type (no_array UnsignedInteger32Type))
    (thenE (cursor_write_all (to_le (0 :: u32)))
           (cursor_write_all (to_le (of_nat n :: u32))))"

definition write_array :: "BdDataType \<Rightarrow> ('a \<Rightarrow> wr) \<Rightarrow> 'a list \<Rightarrow> wr" where
  "write_array t element v = (\<lambda>w.
    if w_mode w \<noteq> ByteMode then (Inl (ModeError ByteMode (w_mode w)), w)
    else thenE (write_data_type (array t))
          (thenE (write_array_num_elements (length v)) (foreachE element v)) w)"

definition cursor_write_le :: "'a::len word \<Rightarrow> wr" where
  "cursor_write_le v = cursor_write_all (to_le v)"

definition write_i8_array :: "i8 list \<Rightarrow> wr" where
  "write_i8_array = write_array SignedChar8Type cursor_write_le"

definition write_u8_array :: "u8 list \<Rightarrow> wr" where
  "write_u8_array = write_array UnsignedChar8Type cursor_write_le"

definition write_i16_array :: "i16 list \<Rightarrow> wr" where
  "write_i16_array = write_array SignedInteger16Type cursor_write_le"

definition write_u16_array :: "u16 list \<Rightarrow> wr" where
  "write_u16_array = write_array UnsignedInteger16Type cursor_write_le"

definition write_i32_array :: "i32 list \<Rightarrow> wr" where
  "write_i32_array = write_array SignedInteger32Type cursor_write_le"

definition write_u32_array :: "u32 list \<Rightarrow> wr" where
  "write_u32_array = write_array UnsignedInteger32Type cursor_write_le"

definition write_i64_array :: "i64 list \<Rightarrow> wr" where
  "write_i64_array = write_array SignedInteger64Type cursor_write_le"

definition write_u64_array :: "u64 list \<Rightarrow> wr" where
  "write_u64_array = write_array UnsignedInteger64Type cursor_write_le"

definition write_str_array :: "bytes list \<Rightarrow> wr" where
  "write_str_array =
    write_array SignedChar8StringType (\<lambda>el. thenE (cursor_write_all el) (cursor_write_all [0]))"

section \<open>The stream of bits\<close>

definition writer_inv :: "writer \<Rightarrow> bool" where
  "writer_inv w \<longleftrightarrow> 1 \<le> w_bit_offset w \<and> w_bit_offset w \<le> 8
    \<and> (w_bit_offset w < 8 \<longrightarrow> w_mode w = BitMode
        \<and> (\<forall>i \<in> {w_bit_offset w..<8}. \<not> bit (w_last_byte w) i))"

definition wbits :: "writer \<Rightarrow> bool list" where
  "wbits w = bytes_bits (w_out w)
    @ (if w_bit_offset w < 8 then take (w_bit_offset w) (bits_of (w_last_byte w)) else [])"

text \<open>\<open>adds bs w w'\<close>: from \<open>w\<close> to \<open>w'\<close> the bits \<open>bs\<close> have been written.\<close>

definition adds :: "bool list \<Rightarrow> writer \<Rightarrow> writer \<Rightarrow> bool" where
  "adds bs w w' \<longleftrightarrow> writer_inv w' \<and> wbits w' = wbits w @ bs
    \<and> w_mode w' = w_mode w \<and> w_type_checked w' = w_type_checked w"

lemma adds_trans: "adds as w w' \<Longrightarrow> adds bs w' w'' \<Longrightarrow> adds (as @ bs) w w''"
  by (simp add: adds_def)

lemma adds_Nil: "writer_inv w \<Longrightarrow> adds [] w w"
  by (simp add: adds_def)

lemma writer_inv_new [simp]: "writer_inv writer_new"
  by (simp add: writer_inv_def writer_new_def)

lemma wbits_new [simp]: "wbits writer_new = []"
  by (simp add: wbits_def writer_new_def)

lemma bit_or_pushed:
  assumes "k \<le> 8" "\<forall>i \<in> {off..<8}. \<not> bit l i" "i < 8"
  shows "bit (l OR push_bit off b :: u8) i \<longleftrightarrow> (if i < off then bit l i else bit b (i - off))"
  using assms by (auto simp: bit_simps)

lemma write_bits_step_adds:
  assumes inv: "writer_inv w" and mode: "w_mode w = BitMode" and k: "0 < k" "k \<le> 8"
    and clear: "\<forall>i \<in> {k..<8}. \<not> bit b i"
  shows "adds (take k (bits_of b)) w (write_bits_step b k w)"
proof (cases "w_bit_offset w < 8")
  case False
  then have "w_bit_offset w = 8" using inv by (simp add: writer_inv_def)
  then show ?thesis using inv mode k clear
    by (cases "k = 8") (auto simp: write_bits_step_def adds_def writer_inv_def wbits_def)
next
  case True
  let ?off = "w_bit_offset w"
  let ?last = "w_last_byte w OR push_bit ?off b"
  have off: "1 \<le> ?off" and low: "\<forall>i \<in> {?off..<8}. \<not> bit (w_last_byte w) i"
    using inv True by (auto simp: writer_inv_def)
  have joined: "take m (bits_of ?last)
    = take ?off (bits_of (w_last_byte w)) @ take (m - ?off) (bits_of b)" if "?off \<le> m" "m \<le> 8" for m
    using that low True by (intro nth_equalityI) (auto simp: nth_append bit_simps)
  consider "?off + k > 8" | "?off + k = 8" | "?off + k < 8" by linarith
  then show ?thesis
  proof cases
    case 1
    have rest: "take (?off + k - 8) (bits_of (drop_bit (8 - ?off) b)) = drop (8 - ?off) (take k (bits_of b))"
      using 1 k True by (intro nth_equalityI) (auto simp: bit_simps)
    have "bits_of ?last @ drop (8 - ?off) (take k (bits_of b))
      = take ?off (bits_of (w_last_byte w)) @ take k (bits_of b)"
      using joined [of 8] True 1 append_take_drop_id [of "8 - ?off" "take k (bits_of b)"]
      by (simp add: min_absorb1)
    moreover have "\<not> bit b (8 + i - ?off)" if "?off + k - 8 \<le> i" "i < 8" for i
      using clear bit_u8_less [of b "8 + i - ?off"] that 1 True by auto
    ultimately show ?thesis using 1 True off k mode rest
      by (auto simp: write_bits_step_def Let_def adds_def writer_inv_def wbits_def bit_simps)
  next
    case 2
    then have "k = 8 - ?off" by simp
    then show ?thesis using 2 True off k mode joined [of 8]
      by (simp add: write_bits_step_def Let_def adds_def writer_inv_def wbits_def)
  next
    case 3
    moreover have "\<not> bit b (i - ?off)" if "?off + k \<le> i" "i < 8" for i
      using bspec [OF clear, of "i - ?off"] that by fastforce
    ultimately show ?thesis using True off k mode joined [of "?off + k"] low
      by (auto simp: write_bits_step_def Let_def adds_def writer_inv_def wbits_def bit_simps)
  qed
qed

lemma masked_byte:
  assumes "0 < k" "k < 8"
  shows "take k (bits_of (b AND drop_bit (8 - k) 0xFF)) = take k (bits_of b)"
    and "\<forall>i \<in> {k..<8}. \<not> bit (b AND drop_bit (8 - k) 0xFF) i"
proof -
  have ones: "(0xFF :: u8) = mask 8" by (simp add: mask_eq_exp_minus_1)
  show "take k (bits_of (b AND drop_bit (8 - k) 0xFF)) = take k (bits_of b)"
    unfolding ones using assms by (intro nth_equalityI) (auto simp: bit_simps)
  show "\<forall>i \<in> {k..<8}. \<not> bit (b AND drop_bit (8 - k) 0xFF) i"
    unfolding ones using assms by (auto simp: bit_simps)
qed

lemma write_bits_loop_adds:
  assumes "writer_inv w" "w_mode w = BitMode" "n \<le> 8 * length bs"
  shows "\<exists>w'. write_bits_loop bs n w = (Inr (), w') \<and> adds (take n (bytes_bits bs)) w w'"
  using assms
proof (induction bs arbitrary: n w)
  case Nil
  then show ?case by (simp add: write_bits_loop.simps adds_Nil)
next
  case (Cons b bs)
  consider "n = 0" | "0 < n" "n < 8" | "8 \<le> n" by linarith
  then show ?case
  proof cases
    case 1
    then show ?thesis using Cons.prems by (simp add: write_bits_loop.simps adds_Nil)
  next
    case 2
    let ?b = "b AND drop_bit (8 - n) 0xFF"
    note mb = masked_byte [OF 2, of b]
    have "adds (take n (bits_of ?b)) w (write_bits_step ?b n w)"
      using write_bits_step_adds [OF Cons.prems(1,2) 2(1) _ mb(2)] 2 by simp
    then show ?thesis using 2 unfolding mb(1)
      by (simp add: write_bits_loop.simps [of "b # bs"] write_bits_loop.simps [of bs])
  next
    case 3
    have a: "adds (bits_of b) w (write_bits_step b 8 w)"
      using write_bits_step_adds [OF Cons.prems(1,2), of 8 b] by simp
    have left: "n - 8 \<le> 8 * length bs" using Cons.prems(3) 3 by simp
    from a obtain w2 where "write_bits_loop bs (n - 8) (write_bits_step b 8 w) = (Inr (), w2)"
      and a2: "adds (take (n - 8) (bytes_bits bs)) (write_bits_step b 8 w) w2"
      using Cons.IH [of "write_bits_step b 8 w" "n - 8"] left Cons.prems(2) by (auto simp: adds_def)
    then show ?thesis using 3 adds_trans [OF a a2]
      by (simp add: write_bits_loop.simps [of "b # bs"])
  qed
qed

lemma write_bits_adds:
  assumes "writer_inv w" "w_mode w = BitMode" "n \<le> 8 * length bs"
  obtains w' where "write_bits bs n w = (Inr (), w')" "adds (take n (bytes_bits bs)) w w'"
  using write_bits_loop_adds [OF assms] assms that by (auto simp: write_bits_def monad_simps)

text \<open>In byte mode nothing is pending, so whole bytes can be appended.\<close>

lemma cursor_write_all_adds:
  assumes "writer_inv w" "w_mode w = ByteMode"
  shows "\<exists>w'. cursor_write_all bs w = (Inr (), w') \<and> adds (bytes_bits bs) w w'"
  using assms by (auto simp: cursor_write_all_def monad_simps adds_def writer_inv_def wbits_def)

text \<open>Flushing pads the pending bits to a byte with zeros.\<close>

lemma flush_adds:
  assumes "writer_inv w"
  obtains w' where "flush w = (Inr (), w')" "w_bit_offset w' = 8"
    "adds (replicate (8 - w_bit_offset w) False) w w'"
proof (cases "w_bit_offset w < 8")
  case False
  then show thesis using assms that by (auto simp: flush_def adds_def writer_inv_def)
next
  case True
  have "bits_of (w_last_byte w)
    = take (w_bit_offset w) (bits_of (w_last_byte w)) @ replicate (8 - w_bit_offset w) False"
    using assms True by (intro nth_equalityI) (auto simp: nth_append writer_inv_def)
  then show thesis using assms True that [of "w\<lparr>w_out := w_out w @ [w_last_byte w], w_bit_offset := 8\<rparr>"]
    by (simp add: flush_def adds_def writer_inv_def wbits_def)
qed

lemma wbits_flushed: "w_bit_offset w = 8 \<Longrightarrow> wbits w = bytes_bits (w_out w)"
  by (simp add: wbits_def)

section \<open>Properties\<close>

text \<open>
  C2. \<open>write_bits\<close> on a writer in bit mode appends exactly the first \<open>n\<close> bits of the source to
  the stream, whatever the bit offset it starts from, and keeps the writer's invariant: the
  bits above the offset of the pending byte are clear. Flushing then completes the pending
  byte with zeros, and the bytes of the buffer are the stream.
\<close>

theorem write_bits_spec:
  assumes "writer_inv w" "w_mode w = BitMode" "n \<le> 8 * length bs"
  shows "\<exists>w1 w2. write_bits bs n w = (Inr (), w1) \<and> adds (take n (bytes_bits bs)) w w1
    \<and> flush w1 = (Inr (), w2)
    \<and> bytes_bits (w_out w2)
        = wbits w @ take n (bytes_bits bs) @ replicate (8 - w_bit_offset w1) False"
proof -
  obtain w1 where 1: "write_bits bs n w = (Inr (), w1)" "adds (take n (bytes_bits bs)) w w1"
    using write_bits_adds [OF assms] .
  then have "writer_inv w1" by (simp add: adds_def)
  then obtain w2 where "flush w1 = (Inr (), w2)" "w_bit_offset w2 = 8"
    "adds (replicate (8 - w_bit_offset w1) False) w1 w2" using flush_adds by metis
  then show ?thesis using 1 wbits_flushed [of w2] by (auto simp: adds_def)
qed

definition example_writer :: writer where
  "example_writer = writer_new\<lparr>w_mode := BitMode, w_out := [0x12], w_bit_offset := 5,
     w_last_byte := 0x15\<rparr>"

theorem write_bits_spec_witness:
  "\<exists>w1 w2. write_bits [0xFF, 0x01] 9 example_writer = (Inr (), w1)
    \<and> adds (take 9 (bytes_bits [0xFF, 0x01])) example_writer w1
    \<and> flush w1 = (Inr (), w2)
    \<and> bytes_bits (w_out w2) = wbits example_writer @ take 9 (bytes_bits [0xFF, 0x01])
        @ replicate (8 - w_bit_offset w1) False"
  by (rule write_bits_spec)
    (auto simp: example_writer_def writer_new_def writer_inv_def atLeastLessThan_nat_numeral)

end
