(* ===== verification/Codec.thy ===== *)
theory Codec
  imports Bit_Stream Writer
begin

text \<open>
  The contract between the writer and the reader. A codec is a wire format together with an
  operation that appends the format of a value and one that consumes it; the locales state
  the two promises, and in a codec what is written is read back. The operations of the
  reader and the writer on scalars, strings and blobs are codecs in both stream modes, with
  and without type checks. The structures of the protocol are built from them with
  \<open>reads_bind\<close> and \<open>writes_then\<close>.
\<close>

section \<open>Promises\<close>

definition reads :: "StreamMode \<Rightarrow> bool \<Rightarrow> bool list \<Rightarrow> 'a rd \<Rightarrow> 'a \<Rightarrow> bool" where
  "reads md tc bs m v \<longleftrightarrow> (\<forall>r rest. reader_inv r \<and> \<not> r_has_data_type_cached r
     \<and> r_mode r = md \<and> r_type_checked r = tc \<and> rbits r = bs @ rest
     \<longrightarrow> (\<exists>r'. m r = (Inr v, r') \<and> takes (length bs) r r'))"

definition writes :: "StreamMode \<Rightarrow> bool \<Rightarrow> bool list \<Rightarrow> wr \<Rightarrow> bool" where
  "writes md tc bs m \<longleftrightarrow> (\<forall>w. writer_inv w \<and> w_mode w = md \<and> w_type_checked w = tc
     \<longrightarrow> (\<exists>w'. m w = (Inr (), w') \<and> adds bs w w'))"

lemma readsI:
  assumes "\<And>r rest. reader_inv r \<Longrightarrow> \<not> r_has_data_type_cached r \<Longrightarrow> r_mode r = md \<Longrightarrow>
    r_type_checked r = tc \<Longrightarrow> rbits r = bs @ rest \<Longrightarrow>
    \<exists>r'. m r = (Inr v, r') \<and> takes (length bs) r r'"
  shows "reads md tc bs m v"
  using assms by (simp add: reads_def)

lemma readsE:
  assumes "reads md tc bs m v" "reader_inv r" "\<not> r_has_data_type_cached r" "r_mode r = md"
    "r_type_checked r = tc" "rbits r = bs @ rest"
  obtains r' where "m r = (Inr v, r')" "takes (length bs) r r'" "rbits r' = rest"
    "reader_inv r'" "r_frame r' = r_frame r"
proof -
  obtain r' where "m r = (Inr v, r')" and t: "takes (length bs) r r'"
    using assms unfolding reads_def by blast
  then show thesis using assms(6) that [of r'] by (simp add: takes_def)
qed

lemma writesE:
  assumes "writes md tc bs m" "writer_inv w" "w_mode w = md" "w_type_checked w = tc"
  obtains w' where "m w = (Inr (), w')" "adds bs w w'"
  using assms unfolding writes_def by blast

lemma reads_return: "reads md tc [] (returnE v) v"
  by (rule readsI) (auto simp: monad_simps takes_0)

lemma reads_bind:
  assumes m: "reads md tc as m x" and f: "reads md tc bs (f x) y"
  shows "reads md tc (as @ bs) (bindE m f) y"
proof (rule readsI)
  fix r rest
  assume r: "reader_inv r" "\<not> r_has_data_type_cached r" "r_mode r = md" "r_type_checked r = tc"
    and bits: "rbits r = (as @ bs) @ rest"
  have bits': "rbits r = as @ (bs @ rest)" using bits by simp
  obtain r1 where 1: "m r = (Inr x, r1)" "takes (length as) r r1" "rbits r1 = bs @ rest"
      "reader_inv r1" "r_frame r1 = r_frame r"
    using readsE [OF m r bits'] .
  note frame = r_frameD [OF 1(5)]
  obtain r2 where 2: "f x r1 = (Inr y, r2)" "takes (length bs) r1 r2"
    using readsE [OF f 1(4) _ _ _ 1(3)] r frame by auto
  show "\<exists>r'. bindE m f r = (Inr y, r') \<and> takes (length (as @ bs)) r r'"
    using 2 takes_trans [OF 1(2) 2(2)] by (auto simp: bindE_def 1(1))
qed

lemma reads_bind_return: "reads md tc bs m x \<Longrightarrow> f x = y \<Longrightarrow> reads md tc bs (bindE m (\<lambda>x. returnE (f x))) y"
  using reads_bind [of md tc bs m x "[]" "\<lambda>x. returnE (f x)"] reads_return [of md tc "f x"] by simp

lemma reads_then: "reads md tc as m () \<Longrightarrow> reads md tc bs n y \<Longrightarrow> reads md tc (as @ bs) (thenE m n) y"
  by (simp add: thenE_def reads_bind)

lemma reads_ensure: "b \<Longrightarrow> reads md tc [] (ensureE b e) ()"
  by (rule readsI) (auto simp: monad_simps takes_0)

lemma reads_state:
  assumes "\<And>r. r_mode r = md \<Longrightarrow> r_type_checked r = tc \<Longrightarrow> m r = n r" "reads md tc bs n v"
  shows "reads md tc bs m v"
  using assms by (simp add: reads_def)

lemma reads_repeat:
  assumes "list_all2 (\<lambda>bs v. reads md tc bs m v) bss vs"
  shows "reads md tc (concat bss) (repeatE (length vs) m) vs"
  using assms
  by (induction rule: list_all2_induct)
    (auto intro: reads_return reads_bind reads_bind_return)

lemma writes_then: "writes md tc as m \<Longrightarrow> writes md tc bs n \<Longrightarrow> writes md tc (as @ bs) (thenE m n)"
  unfolding writes_def by (fastforce simp: thenE_ok adds_def intro: adds_trans)

lemma writes_return: "writes md tc [] (returnE ())"
  by (simp add: writes_def monad_simps adds_Nil)

lemma writes_state:
  assumes "\<And>w. w_mode w = md \<Longrightarrow> w_type_checked w = tc \<Longrightarrow> m w = n w" "writes md tc bs n"
  shows "writes md tc bs m"
  using assms by (simp add: writes_def)

lemma writes_foreach:
  assumes "\<And>v. v \<in> set vs \<Longrightarrow> writes md tc (enc v) (f v)"
  shows "writes md tc (concat (map enc vs)) (foreachE f vs)"
  using assms by (induction vs) (auto intro: writes_return writes_then)

section \<open>The interface\<close>

type_synonym 'a wire = "StreamMode \<Rightarrow> bool \<Rightarrow> 'a \<Rightarrow> bool list"

locale encoder =
  fixes enc :: "'a wire" and ok :: "StreamMode \<Rightarrow> 'a \<Rightarrow> bool" and wr :: "'a \<Rightarrow> wr"
  assumes writes: "ok md v \<Longrightarrow> writes md tc (enc md tc v) (wr v)"

locale decoder =
  fixes enc :: "'a wire" and ok :: "StreamMode \<Rightarrow> 'a \<Rightarrow> bool" and rd :: "'a rd"
  assumes reads: "ok md v \<Longrightarrow> reads md tc (enc md tc v) rd v"

locale codec = encoder enc ok wr + decoder enc ok rd
  for enc :: "'a wire" and ok :: "StreamMode \<Rightarrow> 'a \<Rightarrow> bool" and wr :: "'a \<Rightarrow> wr" and rd :: "'a rd"

text \<open>A writer and a reader at the beginning of a stream in mode \<open>md\<close>.\<close>

definition writer_in :: "StreamMode \<Rightarrow> bool \<Rightarrow> writer" where
  "writer_in md tc = writer_new\<lparr>w_mode := md, w_type_checked := tc\<rparr>"

definition reader_in :: "StreamMode \<Rightarrow> bool \<Rightarrow> bytes \<Rightarrow> reader" where
  "reader_in md tc bs = (reader_new bs)\<lparr>r_mode := md, r_type_checked := tc\<rparr>"

lemma writer_in_props [simp]:
  "writer_inv (writer_in md tc)" "w_mode (writer_in md tc) = md"
  "w_type_checked (writer_in md tc) = tc" "wbits (writer_in md tc) = []"
  by (simp_all add: writer_in_def writer_new_def writer_inv_def wbits_def)

lemma reader_in_props [simp]:
  "reader_inv (reader_in md tc bs)" "r_mode (reader_in md tc bs) = md"
  "r_type_checked (reader_in md tc bs) = tc" "rbits (reader_in md tc bs) = bytes_bits bs"
  "\<not> r_has_data_type_cached (reader_in md tc bs)"
  by (simp_all add: reader_in_def reader_new_def reader_inv_def rbits_def pending_bits_def
      cursor_rest_def)

context codec
begin

text \<open>What is written into a fresh stream and flushed reads back, and only padding is left.\<close>

lemma roundtrip:
  assumes "ok md v"
  shows "\<exists>w. thenE (wr v) flush (writer_in md tc) = (Inr (), w)
    \<and> (\<exists>r. rd (reader_in md tc (w_out w)) = (Inr v, r)
          \<and> length (rbits r) < 8 \<and> True \<notin> set (rbits r))"
proof -
  obtain w1 where w1: "wr v (writer_in md tc) = (Inr (), w1)"
      and a1: "adds (enc md tc v) (writer_in md tc) w1"
    using writesE [OF writes [OF assms], of "writer_in md tc" tc] by auto
  obtain w2 where w2: "flush w1 = (Inr (), w2)" "w_bit_offset w2 = 8"
      and a2: "adds (replicate (8 - w_bit_offset w1) False) w1 w2"
    using flush_adds [of w1] a1 by (auto simp: adds_def)
  have bits: "rbits (reader_in md tc (w_out w2))
    = enc md tc v @ replicate (8 - w_bit_offset w1) False"
    using a1 a2 wbits_flushed [OF w2(2)] by (simp add: adds_def)
  obtain r where "rd (reader_in md tc (w_out w2)) = (Inr v, r)"
      "rbits r = replicate (8 - w_bit_offset w1) False"
    by (rule readsE [OF reads [OF assms] _ _ _ _ bits]) auto
  moreover have "1 \<le> w_bit_offset w1" using a1 by (simp add: adds_def writer_inv_def)
  ultimately show ?thesis using w2(1) w1 by (auto simp: thenE_def bindE_def)
qed

lemma enc_inj:
  assumes "ok md v" "ok md v'" "enc md tc v @ rest = enc md tc v' @ rest'"
    and bytes: "8 dvd length (enc md tc v @ rest)"
  shows "v = v'"
proof -
  have bits: "rbits (reader_in md tc (pack (enc md tc v @ rest))) = enc md tc v @ rest"
    using bytes by (simp add: bytes_bits_pack)
  obtain r where "rd (reader_in md tc (pack (enc md tc v @ rest))) = (Inr v, r)"
    by (rule readsE [OF reads [OF assms(1)] _ _ _ _ bits]) auto
  moreover obtain r' where "rd (reader_in md tc (pack (enc md tc v @ rest))) = (Inr v', r')"
    by (rule readsE [OF reads [OF assms(2)] _ _ _ _ bits [unfolded assms(3)]])
      (auto simp: assms(3))
  ultimately show ?thesis by simp
qed

end

end
