(* ===== verification/Wire_Values.thy ===== *)
theory Wire_Values
  imports Codec
begin

text \<open>
  The values of the protocol are codecs: booleans, integers, floats, strings and blobs, in
  bit mode and in byte mode, type-checked or not. The wire format of each is written down
  once, as a list of bits; the interpretations at the end discharge the contract of the
  theory Codec for the operations of the reader and the writer.
\<close>

section \<open>Formats\<close>

definition tag_bits :: "StreamMode \<Rightarrow> BdDataType \<Rightarrow> bool list" where
  "tag_bits md t = (if md = ByteMode then bits_of (data_type_to_u8 t)
    else take 5 (bits_of (data_type_to_u8 t)))"

definition tagged :: "StreamMode \<Rightarrow> bool \<Rightarrow> BdDataType \<Rightarrow> bool list \<Rightarrow> bool list" where
  "tagged md tc t bs = (if tc then tag_bits md t else []) @ bs"

definition enc_scalar :: "BdDataType \<Rightarrow> ('a::len word) wire" where
  "enc_scalar t md tc v = tagged md tc t (bytes_bits (to_le v))"

definition enc_bool :: "bool wire" where
  "enc_bool md tc v =
    tagged md tc BoolType (if md = ByteMode then bits_of (if v then 1 else 0) else [v])"

definition enc_str :: "bytes wire" where
  "enc_str md tc v = tagged md tc SignedChar8StringType (bytes_bits (v @ [0]))"

definition enc_blob :: "bytes wire" where
  "enc_blob md tc v = tagged md tc BlobType
    (enc_scalar UnsignedInteger32Type md tc (of_nat (length v) :: u32) @ bytes_bits v)"

definition any_value :: "StreamMode \<Rightarrow> 'a \<Rightarrow> bool" where
  "any_value md v \<longleftrightarrow> True"

text \<open>A string the format can carry: valid UTF-8 without a zero byte.\<close>

definition str_ok :: "StreamMode \<Rightarrow> bytes \<Rightarrow> bool" where
  "str_ok md v \<longleftrightarrow> utf8_valid v \<and> 0 \<notin> set v"

definition blob_ok :: "StreamMode \<Rightarrow> bytes \<Rightarrow> bool" where
  "blob_ok md v \<longleftrightarrow> length v < 2 ^ 32"

section \<open>Reading\<close>

lemma bytes_bits_inject [simp]: "bytes_bits as = bytes_bits bs \<longleftrightarrow> as = bs"
  by (metis pack_bytes_bits)

lemma bytes_bits_prefix:
  assumes "bytes_bits cs = bytes_bits bs @ rest"
  shows "\<exists>ds. cs = bs @ ds \<and> rest = bytes_bits ds"
proof -
  have "bytes_bits (take (length bs) cs) = take (8 * length bs) (bytes_bits cs)"
    by (simp add: take_bytes_bits)
  then have "take (length bs) cs = bs" by (simp add: assms)
  then have "cs = bs @ drop (length bs) cs" by (metis append_take_drop_id)
  then show ?thesis using assms by (metis bytes_bits_append same_append_eq)
qed

lemma rbits_byte_mode: "r_mode r = ByteMode \<Longrightarrow> rbits r = bytes_bits (cursor_rest r)"
  by (simp add: rbits_def pending_bits_def)

lemma cursor_prefix:
  assumes "r_mode r = ByteMode" "rbits r = bytes_bits bs @ rest"
  obtains ds where "cursor_rest r = bs @ ds"
  using bytes_bits_prefix [of "cursor_rest r" bs rest] assms by (auto simp: rbits_byte_mode)

lemma takes_bytes:
  assumes "reader_inv r" "r_mode r = ByteMode" "cursor_rest r = bs @ ds"
  shows "takes (8 * length bs) r (r\<lparr>r_pos := r_pos r + length bs\<rparr>)"
proof -
  let ?r = "r\<lparr>r_pos := r_pos r + length bs\<rparr>"
  have "cursor_rest ?r = ds" using assms(3) by simp
  moreover have "length (drop (r_pos r) (r_buf r)) = length bs + length ds"
    using assms(3) by (simp only: cursor_rest_def length_append)
  ultimately show ?thesis using assms
    by (auto simp: takes_def reader_inv_def rbits_byte_mode)
qed

lemma reads_exact: "reads ByteMode tc (bytes_bits bs) (cursor_read_exact (length bs)) bs"
proof (rule readsI)
  fix r rest
  assume r: "reader_inv r" "r_mode r = ByteMode" "rbits r = bytes_bits bs @ rest"
  obtain ds where ds: "cursor_rest r = bs @ ds" using cursor_prefix [OF r(2,3)] .
  show "\<exists>r'. cursor_read_exact (length bs) r = (Inr bs, r')
      \<and> takes (length (bytes_bits bs)) r r'"
    using takes_bytes [OF r(1,2) ds] ds by (simp add: cursor_read_exact_ok)
qed

lemma reads_cursor: "reads ByteMode tc (bytes_bits bs)
  (bindE (cursor_read (length bs)) (\<lambda>got. thenE (ensureE (length got = length bs) e) (returnE got))) bs"
proof (rule readsI)
  fix r rest
  assume r: "reader_inv r" "r_mode r = ByteMode" "rbits r = bytes_bits bs @ rest"
  obtain ds where ds: "cursor_rest r = bs @ ds" using cursor_prefix [OF r(2,3)] .
  show "\<exists>r'. bindE (cursor_read (length bs))
      (\<lambda>got. thenE (ensureE (length got = length bs) e) (returnE got)) r = (Inr bs, r')
      \<and> takes (length (bytes_bits bs)) r r'"
    using takes_bytes [OF r(1,2) ds] ds by (simp add: cursor_read_def bindE_def monad_simps)
qed

lemma reads_bits:
  assumes "m = (length bs + 7) div 8"
  shows "reads BitMode tc bs (read_bits (replicate m 0) (length bs)) (pack bs)"
proof (rule readsI)
  fix r rest
  assume r: "reader_inv r" "r_mode r = BitMode" "rbits r = bs @ rest"
  then have "length bs \<le> length (rbits r)" by simp
  from read_bits_ok [OF r(1,2) this assms] obtain r' where
    "read_bits (replicate m 0) (length bs) r = (Inr (pack (take (length bs) (rbits r))), r')"
    "takes (length bs) r r'" .
  then show "\<exists>r'. read_bits (replicate m 0) (length bs) r = (Inr (pack bs), r')
      \<and> takes (length bs) r r'"
    using r(3) by simp
qed

lemma reads_bit_bytes: "reads BitMode tc (bytes_bits bs) (read_bits (replicate (length bs) 0) (length bs * 8)) bs"
  using reads_bits [of "length bs" "bytes_bits bs" tc] by (simp add: mult.commute)

lemma reads_u8_cursor: "reads ByteMode tc (bits_of b) cursor_read_u8 b"
  using reads_bind_return [OF reads_exact [of tc "[b]"], of hd b]
  by (simp add: cursor_read_u8_def)

lemma five_bits_back:
  assumes "t \<noteq> MaxType"
  shows "pack (take 5 (bits_of (data_type_to_u8 t))) = [data_type_to_u8 t]"
proof -
  have small: "data_type_to_u8 t < 32"
    using to_value_five_bits [of "no_array t"] assms by (simp add: no_array_def to_value_def)
  have "byte_of (take 5 (bits_of (data_type_to_u8 t))) = data_type_to_u8 t AND mask 5"
    using byte_in_pending [of 5 0 "data_type_to_u8 t"] by simp
  also have "\<dots> = data_type_to_u8 t"
    by (rule less_mask_eq) (use small in simp)
  finally show ?thesis using pack_step [of "take 5 (bits_of (data_type_to_u8 t))"]
    by simp
qed

lemma reads_tag:
  assumes "t \<noteq> MaxType"
  shows "reads md tc (tag_bits md t) read_data_type (no_array t)"
proof -
  have known: "lift_data_type (from_value (data_type_to_u8 t)) = returnE (no_array t)"
    using from_value_to_value [of "no_array t"] by (simp add: lift_data_type_def)
  show ?thesis
  proof (cases md)
    case ByteMode
    have "reads ByteMode tc (bits_of (data_type_to_u8 t) @ [])
        (bindE cursor_read_u8 (\<lambda>v. lift_data_type (from_value v))) (no_array t)"
      by (rule reads_bind [OF reads_u8_cursor]) (simp add: known reads_return)
    then show ?thesis using ByteMode by (auto simp: reads_def read_data_type_def tag_bits_def)
  next
    case BitMode
    have "reads BitMode tc (take 5 (bits_of (data_type_to_u8 t)) @ [])
        (bindE (read_bits [0] 5) (\<lambda>buf. lift_data_type (from_value (hd buf)))) (no_array t)"
    proof (rule reads_bind)
      show "reads BitMode tc (take 5 (bits_of (data_type_to_u8 t))) (read_bits [0] 5)
          [data_type_to_u8 t]"
        using reads_bits [of 1 "take 5 (bits_of (data_type_to_u8 t))" tc] five_bits_back [OF assms]
        by simp
    qed (simp add: known reads_return)
    then show ?thesis using BitMode by (auto simp: reads_def read_data_type_def tag_bits_def)
  qed
qed

lemma reads_expect:
  assumes "t \<noteq> MaxType"
  shows "reads md tc (if tc then tag_bits md t else []) (expect_type t) ()"
proof (cases tc)
  case True
  have "reads md tc (tag_bits md t @ []) (bindE read_data_type
      (\<lambda>actual. ensureE (eq_non_array actual t) (UnexpectedDataType (no_array t) actual))) ()"
    by (rule reads_bind [OF reads_tag [OF assms]]) (simp add: reads_ensure)
  then show ?thesis using True by (simp add: reads_def expect_type_def)
next
  case False
  then show ?thesis by (auto simp: reads_def expect_type_def takes_0)
qed

lemma reads_scalar:
  assumes "t \<noteq> MaxType"
  shows "reads md tc (tagged md tc t (bytes_bits bs)) (read_scalar t (length bs)) bs"
  unfolding read_scalar_def tagged_def
proof (rule reads_then [OF reads_expect [OF assms]])
  show "reads md tc (bytes_bits bs) (\<lambda>r. if r_mode r = ByteMode then cursor_read_exact (length bs) r
      else read_bits (replicate (length bs) 0) (length bs * 8) r) bs"
    using reads_exact [of tc bs] reads_bit_bytes [of tc bs]
    by (cases md) (auto simp: reads_def)
qed

lemma reads_word:
  assumes "t \<noteq> MaxType" "n = LENGTH('a) div 8" "8 dvd LENGTH('a)"
  shows "reads md tc (enc_scalar t md tc (v :: 'a::len word))
    (bindE (read_scalar t n) (\<lambda>bs. returnE (from_le bs))) v"
  using reads_bind_return [OF reads_scalar [OF assms(1), of md tc "to_le v"], of from_le v] assms(2,3)
  by (simp add: enc_scalar_def)

lemma reads_bool_val: "reads md tc (enc_bool md tc v) read_bool v"
  unfolding read_bool_def enc_bool_def tagged_def
proof (rule reads_then [OF reads_expect])
  have bit: "reads BitMode tc [v] (bindE (read_bits [0] 1) (\<lambda>buf. returnE (hd buf > 0))) v"
  proof (rule reads_bind_return)
    show "reads BitMode tc [v] (read_bits [0] 1) (pack [v])"
      using reads_bits [of 1 "[v]" tc] by simp
    show "(0 < hd (pack [v])) = v"
      by (cases v) (simp_all add: pack_step byte_of_def word_less_nat_alt)
  qed
  have byte: "reads ByteMode tc (bits_of (if v then 1 else 0))
      (bindE cursor_read_u8 (\<lambda>b. returnE (b > 0))) v"
    by (rule reads_bind_return [OF reads_u8_cursor]) (simp add: word_less_nat_alt)
  show "reads md tc (if md = ByteMode then bits_of (if v then 1 else 0) else [v])
      (\<lambda>r. if r_mode r = ByteMode then bindE cursor_read_u8 (\<lambda>b. returnE (b > 0)) r
           else bindE (read_bits [0] 1) (\<lambda>buf. returnE (hd buf > 0)) r) v"
    using bit byte by (cases md) (auto simp: reads_def)
qed simp

section \<open>Strings and blobs read back\<close>

lemma reads_str_loop:
  assumes "0 \<notin> set v" "length v < fuel"
  shows "reads BitMode tc (bytes_bits (v @ [0])) (read_str_loop fuel acc) (acc @ v)"
  using assms
proof (induction v arbitrary: acc fuel)
  case Nil
  then obtain n where fuel: "fuel = Suc n" by (cases fuel) auto
  have "reads BitMode tc (bits_of 0 @ []) (read_str_loop fuel acc) acc"
    unfolding fuel read_str_loop.simps
    by (rule reads_bind [where x = "[0]"])
      (use reads_bit_bytes [of tc "[0]"] in \<open>simp_all add: reads_return\<close>)
  then show ?case by simp
next
  case (Cons b v)
  then obtain n where fuel: "fuel = Suc n" by (cases fuel) auto
  have "reads BitMode tc (bits_of b @ bytes_bits (v @ [0])) (read_str_loop fuel acc) (acc @ b # v)"
    unfolding fuel read_str_loop.simps
  proof (rule reads_bind)
    show "reads BitMode tc (bits_of b) (read_bits [0] 8) [b]"
      using reads_bit_bytes [of tc "[b]"] by simp
    show "reads BitMode tc (bytes_bits (v @ [0]))
        (if hd [b] = 0 then returnE acc else read_str_loop n (acc @ [b])) (acc @ b # v)"
      using Cons.IH [of n "acc @ [b]"] Cons.prems fuel by auto
  qed
  then show ?case by simp
qed

lemma until_inclusive_delimited:
  assumes "d \<notin> set v"
  shows "until_inclusive d (v @ d # ds) = v @ [d]"
proof -
  have "takeWhile (\<lambda>b. b \<noteq> d) (v @ d # ds) = v" using assms by (induction v) auto
  then show ?thesis by (simp add: until_inclusive_def)
qed

lemma reads_c_string:
  assumes "0 \<notin> set v" "utf8_valid v"
  shows "reads ByteMode tc (bytes_bits (v @ [0])) cursor_read_c_string v"
proof (rule readsI)
  fix r rest
  assume r: "reader_inv r" "r_mode r = ByteMode" "rbits r = bytes_bits (v @ [0]) @ rest"
  obtain ds where ds: "cursor_rest r = (v @ [0]) @ ds" using cursor_prefix [OF r(2,3)] .
  then show "\<exists>r'. cursor_read_c_string r = (Inr v, r') \<and> takes (length (bytes_bits (v @ [0]))) r r'"
    using takes_bytes [OF r(1,2) ds] assms until_inclusive_delimited [of 0 v ds]
    by (simp add: cursor_read_c_string_def cursor_read_until_def bindE_def from_utf8_def
        Let_def butlast_append monad_simps add.commute)
qed

text \<open>The reader's own fuel suffices: a string that is there has fewer bytes than the message.\<close>

lemma string_shorter_than_message:
  assumes "reader_inv r" "r_mode r = BitMode" "rbits r = bytes_bits (v @ [0]) @ rest"
  shows "length v < Suc (length (r_buf r) + 1)"
proof -
  have "8 * length v + 8 \<le> length (rbits r)" using assms(3) by simp
  also have "\<dots> \<le> 8 + 8 * length (r_buf r)"
    using length_pending_bits [OF assms(1,2)] by (simp add: rbits_def cursor_rest_def)
  finally show ?thesis by simp
qed

lemma reads_str_body:
  assumes "0 \<notin> set v" "utf8_valid v"
  shows "reads md tc (bytes_bits (v @ [0])) (\<lambda>r.
    if r_mode r = BitMode
    then bindE (read_str_loop (Suc (length (r_buf r) + 1)) []) from_utf8 r
    else cursor_read_c_string r) v"
proof (cases md)
  case ByteMode
  then show ?thesis using reads_c_string [OF assms] by (simp add: reads_def)
next
  case BitMode
  have known: "reads BitMode tc (bytes_bits (v @ [0]) @ []) (bindE (read_str_loop fuel []) from_utf8) v"
    if "length v < fuel" for fuel
    by (rule reads_bind [OF reads_str_loop [OF assms(1) that]])
      (use assms(2) in \<open>auto simp: from_utf8_def intro: reads_then [of _ _ "[]" _ "[]", simplified]
        reads_ensure reads_return\<close>)
  show ?thesis
  proof (rule readsI)
    fix r rest
    assume r: "reader_inv r" "\<not> r_has_data_type_cached r" "r_mode r = md" "r_type_checked r = tc"
      "rbits r = bytes_bits (v @ [0]) @ rest"
    have bits: "rbits r = (bytes_bits (v @ [0]) @ []) @ rest" and mode: "r_mode r = BitMode"
      using r(3,5) BitMode by simp_all
    have "length v < Suc (length (r_buf r) + 1)"
      using string_shorter_than_message [OF r(1) mode r(5)] .
    from readsE [OF known [OF this] r(1,2) mode r(4) bits] mode
    show "\<exists>r'. (if r_mode r = BitMode
        then bindE (read_str_loop (Suc (length (r_buf r) + 1)) []) from_utf8 r
        else cursor_read_c_string r) = (Inr v, r') \<and> takes (length (bytes_bits (v @ [0]))) r r'"
      by (auto simp del: read_str_loop.simps)
  qed
qed

lemma reads_str_val:
  assumes "str_ok md v"
  shows "reads md tc (enc_str md tc v) read_str v"
  unfolding read_str_def enc_str_def tagged_def
  by (rule reads_then [OF reads_expect reads_str_body]) (use assms in \<open>auto simp: str_ok_def\<close>)

lemma reads_blob_val:
  assumes "blob_ok md v"
  shows "reads md tc (enc_blob md tc v) read_blob v"
  unfolding read_blob_def enc_blob_def tagged_def
proof (rule reads_then [OF reads_expect], simp)
  let ?n = "of_nat (length v) :: u32"
  have n: "unat ?n = length v" using assms by (simp add: blob_ok_def unat_of_nat)
  show "reads md tc (enc_scalar UnsignedInteger32Type md tc ?n @ bytes_bits v)
    (bindE read_u32 (\<lambda>blob_size r. let n = unat blob_size
      in if r_mode r = BitMode then read_bits (replicate n 0) (n * 8) r
         else bindE (cursor_read n)
           (\<lambda>got. thenE (ensureE (length got = n) UnexpectedEndOfMessage) (returnE got)) r)) v"
  proof (rule reads_bind)
    show "reads md tc (enc_scalar UnsignedInteger32Type md tc ?n) read_u32 ?n"
      unfolding read_u32_def by (rule reads_word) simp_all
    show "reads md tc (bytes_bits v) (\<lambda>r. let n = unat ?n
      in if r_mode r = BitMode then read_bits (replicate n 0) (n * 8) r
         else bindE (cursor_read n)
           (\<lambda>got. thenE (ensureE (length got = n) UnexpectedEndOfMessage) (returnE got)) r) v"
      unfolding n Let_def using reads_bit_bytes [of tc v] reads_cursor [of tc v UnexpectedEndOfMessage]
      by (cases md) (auto simp: reads_def)
  qed
qed

section \<open>Writing\<close>

lemma writes_raw: "writes ByteMode tc (bytes_bits bs) (cursor_write_all bs)"
  by (simp add: writes_def cursor_write_all_adds)

lemma writes_bits:
  assumes "n \<le> 8 * length bs"
  shows "writes BitMode tc (take n (bytes_bits bs)) (write_bits bs n)"
  unfolding writes_def using assms by (meson write_bits_adds)

lemma writes_bit_bytes: "writes BitMode tc (bytes_bits bs) (write_bits bs (length bs * 8))"
  using writes_bits [of "length bs * 8" bs tc] by (simp add: mult.commute)

lemma writes_tag: "writes md tc (tag_bits md t) (write_data_type (no_array t))"
proof (cases md)
  case ByteMode
  then show ?thesis using writes_raw [of tc "[data_type_to_u8 t]"]
    by (auto simp: writes_def write_data_type_def tag_bits_def)
next
  case BitMode
  then show ?thesis using writes_bits [of 5 "[data_type_to_u8 t]" tc]
    by (auto simp: writes_def write_data_type_def tag_bits_def)
qed

lemma writes_tag_type: "writes md tc (if tc then tag_bits md t else []) (tag_type t)"
  using writes_tag [of md tc t] by (auto simp: writes_def tag_type_def adds_Nil)

lemma writes_body:
  "writes md tc (bytes_bits bs) (\<lambda>w. if w_mode w = ByteMode then cursor_write_all bs w
     else write_bits bs (length bs * 8) w)"
  using writes_raw [of tc bs] writes_bit_bytes [of tc bs] by (cases md) (auto simp: writes_def)

lemma writes_scalar: "writes md tc (tagged md tc t (bytes_bits bs)) (write_scalar t bs)"
  unfolding write_scalar_def tagged_def by (rule writes_then [OF writes_tag_type writes_body])

lemma writes_bool_val: "writes md tc (enc_bool md tc v) (write_bool v)"
  unfolding write_bool_def enc_bool_def tagged_def
proof (rule writes_then [OF writes_tag_type])
  have "take 1 (bits_of (if v then 1 else 0)) = [v]"
    by (rule nth_equalityI) (auto simp: bits_of_def)
  then have "writes BitMode tc [v] (write_bits (if v then [0x01] else [0x00]) 1)"
    using writes_bits [of 1 "if v then [0x01] else [0x00]" tc] by (cases v) auto
  then show "writes md tc (if md = ByteMode then bits_of (if v then 1 else 0) else [v])
    (\<lambda>w. if w_mode w = ByteMode then cursor_write_all [if v then 1 else 0] w
         else write_bits (if v then [0x01] else [0x00]) 1 w)"
    using writes_raw [of tc "[if v then 1 else 0]"] by (cases md) (auto simp: writes_def)
qed

lemma writes_word: "writes md tc (enc_scalar t md tc v) (write_scalar t (to_le v))"
  unfolding enc_scalar_def by (rule writes_scalar)

lemma writes_str_val: "writes md tc (enc_str md tc v) (write_str v)"
  unfolding write_str_def enc_str_def tagged_def
proof (rule writes_then [OF writes_tag_type])
  have "writes BitMode tc (bytes_bits v @ bytes_bits [0])
      (thenE (write_bits v (length v * 8)) (write_bits [0] 8))"
    using writes_bit_bytes [of tc "[0]"] by (intro writes_then writes_bit_bytes) simp
  moreover have "writes ByteMode tc (bytes_bits v @ bytes_bits [0])
      (thenE (cursor_write_all v) (cursor_write_all [0]))"
    by (intro writes_then writes_raw)
  ultimately show "writes md tc (bytes_bits (v @ [0])) (\<lambda>w. if w_mode w = BitMode
      then thenE (write_bits v (length v * 8)) (write_bits [0] 8) w
      else thenE (cursor_write_all v) (cursor_write_all [0]) w)"
    by (cases md) (auto simp: writes_def)
qed

lemma writes_blob_val: "writes md tc (enc_blob md tc v) (write_blob v)"
proof -
  have "writes md tc (bytes_bits v)
      (\<lambda>w. if w_mode w = BitMode then write_bits v (length v * 8) w else cursor_write_all v w)"
    by (rule writes_state [OF _ writes_body [of md tc v]]) (cases md; simp)
  then show ?thesis unfolding write_blob_def enc_blob_def tagged_def write_u32_def
    by (intro writes_then [OF writes_tag_type] writes_then [OF writes_word])
qed

section \<open>The values are codecs\<close>

interpretation bool_c: codec enc_bool any_value write_bool read_bool
  by unfold_locales (simp_all add: writes_bool_val reads_bool_val)

interpretation i8_c: codec "enc_scalar SignedChar8Type" any_value write_i8 read_i8
  by unfold_locales (simp_all add: write_i8_def read_i8_def writes_word reads_word)

interpretation u8_c: codec "enc_scalar UnsignedChar8Type" any_value write_u8 read_u8
  by unfold_locales (simp_all add: write_u8_def read_u8_def writes_word reads_word)

interpretation i16_c: codec "enc_scalar SignedInteger16Type" any_value write_i16 read_i16
  by unfold_locales (simp_all add: write_i16_def read_i16_def writes_word reads_word)

interpretation u16_c: codec "enc_scalar UnsignedInteger16Type" any_value write_u16 read_u16
  by unfold_locales (simp_all add: write_u16_def read_u16_def writes_word reads_word)

interpretation i32_c: codec "enc_scalar SignedInteger32Type" any_value write_i32 read_i32
  by unfold_locales (simp_all add: write_i32_def read_i32_def writes_word reads_word)

interpretation u32_c: codec "enc_scalar UnsignedInteger32Type" any_value write_u32 read_u32
  by unfold_locales (simp_all add: write_u32_def read_u32_def writes_word reads_word)

interpretation i64_c: codec "enc_scalar SignedInteger64Type" any_value write_i64 read_i64
  by unfold_locales (simp_all add: write_i64_def read_i64_def writes_word reads_word)

interpretation u64_c: codec "enc_scalar UnsignedInteger64Type" any_value write_u64 read_u64
  by unfold_locales (simp_all add: write_u64_def read_u64_def writes_word reads_word)

interpretation f32_c: codec "enc_scalar Float32Type" any_value write_f32 read_f32
  by unfold_locales (simp_all add: write_f32_def read_f32_def writes_word reads_word)

interpretation f64_c: codec "enc_scalar Float64Type" any_value write_f64 read_f64
  by unfold_locales (simp_all add: write_f64_def read_f64_def writes_word reads_word)

interpretation str_c: codec enc_str str_ok write_str read_str
  by unfold_locales (simp_all add: writes_str_val reads_str_val)

interpretation blob_c: codec enc_blob blob_ok write_blob read_blob
  by unfold_locales (simp_all add: writes_blob_val reads_blob_val)

section \<open>Properties\<close>

text \<open>\<open>roundtrips wr rd v\<close>: in either mode, type-checked or not, writing \<open>v\<close> into a fresh stream and
  flushing it succeeds, and reading the bytes gives \<open>v\<close> and leaves nothing but zero padding.\<close>

definition roundtrips :: "('a \<Rightarrow> wr) \<Rightarrow> 'a rd \<Rightarrow> 'a \<Rightarrow> bool" where
  "roundtrips wr rd v \<longleftrightarrow> (\<forall>md tc. \<exists>w. thenE (wr v) flush (writer_in md tc) = (Inr (), w)
    \<and> (\<exists>r. rd (reader_in md tc (w_out w)) = (Inr v, r)
          \<and> length (rbits r) < 8 \<and> True \<notin> set (rbits r)))"

lemma roundtripsI:
  assumes "\<And>md tc. \<exists>w. thenE (wr v) flush (writer_in md tc) = (Inr (), w)
    \<and> (\<exists>r. rd (reader_in md tc (w_out w)) = (Inr v, r)
          \<and> length (rbits r) < 8 \<and> True \<notin> set (rbits r))"
  shows "roundtrips wr rd v"
  using assms by (simp add: roundtrips_def)

lemma any_value [simp]: "any_value md v"
  by (simp add: any_value_def)

text \<open>
  C3. Every scalar is read back as it was written, in byte mode and in bit mode, with type
  tags and without: booleans, signed and unsigned integers of 8, 16, 32 and 64 bits, and
  the two floats, whose bit patterns are kept.
\<close>

theorem scalars_roundtrip:
  "roundtrips write_bool read_bool b
    \<and> roundtrips write_i8 read_i8 v8 \<and> roundtrips write_u8 read_u8 v8
    \<and> roundtrips write_i16 read_i16 v16 \<and> roundtrips write_u16 read_u16 v16
    \<and> roundtrips write_i32 read_i32 v32 \<and> roundtrips write_u32 read_u32 v32
    \<and> roundtrips write_i64 read_i64 v64 \<and> roundtrips write_u64 read_u64 v64
    \<and> roundtrips write_f32 read_f32 v32 \<and> roundtrips write_f64 read_f64 v64"
  by (intro conjI roundtripsI bool_c.roundtrip i8_c.roundtrip u8_c.roundtrip i16_c.roundtrip
      u16_c.roundtrip i32_c.roundtrip u32_c.roundtrip i64_c.roundtrip u64_c.roundtrip
      f32_c.roundtrip f64_c.roundtrip any_value)

text \<open>
  C4. Strings and blobs are read back as they were written, in both modes, with type tags and
  without. A string must be without zero bytes, which end it on the wire, and a blob
  shorter than the 32-bit length field can say.
\<close>

theorem str_blob_roundtrip:
  assumes "utf8_valid s" "0 \<notin> set s" "length b < 2 ^ 32"
  shows "roundtrips write_str read_str s \<and> roundtrips write_blob read_blob b"
  using assms
  by (intro conjI roundtripsI str_c.roundtrip blob_c.roundtrip) (simp_all add: str_ok_def blob_ok_def)

theorem str_blob_roundtrip_witness:
  "roundtrips write_str read_str [0x49, 0xC3, 0xA9] \<and> roundtrips write_blob read_blob [0, 1, 0xFF]"
  by (rule str_blob_roundtrip)
    (simp_all add: utf8_valid.simps utf8_char_len_def utf8_cont_def word_le_nat_alt word_less_nat_alt)

end
