(* ===== verification/ErrorCode.thy ===== *)
theory ErrorCode
  imports Errors
begin

text \<open>
  The result codes of the protocol (BdErrorCode in libbitdemon/src/messaging/mod.rs). The
  enumeration has 319 variants; they are listed with their discriminants, in the order of the
  source and in three parts. The variants that the program itself answers with are a
  datatype, whose conversion to 32 bits is the one the crate num-traits derives.
\<close>

definition error_codes_1 :: "(string \<times> nat) list" where
  "error_codes_1 =
   [(''NoError'', 0), (''TooManyTasks'', 1), (''NotConnected'', 2), (''SendFailed'', 3),
    (''HandleTaskFailed'', 4), (''StartTaskFailed'', 5), (''ResultExceedsBufferSize'', 100),
    (''AccessDenied'', 101), (''ExceptionInDb'', 102), (''MalformedTaskHeader'', 103),
    (''InvalidRow'', 104), (''EmptyArgList'', 105), (''ParamParseError'', 106),
    (''ParamMismatchedType'', 107), (''ServiceNotAvailable'', 108), (''ConnectionReset'', 109),
    (''InvalidUserId'', 110), (''LobbyProtocolVersionFailure'', 111),
    (''LobbyInternalFailure'', 112), (''LobbyProtocolError'', 113),
    (''LobbyFailedToDecodeUtf8'', 114), (''LobbyAsciiExpected'', 115),
    (''AsynchronousError'', 200), (''StreamingComplete'', 201), (''MemberNoProposal'', 300),
    (''TeamNameAlreadyExists'', 301), (''MaxTeamMembershipsLimited'', 302),
    (''MaxTeamOwnershipsLimited'', 303), (''NotATeamMember'', 304), (''InvalidTeamId'', 305),
    (''InvalidTeamName'', 306), (''NotATeamOwner'', 307), (''NotAnAdminOrOwner'', 308),
    (''MemberProposalExists'', 309), (''MemberExists'', 310), (''TeamFull'', 311),
    (''VulgarTeamName'', 312), (''TeamUserIdBanned'', 313), (''TeamEmpty'', 314),
    (''InvalidTeamProfileQueryId'', 315), (''TeamNameTooShort'', 316),
    (''UniqueProfileDataExistsAlready'', 317), (''InvalidLeaderboardId'', 400),
    (''InvalidStatsSet'', 401), (''EmptyStatsSetIgnored'', 403),
    (''NoDirectAccessToArbitratedLbs'', 404), (''StatsWritePermissionDenied'', 405),
    (''StatsWriteTypeDataTypeMismatch'', 406), (''NoStatsForUser'', 407),
    (''InvalidAccessToUnrankedLb'', 408), (''InvalidExternalTitleId'', 409),
    (''DifferentLeaderboardSchemas'', 410), (''TooManyLeaderboardsRequested'', 411),
    (''EntitlementsError'', 412), (''EntitlementsInvalidTitleId'', 413),
    (''EntitlementsInvalidLeaderboardId'', 414), (''EntitlementsInvalidGetModeForTitle'', 415),
    (''EntitlementsUrlConnectionError'', 416), (''EntitlementsConfigError'', 417),
    (''EntitlementsNamedParentError'', 418), (''EntitlementsNamedKeyError'', 419),
    (''TooManyEntityIdsRequested'', 420), (''InvalidTitleId'', 500),
    (''MessagingInvalidTitleId'', 600), (''SelfBlockNotAllowed'', 601),
    (''GlobalMessageAccessDenied'', 602), (''GlobalMessageUserLimitExceeded'', 603),
    (''AuthNoError'', 700), (''AuthBadRequest'', 701), (''AuthServerConfigError'', 702),
    (''AuthBadTitleId'', 703), (''AuthBadAccount'', 704), (''AuthIllegalOperation'', 705),
    (''AuthIncorrectLicenseCode'', 706), (''AuthCreateUsernameExists'', 707),
    (''AuthCreateUsernameIllegal'', 708), (''AuthCreateUsernameVulgar'', 709),
    (''AuthCreateMaxAccountExceeded'', 710), (''AuthMigrateNotSupported'', 711),
    (''AuthTitleDisabled'', 712), (''AuthAccountExpired'', 713), (''AuthAccountLocked'', 714),
    (''AuthUnknownError'', 715), (''AuthIncorrectPassword'', 716),
    (''AuthIpNotInAllowedRange'', 717), (''AuthWiiTokenVerificationFailed'', 718),
    (''AuthWiiAuthenticationFailed'', 719), (''AuthIpKeyLimitReached'', 720),
    (''Auth3dsTokenVerificationFailed'', 721), (''Auth3dsAuthenticationFailed'', 722),
    (''AuthSteamAppIdMismatch'', 723), (''AuthAbaccountsAppIdMismatch'', 724),
    (''AuthCodoUsernameNotSet'', 725), (''AuthWiiuTokenVerificationFailed'', 726),
    (''AuthWiiuAuthenticationFailed'', 727), (''AuthCodoUsernameNotBase64'', 728),
    (''AuthCodoUsernameNotUtf8'', 729), (''AuthTencentTicketExpired'', 730),
    (''NoProfileInfoExists'', 800), (''FriendshipNotRequested'', 900), (''NotAFriend'', 901),
    (''SelfFriendshipNotAllowed'', 903), (''FriendshipExists'', 904),
    (''PendingFriendshipExists'', 905), (''UserIdBanned'', 906), (''FriendsFull'', 908),
    (''FriendsNoRichPresence'', 909), (''RichPresenceTooLarge'', 910), (''NoFile'', 1000),
    (''PermissionDenied'', 1001), (''FileSizeLimitExceeded'', 1002),
    (''FilenameMaxLengthExceeded'', 1003), (''ChannelDoesNotExist'', 1101),
    (''ChannelAlreadySubscribed'', 1102), (''ChannelNotSubscribed'', 1103),
    (''ChannelFull'', 1104), (''ChannelSubscriptionsFull'', 1105),
    (''ChannelNoSelfWhispering'', 1106), (''ChannelAdminRequired'', 1107),
    (''ChannelTargetNotSubscribed'', 1108), (''ChannelRequiresPassword'', 1109),
    (''ChannelTargetIsSelf'', 1110), (''ChannelPublicBanNotAllowed'', 1111),
    (''ChannelUserBanned'', 1112), (''ChannelPublicPasswordNotAllowed'', 1113),
    (''ChannelPublicKickNotAllowed'', 1114), (''EventDescTruncated'', 1200),
    (''ContentUnlockUnknownError'', 1300), (''UnlockKeyInvalid'', 1301),
    (''UnlockKeyAlreadyUsedUp'', 1302), (''SharedUnlockLimitReached'', 1303),
    (''DifferentHardwareId'', 1304), (''InvalidContentOwner'', 1305),
    (''ContentUnlockInvalidUser'', 1306), (''KeyArchiveInvalidWriteType'', 1500),
    (''KeyArchiveExceededMaxIdsPerRequest'', 1501), (''BandwidthTestTryAgain'', 1810),
    (''BandwidthTestStillInProgress'', 1811), (''BandwidthTestNotProgress'', 1812),
    (''BandwidthTestSocketError'', 1813), (''InvalidSessionNonce'', 1901),
    (''ArbitrationFailure'', 1903), (''ArbitrationUserNotRegistered'', 1905),
    (''ArbitrationNotConfigured'', 1906), (''ContentStreamingFileNotAvailable'', 2000),
    (''ContentStreamingStorageSpaceExceeded'', 2001),
    (''ContentStreamingNumFilesExceeded'', 2002),
    (''ContentStreamingUploadBandwidthExceeded'', 2003)]"

definition error_codes_2 :: "(string \<times> nat) list" where
  "error_codes_2 =
   [(''ContentStreamingFilenameMaxLengthExceeded'', 2004),
    (''ContentStreamingMaxThumbDataSizeExceeded'', 2005),
    (''ContentStreamingDownloadBandwidthExceeded'', 2006),
    (''ContentStreamingNotEnoughDownloadBufferSpace'', 2007),
    (''ContentStreamingServerNotConfigured'', 2008),
    (''ContentStreamingInvalidAppleReceipt'', 2010),
    (''ContentStreamingAppleStoreNotAvailable'', 2011),
    (''ContentStreamingAppleReceiptFilenameMismatch'', 2012),
    (''ContentStreamingHttpError'', 2020), (''ContentStreamingFailedToStartHttp'', 2021),
    (''ContentStreamingLocaleInvalid'', 2022), (''ContentStreamingLocaleMissing'', 2023),
    (''VoteRankErrorEmptyRatingSubmission'', 2030), (''VoteRankErrorMaxVotesExceeded'', 2031),
    (''VoteRankErrorInvalidRating'', 2032), (''MaxNumTagsExceeded'', 2090),
    (''TaggedCollectionDoesNotExist'', 2091), (''EmptyTagArray'', 2092),
    (''InvalidQueryId'', 2100), (''NoEntryToUpdate'', 2101), (''SessionInviteExists'', 2102),
    (''InvalidSessionId'', 2103), (''AttachmentTooLarge'', 2104), (''InvalidGroupId'', 2800),
    (''UcdServiceError'', 3200), (''UcdServiceDisabled'', 3201),
    (''UcdUninitializedError'', 3202), (''UcdAccountAlreadyRegistered'', 3203),
    (''UcdAccountNotRegistered'', 3204), (''UcdAuthAttemptFailed'', 3205),
    (''UcdAccountLinkingError'', 3206), (''UcdEncryptionError'', 3207),
    (''UcdAccountDataInvalid'', 3208), (''UcdAccountDataInvalidFirstname'', 3209),
    (''UcdAccountDataInvalidLastname'', 3210), (''UcdAccountDataInvalidDob'', 3211),
    (''UcdAccountDataInvalidEmail'', 3212), (''UcdAccountDataInvalidCountry'', 3213),
    (''UcdAccountDataInvalidPostcode'', 3214), (''YoutubeServiceError'', 3301),
    (''YoutubeServiceCommunicationError'', 3302), (''YoutubeUserDeniedAuthorization'', 3303),
    (''YoutubeAuthMaxTimeExceeded'', 3304), (''YoutubeUserUnauthorized'', 3305),
    (''YoutubeUploadMaxTimeExceeded'', 3306), (''YoutubeDuplicateUpload'', 3307),
    (''YoutubeFailedUpload'', 3308), (''YoutubeAccountAlreadyRegistered'', 3309),
    (''YoutubeAccountNotRegistered'', 3310), (''YoutubeContentServerError'', 3311),
    (''YoutubeUploadDoesNotExist'', 3312), (''YoutubeNoLinkedAccount'', 3313),
    (''YoutubeDeveloperTagsInvalid'', 3314), (''FacebookLiteAuthAttemptFailed'', 3401),
    (''FacebookLiteAuthTokenInvalid'', 3402), (''FacebookLitePhotoDoesNotExist'', 3403),
    (''FacebookLitePhotoInvalid'', 3404), (''FacebookLitePhotoAlbumFull'', 3405),
    (''FacebookLiteUnavailable'', 3406), (''FacebookLiteError'', 3407),
    (''FacebookLiteTimedOut'', 3408), (''FacebookLiteDisabledForUser'', 3409),
    (''FacebookLiteAccountAmbiguous'', 3410), (''FacebookLiteMaximumAccountsReached'', 3411),
    (''FacebookLiteLoginApprovalsEnabled'', 3412), (''TwitterAuthAttemptFailed'', 3501),
    (''TwitterAuthTokenInvalid'', 3502), (''TwitterUpdateLimitReached'', 3503),
    (''TwitterUnavailable'', 3504), (''TwitterError'', 3505), (''TwitterTimedOut'', 3506),
    (''TwitterDisabledForUser'', 3507), (''TwitterAccountAmbiguous'', 3508),
    (''TwitterMaxAccountsReached'', 3509), (''FacebookAuthAttemptFailed'', 3601),
    (''FacebookAuthTokenInvalid'', 3602), (''FacebookPhotoDoesNotExist'', 3603),
    (''FacebookPhotoInvalid'', 3604), (''FacebookPhotoAlbumFull'', 3605),
    (''FacebookUnavailable'', 3606), (''FacebookError'', 3607), (''FacebookTimedOut'', 3608),
    (''FacebookDisabledForUser'', 3609), (''FacebookAccountAmbiguous'', 3610),
    (''FacebookMaxAccountsReached'', 3611), (''FacebookInvalidNumPicturesRequested'', 3612),
    (''FacebookVideoDoesNotExist'', 3613), (''FacebookAccountAlreadyRegistered'', 3614),
    (''ApnsInvalidPayload'', 3700), (''MaxConsoleIdLengthExceeded'', 3809),
    (''MaxWhitelistLengthExceeded'', 3810), (''CruxError'', 3901),
    (''CruxEmailPasswordInvalid'', 3902), (''CruxEmailInvalid'', 3903),
    (''CruxBirthDateInvalid'', 3904), (''CruxBirthDateNotAllowed'', 3905),
    (''CruxPasswordInvalid'', 3906), (''CruxPlatformIdInvalid'', 3907),
    (''CruxPlatformUidExists'', 3908), (''CruxCommunityIdInvalid'', 3909),
    (''CruxCommunityUsernameInvalid'', 3910), (''CruxCommunityUsernameExists'', 3911),
    (''CruxTitleIdInvalid'', 3912), (''CruxTitleUidExists'', 3913),
    (''UserGroupNameAlreadyExists'', 6000), (''InvalidUserGroupId'', 6001),
    (''UserAlreadyInUserGroup'', 6002), (''UserNotInUserGroup'', 6003),
    (''InvalidUserGroupMemberType'', 6004), (''TooManyMembersRequested'', 6005),
    (''UserGroupNameTooShort'', 6006), (''RichPresenceDataTooLarge'', 6800),
    (''RichPresenceTooManyUsers'', 6801), (''SubscriptionTooManyUsers'', 7000),
    (''SubscriptionTicketParseError'', 7001), (''CodoIdInvalidData'', 7100),
    (''InvalidMessageFormat'', 7101), (''TlogTooManyMessages'', 7102),
    (''MarketplaceError'', 8000), (''MarketplaceResourceNotFound'', 8001),
    (''MarketplaceInvalidParameter'', 8003), (''MarketplaceResourceConflict'', 8004),
    (''MarketplaceStorageError'', 8005), (''MarketplaceIntegrityError'', 8006),
    (''MarketplaceInsufficientFundsError'', 8007), (''MarketplaceMmpServiceError'', 8008),
    (''MarketplacePreconditionRequired'', 8009), (''MarketplaceItemMultiplePurchaseError'', 8010),
    (''MarketplaceMissingRequiredEntitlement'', 8011), (''MarketplaceValidationError'', 8012),
    (''LeagueInvalidTeamSize'', 8100), (''LeagueInvalidTeam'', 8101),
    (''LeagueInvalidSubdivision'', 8102), (''LeagueInvalidLeague'', 8103),
    (''LeagueTooManyResultsRequested'', 8104), (''LeagueMetadataTooLarge'', 8105),
    (''LeagueTeamIconTooLarge'', 8106), (''LeagueTeamNameTooLong'', 8107),
    (''LeagueArraySizeMismatch'', 8108), (''LeagueSubdivisionMismatch'', 8200),
    (''LeagueInvalidWriteType'', 8201), (''LeagueInvalidStatsData'', 8202),
    (''LeagueSubdivisionUnranked'', 8203), (''LeagueCrossTeamStatsWritePrevented'', 8204),
    (''LeagueInvalidStatsSeason'', 8205), (''CommerceError'', 8300),
    (''CommerceResourceNotFound'', 8301), (''CommerceStorageInvalidParameter'', 8302),
    (''CommerceApplicationInvalidParameter'', 8303), (''CommerceResourceConflict'', 8304)]"

definition error_codes_3 :: "(string \<times> nat) list" where
  "error_codes_3 =
   [(''CommerceStorageError'', 8305), (''CommerceIntegrityError'', 8306),
    (''CommerceMmpServiceError'', 8307), (''CommercePermissionDenied'', 8308),
    (''CommerceInsufficientFundsError'', 8309), (''CommerceUnknownCurrency'', 8310),
    (''CommerceInvalidReceipt'', 8311), (''CommerceReceiptUsed'', 8312),
    (''CommerceTransactionAlreadyApplied'', 8313), (''CommerceInvalidCurrencyType'', 8314),
    (''GmsgInvalidCategoryId'', 10200), (''GmsgCategoryMembershipsLimit'', 10201),
    (''GmsmNonMemberPostDisallowed'', 10202), (''GmsgCategoryDisallowsClientType'', 10203),
    (''GmsgPayloadTooBig'', 10204), (''GmsgMemberPostDisallowed'', 10205),
    (''GmsgOverloaded'', 10206), (''GmsgUserPerCategoryPostRateExceeded'', 10207),
    (''GmsgUserGlobalPostRateExceeded'', 10208), (''GmsgGroupPostRateExceeded'', 10209),
    (''MaxErrorCode'', 10210)]"

definition error_codes :: "(string \<times> nat) list" where
  "error_codes = error_codes_1 @ error_codes_2 @ error_codes_3"

datatype BdErrorCode =
    NoError
  | AccessDenied
  | ServiceNotAvailable
  | AuthNoError
  | AuthIllegalOperation
  | PermissionDenied
  | NoFile
  | FileSizeLimitExceeded
  | FilenameMaxLengthExceeded
  | NoProfileInfoExists
  | RichPresenceDataTooLarge
  | RichPresenceTooManyUsers
  | YoutubeServiceError
  | ContentStreamingFileNotAvailable
  | ContentStreamingFilenameMaxLengthExceeded
  | ContentStreamingMaxThumbDataSizeExceeded
  | ContentStreamingNumFilesExceeded
  | ContentStreamingStorageSpaceExceeded

fun error_code_to_u32 :: "BdErrorCode \<Rightarrow> u32" where
  "error_code_to_u32 NoError = 0"
| "error_code_to_u32 AccessDenied = 101"
| "error_code_to_u32 ServiceNotAvailable = 108"
| "error_code_to_u32 AuthNoError = 700"
| "error_code_to_u32 AuthIllegalOperation = 705"
| "error_code_to_u32 PermissionDenied = 1001"
| "error_code_to_u32 NoFile = 1000"
| "error_code_to_u32 FileSizeLimitExceeded = 1002"
| "error_code_to_u32 FilenameMaxLengthExceeded = 1003"
| "error_code_to_u32 NoProfileInfoExists = 800"
| "error_code_to_u32 RichPresenceDataTooLarge = 6800"
| "error_code_to_u32 RichPresenceTooManyUsers = 6801"
| "error_code_to_u32 YoutubeServiceError = 3301"
| "error_code_to_u32 ContentStreamingFileNotAvailable = 2000"
| "error_code_to_u32 ContentStreamingFilenameMaxLengthExceeded = 2004"
| "error_code_to_u32 ContentStreamingMaxThumbDataSizeExceeded = 2005"
| "error_code_to_u32 ContentStreamingNumFilesExceeded = 2002"
| "error_code_to_u32 ContentStreamingStorageSpaceExceeded = 2001"

fun error_code_name :: "BdErrorCode \<Rightarrow> string" where
  "error_code_name NoError = ''NoError''"
| "error_code_name AccessDenied = ''AccessDenied''"
| "error_code_name ServiceNotAvailable = ''ServiceNotAvailable''"
| "error_code_name AuthNoError = ''AuthNoError''"
| "error_code_name AuthIllegalOperation = ''AuthIllegalOperation''"
| "error_code_name PermissionDenied = ''PermissionDenied''"
| "error_code_name NoFile = ''NoFile''"
| "error_code_name FileSizeLimitExceeded = ''FileSizeLimitExceeded''"
| "error_code_name FilenameMaxLengthExceeded = ''FilenameMaxLengthExceeded''"
| "error_code_name NoProfileInfoExists = ''NoProfileInfoExists''"
| "error_code_name RichPresenceDataTooLarge = ''RichPresenceDataTooLarge''"
| "error_code_name RichPresenceTooManyUsers = ''RichPresenceTooManyUsers''"
| "error_code_name YoutubeServiceError = ''YoutubeServiceError''"
| "error_code_name ContentStreamingFileNotAvailable = ''ContentStreamingFileNotAvailable''"
| "error_code_name ContentStreamingFilenameMaxLengthExceeded = ''ContentStreamingFilenameMaxLengthExceeded''"
| "error_code_name ContentStreamingMaxThumbDataSizeExceeded = ''ContentStreamingMaxThumbDataSizeExceeded''"
| "error_code_name ContentStreamingNumFilesExceeded = ''ContentStreamingNumFilesExceeded''"
| "error_code_name ContentStreamingStorageSpaceExceeded = ''ContentStreamingStorageSpaceExceeded''"

section \<open>The enumeration is well-formed\<close>

lemma sorted_if_adjacent: "list_all (\<lambda>(a, b). a < b) (zip xs (tl xs)) \<Longrightarrow> sorted_wrt (<) (xs :: nat list)"
proof (induction xs)
  case (Cons x xs)
  then show ?case by (cases xs) (auto intro: less_trans)
qed simp

lemma error_codes_adjacent:
  "list_all (\<lambda>(a, b). a < b) (zip (map snd error_codes) (tl (map snd error_codes)))"
  by (simp add: error_codes_def error_codes_1_def error_codes_2_def error_codes_3_def)

lemma error_codes_increasing: "sorted_wrt (<) (map snd error_codes)"
  by (rule sorted_if_adjacent [OF error_codes_adjacent])

lemma in_append_parts:
  "x \<in> set error_codes_1 \<or> x \<in> set error_codes_2 \<or> x \<in> set error_codes_3 \<Longrightarrow> x \<in> set error_codes"
  by (auto simp: error_codes_def)

lemma error_code_listed: "(error_code_name c, unat (error_code_to_u32 c)) \<in> set error_codes"
  by (rule in_append_parts, cases c)
    (simp_all add: error_codes_1_def error_codes_2_def error_codes_3_def)

text \<open>
  The result codes are distinct: the discriminants of the enumeration increase from
  variant to variant, so no two variants share a code, and every code the program answers
  with is the discriminant of the variant of that name.
\<close>

theorem error_codes_wellformed:
  "sorted_wrt (<) (map snd error_codes) \<and> length error_codes = 319
    \<and> (error_code_name c, unat (error_code_to_u32 c)) \<in> set error_codes"
proof -
  have "length error_codes = 319"
    by (simp add: error_codes_def error_codes_1_def error_codes_2_def error_codes_3_def)
  then show ?thesis using error_codes_increasing error_code_listed by blast
qed

end
