(* ===== verification/Crypto.thy ===== *)
theory Crypto
  imports Errors
begin

text \<open>
  Encryption and authentication codes (libbitdemon/src/crypto/mod.rs). The primitives come
  from crates: triple DES and AES-256 in CBC mode, HMAC-SHA1 and the Tiger hash are a record
  of functions that the definitions take. \<open>crypto_ok\<close> states what the code relies on:
  lengths, and that decryption inverts encryption under the same key and vector.
\<close>

record crypto =
  tiger :: "bytes \<Rightarrow> bytes"
  hmac_sha1 :: "bytes \<Rightarrow> bytes \<Rightarrow> bytes"
  tdes_cbc_encrypt :: "bytes \<Rightarrow> bytes \<Rightarrow> bytes \<Rightarrow> bytes"
  tdes_cbc_decrypt :: "bytes \<Rightarrow> bytes \<Rightarrow> bytes \<Rightarrow> bytes"
  aes_cbc_encrypt :: "bytes \<Rightarrow> bytes \<Rightarrow> bytes \<Rightarrow> bytes"
  aes_cbc_decrypt :: "bytes \<Rightarrow> bytes \<Rightarrow> bytes \<Rightarrow> bytes"

definition crypto_ok :: "crypto \<Rightarrow> bool" where
  "crypto_ok c \<longleftrightarrow>
    (\<forall>x. length (tiger c x) = 24) \<and> (\<forall>k x. length (hmac_sha1 c k x) = 20)
    \<and> (\<forall>k v x. 8 dvd length x \<longrightarrow> length (tdes_cbc_encrypt c k v x) = length x
         \<and> length (tdes_cbc_decrypt c k v x) = length x
         \<and> tdes_cbc_decrypt c k v (tdes_cbc_encrypt c k v x) = x)
    \<and> (\<forall>k v x. 16 dvd length x \<longrightarrow> length (aes_cbc_encrypt c k v x) = length x
         \<and> length (aes_cbc_decrypt c k v x) = length x
         \<and> aes_cbc_decrypt c k v (aes_cbc_encrypt c k v x) = x)"

text \<open>The vector is the front of the Tiger hash of the seed.\<close>

definition generate_iv_from_seed :: "crypto \<Rightarrow> u32 \<Rightarrow> bytes" where
  "generate_iv_from_seed c seed = take 8 (tiger c (to_le seed))"

definition next_multiple_of :: "nat \<Rightarrow> nat \<Rightarrow> nat" where
  "next_multiple_of n m = (if n mod m = 0 then n else n + (m - n mod m))"

text \<open>\<open>Vec::resize\<close>.\<close>

definition resize :: "nat \<Rightarrow> 'a \<Rightarrow> 'a list \<Rightarrow> 'a list" where
  "resize n x xs = take n xs @ replicate (n - length xs) x"

text \<open>The buffer grows to a multiple of the block size with zeros; the zero padding of the
  cipher then adds nothing.\<close>

definition encrypt_buffer_in_place :: "crypto \<Rightarrow> bytes \<Rightarrow> bytes \<Rightarrow> bytes \<Rightarrow> bytes" where
  "encrypt_buffer_in_place c buf key iv =
    tdes_cbc_encrypt c key iv (resize (next_multiple_of (length buf) 8) 0 buf)"

text \<open>The cipher refuses a buffer that is no sequence of blocks.\<close>

definition decrypt_buffer_in_place :: "crypto \<Rightarrow> bytes \<Rightarrow> bytes \<Rightarrow> bytes \<Rightarrow> bd_error + bytes" where
  "decrypt_buffer_in_place c buf key iv =
    (if length buf mod 8 = 0 then Inr (tdes_cbc_decrypt c key iv buf) else Inl DecryptionError)"

definition calculate_hmac :: "crypto \<Rightarrow> bytes \<Rightarrow> bytes \<Rightarrow> u32" where
  "calculate_hmac c buf key = from_le (take 4 (hmac_sha1 c key buf))"

section \<open>Padding\<close>

lemma next_multiple_dvd: "0 < m \<Longrightarrow> m dvd next_multiple_of n m"
proof -
  assume m: "0 < m"
  have "m dvd n + (m - n mod m)" if "n mod m \<noteq> 0"
  proof -
    have "n + (m - n mod m) = m * (n div m) + m"
      using m mult_div_mod_eq [of m n] mod_less_divisor [of m n] by linarith
    then show ?thesis by simp
  qed
  then show ?thesis by (auto simp: next_multiple_of_def)
qed

lemma next_multiple_ge: "n \<le> next_multiple_of n m"
  by (simp add: next_multiple_of_def)

lemma next_multiple_less: "0 < m \<Longrightarrow> next_multiple_of n m < n + m"
  by (simp add: next_multiple_of_def)

lemma length_resize [simp]: "length (resize n x xs) = n"
  by (simp add: resize_def)

lemma resize_grow: "length xs \<le> n \<Longrightarrow> resize n x xs = xs @ replicate (n - length xs) x"
  by (simp add: resize_def)

lemma resize_same [simp]: "resize (length xs) x xs = xs"
  by (simp add: resize_def)

definition padded :: "bytes \<Rightarrow> bytes" where
  "padded buf = buf @ replicate (next_multiple_of (length buf) 8 - length buf) 0"

lemma length_padded: "length (padded buf) = next_multiple_of (length buf) 8"
  using next_multiple_ge [of "length buf" 8] by (simp add: padded_def)

lemma encrypt_padded: "encrypt_buffer_in_place c buf key iv = tdes_cbc_encrypt c key iv (padded buf)"
  by (simp add: encrypt_buffer_in_place_def padded_def resize_grow next_multiple_ge)

lemma length_encrypt:
  "crypto_ok c \<Longrightarrow> length (encrypt_buffer_in_place c buf key iv) = next_multiple_of (length buf) 8"
  using next_multiple_dvd [of 8 "length buf"]
  by (simp add: encrypt_padded crypto_ok_def length_padded)

lemma decrypt_encrypt:
  assumes "crypto_ok c"
  shows "decrypt_buffer_in_place c (encrypt_buffer_in_place c buf key iv) key iv = Inr (padded buf)"
  using assms next_multiple_dvd [of 8 "length buf"]
  by (simp add: decrypt_buffer_in_place_def length_encrypt encrypt_padded crypto_ok_def length_padded)

text \<open>A concrete instance for examples: ciphers that combine every byte with the first byte of
  the key, and constant hashes of the right lengths.\<close>

definition toy_crypto :: crypto where
  "toy_crypto = \<lparr>tiger = (\<lambda>x. replicate 24 (sum_list x)),
     hmac_sha1 = (\<lambda>k x. replicate 20 (sum_list k + sum_list x)),
     tdes_cbc_encrypt = (\<lambda>k v x. map (\<lambda>b. b XOR hd (k @ [0])) x),
     tdes_cbc_decrypt = (\<lambda>k v x. map (\<lambda>b. b XOR hd (k @ [0])) x),
     aes_cbc_encrypt = (\<lambda>k v x. map (\<lambda>b. b XOR hd (k @ [0])) x),
     aes_cbc_decrypt = (\<lambda>k v x. map (\<lambda>b. b XOR hd (k @ [0])) x)\<rparr>"

lemma toy_crypto_ok: "crypto_ok toy_crypto"
  by (simp add: crypto_ok_def toy_crypto_def o_def ac_simps)

end
