(* ===== verification/Session.thy ===== *)
theory Session
  imports Errors
begin

text \<open>
  Sessions (libbitdemon/src/networking/bd_session.rs, session_manager.rs and
  auth/authentication.rs). The socket of a session is its peer's business: what matters here
  is the identity, the authentication, and what is sent. A connection is the state in which
  the message handlers run: the session, the frames sent so far, the transaction counter of
  the connection's thread, and a world that the handlers of all connections share.
\<close>

record SessionAuthentication =
  a_user_id :: u64
  a_username :: bytes
  a_session_key :: bytes
  a_title :: Title

record BdSession =
  s_id :: u64
  s_authentication :: "SessionAuthentication option"

definition session_new :: BdSession where
  "session_new = \<lparr>s_id = 0, s_authentication = None\<rparr>"

definition set_authentication :: "SessionAuthentication \<Rightarrow> BdSession \<Rightarrow> BdSession" where
  "set_authentication a s = s\<lparr>s_authentication := Some a\<rparr>"

record 'w conn =
  c_session :: BdSession
  c_sent :: "bytes list"
  c_transaction :: u64
  c_world :: 'w

type_synonym ('w, 'a) act = "('w conn, bd_error, 'a) sm"

definition send_frame :: "bytes \<Rightarrow> ('w, unit) act" where
  "send_frame frame = modifyE (\<lambda>c. c\<lparr>c_sent := c_sent c @ [frame]\<rparr>)"

section \<open>The session manager\<close>

text \<open>The callbacks act on the shared world. Registering hands out the counter and steps it; the
  counter overflows, and panics, after \<open>2 ^ 64 - 1\<close> sessions.\<close>

record 'w SessionManager =
  sm_counter :: u64
  sm_register_cb :: "(BdSession \<Rightarrow> 'w \<Rightarrow> 'w) list"
  sm_unregister_cb :: "(BdSession \<Rightarrow> 'w \<Rightarrow> 'w) list"

definition session_manager_new :: "'w SessionManager" where
  "session_manager_new = \<lparr>sm_counter = 0, sm_register_cb = [], sm_unregister_cb = []\<rparr>"

definition on_session_registered :: "(BdSession \<Rightarrow> 'w \<Rightarrow> 'w) \<Rightarrow> 'w SessionManager \<Rightarrow> 'w SessionManager" where
  "on_session_registered cb m = m\<lparr>sm_register_cb := sm_register_cb m @ [cb]\<rparr>"

definition on_session_unregistered :: "(BdSession \<Rightarrow> 'w \<Rightarrow> 'w) \<Rightarrow> 'w SessionManager \<Rightarrow> 'w SessionManager" where
  "on_session_unregistered cb m = m\<lparr>sm_unregister_cb := sm_unregister_cb m @ [cb]\<rparr>"

definition register_session ::
  "BdSession \<Rightarrow> 'w SessionManager \<Rightarrow> 'w \<Rightarrow> bd_error + BdSession \<times> 'w SessionManager \<times> 'w" where
  "register_session s m w =
    (case checked_add (sm_counter m) 1 of
       Inl e \<Rightarrow> Inl e
     | Inr counter \<Rightarrow>
         let s' = s\<lparr>s_id := sm_counter m\<rparr>
         in Inr (s', m\<lparr>sm_counter := counter\<rparr>, fold (\<lambda>cb. cb s') (sm_register_cb m) w))"

definition unregister_session :: "BdSession \<Rightarrow> 'w SessionManager \<Rightarrow> 'w \<Rightarrow> 'w" where
  "unregister_session s m w = fold (\<lambda>cb. cb s) (sm_unregister_cb m) w"

text \<open>Registering one session after another.\<close>

fun register_all ::
  "BdSession list \<Rightarrow> 'w SessionManager \<Rightarrow> 'w \<Rightarrow> bd_error + BdSession list \<times> 'w SessionManager \<times> 'w" where
  "register_all [] m w = Inr ([], m, w)"
| "register_all (s # ss) m w =
    (case register_session s m w of
       Inl e \<Rightarrow> Inl e
     | Inr (s', m', w') \<Rightarrow>
         (case register_all ss m' w' of
            Inl e \<Rightarrow> Inl e
          | Inr (ss', m'', w'') \<Rightarrow> Inr (s' # ss', m'', w'')))"

lemma register_session_ok:
  assumes "register_session s m w = Inr (s', m', w')"
  shows "s_id s' = sm_counter m \<and> s_authentication s' = s_authentication s
    \<and> unat (sm_counter m') = unat (sm_counter m) + 1
    \<and> sm_unregister_cb m' = sm_unregister_cb m \<and> sm_register_cb m' = sm_register_cb m"
  using assms
  by (auto simp: register_session_def checked_add_def Let_def unat_word_ariths(1) split: if_splits)

lemma register_all_ids:
  assumes "register_all ss m w = Inr (ss', m', w')"
  shows "map (unat \<circ> s_id) ss' = [unat (sm_counter m)..<unat (sm_counter m) + length ss]"
  using assms
proof (induction ss arbitrary: m w ss' m' w')
  case (Cons s ss)
  from Cons.prems obtain s1 m1 w1 ss1 where
    1: "register_session s m w = Inr (s1, m1, w1)" and
    2: "register_all ss m1 w1 = Inr (ss1, m', w')" and ss': "ss' = s1 # ss1"
    by (auto split: sum.splits)
  have "map (unat \<circ> s_id) ss1 = [Suc (unat (sm_counter m))..<Suc (unat (sm_counter m)) + length ss]"
    using Cons.IH [OF 2] register_session_ok [OF 1] by (simp del: upt_Suc add: o_def)
  moreover have "[unat (sm_counter m)..<unat (sm_counter m) + length (s # ss)]
    = unat (sm_counter m) # [Suc (unat (sm_counter m))..<Suc (unat (sm_counter m)) + length ss]"
    by (subst upt_conv_Cons) simp_all
  ultimately show ?case unfolding ss' using register_session_ok [OF 1]
    by (simp del: upt_Suc add: o_def)
qed simp

text \<open>
  Session ids are unique: sessions that register one after another with a manager get
  pairwise different ids, consecutive from the counter on. When the counter runs out the
  registration panics; it does not wrap round to an id in use.
\<close>

theorem session_ids_unique:
  assumes "register_all ss m w = Inr (ss', m', w')"
  shows "distinct (map s_id ss') \<and> (\<forall>s \<in> set ss'. sm_counter m \<le> s_id s)"
proof -
  note ids = register_all_ids [OF assms]
  then have "distinct (map unat (map s_id ss'))" by simp
  then have "distinct (map s_id ss')" by (simp only: distinct_map)
  moreover have "unat (s_id s) \<in> set (map (unat \<circ> s_id) ss')" if "s \<in> set ss'" for s
    using that by auto
  then have "unat (sm_counter m) \<le> unat (s_id s)" if "s \<in> set ss'" for s
    using that unfolding ids by auto
  ultimately show ?thesis by (auto simp: word_le_nat_alt)
qed

theorem session_ids_unique_witness:
  "\<exists>ss' m' w'. register_all [session_new, session_new] session_manager_new () = Inr (ss', m', w')
    \<and> distinct (map s_id ss') \<and> (\<forall>s \<in> set ss'. (0 :: u64) \<le> s_id s)"
proof -
  have "register_all [session_new, session_new] session_manager_new ()
    = Inr ([session_new, session_new\<lparr>s_id := 1\<rparr>], session_manager_new\<lparr>sm_counter := 2\<rparr>, ())"
    by (simp add: register_session_def session_manager_new_def session_new_def checked_add_def)
  from session_ids_unique [OF this] this show ?thesis by (auto simp: session_manager_new_def)
qed

end
