(* ===== verification/Message.thy ===== *)
theory Message
  imports Crypto Session Bit_Stream
begin

text \<open>
  Messages and responses (libbitdemon/src/messaging/bd_message.rs and bd_response.rs). A
  message from a client starts with a byte that says whether the rest is encrypted under the
  session key; a response is framed with its length, and encrypted when the session has a key
  and the response wants it. The random seed of a response is an argument.
\<close>

definition bd_message_new :: "crypto \<Rightarrow> BdSession \<Rightarrow> bytes \<Rightarrow> bd_error + reader" where
  "bd_message_new c s buf =
    (case buf of
       [] \<Rightarrow> Inl (TruncatedMessageError (length buf))
     | encrypted # _ \<Rightarrow>
         if encrypted = 1 then
           (case s_authentication s of
              None \<Rightarrow> Inl NoSessionKeyError
            | Some a \<Rightarrow>
                if length buf < 10 then Inl (TruncatedMessageError (length buf)) else
                (let seed = from_le (take 4 (drop 1 buf));
                     iv = generate_iv_from_seed c seed
                 in case decrypt_buffer_in_place c (drop 5 buf) (a_session_key a) iv of
                      Inl e \<Rightarrow> Inl e
                    | Inr plain \<Rightarrow>
                        let buf' = take 5 buf @ plain;
                            hmac = from_le (take 4 (drop 5 buf'));
                            expected = calculate_hmac c (drop 10 buf') (a_session_key a)
                        in if hmac = expected then Inr (reader_new (drop 9 buf'))
                           else Inl (InvalidHmacError expected hmac)))
         else Inr (reader_new (drop 1 buf)))"

record BdResponse =
  should_encrypt :: bool
  resp_data :: bytes

definition unencrypted :: "bytes \<Rightarrow> BdResponse" where
  "unencrypted d = \<lparr>should_encrypt = False, resp_data = d\<rparr>"

definition encrypted_if_available :: "bytes \<Rightarrow> BdResponse" where
  "encrypted_if_available d = \<lparr>should_encrypt = True, resp_data = d\<rparr>"

definition RESPONSE_SIGNATURE :: u32 where
  "RESPONSE_SIGNATURE = 0xDEADBEEF"

text \<open>The frame, and the response with the data that framing has overwritten.\<close>

definition frame :: "crypto \<Rightarrow> u32 \<Rightarrow> bytes option \<Rightarrow> BdResponse \<Rightarrow> bytes \<times> BdResponse" where
  "frame c seed key resp =
    (case key of
       Some k \<Rightarrow>
         let iv = generate_iv_from_seed c seed;
             data = encrypt_buffer_in_place c (to_le RESPONSE_SIGNATURE @ resp_data resp) k iv;
             message_length = length data + 5
         in (to_le (of_nat message_length :: u32) @ [1] @ to_le seed @ data,
             resp\<lparr>resp_data := data\<rparr>)
     | None \<Rightarrow>
         let message_length = length (resp_data resp) + 1
         in (to_le (of_nat message_length :: u32) @ [0] @ resp_data resp, resp))"

definition response_key :: "BdSession \<Rightarrow> BdResponse \<Rightarrow> bytes option" where
  "response_key s resp =
    (case s_authentication s of
       Some a \<Rightarrow> if should_encrypt resp then Some (a_session_key a) else None
     | None \<Rightarrow> None)"

definition send :: "crypto \<Rightarrow> u32 \<Rightarrow> BdResponse \<Rightarrow> ('w, unit) act" where
  "send c seed resp = (\<lambda>conn.
    send_frame (fst (frame c seed (response_key (c_session conn) resp) resp)) conn)"

section \<open>What the server accepts\<close>

text \<open>An encrypted message as a client that has the session key builds it: the length of the
  authenticated part must fill blocks, which the client's padding takes care of.\<close>

definition client_message :: "crypto \<Rightarrow> bytes \<Rightarrow> u32 \<Rightarrow> u8 \<Rightarrow> bytes \<Rightarrow> bytes" where
  "client_message c key seed ty payload =
    [1] @ to_le seed @ tdes_cbc_encrypt c key (generate_iv_from_seed c seed)
      (to_le (calculate_hmac c payload key) @ ty # payload)"

lemma drop_to_le [simp]: "drop 4 (to_le (w :: u32) @ xs) = xs" "take 4 (to_le (w :: u32) @ xs) = to_le w"
  by simp_all

lemma from_le_u32 [simp]: "from_le (to_le (w :: u32)) = w"
  by (rule from_le_to_le) simp

lemma client_message_ok:
  assumes "crypto_ok c" "s_authentication s = Some a" "8 dvd 5 + length payload"
  shows "bd_message_new c s (client_message c (a_session_key a) seed ty payload)
    = Inr (reader_new (ty # payload))"
proof -
  let ?k = "a_session_key a" let ?iv = "generate_iv_from_seed c seed"
  let ?plain = "to_le (calculate_hmac c payload ?k) @ ty # payload"
  let ?ct = "tdes_cbc_encrypt c ?k ?iv ?plain"
  have len: "length ?ct = 5 + length payload" and dec: "tdes_cbc_decrypt c ?k ?iv ?ct = ?plain"
    using assms(1,3) by (simp_all add: crypto_ok_def)
  have "length payload \<noteq> 0" using assms(3) by (intro notI) simp
  moreover have "length payload \<noteq> 1" "length payload \<noteq> 2" using assms(3) by (auto intro!: notI)
  ultimately have ten: "\<not> length (client_message c ?k seed ty payload) < 10"
    by (simp add: client_message_def len)
  have ct: "drop 5 (client_message c ?k seed ty payload) = ?ct"
    "take 5 (client_message c ?k seed ty payload) = [1] @ to_le seed"
    "take 4 (drop 1 (client_message c ?k seed ty payload)) = to_le seed"
    by (simp_all add: client_message_def)
  have "decrypt_buffer_in_place c ?ct ?k ?iv = Inr ?plain"
    using assms(3) len dec by (simp add: decrypt_buffer_in_place_def mod_eq_0_iff_dvd)
  then show ?thesis using assms(2) ten ct
    by (simp add: bd_message_new_def client_message_def [of c ?k seed ty payload] Let_def)
qed

lemma take4_le:
  assumes "4 \<le> length xs"
  shows "xs = to_le (from_le (take 4 xs) :: u32) @ drop 4 xs"
  using assms to_le_from_le [of "take 4 xs", where 'a = 32] by simp

lemma message_authentic:
  assumes c: "crypto_ok c" and ok: "bd_message_new c s (1 # rest) = Inr r"
  shows "\<exists>a seed ct hm ty payload. s_authentication s = Some a \<and> rest = to_le (seed :: u32) @ ct
    \<and> tdes_cbc_decrypt c (a_session_key a) (generate_iv_from_seed c seed) ct
        = to_le (hm :: u32) @ ty # payload
    \<and> hm = calculate_hmac c payload (a_session_key a) \<and> r = reader_new (ty # payload)"
proof -
  obtain a where a: "s_authentication s = Some a"
    using ok by (auto simp: bd_message_new_def split: option.splits)
  have len: "9 \<le> length rest"
    using ok a by (auto simp: bd_message_new_def split: if_splits)
  define seed :: u32 where "seed = from_le (take 4 rest)"
  define ct where "ct = drop 4 rest"
  define plain where "plain = tdes_cbc_decrypt c (a_session_key a) (generate_iv_from_seed c seed) ct"
  have body: "(if length ct mod 8 = 0 then
      (if from_le (take 4 plain) = calculate_hmac c (drop 5 plain) (a_session_key a)
       then Inr (reader_new (drop 4 plain)) else Inl (InvalidHmacError
         (calculate_hmac c (drop 5 plain) (a_session_key a)) (from_le (take 4 plain))))
      else Inl DecryptionError) = Inr r"
    using ok a len
    by (simp add: bd_message_new_def decrypt_buffer_in_place_def Let_def seed_def ct_def plain_def
        split: if_splits)
  have "length ct mod 8 = 0" using body by (simp split: if_splits)
  then have "length plain = length ct" using c by (simp add: plain_def crypto_ok_def mod_eq_0_iff_dvd)
  then have lp: "5 \<le> length plain" using len by (simp add: ct_def)
  then have "drop 4 plain = plain ! 4 # drop 5 plain"
    using Cons_nth_drop_Suc [of 4 plain] by simp
  then obtain ty payload where p: "drop 4 plain = ty # payload" "drop 5 plain = payload"
    by blast
  show ?thesis
  proof (intro exI conjI)
    show "rest = to_le seed @ ct" unfolding seed_def ct_def using len by (intro take4_le) simp
    show "tdes_cbc_decrypt c (a_session_key a) (generate_iv_from_seed c seed) ct
        = to_le (from_le (take 4 plain) :: u32) @ ty # payload"
      using take4_le [of plain] lp p(1) by (simp add: plain_def)
    show "from_le (take 4 plain) = calculate_hmac c payload (a_session_key a)"
      "r = reader_new (ty # payload)"
      using body p by (simp_all split: if_splits)
  qed (rule a)
qed

section \<open>What a client receives\<close>

text \<open>How a client with session key \<open>key\<close> takes one response off its stream: the length, the
  encryption flag, the seed, and behind the signature the data, with the padding of the last
  block.\<close>

definition client_receive :: "crypto \<Rightarrow> bytes \<Rightarrow> bytes \<Rightarrow> (bytes \<times> bytes) option" where
  "client_receive c key stream =
    (let n = unat (from_le (take 4 stream) :: u32);
         body = take n (drop 4 stream); rest = drop (4 + n) stream
     in if length stream < 4 + n \<or> n = 0 then None
        else if hd body = 0 then Some (drop 1 body, rest)
        else let iv = generate_iv_from_seed c (from_le (take 4 (drop 1 body)));
                 plain = tdes_cbc_decrypt c key iv (drop 5 body)
             in if from_le (take 4 plain) = RESPONSE_SIGNATURE then Some (drop 4 plain, rest)
                else None)"

lemma receive_framed:
  assumes "0 < length body" "length body < 2 ^ 32"
  shows "client_receive c key ((to_le (of_nat (length body) :: u32) @ body) @ rest) =
    (if hd body = 0 then Some (drop 1 body, rest)
     else let iv = generate_iv_from_seed c (from_le (take 4 (drop 1 body)));
              plain = tdes_cbc_decrypt c key iv (drop 5 body)
          in if from_le (take 4 plain) = RESPONSE_SIGNATURE then Some (drop 4 plain, rest) else None)"
  using assms by (simp add: client_receive_def unat_of_nat)

lemma receive_plain:
  assumes "length (resp_data resp) + 16 < 2 ^ 32"
  shows "client_receive c key (fst (frame c seed None resp) @ rest) = Some (resp_data resp, rest)"
  using receive_framed [of "0 # resp_data resp" c key rest] assms by (simp add: frame_def)

lemma receive_encrypted:
  assumes c: "crypto_ok c" and "length (resp_data resp) + 16 < 2 ^ 32"
  shows "\<exists>pad. client_receive c key (fst (frame c seed (Some key) resp) @ rest)
    = Some (resp_data resp @ replicate pad 0, rest) \<and> pad < 8"
proof -
  let ?plain = "to_le RESPONSE_SIGNATURE @ resp_data resp"
  let ?iv = "generate_iv_from_seed c seed"
  let ?ct = "encrypt_buffer_in_place c ?plain key ?iv"
  let ?pad = "next_multiple_of (length ?plain) 8 - length ?plain"
  have len: "length ?ct = next_multiple_of (length ?plain) 8" by (rule length_encrypt [OF c])
  have "next_multiple_of (length ?plain) 8 < length ?plain + 8"
    by (rule next_multiple_less) simp
  moreover have "length ?plain + 16 < 2 ^ 32 + 4" using assms(2) by simp
  ultimately have short: "length ([1] @ to_le seed @ ?ct) < 2 ^ 32" using len by simp
  have dec: "tdes_cbc_decrypt c key ?iv ?ct = padded ?plain"
    using decrypt_encrypt [OF c, of ?plain key ?iv] by (simp add: decrypt_buffer_in_place_def split: if_splits)
  have "client_receive c key (fst (frame c seed (Some key) resp) @ rest)
    = Some (drop 4 (padded ?plain), rest)"
    using receive_framed [of "[1] @ to_le seed @ ?ct" c key rest] short dec
    by (simp add: frame_def Let_def padded_def add.commute)
  moreover have "drop 4 (padded ?plain) = resp_data resp @ replicate ?pad 0"
    by (simp add: padded_def)
  moreover have "?pad < 8"
    using next_multiple_less [of 8 "length ?plain"] next_multiple_ge [of "length ?plain" 8] by linarith
  ultimately show ?thesis by metis
qed

section \<open>Properties\<close>

text \<open>
  C6. Only the holder of the session key can put an encrypted message through: a message that
  the server accepts as encrypted comes from a session with an authentication, and decrypts
  under its session key to a code, a type byte and a payload such that the code is the
  HMAC of the payload under that key. The reader that the handlers get starts at the type
  byte. Without an authentication, and for fewer than ten bytes, there is no such message.
\<close>

theorem encrypted_message_authentic:
  assumes "crypto_ok c" "bd_message_new c s (1 # rest) = Inr r"
  shows "\<exists>a seed ct hm ty payload. s_authentication s = Some a \<and> rest = to_le (seed :: u32) @ ct
    \<and> tdes_cbc_decrypt c (a_session_key a) (generate_iv_from_seed c seed) ct
        = to_le (hm :: u32) @ ty # payload
    \<and> hm = calculate_hmac c payload (a_session_key a) \<and> r = reader_new (ty # payload)"
  by (rule message_authentic [OF assms])

definition example_session :: BdSession where
  "example_session = \<lparr>s_id = 1, s_authentication = Some \<lparr>a_user_id = 7, a_username = [0x61],
     a_session_key = replicate 24 5, a_title = Iw4\<rparr>\<rparr>"

theorem encrypted_message_authentic_witness:
  "\<exists>a seed ct hm ty payload. s_authentication example_session = Some a
    \<and> tl (client_message toy_crypto (replicate 24 5) 9 3 [1, 2, 3]) = to_le (seed :: u32) @ ct
    \<and> tdes_cbc_decrypt toy_crypto (a_session_key a) (generate_iv_from_seed toy_crypto seed) ct
        = to_le (hm :: u32) @ ty # payload
    \<and> hm = calculate_hmac toy_crypto payload (a_session_key a)
    \<and> reader_new [3, 1, 2, 3] = reader_new (ty # payload)"
proof (rule encrypted_message_authentic [OF toy_crypto_ok])
  show "bd_message_new toy_crypto example_session
      (1 # tl (client_message toy_crypto (replicate 24 5) 9 3 [1, 2, 3])) = Inr (reader_new [3, 1, 2, 3])"
    using client_message_ok [OF toy_crypto_ok, of example_session
        "\<lparr>a_user_id = 7, a_username = [0x61], a_session_key = replicate 24 5, a_title = Iw4\<rparr>"
        "[1, 2, 3]" 9 3]
    by (simp add: example_session_def client_message_def)
qed

text \<open>
  C7. A message that the client encrypts under the session key is accepted, and the handlers
  read exactly the type byte and the payload it contains.
\<close>

theorem client_message_accepted:
  assumes "crypto_ok c" "s_authentication s = Some a" "8 dvd 5 + length payload"
  shows "bd_message_new c s (client_message c (a_session_key a) seed ty payload)
    = Inr (reader_new (ty # payload))"
  by (rule client_message_ok [OF assms])

theorem client_message_accepted_witness:
  "bd_message_new toy_crypto example_session
      (client_message toy_crypto (replicate 24 5) 77 0x64 [0, 0, 0, 0, 9, 9, 9, 9, 1, 2, 3])
    = Inr (reader_new [0x64, 0, 0, 0, 0, 9, 9, 9, 9, 1, 2, 3])"
  using client_message_accepted [OF toy_crypto_ok, of example_session
      "\<lparr>a_user_id = 7, a_username = [0x61], a_session_key = replicate 24 5, a_title = Iw4\<rparr>"
      "[0, 0, 0, 0, 9, 9, 9, 9, 1, 2, 3]" 77 "0x64"]
  by (simp add: example_session_def)

text \<open>
  A response frame carries the data of the response: a client takes it off its stream,
  finds the data, followed by less than a block of zeros when the response was encrypted
  under its key, and is left with what came after the frame. Framing is the same for
  every seed, and the length field does not wrap for data that fits it.
\<close>

theorem response_frame_received:
  assumes "crypto_ok c" "length (resp_data resp) + 16 < 2 ^ 32"
  shows "client_receive c key (fst (frame c seed None resp) @ rest) = Some (resp_data resp, rest)
    \<and> (\<exists>pad. client_receive c key (fst (frame c seed (Some key) resp) @ rest)
         = Some (resp_data resp @ replicate pad 0, rest) \<and> pad < 8)"
  using receive_plain [OF assms(2)] receive_encrypted [OF assms] by blast

theorem response_frame_received_witness:
  "client_receive toy_crypto [3] (fst (frame toy_crypto 8 None (unencrypted [1, 2])) @ [9])
      = Some ([1, 2], [9])
    \<and> (\<exists>pad. client_receive toy_crypto [3]
          (fst (frame toy_crypto 8 (Some [3]) (unencrypted [1, 2])) @ [9])
         = Some ([1, 2] @ replicate pad 0, [9]) \<and> pad < 8)"
  using response_frame_received [OF toy_crypto_ok, of "unencrypted [1, 2]" "[3]" 8 "[9]"]
  by (simp add: unencrypted_def)

end
