(* ===== verification/Connection.thy ===== *)
theory Connection
  imports Message
begin

text \<open>
  The connection loop (libbitdemon/src/networking/bd_socket.rs). The bytes a peer sends
  before it closes the connection are a list; what the server sends back, the session and
  the world of the handlers are the connection of the theory Session. A timeout of the
  socket ends the loop like an error and is not modelled; neither is the sniffing mode that
  an environment variable switches on, in which the server only logs.
\<close>

type_synonym 'w message_handler = "reader \<Rightarrow> ('w, unit) act"

definition MAX_MESSAGE_SIZE :: u32 where
  "MAX_MESSAGE_SIZE = 0x4000000"

definition BUFFER_SPACE_HEADER :: u32 where
  "BUFFER_SPACE_HEADER = 180"

function connection_loop :: "crypto \<Rightarrow> 'w message_handler \<Rightarrow> bytes \<Rightarrow> ('w, unit) act" where
  "connection_loop c h input conn =
    (if input = [] then (Inr (), conn)
     else if length input < 4 then (Inl IncompleteMessageHeaderError, conn)
     else
       let header = from_le (take 4 input); rest = drop 4 input in
       if header = 0 then
         (case send_frame (to_le (0 :: u32)) conn of (_, conn') \<Rightarrow> connection_loop c h rest conn')
       else if header = BUFFER_SPACE_HEADER then
         (if length rest < 4 then (Inl IoUnexpectedEof, conn)
          else connection_loop c h (drop 4 rest) conn)
       else if MAX_MESSAGE_SIZE < header then (Inl (MessageTooLargeError header), conn)
       else if length rest < unat header then (Inl IoUnexpectedEof, conn)
       else
         (case bd_message_new c (c_session conn) (take (unat header) rest) of
            Inl e \<Rightarrow> (Inl e, conn)
          | Inr message \<Rightarrow>
              (case h message conn of
                 (Inl e, conn') \<Rightarrow> (Inl e, conn')
               | (Inr (), conn') \<Rightarrow> connection_loop c h (drop (unat header) rest) conn')))"
  by pat_completeness auto
termination by (relation "measure (\<lambda>(_, _, input, _). length input)") auto

declare connection_loop.simps [simp del]

text \<open>A connection from its registration to the drop of \<open>Registered\<close>, which unregisters the
  session also when the loop ended with an error or a panic.\<close>

definition serve_connection ::
  "crypto \<Rightarrow> 'w message_handler \<Rightarrow> bytes \<Rightarrow> 'w SessionManager \<Rightarrow> 'w
    \<Rightarrow> bd_error + bytes list \<times> 'w SessionManager \<times> 'w" where
  "serve_connection c h input m w =
    (case register_session session_new m w of
       Inl e \<Rightarrow> Inl e
     | Inr (s, m', w') \<Rightarrow>
         (case connection_loop c h input \<lparr>c_session = s, c_sent = [], c_transaction = 0, c_world = w'\<rparr> of
            (_, conn) \<Rightarrow> Inr (c_sent conn, m', unregister_session (c_session conn) m' (c_world conn))))"

section \<open>What the loop does with a well-formed stream\<close>

text \<open>The three things a client sends, their bytes, and what each does to the connection.\<close>

datatype client_item = Ping | BufferSpace u32 | Payload bytes

fun item_bytes :: "client_item \<Rightarrow> bytes" where
  "item_bytes Ping = to_le (0 :: u32)"
| "item_bytes (BufferSpace n) = to_le BUFFER_SPACE_HEADER @ to_le n"
| "item_bytes (Payload m) = to_le (of_nat (length m) :: u32) @ m"

fun item_ok :: "client_item \<Rightarrow> bool" where
  "item_ok (Payload m) \<longleftrightarrow> m \<noteq> [] \<and> length m \<noteq> unat BUFFER_SPACE_HEADER
     \<and> length m \<le> unat MAX_MESSAGE_SIZE"
| "item_ok _ \<longleftrightarrow> True"

fun item_effect :: "crypto \<Rightarrow> 'w message_handler \<Rightarrow> client_item \<Rightarrow> ('w, unit) act" where
  "item_effect c h Ping = send_frame [0, 0, 0, 0]"
| "item_effect c h (BufferSpace n) = returnE ()"
| "item_effect c h (Payload m) = (\<lambda>conn. case bd_message_new c (c_session conn) m of
     Inl e \<Rightarrow> (Inl e, conn) | Inr message \<Rightarrow> h message conn)"

lemma to_le_zero: "to_le (0 :: u32) = [0, 0, 0, 0]"
  by (simp add: to_le_def upt_rec)

lemma to_le_not_Nil [simp]: "to_le (w :: u32) \<noteq> []"
proof -
  have "length (to_le w) = 4" by simp
  then show ?thesis by (metis list.size(3) zero_neq_numeral)
qed

lemma loop_ping:
  "connection_loop c h (to_le (0 :: u32) @ rest) conn
    = thenE (send_frame [0, 0, 0, 0]) (connection_loop c h rest) conn"
  by (subst connection_loop.simps) (simp add: to_le_zero send_frame_def monad_simps)

lemma loop_buffer_space:
  "connection_loop c h (to_le BUFFER_SPACE_HEADER @ to_le (n :: u32) @ rest) conn
    = connection_loop c h rest conn"
proof -
  have "to_le BUFFER_SPACE_HEADER @ to_le n @ rest \<noteq> []"
    by simp
  moreover have "(BUFFER_SPACE_HEADER :: u32) \<noteq> 0" by (simp add: BUFFER_SPACE_HEADER_def)
  ultimately show ?thesis by (subst connection_loop.simps) (simp add: Let_def)
qed

lemma loop_payload:
  assumes "item_ok (Payload m)"
  shows "connection_loop c h (to_le (of_nat (length m) :: u32) @ m @ rest) conn
    = thenE (item_effect c h (Payload m)) (connection_loop c h rest) conn"
proof -
  let ?n = "of_nat (length m) :: u32"
  have short: "length m \<le> 0x4000000" using assms by (simp add: MAX_MESSAGE_SIZE_def)
  then have n: "unat ?n = length m" by (simp add: unat_of_nat)
  have "?n \<noteq> 0" using n assms by (metis item_ok.simps(1) length_0_conv unat_0)
  moreover have "?n \<noteq> BUFFER_SPACE_HEADER" using n assms by (metis item_ok.simps(1))
  moreover have "\<not> MAX_MESSAGE_SIZE < ?n" using n assms by (simp add: word_less_nat_alt)
  moreover have "to_le ?n @ m @ rest \<noteq> []" by simp
  ultimately have "connection_loop c h (to_le ?n @ m @ rest) conn =
    (case bd_message_new c (c_session conn) m of
       Inl e \<Rightarrow> (Inl e, conn)
     | Inr message \<Rightarrow> (case h message conn of
           (Inl e, conn') \<Rightarrow> (Inl e, conn')
         | (Inr (), conn') \<Rightarrow> connection_loop c h rest conn'))"
    using n
    by (subst connection_loop.simps) (simp add: Let_def cong del: sum.case_cong_weak prod.case_cong_weak
        unit.case_cong_weak)
  also have "\<dots> = thenE (item_effect c h (Payload m)) (connection_loop c h rest) conn"
    by (simp add: thenE_def bindE_def split: sum.split prod.split unit.split)
  finally show ?thesis .
qed

lemma loop_items:
  assumes "\<forall>i \<in> set items. item_ok i"
  shows "connection_loop c h (concat (map item_bytes items)) conn
    = foreachE (item_effect c h) items conn"
  using assms
proof (induction items arbitrary: conn)
  case Nil
  then show ?case by (simp add: connection_loop.simps [of c h "[]"] monad_simps)
next
  case (Cons i items)
  then have "connection_loop c h (concat (map item_bytes items)) = foreachE (item_effect c h) items"
    by auto
  then show ?case using Cons.prems
    by (cases i)
      (simp_all add: loop_ping loop_buffer_space loop_payload monad_simps thenE_def bindE_return)
qed

section \<open>Properties\<close>

text \<open>
  C8. The loop takes a stream apart the way the clients put it together: pings, buffer
  reports and messages, one after another, have exactly their effects in order - a ping is
  answered with a ping, a buffer report is ignored, and a message goes to the handler - up to
  the first error, which ends the connection. A message can be anything from one byte to
  the limit except 180 bytes.
\<close>

theorem connection_processes_stream:
  assumes "\<forall>i \<in> set items. item_ok i"
  shows "connection_loop c h (concat (map item_bytes items)) conn
    = foreachE (item_effect c h) items conn"
  by (rule loop_items [OF assms])

definition example_conn :: "unit conn" where
  "example_conn = \<lparr>c_session = session_new, c_sent = [], c_transaction = 0, c_world = ()\<rparr>"

theorem connection_processes_stream_witness:
  "connection_loop toy_crypto (\<lambda>m. send_frame (r_buf m))
      (concat (map item_bytes [Ping, BufferSpace 9, Payload [0, 5], Payload [1, 2]])) example_conn
    = (Inl NoSessionKeyError, example_conn\<lparr>c_sent := [[0, 0, 0, 0], [5]]\<rparr>)"
proof -
  have "connection_loop toy_crypto (\<lambda>m. send_frame (r_buf m))
      (concat (map item_bytes [Ping, BufferSpace 9, Payload [0, 5], Payload [1, 2]])) example_conn
    = foreachE (item_effect toy_crypto (\<lambda>m. send_frame (r_buf m)))
        [Ping, BufferSpace 9, Payload [0, 5], Payload [1, 2]] example_conn"
    by (rule connection_processes_stream) (simp add: BUFFER_SPACE_HEADER_def MAX_MESSAGE_SIZE_def)
  then show ?thesis
    by (simp add: thenE_def bindE_def send_frame_def monad_simps example_conn_def session_new_def
        bd_message_new_def reader_new_def)
qed

text \<open>
  A message of exactly 180 bytes is not a message to the loop: its length is the marker of
  a buffer report, the first four bytes of the message are thrown away as the report, and
  the loop goes on at the fifth byte of the message as if a new item began there.
\<close>

theorem message_of_180_bytes_lost:
  assumes "length m = 180"
  shows "connection_loop c h (item_bytes (Payload m) @ rest) conn
    = connection_loop c h (drop 4 m @ rest) conn"
proof -
  have "m = to_le (from_le (take 4 m) :: u32) @ drop 4 m" by (rule take4_le) (simp add: assms)
  then have "item_bytes (Payload m) @ rest
    = to_le BUFFER_SPACE_HEADER @ to_le (from_le (take 4 m) :: u32) @ drop 4 m @ rest"
    using assms by (simp add: BUFFER_SPACE_HEADER_def)
  then show ?thesis by (simp only: loop_buffer_space)
qed

theorem message_of_180_bytes_lost_witness:
  "connection_loop toy_crypto (\<lambda>m. send_frame (r_buf m))
      (item_bytes (Payload (replicate 180 0)) @ []) example_conn
    = connection_loop toy_crypto (\<lambda>m. send_frame (r_buf m))
      (drop 4 (replicate 180 0) @ []) example_conn"
  by (rule message_of_180_bytes_lost) simp

end
