(* ===== verification/KeyStore.thy ===== *)
theory KeyStore
  imports Crypto
begin

text \<open>
  The store of the server's private keys (libbitdemon/src/auth/key_store.rs): a ring of
  sixteen keys, of which the one at the index is handed out until it has less than fourteen
  minutes to live. Time is in seconds since the epoch, as an integer: no timestamp of the
  library comes near the bounds of i64. The random bytes of a fresh key are an argument.
\<close>

record BackendPrivateKey =
  aes_key :: bytes
  aes_iv :: bytes

definition encrypt_data :: "crypto \<Rightarrow> BackendPrivateKey \<Rightarrow> bytes \<Rightarrow> bd_error + bytes" where
  "encrypt_data c k buf =
    (if length buf mod 16 = 0 then Inr (aes_cbc_encrypt c (aes_key k) (aes_iv k) buf)
     else Inl BufferSizeError)"

definition decrypt_data :: "crypto \<Rightarrow> BackendPrivateKey \<Rightarrow> bytes \<Rightarrow> bd_error + bytes" where
  "decrypt_data c k buf =
    (if length buf mod 16 = 0 then Inr (aes_cbc_decrypt c (aes_key k) (aes_iv k) buf)
     else Inl BufferSizeError)"

definition IN_MEMORY_KEY_LIFESPAN :: int where
  "IN_MEMORY_KEY_LIFESPAN = 15 * 60"

definition IN_MEMORY_KEY_TIMEOUT :: int where
  "IN_MEMORY_KEY_TIMEOUT = 14 * 60"

definition MAX_CONCURRENTLY_VALID_KEYS :: nat where
  "MAX_CONCURRENTLY_VALID_KEYS =
    nat (IN_MEMORY_KEY_LIFESPAN div (IN_MEMORY_KEY_LIFESPAN - IN_MEMORY_KEY_TIMEOUT))"

definition IN_MEMORY_KEY_STORAGE_COUNT :: nat where
  "IN_MEMORY_KEY_STORAGE_COUNT = MAX_CONCURRENTLY_VALID_KEYS + 1"

record InMemoryKey = BackendPrivateKey +
  valid_until :: int

definition key_empty :: InMemoryKey where
  "key_empty = \<lparr>aes_key = replicate 32 0, aes_iv = replicate 16 0, valid_until = 0\<rparr>"

definition key_export :: "InMemoryKey \<Rightarrow> BackendPrivateKey" where
  "key_export k = \<lparr>aes_key = aes_key k, aes_iv = aes_iv k\<rparr>"

record InMemoryKeyStore =
  ks_keys :: "InMemoryKey list"
  ks_index :: nat

definition key_store_new :: InMemoryKeyStore where
  "key_store_new = \<lparr>ks_keys = replicate IN_MEMORY_KEY_STORAGE_COUNT key_empty, ks_index = 0\<rparr>"

definition get_current_key ::
  "int \<Rightarrow> bytes \<Rightarrow> bytes \<Rightarrow> InMemoryKeyStore \<Rightarrow> BackendPrivateKey \<times> InMemoryKeyStore" where
  "get_current_key now fresh_key fresh_iv s =
    (let min_lifespan = now + IN_MEMORY_KEY_TIMEOUT;
         current_key = ks_keys s ! ks_index s
     in if valid_until current_key \<ge> min_lifespan then (key_export current_key, s)
        else
          let key_index = (ks_index s + 1) mod IN_MEMORY_KEY_STORAGE_COUNT;
              next_key = \<lparr>aes_key = fresh_key, aes_iv = fresh_iv,
                          valid_until = now + IN_MEMORY_KEY_LIFESPAN\<rparr>
          in (key_export next_key,
              s\<lparr>ks_index := key_index, ks_keys := (ks_keys s)[key_index := next_key]\<rparr>))"

definition get_valid_keys :: "int \<Rightarrow> InMemoryKeyStore \<Rightarrow> BackendPrivateKey list" where
  "get_valid_keys now s = map key_export (filter (\<lambda>k. valid_until k \<ge> now) (ks_keys s))"

section \<open>The ring\<close>

lemma key_counts: "IN_MEMORY_KEY_STORAGE_COUNT = 16"
  by (simp add: IN_MEMORY_KEY_STORAGE_COUNT_def MAX_CONCURRENTLY_VALID_KEYS_def
      IN_MEMORY_KEY_LIFESPAN_def IN_MEMORY_KEY_TIMEOUT_def)

definition key_store_ok :: "InMemoryKeyStore \<Rightarrow> bool" where
  "key_store_ok s \<longleftrightarrow> length (ks_keys s) = IN_MEMORY_KEY_STORAGE_COUNT
    \<and> ks_index s < IN_MEMORY_KEY_STORAGE_COUNT"

lemma key_store_ok_new: "key_store_ok key_store_new"
  by (simp add: key_store_ok_def key_store_new_def key_counts)

lemma key_store_ok_current: "key_store_ok s \<Longrightarrow> key_store_ok (snd (get_current_key t k v s))"
  by (simp add: get_current_key_def key_store_ok_def Let_def key_counts)

text \<open>Calls of \<open>get_current_key\<close> one after another, with their times and random bytes.\<close>

fun current_keys :: "(int \<times> bytes \<times> bytes) list \<Rightarrow> InMemoryKeyStore \<Rightarrow> InMemoryKeyStore" where
  "current_keys [] s = s"
| "current_keys ((t, k, v) # calls) s = current_keys calls (snd (get_current_key t k v s))"

text \<open>\<open>n\<close> keys have been created since the key in slot \<open>p\<close>, each living at least 61 seconds longer
  than the one before it, because a key is replaced only when less than fourteen minutes
  of its fifteen are left.\<close>

definition keeps_key :: "nat \<Rightarrow> InMemoryKey \<Rightarrow> nat \<Rightarrow> InMemoryKeyStore \<Rightarrow> bool" where
  "keeps_key p key n s \<longleftrightarrow> key_store_ok s \<and> p < 16 \<and> ks_index s = (p + n) mod 16 \<and> ks_keys s ! p = key
    \<and> valid_until (ks_keys s ! ks_index s) \<ge> valid_until key + 61 * int n"

lemma slot_not_reused: "p < 16 \<Longrightarrow> n < 15 \<Longrightarrow> ((p + n) mod 16 + 1) mod 16 \<noteq> (p :: nat)"
proof -
  assume p: "p < 16" "n < 15"
  have "((p + n) mod 16 + 1) mod 16 = (p + n + 1) mod 16" by (simp add: mod_simps)
  also have "\<dots> = (if p + n + 1 < 16 then p + n + 1 else p + n + 1 - 16)"
    using p by (simp add: mod_if)
  also have "\<dots> \<noteq> p" using p by (auto; arith)
  finally show ?thesis .
qed

lemma keeps_key_step:
  assumes k: "keeps_key p key n s" and t: "t + 840 \<le> valid_until key + 840" and n: "n \<le> 14"
  shows "\<exists>m \<le> 14. keeps_key p key m (snd (get_current_key t fk fv s))"
proof (cases "valid_until (ks_keys s ! ks_index s) \<ge> t + 840")
  case True
  then have "snd (get_current_key t fk fv s) = s"
    by (simp add: get_current_key_def Let_def IN_MEMORY_KEY_TIMEOUT_def)
  then show ?thesis using k n by auto
next
  case False
  let ?i = "(ks_index s + 1) mod 16"
  let ?new = "\<lparr>aes_key = fk, aes_iv = fv, valid_until = t + 900\<rparr>"
  have low: "valid_until key + 61 * int n \<le> valid_until (ks_keys s ! ks_index s)"
    using k unfolding keeps_key_def by blast
  then have "61 * int n < 840" using False t by linarith
  then have n': "n < 14" by simp
  have s': "snd (get_current_key t fk fv s) = s\<lparr>ks_index := ?i, ks_keys := (ks_keys s)[?i := ?new]\<rparr>"
    using False by (simp add: get_current_key_def Let_def IN_MEMORY_KEY_TIMEOUT_def
        IN_MEMORY_KEY_LIFESPAN_def key_counts)
  have "?i \<noteq> p" using k n' slot_not_reused [of p n] by (simp add: keeps_key_def)
  moreover have "?i = (p + Suc n) mod 16" using k by (simp add: keeps_key_def mod_simps)
  moreover have "t + 900 \<ge> valid_until key + 61 * int (Suc n)"
    using low False by simp
  ultimately have "keeps_key p key (Suc n) (s\<lparr>ks_index := ?i, ks_keys := (ks_keys s)[?i := ?new]\<rparr>)"
    using k by (simp add: keeps_key_def key_store_ok_def key_counts)
  then show ?thesis unfolding s' using n' by (intro exI [of _ "Suc n"]) simp
qed

lemma keeps_key_calls:
  assumes "keeps_key p key n s" "n \<le> 14" "\<forall>(t, k, v) \<in> set calls. t \<le> valid_until key"
  shows "\<exists>m \<le> 14. keeps_key p key m (current_keys calls s)"
  using assms
proof (induction calls arbitrary: n s)
  case (Cons call calls)
  obtain t k v where call: "call = (t, k, v)" by (cases call)
  from Cons.prems keeps_key_step [of p key n s t k v] call obtain m
    where "m \<le> 14" "keeps_key p key m (snd (get_current_key t k v s))" by auto
  then show ?case using Cons.IH [of m] Cons.prems(3) call by auto
qed auto

lemma current_key_kept:
  assumes "key_store_ok s" "get_current_key t fk fv s = (key, s')"
  obtains p ik where "keeps_key p ik 0 s'" "key_export ik = key" "t + 840 \<le> valid_until ik"
proof (cases "valid_until (ks_keys s ! ks_index s) \<ge> t + 840")
  case True
  then show thesis using assms that [of "ks_index s" "ks_keys s ! ks_index s"]
    by (auto simp: get_current_key_def Let_def IN_MEMORY_KEY_TIMEOUT_def keeps_key_def
        key_store_ok_def key_counts)
next
  case False
  let ?i = "(ks_index s + 1) mod 16"
  let ?new = "\<lparr>aes_key = fk, aes_iv = fv, valid_until = t + 900\<rparr>"
  have "s' = s\<lparr>ks_index := ?i, ks_keys := (ks_keys s)[?i := ?new]\<rparr>" "key = key_export ?new"
    using assms False by (auto simp: get_current_key_def Let_def IN_MEMORY_KEY_TIMEOUT_def
        IN_MEMORY_KEY_LIFESPAN_def key_counts)
  then show thesis using assms(1) that [of ?i ?new]
    by (simp add: keeps_key_def key_store_ok_def key_counts)
qed

lemma kept_key_valid:
  assumes "keeps_key p key n s" "t \<le> valid_until key"
  shows "key_export key \<in> set (get_valid_keys t s)"
proof -
  have "ks_keys s ! p \<in> set (ks_keys s)"
    using assms by (intro nth_mem) (simp add: keeps_key_def key_store_ok_def key_counts)
  then show ?thesis using assms by (auto simp: get_valid_keys_def keeps_key_def)
qed

lemma current_key_stays_valid_state:
  assumes "0 < t" "now \<le> t + 840"
  shows "\<lparr>aes_key = k, aes_iv = v\<rparr> \<in> set (get_valid_keys now (snd (get_current_key t k v key_store_new)))"
proof -
  have "get_current_key t k v key_store_new
    = (\<lparr>aes_key = k, aes_iv = v\<rparr>, snd (get_current_key t k v key_store_new))"
    using assms by (simp add: get_current_key_def key_store_new_def key_counts key_empty_def
        IN_MEMORY_KEY_TIMEOUT_def key_export_def Let_def)
  from current_key_kept [OF key_store_ok_new this] obtain p ik where
    "keeps_key p ik 0 (snd (get_current_key t k v key_store_new))"
    "key_export ik = \<lparr>aes_key = k, aes_iv = v\<rparr>" "t + 840 \<le> valid_until ik" .
  then show ?thesis using kept_key_valid [of p ik 0 _ now] assms(2) by auto
qed

section \<open>Properties\<close>

text \<open>
  C9. A key that is handed out stays valid for fourteen minutes: whatever calls for the current
  key follow, by any number of clients and with any fresh keys created among them, the key
  given out at time \<open>t\<close> is among the valid keys at every time up to \<open>t\<close> plus 840 seconds. The
  ring is long enough that its slot is not reused meanwhile.
\<close>

theorem current_key_stays_valid:
  assumes "key_store_ok s" "get_current_key t fk fv s = (key, s')"
    and "\<forall>(t', k, v) \<in> set calls. t' \<le> t + 840" "now \<le> t + 840"
  shows "key \<in> set (get_valid_keys now (current_keys calls s'))"
proof -
  obtain p ik where k: "keeps_key p ik 0 s'" "key_export ik = key" "t + 840 \<le> valid_until ik"
    using current_key_kept [OF assms(1,2)] .
  have "\<forall>(t', k, v) \<in> set calls. t' \<le> valid_until ik" using assms(3) k(3) by fastforce
  then obtain m where "keeps_key p ik m (current_keys calls s')"
    using keeps_key_calls [OF k(1)] by auto
  then show ?thesis using kept_key_valid [of p ik m _ now] k assms(4) by auto
qed

theorem current_key_stays_valid_witness:
  "\<lparr>aes_key = [1], aes_iv = [2]\<rparr> \<in> set (get_valid_keys 1840
      (current_keys [(1061, [3], [4]), (1800, [5], [6])] (snd (get_current_key 1000 [1] [2] key_store_new))))"
proof (rule current_key_stays_valid [OF key_store_ok_new, of 1000 "[1]" "[2]"])
  show "get_current_key 1000 [1] [2] key_store_new
    = (\<lparr>aes_key = [1], aes_iv = [2]\<rparr>, snd (get_current_key 1000 [1] [2] key_store_new))"
    by (simp add: get_current_key_def key_store_new_def key_counts key_empty_def
        IN_MEMORY_KEY_TIMEOUT_def key_export_def Let_def)
qed auto

text \<open>Every key of the store is the empty one or was created from random bytes.\<close>

lemma keys_created:
  assumes "key_store_ok s" "\<forall>k \<in> set (ks_keys s). k = key_empty \<or> key_export k \<in> K"
  shows "\<forall>k \<in> set (ks_keys (current_keys calls s)). k = key_empty
    \<or> key_export k \<in> K \<union> {\<lparr>aes_key = k, aes_iv = v\<rparr> |t k v. (t, k, v) \<in> set calls}"
  using assms
proof (induction calls arbitrary: s K)
  case Nil
  then show ?case by simp
next
  case (Cons call calls)
  obtain t fk fv where call: "call = (t, fk, fv)" by (cases call)
  let ?s = "snd (get_current_key t fk fv s)"
  let ?K = "insert \<lparr>aes_key = fk, aes_iv = fv\<rparr> K"
  have "\<forall>k \<in> set (ks_keys ?s). k = key_empty \<or> key_export k \<in> ?K"
    using Cons.prems(2)
    by (auto simp: get_current_key_def Let_def key_export_def
        dest!: subsetD [OF set_update_subset_insert])
  from Cons.IH [OF key_store_ok_current [OF Cons.prems(1)] this] call
  show ?case by fastforce
qed

text \<open>
  The all-zero key that fills the fresh ring is never used: at any time after the epoch,
  every valid key was created by a call for the current key, from that call's random bytes,
  and the current key that a call returns is valid at that time.
\<close>

theorem valid_keys_created:
  assumes "0 < now" "key \<in> set (get_valid_keys now (current_keys calls key_store_new))"
  shows "\<exists>t k v. (t, k, v) \<in> set calls \<and> key = \<lparr>aes_key = k, aes_iv = v\<rparr>"
proof -
  obtain ik where ik: "ik \<in> set (ks_keys (current_keys calls key_store_new))"
      "key = key_export ik" "now \<le> valid_until ik"
    using assms(2) by (auto simp: get_valid_keys_def)
  have "\<forall>k \<in> set (ks_keys key_store_new). k = key_empty \<or> key_export k \<in> {}"
    by (simp add: key_store_new_def)
  from keys_created [OF key_store_ok_new this] ik assms(1) show ?thesis
    by (fastforce simp: key_empty_def)
qed

theorem valid_keys_created_witness:
  "\<exists>t k v. (t, k, v) \<in> set [(1000 :: int, [1], [2])]
    \<and> \<lparr>aes_key = [1 :: u8], aes_iv = [2 :: u8]\<rparr> = \<lparr>aes_key = k, aes_iv = v\<rparr>"
proof (rule valid_keys_created [of 1500])
  show "\<lparr>aes_key = [1], aes_iv = [2]\<rparr>
    \<in> set (get_valid_keys 1500 (current_keys [(1000, [1], [2])] key_store_new))"
    using current_key_stays_valid_state [of 1000 1500 "[1]" "[2]"] by simp
qed simp

end
