(* ===== verification/AuthProof.thy ===== *)
theory AuthProof
  imports KeyStore Bit_Stream
begin

text \<open>
  The opaque proof of authentication (libbitdemon/src/auth/auth_proof.rs): the 128 bytes that
  the authentication service gives a client, encrypted under the current private key, and
  that the lobby decrypts with one of the valid keys. The proof needs of the key store only
  that a key handed out stays valid for a while; the locale \<open>key_storage\<close> states this
  contract of the trait BackendPrivateKeyStorage, and the in-memory store provides it.
\<close>

record ClientOpaqueAuthProof =
  p_title :: Title
  p_time_expires :: i64
  p_license_id :: u64
  p_user_id :: u64
  p_session_key :: bytes
  p_username :: bytes

definition PROOF_MAGIC :: u64 where
  "PROOF_MAGIC = 0xC0FFEEFFEEAA1337"

definition proof_plain :: "ClientOpaqueAuthProof \<Rightarrow> bytes" where
  "proof_plain p =
    to_le PROOF_MAGIC @ to_le (title_to_u32 (p_title p)) @ to_le (p_time_expires p)
    @ to_le (p_license_id p) @ to_le (p_user_id p) @ p_session_key p
    @ p_username p @ replicate (64 - length (p_username p)) 0 @ to_le (0 :: u32)"

text \<open>The debug assertion on the length fails for a user name of more than 64 bytes.\<close>

definition proof_serialize :: "crypto \<Rightarrow> BackendPrivateKey \<Rightarrow> ClientOpaqueAuthProof \<Rightarrow> bd_error + bytes" where
  "proof_serialize c current_key p =
    (let vec = proof_plain p
     in if length vec \<noteq> 128 then Inl Panic
        else case encrypt_data c current_key vec of Inl _ \<Rightarrow> Inl Panic | Inr ct \<Rightarrow> Inr ct)"

text \<open>The first valid key whose plaintext starts with the magic number.\<close>

fun find_plain :: "crypto \<Rightarrow> bytes \<Rightarrow> BackendPrivateKey list \<Rightarrow> bd_error + bytes" where
  "find_plain c buf [] = Inl UnknownKeyError"
| "find_plain c buf (k # ks) =
    (case decrypt_data c k buf of
       Inl _ \<Rightarrow> Inl Panic
     | Inr last_buf \<Rightarrow> if from_le (take 8 last_buf) = PROOF_MAGIC then Inr last_buf else find_plain c buf ks)"

text \<open>Reading from a \<open>Cursor\<close> over the plaintext: the state is what is left of it.\<close>

type_synonym 'a cur = "(bytes, bd_error, 'a) sm"

definition cur_exact :: "nat \<Rightarrow> bytes cur" where
  "cur_exact n = (\<lambda>bs. if n \<le> length bs then (Inr (take n bs), drop n bs) else (Inl IoUnexpectedEof, []))"

definition cur_u32 :: "u32 cur" where
  "cur_u32 = bindE (cur_exact 4) (\<lambda>bs. returnE (from_le bs))"

definition cur_u64 :: "u64 cur" where
  "cur_u64 = bindE (cur_exact 8) (\<lambda>bs. returnE (from_le bs))"

definition parse_proof :: "ClientOpaqueAuthProof cur" where
  "parse_proof =
    bindE cur_u32 (\<lambda>title_id.
    bindE (case title_from_u32 title_id of
             None \<Rightarrow> throwE (UnknownTitleError title_id) | Some t \<Rightarrow> returnE t) (\<lambda>title.
    bindE cur_u64 (\<lambda>time_expires.
    bindE cur_u64 (\<lambda>license_id.
    bindE cur_u64 (\<lambda>user_id.
    bindE (cur_exact 24) (\<lambda>session_key.
    bindE (cur_exact 64) (\<lambda>username_buffer.
    let username = takeWhile (\<lambda>b. b \<noteq> 0) username_buffer in
    thenE (ensureE (utf8_valid username) Utf8Error)
    (bindE cur_u32 (\<lambda>_.
     returnE \<lparr>p_title = title, p_time_expires = time_expires, p_license_id = license_id,
       p_user_id = user_id, p_session_key = session_key, p_username = username\<rparr>)))))))))"

definition proof_deserialize ::
  "crypto \<Rightarrow> BackendPrivateKey list \<Rightarrow> bytes \<Rightarrow> bd_error + ClientOpaqueAuthProof" where
  "proof_deserialize c valid_keys buf =
    (case find_plain c buf valid_keys of
       Inl e \<Rightarrow> Inl e
     | Inr plain \<Rightarrow> fst (parse_proof (drop 8 plain)))"

section \<open>Reading back\<close>

lemma cur_exact_app: "cur_exact (length xs) (xs @ ys) = (Inr xs, ys)"
  by (simp add: cur_exact_def)

lemma cur_u32_le [simp]: "cur_u32 (to_le (w :: u32) @ ys) = (Inr w, ys)"
  using cur_exact_app [of "to_le w" ys] by (simp add: cur_u32_def bindE_def monad_simps)

lemma cur_u64_le [simp]: "cur_u64 (to_le (w :: u64) @ ys) = (Inr w, ys)"
  using cur_exact_app [of "to_le w" ys] by (simp add: cur_u64_def bindE_def monad_simps)

text \<open>The proofs that can be represented: a 24-byte key and a name that fits and has no zero.\<close>

definition proof_ok :: "ClientOpaqueAuthProof \<Rightarrow> bool" where
  "proof_ok p \<longleftrightarrow> length (p_session_key p) = 24 \<and> length (p_username p) \<le> 64
    \<and> utf8_valid (p_username p) \<and> 0 \<notin> set (p_username p)"

lemma takeWhile_zero_padded: "0 \<notin> set xs \<Longrightarrow> takeWhile (\<lambda>b. b \<noteq> 0) (xs @ replicate n 0) = xs"
  by (induction xs) (cases n; auto)+

lemma length_proof_plain:
  "length (p_session_key p) = 24 \<Longrightarrow> length (p_username p) \<le> 64 \<Longrightarrow> length (proof_plain p) = 128"
  by (simp add: proof_plain_def)

lemma proof_plain_magic: "take 8 (proof_plain p) = to_le PROOF_MAGIC"
  by (simp add: proof_plain_def)

lemma parse_proof_plain:
  assumes "proof_ok p"
  shows "parse_proof (drop 8 (proof_plain p)) = (Inr p, [])"
proof -
  let ?name = "p_username p @ replicate (64 - length (p_username p)) 0"
  have key: "cur_exact 24 (p_session_key p @ ys) = (Inr (p_session_key p), ys)" for ys
    using cur_exact_app [of "p_session_key p" ys] assms by (simp add: proof_ok_def)
  have name: "cur_exact 64 (p_username p @ replicate (64 - length (p_username p)) 0 @ ys) = (Inr ?name, ys)"
    for ys
    using cur_exact_app [of ?name ys] assms by (simp add: proof_ok_def)
  have zero: "cur_u32 (to_le (0 :: u32)) = (Inr 0, [])" using cur_u32_le [of 0 "[]"] by simp
  have trim: "takeWhile (\<lambda>b. b \<noteq> 0) ?name = p_username p"
    using assms by (intro takeWhile_zero_padded) (simp add: proof_ok_def)
  show ?thesis
    using assms
    by (simp add: parse_proof_def proof_plain_def bindE_def thenE_def monad_simps key name zero trim
        proof_ok_def)
qed

text \<open>What the lobby sees when it decrypts with a given key.\<close>

lemma serialize_inverse:
  assumes "crypto_ok c" "proof_serialize c k p = Inr ct"
  shows "length ct = 128 \<and> decrypt_data c k ct = Inr (proof_plain p)"
  using assms
  by (auto simp: proof_serialize_def encrypt_data_def decrypt_data_def crypto_ok_def Let_def
      mod_eq_0_iff_dvd split: if_splits)

text \<open>No key that is tried before \<open>k\<close> makes the ciphertext look like a proof.\<close>

definition no_collision :: "crypto \<Rightarrow> BackendPrivateKey list \<Rightarrow> BackendPrivateKey \<Rightarrow> bytes \<Rightarrow> bool" where
  "no_collision c keys k ct \<longleftrightarrow> (\<forall>k' \<in> set keys. k' = k
    \<or> from_le (take 8 (aes_cbc_decrypt c (aes_key k') (aes_iv k') ct)) \<noteq> PROOF_MAGIC)"

lemma find_plain_key:
  assumes "length ct mod 16 = 0" "decrypt_data c k ct = Inr plain" "from_le (take 8 plain) = PROOF_MAGIC"
    "k \<in> set keys" "no_collision c keys k ct"
  shows "find_plain c ct keys = Inr plain"
  using assms(4,5)
proof (induction keys)
  case (Cons k' keys)
  then show ?case using assms(1-3) by (cases "k' = k") (auto simp: decrypt_data_def no_collision_def)
qed simp

lemma deserialize_serialize:
  assumes "crypto_ok c" "proof_ok p" "proof_serialize c k p = Inr ct" "k \<in> set keys"
    "no_collision c keys k ct"
  shows "proof_deserialize c keys ct = Inr p"
proof -
  note inv = serialize_inverse [OF assms(1,3)]
  have "from_le (take 8 (proof_plain p)) = PROOF_MAGIC"
    unfolding proof_plain_magic by (rule from_le_to_le) simp
  then have "find_plain c ct keys = Inr (proof_plain p)"
    using find_plain_key [of ct c k "proof_plain p" keys] inv assms(4,5) by simp
  then show ?thesis using parse_proof_plain [OF assms(2)] by (simp add: proof_deserialize_def)
qed

lemma serialize_ok:
  assumes "crypto_ok c" "proof_ok p"
  obtains ct where "proof_serialize c k p = Inr ct"
  using assms length_proof_plain [of p]
  by (auto simp: proof_serialize_def proof_ok_def encrypt_data_def Let_def)

section \<open>The contract of the key store\<close>

locale key_storage =
  fixes get_current :: "int \<Rightarrow> bytes \<Rightarrow> bytes \<Rightarrow> 's \<Rightarrow> BackendPrivateKey \<times> 's"
    and get_valid :: "int \<Rightarrow> 's \<Rightarrow> BackendPrivateKey list"
    and inv :: "'s \<Rightarrow> bool" and lifetime :: int
  assumes inv_current: "inv s \<Longrightarrow> inv (snd (get_current t fk fv s))"
    and current_valid: "\<lbrakk>inv s; get_current t fk fv s = (k, s');
      \<forall>(t', _) \<in> set calls. t' \<le> t + lifetime; now \<le> t + lifetime\<rbrakk>
      \<Longrightarrow> k \<in> set (get_valid now (fold (\<lambda>(t', fk', fv') s. snd (get_current t' fk' fv' s)) calls s'))"
begin

text \<open>A proof issued with the current key is accepted as long as the key lives.\<close>

lemma issued_proof_accepted:
  assumes "crypto_ok c" "proof_ok p" "inv s"
    and issue: "get_current t fk fv s = (k, s')" "proof_serialize c k p = Inr ct"
    and calls: "\<forall>(t', _) \<in> set calls. t' \<le> t + lifetime" "now \<le> t + lifetime"
    and later: "keys = get_valid now (fold (\<lambda>(t', fk', fv') s. snd (get_current t' fk' fv' s)) calls s')"
    and "no_collision c keys k ct"
  shows "proof_deserialize c keys ct = Inr p"
  using deserialize_serialize [OF assms(1,2) issue(2)] current_valid [OF assms(3) issue(1) calls]
    assms(9) later by simp

end

lemma current_keys_fold:
  "current_keys calls s = fold (\<lambda>(t, k, v) s. snd (get_current_key t k v s)) calls s"
  by (induction calls arbitrary: s) auto

lemma current_key_valid_later:
  assumes "key_store_ok s" "get_current_key t fk fv s = (key, s')"
    and "\<forall>(t', _) \<in> set calls. t' \<le> t + 840" "now \<le> t + 840"
  shows "key \<in> set (get_valid_keys now (current_keys calls s'))"
proof -
  obtain p ik where k: "keeps_key p ik 0 s'" "key_export ik = key" "t + 840 \<le> valid_until ik"
    using current_key_kept [OF assms(1,2)] .
  have "\<forall>(t', k, v) \<in> set calls. t' \<le> valid_until ik" using assms(3) k(3) by fastforce
  then obtain m where "keeps_key p ik m (current_keys calls s')"
    using keeps_key_calls [OF k(1)] by auto
  then show ?thesis using kept_key_valid [of p ik m _ now] k assms(4) by auto
qed

interpretation in_memory: key_storage get_current_key get_valid_keys key_store_ok 840
  by unfold_locales
    (use current_key_valid_later in \<open>auto simp: key_store_ok_current current_keys_fold\<close>)

section \<open>Properties\<close>

text \<open>
  C10. A proof is exactly 128 bytes, and the lobby gets back the very proof that was issued: the
  title, the expiry, the ids, the session key and the user name. It does so for fourteen
  minutes from the issue, whatever other keys have been created meanwhile, as long as no
  other valid key happens to decrypt the bytes to something with the magic number in front.
\<close>

theorem auth_proof_accepted:
  assumes "crypto_ok c" "proof_ok p" "key_store_ok s"
    and "get_current_key t fk fv s = (k, s')" "proof_serialize c k p = Inr ct"
    and "\<forall>(t', _) \<in> set calls. t' \<le> t + 840" "now \<le> t + 840"
    and "no_collision c (get_valid_keys now (current_keys calls s')) k ct"
  shows "length ct = 128 \<and> proof_deserialize c (get_valid_keys now (current_keys calls s')) ct = Inr p"
  using serialize_inverse [OF assms(1,5)] assms
    in_memory.issued_proof_accepted [OF assms(1-7) refl] by (simp add: current_keys_fold)

definition example_proof :: ClientOpaqueAuthProof where
  "example_proof = \<lparr>p_title = Iw4, p_time_expires = 1300, p_license_id = 1, p_user_id = 7,
    p_session_key = replicate 24 5, p_username = [0x61, 0x62]\<rparr>"

definition example_key :: BackendPrivateKey where
  "example_key = \<lparr>aes_key = [1], aes_iv = [2]\<rparr>"

lemma example_proof_ok: "proof_ok example_proof"
  by (simp add: proof_ok_def example_proof_def utf8_valid.simps utf8_char_len_def word_less_nat_alt)

lemma example_first_key:
  "get_current_key 1000 [1] [2] key_store_new = (example_key, snd (get_current_key 1000 [1] [2] key_store_new))"
  by (simp add: get_current_key_def key_store_new_def key_counts key_empty_def example_key_def
      IN_MEMORY_KEY_TIMEOUT_def key_export_def Let_def)

lemma example_only_key:
  "set (get_valid_keys 1300 (snd (get_current_key 1000 [1] [2] key_store_new))) \<subseteq> {example_key}"
  using keys_created [OF key_store_ok_new, of "{}" "[(1000, [1], [2])]"]
  by (auto simp: get_valid_keys_def key_store_new_def key_empty_def example_key_def)

theorem auth_proof_accepted_witness:
  "\<exists>ct. proof_serialize toy_crypto example_key example_proof = Inr ct \<and> length ct = 128
    \<and> proof_deserialize toy_crypto
        (get_valid_keys 1300 (current_keys [] (snd (get_current_key 1000 [1] [2] key_store_new)))) ct
      = Inr example_proof"
proof -
  obtain ct where ct: "proof_serialize toy_crypto example_key example_proof = Inr ct"
    using serialize_ok [OF toy_crypto_ok example_proof_ok] .
  have "no_collision toy_crypto (get_valid_keys 1300 (current_keys []
      (snd (get_current_key 1000 [1] [2] key_store_new)))) example_key ct"
    using example_only_key by (auto simp: no_collision_def)
  from auth_proof_accepted [OF toy_crypto_ok example_proof_ok key_store_ok_new example_first_key ct _ _ this]
  show ?thesis using ct by simp
qed

end
