(* ===== verification/AuthTicket.thy ===== *)
theory AuthTicket
  imports Wire_Values AuthProof
begin

text \<open>
  The ticket of a user (libbitdemon/src/auth/result/auth_ticket.rs) and the requests for it
  (auth/auth_handler/authentication_request.rs). The ticket is written in byte mode without
  type tags, so its bytes are determined; the client decrypts it with the session key it
  chose itself.
\<close>

datatype BdAuthTicketType = UserToService | HostToService | UserToHost

fun ticket_type_to_u8 :: "BdAuthTicketType \<Rightarrow> u8" where
  "ticket_type_to_u8 UserToService = 0x0"
| "ticket_type_to_u8 HostToService = 0x1"
| "ticket_type_to_u8 UserToHost = 0x2"

record AuthTicket =
  t_ticket_type :: BdAuthTicketType
  t_title :: Title
  t_time_issued :: u32
  t_time_expires :: u32
  t_license_id :: u64
  t_user_id :: u64
  t_username :: bytes
  t_session_key :: bytes

definition MAGIC_NUMBER :: u32 where
  "MAGIC_NUMBER = 0xEFBDADDE"

definition NAME_MAX_LEN :: nat where
  "NAME_MAX_LEN = 64"

definition ticket_serialize :: "AuthTicket \<Rightarrow> wr" where
  "ticket_serialize t =
    thenE (writer_set_type_checked False)
    (thenE (writer_set_mode ByteMode)
    (thenE (write_u32 MAGIC_NUMBER)
    (thenE (write_u8 (ticket_type_to_u8 (t_ticket_type t)))
    (thenE (write_u32 (title_to_u32 (t_title t)))
    (thenE (write_u32 (t_time_issued t))
    (thenE (write_u32 (t_time_expires t))
    (thenE (write_u64 (t_license_id t))
    (thenE (write_u64 (t_user_id t))
    (thenE (ensureE (length (t_username t) \<le> NAME_MAX_LEN) (UsernameTooLongError (length (t_username t))))
    (thenE (write_bytes (t_username t))
    (thenE (foreachE (\<lambda>_. write_bytes [0]) [length (t_username t)..<64])
    (thenE (write_bytes (t_session_key t))
           (write_bytes [0, 0, 0, 0])))))))))))))"

text \<open>A writer over an empty vector, its work, and the flush when it goes out of scope.\<close>

definition run_writer :: "wr \<Rightarrow> bd_error + bytes" where
  "run_writer m = (case thenE m flush writer_new of (Inl e, _) \<Rightarrow> Inl e | (Inr _, w) \<Rightarrow> Inr (w_out w))"

section \<open>The bytes of a ticket\<close>

definition ticket_bytes :: "AuthTicket \<Rightarrow> bytes" where
  "ticket_bytes t = to_le MAGIC_NUMBER @ [ticket_type_to_u8 (t_ticket_type t)]
    @ to_le (title_to_u32 (t_title t)) @ to_le (t_time_issued t) @ to_le (t_time_expires t)
    @ to_le (t_license_id t) @ to_le (t_user_id t)
    @ t_username t @ replicate (64 - length (t_username t)) 0 @ t_session_key t @ [0, 0, 0, 0]"

text \<open>In byte mode without tags a write appends the bytes of the value.\<close>

definition appends_raw :: "bytes \<Rightarrow> wr \<Rightarrow> bool" where
  "appends_raw bs m \<longleftrightarrow> (\<forall>w. w_mode w = ByteMode \<and> \<not> w_type_checked w
    \<longrightarrow> m w = (Inr (), w\<lparr>w_out := w_out w @ bs\<rparr>))"

lemma appends_raw_then:
  "appends_raw as m \<Longrightarrow> appends_raw bs n \<Longrightarrow> appends_raw (as @ bs) (thenE m n)"
  by (simp add: appends_raw_def thenE_def bindE_def)

lemma appends_raw_ensure: "b \<Longrightarrow> appends_raw [] (ensureE b e)"
  by (simp add: appends_raw_def monad_simps)

lemma appends_raw_scalar: "appends_raw bs (write_scalar t bs)"
  by (simp add: appends_raw_def write_scalar_def tag_type_def cursor_write_all_def thenE_def
      bindE_def monad_simps)

lemma appends_raw_values:
  "appends_raw (to_le v8) (write_u8 v8)" "appends_raw (to_le v32) (write_u32 v32)"
  "appends_raw (to_le v64) (write_u64 v64)" "appends_raw bs (write_bytes bs)"
  by (simp_all add: write_u8_def write_u32_def write_u64_def appends_raw_scalar)
    (simp add: appends_raw_def write_bytes_def cursor_write_all_def monad_simps)

lemma appends_raw_foreach:
  "appends_raw (replicate (length xs) b) (foreachE (\<lambda>_. write_bytes [b]) xs)"
proof (induction xs)
  case Nil
  then show ?case by (simp add: appends_raw_def monad_simps)
next
  case (Cons x xs)
  then show ?case using appends_raw_then [OF appends_raw_values(4) [of "[b]"]] by simp
qed

lemma to_le_u8: "to_le (b :: u8) = [b]"
  by (simp add: to_le_def)

lemma ticket_written:
  assumes "length (t_username t) \<le> 64"
  shows "ticket_serialize t w
    = (Inr (), w\<lparr>w_type_checked := False, w_mode := ByteMode, w_out := w_out w @ ticket_bytes t\<rparr>)"
proof -
  have zeros: "appends_raw (replicate (64 - length (t_username t)) 0)
      (foreachE (\<lambda>_. write_bytes [0]) [length (t_username t)..<64])"
    using appends_raw_foreach [of "[length (t_username t)..<64]" 0] by simp
  have "appends_raw (to_le MAGIC_NUMBER @ to_le (ticket_type_to_u8 (t_ticket_type t))
      @ to_le (title_to_u32 (t_title t)) @ to_le (t_time_issued t) @ to_le (t_time_expires t)
      @ to_le (t_license_id t) @ to_le (t_user_id t) @ []
      @ t_username t @ replicate (64 - length (t_username t)) 0 @ t_session_key t @ [0, 0, 0, 0])
    (thenE (write_u32 MAGIC_NUMBER)
    (thenE (write_u8 (ticket_type_to_u8 (t_ticket_type t)))
    (thenE (write_u32 (title_to_u32 (t_title t)))
    (thenE (write_u32 (t_time_issued t))
    (thenE (write_u32 (t_time_expires t))
    (thenE (write_u64 (t_license_id t))
    (thenE (write_u64 (t_user_id t))
    (thenE (ensureE (length (t_username t) \<le> NAME_MAX_LEN) (UsernameTooLongError (length (t_username t))))
    (thenE (write_bytes (t_username t))
    (thenE (foreachE (\<lambda>_. write_bytes [0]) [length (t_username t)..<64])
    (thenE (write_bytes (t_session_key t)) (write_bytes [0, 0, 0, 0]))))))))))))"
    using assms
    by (intro appends_raw_then appends_raw_values appends_raw_ensure zeros) (simp add: NAME_MAX_LEN_def)
  then show ?thesis
    by (simp add: ticket_serialize_def writer_set_type_checked_def writer_set_mode_def monad_simps
        appends_raw_def ticket_bytes_def to_le_u8)
qed

lemma ticket_too_long:
  assumes "\<not> length (t_username t) \<le> 64"
  shows "fst (ticket_serialize t writer_new) = Inl (UsernameTooLongError (length (t_username t)))"
proof -
  have app: "appends_raw as m \<Longrightarrow> w_mode w = ByteMode \<Longrightarrow> \<not> w_type_checked w \<Longrightarrow>
    thenE m n w = n (w\<lparr>w_out := w_out w @ as\<rparr>)" for as m n w
    by (simp add: appends_raw_def thenE_def bindE_def)
  show ?thesis using assms
    by (simp add: ticket_serialize_def writer_set_type_checked_def writer_set_mode_def monad_simps
        NAME_MAX_LEN_def writer_new_def app [OF appends_raw_values(1)] app [OF appends_raw_values(2)]
        app [OF appends_raw_values(3)])
qed

lemma run_ticket: "run_writer (ticket_serialize t) =
  (if length (t_username t) \<le> 64 then Inr (ticket_bytes t)
   else Inl (UsernameTooLongError (length (t_username t))))"
proof (cases "length (t_username t) \<le> 64")
  case True
  then show ?thesis
    by (simp add: run_writer_def thenE_def bindE_def ticket_written flush_def writer_new_def)
next
  case False
  then obtain w where "ticket_serialize t writer_new = (Inl (UsernameTooLongError (length (t_username t))), w)"
    using ticket_too_long [OF False] by (metis prod.collapse)
  then show ?thesis using False by (simp add: run_writer_def thenE_def bindE_def)
qed

end
