(* ===== verification/Protocol.thy ===== *)
theory Protocol
  imports Wire_Values
begin

text \<open>
  Whole messages. A message starts in byte mode without tags and goes on in bit mode behind
  a bit that says whether tags follow. \<open>emits\<close> and \<open>consumes\<close> are the promises of the theory
  Codec with the mode and the type check before and after, so that the switch is a step like
  the values, and a response can be followed from the writer of the server to the reader
  of a client.
\<close>

definition emits :: "StreamMode \<Rightarrow> bool \<Rightarrow> bool list \<Rightarrow> wr \<Rightarrow> StreamMode \<Rightarrow> bool \<Rightarrow> bool" where
  "emits md tc bs m md' tc' \<longleftrightarrow> (\<forall>w. writer_inv w \<and> w_mode w = md \<and> w_type_checked w = tc
     \<longrightarrow> (\<exists>w'. m w = (Inr (), w') \<and> writer_inv w' \<and> wbits w' = wbits w @ bs
            \<and> w_mode w' = md' \<and> w_type_checked w' = tc'))"

definition ready :: "StreamMode \<Rightarrow> bool \<Rightarrow> reader \<Rightarrow> bool" where
  "ready md tc r \<longleftrightarrow> reader_inv r \<and> \<not> r_has_data_type_cached r \<and> r_mode r = md
     \<and> r_type_checked r = tc \<and> (md = ByteMode \<longrightarrow> r_bit_offset r = 8)"

definition consumes ::
  "StreamMode \<Rightarrow> bool \<Rightarrow> bool list \<Rightarrow> 'a rd \<Rightarrow> 'a \<Rightarrow> StreamMode \<Rightarrow> bool \<Rightarrow> bool" where
  "consumes md tc bs m v md' tc' \<longleftrightarrow> (\<forall>r rest. ready md tc r \<and> rbits r = bs @ rest
     \<longrightarrow> (\<exists>r'. m r = (Inr v, r') \<and> ready md' tc' r' \<and> rbits r' = rest))"

section \<open>Emitting\<close>

lemma emits_writes: "writes md tc bs m \<Longrightarrow> emits md tc bs m md tc"
  unfolding emits_def writes_def adds_def by metis

lemma emits_then:
  assumes "emits md tc as m md' tc'" "emits md' tc' bs n md'' tc''"
  shows "emits md tc (as @ bs) (thenE m n) md'' tc''"
  unfolding emits_def
proof (intro allI impI)
  fix w assume w: "writer_inv w \<and> w_mode w = md \<and> w_type_checked w = tc"
  then obtain w1 where 1: "m w = (Inr (), w1)" "writer_inv w1" "wbits w1 = wbits w @ as"
      "w_mode w1 = md'" "w_type_checked w1 = tc'"
    using assms(1) unfolding emits_def by blast
  then obtain w2 where "n w1 = (Inr (), w2)" "writer_inv w2" "wbits w2 = wbits w1 @ bs"
      "w_mode w2 = md''" "w_type_checked w2 = tc''"
    using assms(2) unfolding emits_def by blast
  with 1 show "\<exists>w'. thenE m n w = (Inr (), w') \<and> writer_inv w' \<and> wbits w' = wbits w @ as @ bs
    \<and> w_mode w' = md'' \<and> w_type_checked w' = tc''"
    by (simp add: thenE_def bindE_def)
qed

lemma emits_then_writes:
  "writes md tc as m \<Longrightarrow> emits md tc bs n md' tc' \<Longrightarrow> emits md tc (as @ bs) (thenE m n) md' tc'"
  by (rule emits_then [OF emits_writes])

lemma emits_set_type_checked: "emits md tc [] (writer_set_type_checked b) md b"
  by (auto simp: emits_def writer_set_type_checked_def monad_simps writer_inv_def wbits_def)

lemma emits_bit_mode: "emits ByteMode tc [] (writer_set_mode BitMode) BitMode tc"
  by (auto simp: emits_def writer_set_mode_def monad_simps writer_inv_def wbits_def)

lemma emits_same_mode: "emits md tc [] (writer_set_mode md) md tc"
  by (auto simp: emits_def writer_set_mode_def monad_simps)

lemma writes_type_checked_bit: "writes BitMode tc [tc] write_type_checked_bit"
proof -
  have "take 1 (bits_of (if tc then 1 else 0)) = [tc]"
    by (rule nth_equalityI) (auto simp: bits_of_def)
  then have "writes BitMode tc [tc] (write_bits (if tc then [0x01] else [0x00]) 1)"
    using writes_bits [of 1 "if tc then [0x01] else [0x00]" tc] by (cases tc) auto
  then show ?thesis by (auto simp: writes_def write_type_checked_bit_def)
qed

text \<open>A writer that has emitted a message, flushed: its bytes are the message and some padding.\<close>

lemma emits_flushed:
  assumes "emits md tc bs m md' tc'" "writer_inv w" "w_mode w = md" "w_type_checked w = tc"
    "wbits w = []"
  obtains w' pad where "thenE m flush w = (Inr (), w')" "w_bit_offset w' = 8"
    "bytes_bits (w_out w') = bs @ replicate pad False" "pad < 8"
proof -
  obtain w1 where 1: "m w = (Inr (), w1)" "writer_inv w1" "wbits w1 = bs"
    using assms unfolding emits_def by fastforce
  obtain w2 where 2: "flush w1 = (Inr (), w2)" "w_bit_offset w2 = 8"
      "adds (replicate (8 - w_bit_offset w1) False) w1 w2"
    using flush_adds [OF 1(2)] .
  have "1 \<le> w_bit_offset w1" using 1(2) by (simp add: writer_inv_def)
  then show thesis using that [of w2 "8 - w_bit_offset w1"] 1 2 wbits_flushed [OF 2(2)]
    by (simp add: thenE_def bindE_def adds_def)
qed

text \<open>Flushing again, as the drop of the writer does after an explicit flush, changes nothing.\<close>

lemma flush_flushed: "w_bit_offset w = 8 \<Longrightarrow> flush w = (Inr (), w)"
  by (simp add: flush_def)

section \<open>Consuming\<close>

lemma consumes_reads: "reads md tc bs m v \<Longrightarrow> consumes md tc bs m v md tc"
  unfolding consumes_def
proof (intro allI impI)
  fix r rest
  assume m: "reads md tc bs m v" and r: "ready md tc r \<and> rbits r = bs @ rest"
  then obtain r' where "m r = (Inr v, r')" "takes (length bs) r r'"
    unfolding reads_def ready_def by blast
  then show "\<exists>r'. m r = (Inr v, r') \<and> ready md tc r' \<and> rbits r' = rest"
    using r by (intro exI [of _ r']) (auto simp: takes_def ready_def dest: r_frameD)
qed

lemma consumes_bind:
  assumes "consumes md tc as m x md' tc'" "consumes md' tc' bs (f x) y md'' tc''"
  shows "consumes md tc (as @ bs) (bindE m f) y md'' tc''"
  unfolding consumes_def
proof (intro allI impI)
  fix r rest
  assume r: "ready md tc r \<and> rbits r = (as @ bs) @ rest"
  then obtain r1 where 1: "m r = (Inr x, r1)" "ready md' tc' r1" "rbits r1 = bs @ rest"
    using assms(1) unfolding consumes_def by (metis append.assoc)
  then obtain r2 where "f x r1 = (Inr y, r2)" "ready md'' tc'' r2" "rbits r2 = rest"
    using assms(2) unfolding consumes_def by blast
  with 1 show "\<exists>r'. bindE m f r = (Inr y, r') \<and> ready md'' tc'' r' \<and> rbits r' = rest"
    by (simp add: bindE_def)
qed

lemma consumes_then:
  "consumes md tc as m () md' tc' \<Longrightarrow> consumes md' tc' bs n y md'' tc''
    \<Longrightarrow> consumes md tc (as @ bs) (thenE m n) y md'' tc''"
  by (simp add: thenE_def consumes_bind)

lemma consumes_return: "consumes md tc [] (returnE v) v md tc"
  by (simp add: consumes_reads reads_return)

lemma consumes_bit_mode: "consumes ByteMode tc [] (modifyE (reader_set_mode BitMode)) () BitMode tc"
  by (auto simp: consumes_def monad_simps reader_set_mode_def ready_def rbits_def pending_bits_def
      cursor_rest_def)

lemma consumes_set_type_checked:
  "consumes md tc [] (modifyE (reader_set_type_checked b)) () md b"
  by (auto simp: consumes_def monad_simps reader_set_type_checked_def ready_def rbits_def
      pending_bits_def cursor_rest_def)

lemma rbits_type_checked [simp]: "rbits (r\<lparr>r_type_checked := b\<rparr>) = rbits r"
  by (simp add: rbits_def pending_bits_def cursor_rest_def)

lemma consumes_type_checked_bit: "consumes BitMode tc [b] read_type_checked_bit () BitMode b"
  unfolding consumes_def
proof (intro allI impI)
  fix r rest
  assume r: "ready BitMode tc r \<and> rbits r = [b] @ rest"
  have "reads BitMode tc [b] (read_bits [0] 1) [byte_of [b]]"
    using reads_bits [of 1 "[b]" tc] by (simp add: pack_step)
  then obtain r' where "read_bits [0] 1 r = (Inr [byte_of [b]], r')" "takes (length [b]) r r'"
    using r unfolding reads_def ready_def by blast
  moreover have "(0 < byte_of [b]) = b" by (cases b) (simp_all add: byte_of_def word_less_nat_alt)
  ultimately show "\<exists>r'. read_type_checked_bit r = (Inr (), r') \<and> ready BitMode b r' \<and> rbits r' = rest"
    using r by (auto simp: read_type_checked_bit_def ready_def bindE_def monad_simps takes_def
        dest: r_frameD)
qed

lemma ready_new: "ready ByteMode False (reader_new bs)"
  by (simp add: ready_def reader_new_def reader_inv_def)

lemma rbits_new: "rbits (reader_new bs) = bytes_bits bs"
  by (simp add: rbits_def reader_new_def pending_bits_def cursor_rest_def)

text \<open>Reading a message from its bytes.\<close>

lemma consumes_new:
  assumes "consumes ByteMode False bs m v md tc" "bytes_bits data = bs @ rest"
  obtains r where "m (reader_new data) = (Inr v, r)" "rbits r = rest" "ready md tc r"
  using assms ready_new [of data] rbits_new [of data] unfolding consumes_def by metis

section \<open>The header of a response\<close>

text \<open>Every response of the lobby starts with a type byte in byte mode, then switches to bit mode
  with tags.\<close>

definition write_header :: "u8 \<Rightarrow> wr" where
  "write_header ty =
    thenE (writer_set_type_checked False)
    (thenE (writer_set_mode ByteMode)
    (thenE (write_u8 ty)
    (thenE (writer_set_mode BitMode)
    (thenE (writer_set_type_checked True) write_type_checked_bit))))"

text \<open>How a client reads it.\<close>

definition read_header :: "u8 rd" where
  "read_header = bindE read_u8 (\<lambda>ty. thenE (modifyE (reader_set_mode BitMode))
    (thenE read_type_checked_bit (returnE ty)))"

definition header_bits :: "u8 \<Rightarrow> bool list" where
  "header_bits ty = bits_of ty @ [True]"

lemma enc_u8_raw: "enc_scalar UnsignedChar8Type md False v = bits_of (v :: u8)"
  by (simp add: enc_scalar_def tagged_def to_le_def)

lemma emits_header: "emits ByteMode False (header_bits ty) (write_header ty) BitMode True"
proof -
  have "emits ByteMode False ([] @ [] @ enc_scalar UnsignedChar8Type ByteMode False ty @ [] @ [] @ [True])
      (write_header ty) BitMode True"
    unfolding write_header_def
    by (rule emits_then emits_set_type_checked emits_same_mode emits_bit_mode
        emits_writes [OF u8_c.writes [OF any_value]] emits_writes [OF writes_type_checked_bit])+
  then show ?thesis by (simp add: enc_u8_raw header_bits_def)
qed

lemma consumes_header: "consumes ByteMode False (header_bits ty) read_header ty BitMode True"
proof -
  have "consumes ByteMode False (enc_scalar UnsignedChar8Type ByteMode False ty @ [] @ [True] @ [])
      read_header ty BitMode True"
    unfolding read_header_def
    by (rule consumes_bind consumes_then consumes_bit_mode consumes_type_checked_bit consumes_return
        consumes_reads [OF u8_c.reads [OF any_value]])+
  then show ?thesis by (simp add: enc_u8_raw header_bits_def)
qed

end
