(* ===== verification/AuthServer.thy ===== *)
theory AuthServer
  imports AuthTicket Protocol Message ErrorCode "HOL-Library.Signed_Division"
begin

text \<open>
  The authentication server (libbitdemon/src/auth/): message types and replies, the request for
  a ticket in the format this repository issues itself, the Steam handler that answers it,
  and the dispatch. Time, fresh key material and random seeds are an environment; the key
  store is part of the world that the server's connections share.
\<close>

section \<open>Message types\<close>

datatype AuthMessageType =
    CreateAccountRequest | CreateAccountReply | ChangeUserKeyRequest | ChangeUserKeyReply
  | ResetAccountRequest | ResetAccountReply | DeleteAccountRequest | DeleteAccountReply
  | MigrateAccountsRequest | MigrateAccountsReply | AccountForMmpRequest | AccountForMmpReply
  | HostForMmpRequest | HostForMmpReply | AccountForHostRequest | AccountForHostReply
  | AnonymousForMmpRequest | AnonymousForMmpReply | Ps3ForMmpRequest | Ps3ForMmpReply
  | GetUsernamesByLicenseRequest | GetUsernamesByLicenseReply | WiiForMmpRequest
  | WiiForMmpReply | ForDedicatedServerRequest | ForDedicatedServerReply
  | ForDedicatedServerRequestRsa | ForDedicatedServerReplyRsa | SteamForMmpRequest
  | SteamForMmpReply | N3dsForMmpRequest | N3dsForMmpReply | CodoForMmpRequest | CodoForMmpReply
  | AbaccountsForMmpRequest | AbaccountsForMmpReply | WiiUForMmpRequest | WiiUForMmpReply
  | WiiUForMmpRequest2 | WiiUForMmpReply2 | WiiUSecondaryForMmpRequest
  | WiiUSecondaryForMmpReply

definition all_auth_message_types :: "AuthMessageType list" where
  "all_auth_message_types =
    [CreateAccountRequest, CreateAccountReply, ChangeUserKeyRequest, ChangeUserKeyReply,
     ResetAccountRequest, ResetAccountReply, DeleteAccountRequest, DeleteAccountReply,
     MigrateAccountsRequest, MigrateAccountsReply, AccountForMmpRequest, AccountForMmpReply,
     HostForMmpRequest, HostForMmpReply, AccountForHostRequest, AccountForHostReply,
     AnonymousForMmpRequest, AnonymousForMmpReply, Ps3ForMmpRequest, Ps3ForMmpReply,
     GetUsernamesByLicenseRequest, GetUsernamesByLicenseReply, WiiForMmpRequest,
     WiiForMmpReply, ForDedicatedServerRequest, ForDedicatedServerReply,
     ForDedicatedServerRequestRsa, ForDedicatedServerReplyRsa, SteamForMmpRequest,
     SteamForMmpReply, N3dsForMmpRequest, N3dsForMmpReply, CodoForMmpRequest, CodoForMmpReply,
     AbaccountsForMmpRequest, AbaccountsForMmpReply, WiiUForMmpRequest, WiiUForMmpReply,
     WiiUForMmpRequest2, WiiUForMmpReply2, WiiUSecondaryForMmpRequest,
     WiiUSecondaryForMmpReply]"

fun auth_message_type_to_u8 :: "AuthMessageType \<Rightarrow> u8" where
  "auth_message_type_to_u8 CreateAccountRequest = 0x0"
| "auth_message_type_to_u8 CreateAccountReply = 0x1"
| "auth_message_type_to_u8 ChangeUserKeyRequest = 0x2"
| "auth_message_type_to_u8 ChangeUserKeyReply = 0x3"
| "auth_message_type_to_u8 ResetAccountRequest = 0x4"
| "auth_message_type_to_u8 ResetAccountReply = 0x5"
| "auth_message_type_to_u8 DeleteAccountRequest = 0x6"
| "auth_message_type_to_u8 DeleteAccountReply = 0x7"
| "auth_message_type_to_u8 MigrateAccountsRequest = 0x8"
| "auth_message_type_to_u8 MigrateAccountsReply = 0x9"
| "auth_message_type_to_u8 AccountForMmpRequest = 0xA"
| "auth_message_type_to_u8 AccountForMmpReply = 0xB"
| "auth_message_type_to_u8 HostForMmpRequest = 0xC"
| "auth_message_type_to_u8 HostForMmpReply = 0xD"
| "auth_message_type_to_u8 AccountForHostRequest = 0xE"
| "auth_message_type_to_u8 AccountForHostReply = 0xF"
| "auth_message_type_to_u8 AnonymousForMmpRequest = 0x10"
| "auth_message_type_to_u8 AnonymousForMmpReply = 0x11"
| "auth_message_type_to_u8 Ps3ForMmpRequest = 0x12"
| "auth_message_type_to_u8 Ps3ForMmpReply = 0x13"
| "auth_message_type_to_u8 GetUsernamesByLicenseRequest = 0x14"
| "auth_message_type_to_u8 GetUsernamesByLicenseReply = 0x15"
| "auth_message_type_to_u8 WiiForMmpRequest = 0x16"
| "auth_message_type_to_u8 WiiForMmpReply = 0x17"
| "auth_message_type_to_u8 ForDedicatedServerRequest = 0x18"
| "auth_message_type_to_u8 ForDedicatedServerReply = 0x19"
| "auth_message_type_to_u8 ForDedicatedServerRequestRsa = 0x1A"
| "auth_message_type_to_u8 ForDedicatedServerReplyRsa = 0x1B"
| "auth_message_type_to_u8 SteamForMmpRequest = 0x1C"
| "auth_message_type_to_u8 SteamForMmpReply = 0x1D"
| "auth_message_type_to_u8 N3dsForMmpRequest = 0x1E"
| "auth_message_type_to_u8 N3dsForMmpReply = 0x1F"
| "auth_message_type_to_u8 CodoForMmpRequest = 0x20"
| "auth_message_type_to_u8 CodoForMmpReply = 0x21"
| "auth_message_type_to_u8 AbaccountsForMmpRequest = 0x22"
| "auth_message_type_to_u8 AbaccountsForMmpReply = 0x23"
| "auth_message_type_to_u8 WiiUForMmpRequest = 0x24"
| "auth_message_type_to_u8 WiiUForMmpReply = 0x25"
| "auth_message_type_to_u8 WiiUForMmpRequest2 = 0x26"
| "auth_message_type_to_u8 WiiUForMmpReply2 = 0x27"
| "auth_message_type_to_u8 WiiUSecondaryForMmpRequest = 0x28"
| "auth_message_type_to_u8 WiiUSecondaryForMmpReply = 0x29"

definition auth_message_type_from_u8 :: "u8 \<Rightarrow> AuthMessageType option" where
  "auth_message_type_from_u8 v = List.find (\<lambda>t. auth_message_type_to_u8 t = v) all_auth_message_types"

definition is_request_code :: "AuthMessageType \<Rightarrow> bool" where
  "is_request_code t \<longleftrightarrow> auth_message_type_to_u8 t mod 2 = 0"

text \<open>The unwrap of \<open>reply_code\<close> is the error of \<open>None\<close>; no type runs into it.\<close>

definition reply_code :: "AuthMessageType \<Rightarrow> AuthMessageType option" where
  "reply_code t = (let code = auth_message_type_to_u8 t
     in auth_message_type_from_u8 ((code - code mod 2) + 1))"

section \<open>The environment and the world\<close>

record env =
  e_now :: int
  e_fresh_key :: bytes
  e_fresh_iv :: bytes
  e_seeds :: "nat \<Rightarrow> u32"

record base_world =
  w_keys :: InMemoryKeyStore

text \<open>A read of a handler from the message it got.\<close>

definition run_rd :: "'a rd \<Rightarrow> reader \<Rightarrow> ('w, 'a \<times> reader) act" where
  "run_rd m r = (\<lambda>conn. case m r of (Inl e, _) \<Rightarrow> (Inl e, conn) | (Inr v, r') \<Rightarrow> (Inr (v, r'), conn))"

definition take_current_key :: "env \<Rightarrow> ('a base_world_scheme, BackendPrivateKey) act" where
  "take_current_key env = (\<lambda>conn.
    case get_current_key (e_now env) (e_fresh_key env) (e_fresh_iv env) (w_keys (c_world conn)) of
      (k, ks) \<Rightarrow> (Inr k, conn\<lparr>c_world := (c_world conn)\<lparr>w_keys := ks\<rparr>\<rparr>))"

section \<open>Requests\<close>

record CustomSteamAuthenticationRequest =
  cs_steam_id :: u64
  cs_session_key :: bytes
  cs_username :: bytes

definition CUSTOM_TICKET_SIGNATURE :: u32 where
  "CUSTOM_TICKET_SIGNATURE = 0xDEADBABE"

definition EXPECTED_SECRET_DATA_SIZE :: nat where
  "EXPECTED_SECRET_DATA_SIZE = 24 + 64"

definition custom_request_deserialize :: "CustomSteamAuthenticationRequest rd" where
  "custom_request_deserialize =
    thenE (modifyE (reader_set_mode ByteMode))
    (thenE (modifyE (reader_set_type_checked False))
    (bindE read_u32 (\<lambda>signature.
     thenE (ensureE (signature = CUSTOM_TICKET_SIGNATURE)
              (SignatureMismatchError signature CUSTOM_TICKET_SIGNATURE))
     (bindE read_u64 (\<lambda>steam_id.
      bindE read_u32 (\<lambda>secret_data_size.
      thenE (ensureE (unat secret_data_size = EXPECTED_SECRET_DATA_SIZE)
               (UnexpectedSecretLengthError (unat secret_data_size) EXPECTED_SECRET_DATA_SIZE))
      (bindE (read_bytes 24) (\<lambda>session_key.
       bindE read_str (\<lambda>username.
       thenE (ensureE (length username < 64) (TicketUsernameTooLongError (length username) 64))
       (returnE \<lparr>cs_steam_id = steam_id, cs_session_key = session_key, cs_username = username\<rparr>))))))))))"

record AuthenticationRequest =
  ar_iv_seed :: u32
  ar_title :: Title
  ar_request_data :: CustomSteamAuthenticationRequest

definition MAX_DATA_LEN :: nat where
  "MAX_DATA_LEN = 128"

definition authentication_request_deserialize :: "AuthenticationRequest rd" where
  "authentication_request_deserialize =
    bindE read_u32 (\<lambda>iv_seed.
    bindE read_u32 (\<lambda>title_id.
    bindE (case title_from_u32 title_id of
             None \<Rightarrow> throwE (UnknownTitleError title_id) | Some t \<Rightarrow> returnE t) (\<lambda>title.
    bindE read_u32 (\<lambda>data_len.
    thenE (ensureE (unat data_len \<le> MAX_DATA_LEN) (RequestDataTooLongError (unat data_len)))
    (bindE (read_bytes (unat data_len)) (\<lambda>data_buf.
     bindE (liftE (fst (custom_request_deserialize (reader_new data_buf)))) (\<lambda>request_data.
     returnE \<lparr>ar_iv_seed = iv_seed, ar_title = title, ar_request_data = request_data\<rparr>)))))))"

section \<open>Responses\<close>

record AuthResponse =
  ax_message_type :: AuthMessageType
  ax_error_code :: BdErrorCode
  ax_write_auth_data :: wr

definition auth_response_writer :: "AuthResponse \<Rightarrow> wr" where
  "auth_response_writer a =
    thenE (writer_set_type_checked False)
    (thenE (writer_set_mode BitMode)
    (thenE (write_u8 (auth_message_type_to_u8 (ax_message_type a)))
    (thenE (writer_set_type_checked True)
    (thenE write_type_checked_bit
    (thenE (write_u32 (error_code_to_u32 (ax_error_code a)))
           (ax_write_auth_data a))))))"

definition auth_to_response :: "AuthResponse \<Rightarrow> bd_error + BdResponse" where
  "auth_to_response a = (case run_writer (auth_response_writer a) of
     Inl e \<Rightarrow> Inl e | Inr buf \<Rightarrow> Inr (unencrypted buf))"

definition auth_response_with_only_code :: "AuthMessageType \<Rightarrow> BdErrorCode \<Rightarrow> AuthResponse" where
  "auth_response_with_only_code t code =
    \<lparr>ax_message_type = t, ax_error_code = code, ax_write_auth_data = returnE ()\<rparr>"

definition steam_write_auth_data :: "crypto \<Rightarrow> u32 \<Rightarrow> AuthTicket \<Rightarrow> bytes \<Rightarrow> wr" where
  "steam_write_auth_data c seed ticket serialized_proof_data =
    thenE (write_u32 seed)
    (bindE (liftE (run_writer (ticket_serialize ticket))) (\<lambda>ticket_buf.
     let iv = generate_iv_from_seed c seed;
         padded_buf = resize (next_multiple_of (length ticket_buf) 8) 0 ticket_buf
     in thenE (write_bytes (encrypt_buffer_in_place c padded_buf (t_session_key ticket) iv))
              (write_bytes serialized_proof_data)))"

definition steam_auth_response :: "crypto \<Rightarrow> u32 \<Rightarrow> AuthTicket \<Rightarrow> bytes \<Rightarrow> AuthResponse" where
  "steam_auth_response c seed ticket proof =
    \<lparr>ax_message_type = SteamForMmpReply, ax_error_code = AuthNoError,
     ax_write_auth_data = steam_write_auth_data c seed ticket proof\<rparr>"

section \<open>The Steam handler\<close>

definition TICKET_ISSUE_LENGTH :: int where
  "TICKET_ISSUE_LENGTH = 5 * 60 * 1000"

text \<open>The times of the ticket are cut to 32 bits by a remainder.\<close>

definition steam_ticket :: "int \<Rightarrow> AuthenticationRequest \<Rightarrow> AuthTicket" where
  "steam_ticket now req =
    \<lparr>t_ticket_type = UserToService, t_title = ar_title req,
     t_time_issued = word_of_int (now smod (2 ^ 32 - 1)),
     t_time_expires = word_of_int ((now + TICKET_ISSUE_LENGTH) smod (2 ^ 32 - 1)),
     t_license_id = 1234, t_user_id = cs_steam_id (ar_request_data req),
     t_username = cs_username (ar_request_data req),
     t_session_key = cs_session_key (ar_request_data req)\<rparr>"

definition ticket_proof :: "int \<Rightarrow> AuthTicket \<Rightarrow> ClientOpaqueAuthProof" where
  "ticket_proof expires t =
    \<lparr>p_title = t_title t, p_time_expires = word_of_int expires, p_license_id = t_license_id t,
     p_user_id = t_user_id t, p_session_key = t_session_key t, p_username = t_username t\<rparr>"

definition steam_handle :: "crypto \<Rightarrow> env \<Rightarrow> reader \<Rightarrow> ('a base_world_scheme, AuthResponse) act" where
  "steam_handle c env r =
    bindE (run_rd (thenE (modifyE (reader_set_mode BitMode))
            (thenE read_type_checked_bit authentication_request_deserialize)) r) (\<lambda>(req, _).
    let ticket = steam_ticket (e_now env) req;
        proof = ticket_proof (e_now env + TICKET_ISSUE_LENGTH) ticket
    in bindE (take_current_key env) (\<lambda>key.
       bindE (liftE (proof_serialize c key proof)) (\<lambda>serialized_proof_data.
       returnE (steam_auth_response c (e_seeds env 1) ticket serialized_proof_data))))"

section \<open>The dispatch\<close>

type_synonym 'w auth_handlers = "AuthMessageType \<rightharpoonup> (reader \<Rightarrow> ('w, AuthResponse) act)"

definition auth_server_new :: "crypto \<Rightarrow> env \<Rightarrow> ('a base_world_scheme) auth_handlers" where
  "auth_server_new c env = Map.empty(SteamForMmpRequest \<mapsto> steam_handle c env)"

definition auth_server_handle_message ::
  "crypto \<Rightarrow> env \<Rightarrow> 'w auth_handlers \<Rightarrow> reader \<Rightarrow> ('w, unit) act" where
  "auth_server_handle_message c env handlers r =
    bindE (run_rd read_u8 r) (\<lambda>(message_type_input, r').
    case auth_message_type_from_u8 message_type_input of
      None \<Rightarrow> throwE (IllegalMessageTypeError message_type_input)
    | Some handler_type \<Rightarrow>
        (case handlers handler_type of
           Some handler \<Rightarrow>
             bindE (handler r') (\<lambda>auth_response.
             bindE (liftE (auth_to_response auth_response)) (\<lambda>resp. send c (e_seeds env 0) resp))
         | None \<Rightarrow>
             (case reply_code handler_type of
                None \<Rightarrow> throwE Panic
              | Some rt \<Rightarrow>
                  bindE (liftE (auth_to_response (auth_response_with_only_code rt AuthIllegalOperation)))
                    (\<lambda>resp. send c (e_seeds env 0) resp))))"

section \<open>What a request contains\<close>

lemma auth_message_type_back [simp]:
  "auth_message_type_from_u8 (auth_message_type_to_u8 t) = Some t"
  by (cases t) (simp_all add: auth_message_type_from_u8_def all_auth_message_types_def)

lemma reply_code_total: "\<exists>t'. reply_code t = Some t' \<and> \<not> is_request_code t'
  \<and> (is_request_code t \<longrightarrow> auth_message_type_to_u8 t' = auth_message_type_to_u8 t + 1)"
  by (cases t) (simp_all add: reply_code_def auth_message_type_from_u8_def all_auth_message_types_def
      is_request_code_def Let_def)

lemma until_inclusive_clean: "d \<notin> set (butlast (until_inclusive d bs))"
proof -
  have "d \<notin> set (takeWhile (\<lambda>b. b \<noteq> d) bs)" by (auto dest: set_takeWhileD)
  then show ?thesis by (auto simp: until_inclusive_def Let_def dest: in_set_butlastD)
qed

lemma c_string_result:
  assumes "cursor_read_c_string r = (Inr v, r')"
  shows "utf8_valid v \<and> 0 \<notin> set v"
  using assms until_inclusive_clean [of 0]
  by (auto simp: cursor_read_c_string_def cursor_read_until_def bindE_def from_utf8_def Let_def
      monad_simps split: if_splits)

lemma read_str_untyped_result:
  assumes "read_str r = (Inr v, r')" "r_mode r = ByteMode" "\<not> r_type_checked r"
  shows "utf8_valid v \<and> 0 \<notin> set v"
  using assms c_string_result by (auto simp: read_str_def thenE_def bindE_def expect_type_def)

lemma read_bytes_raw_result:
  assumes "read_bytes n r = (Inr v, r')" "r_mode r = ByteMode"
  shows "length v = n \<and> r_frame r' = r_frame r"
  using assms by (auto simp: read_bytes_def bindE_def cursor_read_def Let_def monad_simps split: if_splits)

lemma read_scalar_raw_frame:
  assumes "read_scalar t n r = (Inr v, r')" "r_mode r = ByteMode" "\<not> r_type_checked r"
  shows "r_frame r' = r_frame r"
  using assms by (auto simp: read_scalar_def thenE_def bindE_def expect_type_def cursor_read_exact_def
      split: if_splits)

lemma read_u32_u64_raw_frame:
  assumes "r_mode r = ByteMode" "\<not> r_type_checked r"
  shows "read_u32 r = (Inr v, r') \<Longrightarrow> r_frame r' = r_frame r"
    "read_u64 r = (Inr v', r') \<Longrightarrow> r_frame r' = r_frame r"
  using assms read_scalar_raw_frame
  by (auto simp: read_u32_def read_u64_def monad_simps elim!: bindE_Inr_E)

definition request_ok :: "CustomSteamAuthenticationRequest \<Rightarrow> bool" where
  "request_ok q \<longleftrightarrow> length (cs_session_key q) = 24 \<and> length (cs_username q) < 64
    \<and> utf8_valid (cs_username q) \<and> 0 \<notin> set (cs_username q)"

lemma custom_request_result:
  assumes "custom_request_deserialize r = (Inr q, r')"
  shows "request_ok q"
proof -
  let ?r = "r\<lparr>r_mode := ByteMode, r_type_checked := False\<rparr>"
  have raw: "r_mode ?r = ByteMode" "\<not> r_type_checked ?r" by simp_all
  obtain sig r1 steam r2 size r3 key r4 name r5 where
    1: "read_u32 ?r = (Inr sig, r1)" and 2: "read_u64 r1 = (Inr steam, r2)" and
    3: "read_u32 r2 = (Inr size, r3)" and 4: "read_bytes 24 r3 = (Inr key, r4)" and
    5: "read_str r4 = (Inr name, r5)" and
    q: "length name < 64" "q = \<lparr>cs_steam_id = steam, cs_session_key = key, cs_username = name\<rparr>"
    using assms
    by (auto simp: custom_request_deserialize_def monad_simps reader_set_mode_def
        reader_set_type_checked_def elim!: bindE_Inr_E split: if_splits)
  have f1: "r_frame r1 = r_frame ?r" using read_u32_u64_raw_frame(1) [OF raw 1] .
  have f2: "r_frame r2 = r_frame ?r"
    using read_u32_u64_raw_frame(2) [OF _ _ 2] r_frameD [OF f1] raw f1 by simp
  have f3: "r_frame r3 = r_frame ?r"
    using read_u32_u64_raw_frame(1) [OF _ _ 3] r_frameD [OF f2] raw f2 by simp
  have k: "length key = 24" and f4: "r_frame r4 = r_frame ?r"
    using read_bytes_raw_result [OF 4] r_frameD [OF f3] raw f3 by simp_all
  show ?thesis using read_str_untyped_result [OF 5] r_frameD [OF f4] raw k q
    by (simp add: request_ok_def)
qed

lemma custom_request_fst: "fst (custom_request_deserialize r) = Inr q \<Longrightarrow> request_ok q"
  using custom_request_result by (metis prod.collapse)

lemma authentication_request_result:
  assumes "authentication_request_deserialize r = (Inr req, r')"
  shows "request_ok (ar_request_data req)"
  using assms custom_request_fst
  by (auto simp: authentication_request_deserialize_def monad_simps liftE_def elim!: bindE_Inr_E
      split: if_splits option.splits)

section \<open>What the client gets\<close>

text \<open>How a client reads the answer of the Steam handler: type, code, seed, the encrypted ticket
  in whole blocks, and the proof.\<close>

definition client_read_steam_reply :: "(u8 \<times> u32 \<times> u32 \<times> bytes \<times> bytes) rd" where
  "client_read_steam_reply =
    thenE (modifyE (reader_set_mode BitMode))
    (bindE read_u8 (\<lambda>ty.
     thenE read_type_checked_bit
     (bindE read_u32 (\<lambda>code.
      bindE read_u32 (\<lambda>seed.
      bindE (read_bytes 128) (\<lambda>ticket.
      bindE (read_bytes 128) (\<lambda>proof. returnE (ty, code, seed, ticket, proof))))))))"

lemma reads_bytes_bit: "reads BitMode tc (bytes_bits bs) (read_bytes (length bs)) bs"
  using reads_bit_bytes [of tc bs] by (auto simp: reads_def read_bytes_def)

lemma writes_bytes_bit: "writes BitMode tc (bytes_bits bs) (write_bytes bs)"
  using writes_bit_bytes [of tc bs] by (auto simp: writes_def write_bytes_def)

definition steam_reply_bits :: "u8 \<Rightarrow> u32 \<Rightarrow> u32 \<Rightarrow> bytes \<Rightarrow> bytes \<Rightarrow> bool list" where
  "steam_reply_bits ty code seed ticket pd = bits_of ty @ [True]
    @ enc_scalar UnsignedInteger32Type BitMode True code
    @ enc_scalar UnsignedInteger32Type BitMode True seed @ bytes_bits ticket @ bytes_bits pd"

lemma consumes_steam_reply:
  assumes "length ticket = 128" "length pd = 128"
  shows "consumes ByteMode False (steam_reply_bits ty code seed ticket pd) client_read_steam_reply
    (ty, code, seed, ticket, pd) BitMode True"
proof -
  have "consumes ByteMode False ([] @ enc_scalar UnsignedChar8Type BitMode False ty @ [True]
      @ enc_scalar UnsignedInteger32Type BitMode True code
      @ enc_scalar UnsignedInteger32Type BitMode True seed @ bytes_bits ticket @ bytes_bits pd @ [])
    client_read_steam_reply (ty, code, seed, ticket, pd) BitMode True"
    unfolding client_read_steam_reply_def
    by (rule consumes_then consumes_bind consumes_bit_mode consumes_type_checked_bit consumes_return
        consumes_reads [OF u8_c.reads [OF any_value]] consumes_reads [OF u32_c.reads [OF any_value]]
        consumes_reads [OF reads_bytes_bit [of True ticket, unfolded assms]]
        consumes_reads [OF reads_bytes_bit [of True pd, unfolded assms]])+
  then show ?thesis by (simp add: steam_reply_bits_def enc_u8_raw)
qed

lemma emits_bit_from_byte: "emits ByteMode False [] (thenE (writer_set_type_checked False) (writer_set_mode BitMode)) BitMode False"
  using emits_then [OF emits_set_type_checked emits_bit_mode] by simp

lemma emits_auth_response:
  assumes "writes BitMode True bs (ax_write_auth_data a)"
  shows "emits ByteMode False (bits_of (auth_message_type_to_u8 (ax_message_type a)) @ [True]
      @ enc_scalar UnsignedInteger32Type BitMode True (error_code_to_u32 (ax_error_code a)) @ bs)
    (auth_response_writer a) BitMode True"
proof -
  have "emits ByteMode False ([] @ [] @ enc_scalar UnsignedChar8Type BitMode False
      (auth_message_type_to_u8 (ax_message_type a)) @ [] @ [True]
      @ enc_scalar UnsignedInteger32Type BitMode True (error_code_to_u32 (ax_error_code a)) @ bs)
    (auth_response_writer a) BitMode True"
    unfolding auth_response_writer_def
    by (rule emits_then emits_set_type_checked emits_bit_mode
        emits_writes [OF u8_c.writes [OF any_value]] emits_writes [OF u32_c.writes [OF any_value]]
        emits_writes [OF writes_type_checked_bit] emits_writes [OF assms])+
  then show ?thesis by (simp add: enc_u8_raw)
qed

text \<open>The data of a response, from the bits that it emits.\<close>

lemma run_writer_bits:
  assumes "emits ByteMode False bs m md tc"
  obtains data pad where "run_writer m = Inr data" "bytes_bits data = bs @ replicate pad False" "pad < 8"
proof -
  obtain w pad where "thenE m flush writer_new = (Inr (), w)"
      "bytes_bits (w_out w) = bs @ replicate pad False" "pad < 8"
    by (rule emits_flushed [OF assms writer_inv_new _ _ wbits_new]) (simp_all add: writer_new_def)
  then show thesis using that [of "w_out w" pad] by (simp add: run_writer_def)
qed

lemma writes_steam_auth_data:
  assumes "length (t_username t) \<le> 64"
  shows "writes BitMode True (enc_scalar UnsignedInteger32Type BitMode True seed
      @ bytes_bits (encrypt_buffer_in_place c (padded (ticket_bytes t)) (t_session_key t)
          (generate_iv_from_seed c seed)) @ bytes_bits proof)
    (steam_write_auth_data c seed t proof)"
  unfolding steam_write_auth_data_def
proof (rule writes_then [OF u32_c.writes [OF any_value]])
  have "resize (next_multiple_of (length (ticket_bytes t)) 8) 0 (ticket_bytes t) = padded (ticket_bytes t)"
    by (simp add: resize_grow next_multiple_ge padded_def)
  then have "bindE (liftE (run_writer (ticket_serialize t))) (\<lambda>ticket_buf.
      let iv = generate_iv_from_seed c seed;
          padded_buf = resize (next_multiple_of (length ticket_buf) 8) 0 ticket_buf
      in thenE (write_bytes (encrypt_buffer_in_place c padded_buf (t_session_key t) iv)) (write_bytes proof))
    = thenE (write_bytes (encrypt_buffer_in_place c (padded (ticket_bytes t)) (t_session_key t)
        (generate_iv_from_seed c seed))) (write_bytes proof)"
    using assms by (simp add: run_ticket fun_eq_iff monad_simps Let_def)
  then show "writes BitMode True (bytes_bits (encrypt_buffer_in_place c (padded (ticket_bytes t))
      (t_session_key t) (generate_iv_from_seed c seed)) @ bytes_bits proof)
    (bindE (liftE (run_writer (ticket_serialize t))) (\<lambda>ticket_buf.
      let iv = generate_iv_from_seed c seed;
          padded_buf = resize (next_multiple_of (length ticket_buf) 8) 0 ticket_buf
      in thenE (write_bytes (encrypt_buffer_in_place c padded_buf (t_session_key t) iv)) (write_bytes proof)))"
    using writes_then [OF writes_bytes_bit writes_bytes_bit] by simp
qed

lemma length_ticket_bytes:
  "length (t_username t) \<le> 64 \<Longrightarrow> length (t_session_key t) = 24 \<Longrightarrow> length (ticket_bytes t) = 125"
  by (simp add: ticket_bytes_def)

lemma steam_reply_data:
  assumes c: "crypto_ok c" and t: "length (t_username t) \<le> 64" "length (t_session_key t) = 24"
    and pd: "length pd = 128"
  obtains data where "auth_to_response (steam_auth_response c seed t pd) = Inr (unencrypted data)"
    "fst (client_read_steam_reply (reader_new data)) = Inr (0x1D, 700, seed,
      encrypt_buffer_in_place c (padded (ticket_bytes t)) (t_session_key t) (generate_iv_from_seed c seed), pd)"
proof -
  let ?ct = "encrypt_buffer_in_place c (padded (ticket_bytes t)) (t_session_key t) (generate_iv_from_seed c seed)"
  have "length (padded (ticket_bytes t)) = 128"
    using length_ticket_bytes [OF t] by (simp add: length_padded next_multiple_of_def)
  then have ct: "length ?ct = 128" using length_encrypt [OF c] by (simp add: next_multiple_of_def)
  have bits: "emits ByteMode False (steam_reply_bits 0x1D 700 seed ?ct pd)
      (auth_response_writer (steam_auth_response c seed t pd)) BitMode True"
    using emits_auth_response [of _ "steam_auth_response c seed t pd"] writes_steam_auth_data [OF t(1)]
    by (simp add: steam_auth_response_def steam_reply_bits_def)
  obtain data pad where run: "run_writer (auth_response_writer (steam_auth_response c seed t pd)) = Inr data"
      and bits_data: "bytes_bits data = steam_reply_bits 0x1D 700 seed ?ct pd @ replicate pad False"
    using run_writer_bits [OF bits] .
  then have data: "auth_to_response (steam_auth_response c seed t pd) = Inr (unencrypted data)"
    by (simp add: auth_to_response_def)
  obtain r where "client_read_steam_reply (reader_new data) = (Inr (0x1D, 700, seed, ?ct, pd), r)"
    using consumes_new [OF consumes_steam_reply [OF ct pd] bits_data] .
  then show thesis using that data by simp
qed

section \<open>The handler does not panic\<close>

lemma safe_set_mode [safe_intros]: "safe (modifyE (reader_set_mode m))"
  by (simp add: safe_def monad_simps reader_set_mode_def)

lemma safe_set_type_checked [safe_intros]: "safe (modifyE (reader_set_type_checked b))"
  by (simp add: safe_def monad_simps reader_set_type_checked_def)

lemma safe_custom_request [safe_intros]: "safe custom_request_deserialize"
  unfolding custom_request_deserialize_def by (intro safe_intros) simp_all

lemma safe_lift [safe_intros]: "x \<noteq> Inl Panic \<Longrightarrow> safe (liftE x)"
  by (simp add: safe_def monad_simps)

lemma safe_title [safe_intros]:
  "safe (case title_from_u32 v of None \<Rightarrow> throwE (UnknownTitleError v) | Some t \<Rightarrow> returnE t)"
  by (auto intro: safe_intros split: option.split)

lemma custom_request_no_panic: "fst (custom_request_deserialize (reader_new bs)) \<noteq> Inl Panic"
  using safeD [OF safe_custom_request, of "reader_new bs"] by (simp add: reader_new_def reader_inv_def)

lemma safe_authentication_request [safe_intros]: "safe authentication_request_deserialize"
  unfolding authentication_request_deserialize_def
  by (intro safe_intros custom_request_no_panic) simp_all

lemma steam_proof_ok:
  "request_ok (ar_request_data req) \<Longrightarrow> proof_ok (ticket_proof x (steam_ticket now req))"
  by (simp add: request_ok_def proof_ok_def ticket_proof_def steam_ticket_def)

lemma run_rd_cases:
  obtains e where "run_rd m r conn = (Inl e, conn)" "fst (m r) = Inl e"
  | v r' where "run_rd m r conn = (Inr (v, r'), conn)" "m r = (Inr v, r')"
  by (cases "m r"; cases "fst (m r)") (auto simp: run_rd_def)

definition steam_request :: "AuthenticationRequest rd" where
  "steam_request = thenE (modifyE (reader_set_mode BitMode))
    (thenE read_type_checked_bit authentication_request_deserialize)"

lemma steam_request_ok: "steam_request r = (Inr req, r') \<Longrightarrow> request_ok (ar_request_data req)"
  by (auto simp: steam_request_def monad_simps elim!: thenE_Inr_E dest: authentication_request_result)

lemma safe_steam_request: "safe steam_request"
  unfolding steam_request_def by (intro safe_intros)

lemma steam_handle_cases:
  assumes "crypto_ok c"
  obtains (err) e where "steam_handle c env r conn = (Inl e, conn)" "fst (steam_request r) = Inl e"
  | (ok) req r' key ks pd where "steam_request r = (Inr req, r')"
    "get_current_key (e_now env) (e_fresh_key env) (e_fresh_iv env) (w_keys (c_world conn)) = (key, ks)"
    "proof_serialize c key (ticket_proof (e_now env + TICKET_ISSUE_LENGTH) (steam_ticket (e_now env) req))
      = Inr pd" "length pd = 128"
    "steam_handle c env r conn = (Inr (steam_auth_response c (e_seeds env 1) (steam_ticket (e_now env) req) pd),
      conn\<lparr>c_world := (c_world conn)\<lparr>w_keys := ks\<rparr>\<rparr>)"
proof (cases rule: run_rd_cases [of steam_request r conn])
  case (1 e)
  then show thesis by (intro err) (auto simp: steam_handle_def bindE_def steam_request_def)
next
  case (2 req r')
  note ok2 = steam_proof_ok [OF steam_request_ok [OF 2(2)], of "e_now env + TICKET_ISSUE_LENGTH" "e_now env"]
  obtain key ks where k: "get_current_key (e_now env) (e_fresh_key env) (e_fresh_iv env)
      (w_keys (c_world conn)) = (key, ks)" by fastforce
  obtain pd where pd: "proof_serialize c key
      (ticket_proof (e_now env + TICKET_ISSUE_LENGTH) (steam_ticket (e_now env) req)) = Inr pd"
    using serialize_ok [OF assms ok2] .
  show thesis
  proof (rule ok [OF 2(2) k pd])
    show "length pd = 128" using serialize_inverse [OF assms pd] by simp
    show "steam_handle c env r conn = (Inr (steam_auth_response c (e_seeds env 1)
        (steam_ticket (e_now env) req) pd), conn\<lparr>c_world := (c_world conn)\<lparr>w_keys := ks\<rparr>\<rparr>)"
      using 2(1) k pd
      by (simp add: steam_handle_def bindE_def take_current_key_def steam_request_def [symmetric]
          Let_def monad_simps)
  qed
qed

section \<open>The bytes of a request\<close>

text \<open>The request of a client: the data of fixed layout, and around it the tagged fields.\<close>

definition custom_request_bytes :: "CustomSteamAuthenticationRequest \<Rightarrow> bytes" where
  "custom_request_bytes q = to_le CUSTOM_TICKET_SIGNATURE @ to_le (cs_steam_id q) @ to_le (88 :: u32)
    @ cs_session_key q @ cs_username q @ [0]"

definition request_bits :: "AuthenticationRequest \<Rightarrow> bool list" where
  "request_bits req = [True]
    @ enc_scalar UnsignedInteger32Type BitMode True (ar_iv_seed req)
    @ enc_scalar UnsignedInteger32Type BitMode True (title_to_u32 (ar_title req))
    @ enc_scalar UnsignedInteger32Type BitMode True
        (of_nat (length (custom_request_bytes (ar_request_data req))) :: u32)
    @ bytes_bits (custom_request_bytes (ar_request_data req))"

lemma reads_raw_u32: "reads ByteMode False (bytes_bits (to_le v)) read_u32 v"
  using u32_c.reads [OF any_value, of ByteMode False v] by (simp add: enc_scalar_def tagged_def)

lemma reads_raw_u64: "reads ByteMode False (bytes_bits (to_le v)) read_u64 v"
  using u64_c.reads [OF any_value, of ByteMode False v] by (simp add: enc_scalar_def tagged_def)

lemma reads_raw_bytes:
  assumes "length bs = n"
  shows "reads ByteMode tc (bytes_bits bs) (read_bytes n) bs"
  using reads_cursor [of tc bs] assms by (auto simp: reads_def read_bytes_def)

lemma reads_raw_str: "utf8_valid v \<Longrightarrow> 0 \<notin> set v \<Longrightarrow> reads ByteMode False (bytes_bits (v @ [0])) read_str v"
  using str_c.reads [of ByteMode v False] by (simp add: enc_str_def tagged_def str_ok_def)

lemma reads_ensure_then: "b \<Longrightarrow> reads md tc bs m v \<Longrightarrow> reads md tc bs (thenE (ensureE b e) m) v"
  using reads_then [OF reads_ensure] by fastforce

lemma consumes_custom_request:
  assumes "request_ok q"
  shows "consumes ByteMode False (bytes_bits (custom_request_bytes q)) custom_request_deserialize q
    ByteMode False"
proof -
  have q: "\<lparr>cs_steam_id = cs_steam_id q, cs_session_key = cs_session_key q,
    cs_username = cs_username q\<rparr> = q" by simp
  have mode: "consumes ByteMode False [] (modifyE (reader_set_mode ByteMode)) () ByteMode False"
    by (auto simp: consumes_def monad_simps reader_set_mode_def ready_def rbits_def pending_bits_def
        cursor_rest_def)
  have body: "reads ByteMode False (bytes_bits (to_le CUSTOM_TICKET_SIGNATURE)
      @ bytes_bits (to_le (cs_steam_id q)) @ bytes_bits (to_le (88 :: u32))
      @ bytes_bits (cs_session_key q) @ bytes_bits (cs_username q @ [0]) @ [])
    (bindE read_u32 (\<lambda>signature.
     thenE (ensureE (signature = CUSTOM_TICKET_SIGNATURE)
              (SignatureMismatchError signature CUSTOM_TICKET_SIGNATURE))
     (bindE read_u64 (\<lambda>steam_id.
      bindE read_u32 (\<lambda>secret_data_size.
      thenE (ensureE (unat secret_data_size = EXPECTED_SECRET_DATA_SIZE)
               (UnexpectedSecretLengthError (unat secret_data_size) EXPECTED_SECRET_DATA_SIZE))
      (bindE (read_bytes 24) (\<lambda>session_key.
       bindE read_str (\<lambda>username.
       thenE (ensureE (length username < 64) (TicketUsernameTooLongError (length username) 64))
       (returnE \<lparr>cs_steam_id = steam_id, cs_session_key = session_key, cs_username = username\<rparr>))))))))) q"
    using assms
    by (intro reads_bind [OF reads_raw_u32] reads_bind [OF reads_raw_u64]
        reads_bind [OF reads_raw_bytes] reads_bind [OF reads_raw_str] reads_ensure_then)
      (auto simp: request_ok_def reads_return q EXPECTED_SECRET_DATA_SIZE_def)
  have "consumes ByteMode False ([] @ [] @ (bytes_bits (to_le CUSTOM_TICKET_SIGNATURE)
      @ bytes_bits (to_le (cs_steam_id q)) @ bytes_bits (to_le (88 :: u32))
      @ bytes_bits (cs_session_key q) @ bytes_bits (cs_username q @ [0]) @ []))
    custom_request_deserialize q ByteMode False"
    unfolding custom_request_deserialize_def
    by (rule consumes_then mode consumes_set_type_checked consumes_reads [OF body])+
  then show ?thesis by (simp add: custom_request_bytes_def)
qed

lemma consumes_lift: "consumes md tc [] (liftE (Inr v)) v md tc"
  by (simp add: consumes_def monad_simps)

lemma consumes_steam_request:
  assumes "request_ok (ar_request_data req)"
  shows "consumes ByteMode False (request_bits req) steam_request req BitMode True"
proof -
  let ?q = "ar_request_data req" let ?data = "custom_request_bytes (ar_request_data req)"
  have len: "length ?data \<le> 104" using assms by (simp add: custom_request_bytes_def request_ok_def)
  then have n: "unat (of_nat (length ?data) :: u32) = length ?data" by (simp add: unat_of_nat)
  have parsed: "fst (custom_request_deserialize (reader_new ?data)) = Inr ?q"
  proof -
    obtain r where "custom_request_deserialize (reader_new ?data) = (Inr ?q, r)"
      by (rule consumes_new [OF consumes_custom_request [OF assms], of ?data "[]"]) simp
    then show ?thesis by simp
  qed
  have title: "(case title_from_u32 (title_to_u32 (ar_title req)) of
      None \<Rightarrow> throwE (UnknownTitleError (title_to_u32 (ar_title req))) | Some t \<Rightarrow> returnE t)
    = returnE (ar_title req)" by simp
  have data: "reads BitMode True (bytes_bits ?data) (read_bytes (length ?data)) ?data"
    by (rule reads_bytes_bit)
  have "reads BitMode True (enc_scalar UnsignedInteger32Type BitMode True (ar_iv_seed req)
      @ enc_scalar UnsignedInteger32Type BitMode True (title_to_u32 (ar_title req)) @ []
      @ enc_scalar UnsignedInteger32Type BitMode True (of_nat (length ?data) :: u32)
      @ bytes_bits ?data @ [])
    authentication_request_deserialize req"
    unfolding authentication_request_deserialize_def
    apply (rule reads_bind [OF u32_c.reads [OF any_value]])+
    apply (rule reads_bind [where x = "ar_title req"])
     apply (simp add: reads_return)
    apply (rule reads_bind [OF u32_c.reads [OF any_value]])
    apply (rule reads_ensure_then)
     apply (use len in \<open>simp add: n MAX_DATA_LEN_def\<close>)
    apply (simp only: n)
    apply (rule reads_bind [OF data])
    apply (rule reads_state [OF _ reads_return])
    apply (simp add: parsed monad_simps)
    done
  then have "consumes BitMode True (enc_scalar UnsignedInteger32Type BitMode True (ar_iv_seed req)
      @ enc_scalar UnsignedInteger32Type BitMode True (title_to_u32 (ar_title req)) @ []
      @ enc_scalar UnsignedInteger32Type BitMode True (of_nat (length ?data) :: u32)
      @ bytes_bits ?data @ [])
    authentication_request_deserialize req BitMode True" by (rule consumes_reads)
  then have "consumes ByteMode False ([] @ [True]
      @ enc_scalar UnsignedInteger32Type BitMode True (ar_iv_seed req)
      @ enc_scalar UnsignedInteger32Type BitMode True (title_to_u32 (ar_title req)) @ []
      @ enc_scalar UnsignedInteger32Type BitMode True (of_nat (length ?data) :: u32)
      @ bytes_bits ?data @ []) steam_request req BitMode True"
    unfolding steam_request_def
    by (rule consumes_then [OF consumes_bit_mode consumes_then [OF consumes_type_checked_bit]])
  then show ?thesis by (simp only: request_bits_def append_Nil append_Nil2)
qed

section \<open>Properties\<close>

text \<open>
  C11. The Steam handler answers every well-formed request. A client that sends its request
  gets a reply from which it reads the reply type, the success code, a seed, a ticket and a
  proof. Under the session key that the client chose, the ticket decrypts to the bytes of a
  user-to-service ticket with the magic number, the title of the request, the time of issue and
  the expiry 300000 later, both cut to 32 bits, license 1234, the Steam id, the name padded with
  zeros to 64 bytes and the session key of the request, four zero bytes, and three of padding.
  The proof is the one with the same title, license, user id, session key and name and the whole
  expiry time, serialized under a key that the store has as its current one. The connection is
  left as it was but for the store.
\<close>

theorem steam_login:
  assumes c: "crypto_ok c" and req: "request_ok (ar_request_data req)"
    and r: "ready ByteMode False r" "rbits r = request_bits req @ rest"
  shows "\<exists>resp key ks pd data encrypted. steam_handle c env r conn
      = (Inr resp, conn\<lparr>c_world := (c_world conn)\<lparr>w_keys := ks\<rparr>\<rparr>)
    \<and> get_current_key (e_now env) (e_fresh_key env) (e_fresh_iv env) (w_keys (c_world conn)) = (key, ks)
    \<and> auth_to_response resp = Inr (unencrypted data)
    \<and> fst (client_read_steam_reply (reader_new data)) = Inr (0x1D, 700, e_seeds env 1, encrypted, pd)
    \<and> (let q = ar_request_data req; iv = generate_iv_from_seed c (e_seeds env 1);
           plain = to_le (0xEFBDADDE :: u32) @ [0] @ to_le (title_to_u32 (ar_title req))
             @ to_le (word_of_int (e_now env smod (2 ^ 32 - 1)) :: u32)
             @ to_le (word_of_int ((e_now env + 300000) smod (2 ^ 32 - 1)) :: u32)
             @ to_le (1234 :: u64) @ to_le (cs_steam_id q)
             @ cs_username q @ replicate (64 - length (cs_username q)) 0
             @ cs_session_key q @ [0, 0, 0, 0] @ [0, 0, 0]
       in encrypted = tdes_cbc_encrypt c (cs_session_key q) iv plain
          \<and> tdes_cbc_decrypt c (cs_session_key q) iv encrypted = plain
          \<and> proof_serialize c key
              \<lparr>p_title = ar_title req, p_time_expires = word_of_int (e_now env + 300000),
               p_license_id = 1234, p_user_id = cs_steam_id q, p_session_key = cs_session_key q,
               p_username = cs_username q\<rparr> = Inr pd)"
proof -
  let ?t = "steam_ticket (e_now env) req"
  have parsed: "fst (steam_request r) = Inr req"
    using consumes_steam_request [OF req] r unfolding consumes_def by fastforce
  show ?thesis
  proof (cases rule: steam_handle_cases [OF c, of env r conn])
    case (1 e)
    with parsed show ?thesis by simp
  next
    case (2 req' r' key ks pd)
    then have ok': "proof_serialize c key (ticket_proof (e_now env + TICKET_ISSUE_LENGTH) ?t) = Inr pd"
      "steam_handle c env r conn = (Inr (steam_auth_response c (e_seeds env 1) ?t pd),
        conn\<lparr>c_world := (c_world conn)\<lparr>w_keys := ks\<rparr>\<rparr>)" using parsed by simp_all
    have t: "length (t_username ?t) \<le> 64" "length (t_session_key ?t) = 24"
      using req by (simp_all add: steam_ticket_def request_ok_def)
    have pad: "encrypt_buffer_in_place c (padded (ticket_bytes ?t)) k iv
      = tdes_cbc_encrypt c k iv (ticket_bytes ?t @ [0, 0, 0])" for k iv
      using length_ticket_bytes [OF t]
      by (simp add: encrypt_padded padded_def next_multiple_of_def numeral_3_eq_3)
    have whole: "8 dvd length (ticket_bytes ?t @ [0, 0, 0])"
      using length_ticket_bytes [OF t] by simp
    have undo: "tdes_cbc_decrypt c k iv (tdes_cbc_encrypt c k iv x) = x" if "8 dvd length x" for k iv x
      using c that unfolding crypto_ok_def by blast
    note contents = undo [OF whole] ok'(1)
    obtain data where "auth_to_response (steam_auth_response c (e_seeds env 1) ?t pd) = Inr (unencrypted data)"
      "fst (client_read_steam_reply (reader_new data)) = Inr (0x1D, 700, e_seeds env 1,
        tdes_cbc_encrypt c (t_session_key ?t) (generate_iv_from_seed c (e_seeds env 1))
          (ticket_bytes ?t @ [0, 0, 0]), pd)"
      using steam_reply_data [OF c t 2(4)] unfolding pad .
    with contents 2(2) ok'(2) show ?thesis
      unfolding Let_def steam_ticket_def ticket_proof_def ticket_bytes_def TICKET_ISSUE_LENGTH_def
        MAGIC_NUMBER_def by (simp (no_asm_use)) blast
  qed
qed

definition example_env :: env where
  "example_env = \<lparr>e_now = 1000, e_fresh_key = [1], e_fresh_iv = [2], e_seeds = (\<lambda>i. 7)\<rparr>"

definition example_world :: "base_world conn" where
  "example_world = \<lparr>c_session = session_new, c_sent = [], c_transaction = 0,
     c_world = \<lparr>w_keys = key_store_new\<rparr>\<rparr>"

definition example_request :: AuthenticationRequest where
  "example_request = \<lparr>ar_iv_seed = 3, ar_title = Iw4, ar_request_data =
     \<lparr>cs_steam_id = 7, cs_session_key = replicate 24 5, cs_username = [0x61, 0x62]\<rparr>\<rparr>"

lemma example_request_ok: "request_ok (ar_request_data example_request)"
  by (simp add: example_request_def request_ok_def utf8_valid.simps utf8_char_len_def word_less_nat_alt)

lemma length_request_bits: "8 dvd length (request_bits req)"
  by (simp add: request_bits_def enc_scalar_def tagged_def tag_bits_def)

lemma example_request_bits: "rbits (reader_new (pack (request_bits req))) = request_bits req @ []"
  by (simp add: rbits_new bytes_bits_pack length_request_bits)

theorem steam_login_witness:
  "\<exists>resp key ks pd data encrypted. steam_handle toy_crypto example_env
      (reader_new (pack (request_bits example_request))) example_world
      = (Inr resp, example_world\<lparr>c_world := (c_world example_world)\<lparr>w_keys := ks\<rparr>\<rparr>)
    \<and> get_current_key (e_now example_env) (e_fresh_key example_env) (e_fresh_iv example_env)
        (w_keys (c_world example_world)) = (key, ks)
    \<and> auth_to_response resp = Inr (unencrypted data)
    \<and> fst (client_read_steam_reply (reader_new data))
        = Inr (0x1D, 700, e_seeds example_env 1, encrypted, pd)
    \<and> (let q = ar_request_data example_request;
           iv = generate_iv_from_seed toy_crypto (e_seeds example_env 1);
           plain = to_le (0xEFBDADDE :: u32) @ [0] @ to_le (title_to_u32 (ar_title example_request))
             @ to_le (word_of_int (e_now example_env smod (2 ^ 32 - 1)) :: u32)
             @ to_le (word_of_int ((e_now example_env + 300000) smod (2 ^ 32 - 1)) :: u32)
             @ to_le (1234 :: u64) @ to_le (cs_steam_id q)
             @ cs_username q @ replicate (64 - length (cs_username q)) 0
             @ cs_session_key q @ [0, 0, 0, 0] @ [0, 0, 0]
       in encrypted = tdes_cbc_encrypt toy_crypto (cs_session_key q) iv plain
          \<and> tdes_cbc_decrypt toy_crypto (cs_session_key q) iv encrypted = plain
          \<and> proof_serialize toy_crypto key
              \<lparr>p_title = ar_title example_request,
               p_time_expires = word_of_int (e_now example_env + 300000),
               p_license_id = 1234, p_user_id = cs_steam_id q, p_session_key = cs_session_key q,
               p_username = cs_username q\<rparr> = Inr pd)"
  by (rule steam_login [OF toy_crypto_ok example_request_ok ready_new example_request_bits])

text \<open>
  No message panics the authentication server through the Steam handler or the replies: a
  request that is malformed in any way is an error, the length assertion of the proof never
  fails because the name of an accepted request has fewer than 64 bytes, and the unwrap of
  the reply code of a message type succeeds with a reply that is no request.
\<close>

theorem steam_never_panics:
  assumes "crypto_ok c" "reader_inv r"
  shows "fst (steam_handle c env r conn) \<noteq> Inl Panic
    \<and> (\<exists>t'. reply_code t = Some t' \<and> \<not> is_request_code t')"
  using safeD [OF safe_steam_request assms(2)] reply_code_total [of t]
  by (cases rule: steam_handle_cases [OF assms(1), of env r conn]) auto

theorem steam_never_panics_witness:
  "fst (steam_handle toy_crypto example_env (reader_new [0x91]) example_world) \<noteq> Inl Panic
    \<and> (\<exists>t'. reply_code SteamForMmpRequest = Some t' \<and> \<not> is_request_code t')"
  by (rule steam_never_panics [OF toy_crypto_ok]) (simp add: reader_inv_def reader_new_def)

end
