(* ===== verification/Replies.thy ===== *)
theory Replies
  imports Protocol Message ErrorCode AuthTicket
begin

text \<open>
  The responses of the lobby (libbitdemon/src/lobby/response/ and domain/result_slice.rs):
  replies to tasks, pushed messages and connection ids. A serializable result is the writer
  operation that serializes it. Transaction ids come from the counter of the connection's
  thread.
\<close>

datatype BdMessageType =
    LobbyServiceTaskReply | LobbyServicePushMessage | LsgServiceError | LsgServiceConnectionId
  | LsgServiceTaskReply

fun message_type_to_u8 :: "BdMessageType \<Rightarrow> u8" where
  "message_type_to_u8 LobbyServiceTaskReply = 1"
| "message_type_to_u8 LobbyServicePushMessage = 2"
| "message_type_to_u8 LsgServiceError = 3"
| "message_type_to_u8 LsgServiceConnectionId = 4"
| "message_type_to_u8 LsgServiceTaskReply = 5"

record 'a ResultSlice =
  rs_data :: "'a list"
  rs_offset :: nat
  rs_total_count :: "nat option"

definition result_slice_new :: "'a list \<Rightarrow> nat \<Rightarrow> 'a ResultSlice" where
  "result_slice_new d off = \<lparr>rs_data = d, rs_offset = off, rs_total_count = None\<rparr>"

definition result_slice_with_total_count :: "'a list \<Rightarrow> nat \<Rightarrow> nat \<Rightarrow> 'a ResultSlice" where
  "result_slice_with_total_count d off n =
    \<lparr>rs_data = d, rs_offset = off, rs_total_count = Some n\<rparr>"

definition total_count :: "'a ResultSlice \<Rightarrow> nat" where
  "total_count s = (case rs_total_count s of Some n \<Rightarrow> n | None \<Rightarrow> length (rs_data s))"

section \<open>Task replies\<close>

record TaskReply =
  tr_transaction_id :: u64
  tr_error_code :: BdErrorCode
  tr_operation_id :: u8
  tr_results :: "wr list"
  tr_counted :: bool

definition next_transaction_id :: "('w, u64) act" where
  "next_transaction_id = (\<lambda>conn.
    case checked_add (c_transaction conn) 1 of
      Inl e \<Rightarrow> (Inl e, conn)
    | Inr n \<Rightarrow> (Inr (c_transaction conn), conn\<lparr>c_transaction := n\<rparr>))"

definition with_only_error_code :: "BdErrorCode \<Rightarrow> u8 \<Rightarrow> ('w, TaskReply) act" where
  "with_only_error_code code op = bindE next_transaction_id (\<lambda>i.
    returnE \<lparr>tr_transaction_id = i, tr_error_code = code, tr_operation_id = op, tr_results = [],
      tr_counted = False\<rparr>)"

definition with_results :: "u8 \<Rightarrow> wr list \<Rightarrow> ('w, TaskReply) act" where
  "with_results op results = bindE next_transaction_id (\<lambda>i.
    returnE \<lparr>tr_transaction_id = i, tr_error_code = NoError, tr_operation_id = op,
      tr_results = results, tr_counted = True\<rparr>)"

definition with_result_slice :: "u8 \<Rightarrow> wr ResultSlice \<Rightarrow> ('w, TaskReply) act" where
  "with_result_slice op results = bindE next_transaction_id (\<lambda>i.
    returnE \<lparr>tr_transaction_id = i, tr_error_code = NoError, tr_operation_id = op,
      tr_results = rs_data results, tr_counted = True\<rparr>)"

definition with_single_result :: "u8 \<Rightarrow> wr \<Rightarrow> ('w, TaskReply) act" where
  "with_single_result op result = bindE next_transaction_id (\<lambda>i.
    returnE \<lparr>tr_transaction_id = i, tr_error_code = NoError, tr_operation_id = op,
      tr_results = [result], tr_counted = False\<rparr>)"

definition task_reply_writer :: "TaskReply \<Rightarrow> wr" where
  "task_reply_writer t =
    thenE (write_header (message_type_to_u8 LobbyServiceTaskReply))
    (thenE (write_u64 (tr_transaction_id t))
    (thenE (write_u32 (error_code_to_u32 (tr_error_code t)))
    (thenE (write_u8 (tr_operation_id t))
    (thenE (if tr_counted t then write_u32 (of_nat (length (tr_results t))) else returnE ())
    (thenE (foreachE id (tr_results t)) flush)))))"

definition task_to_response :: "TaskReply \<Rightarrow> bd_error + BdResponse" where
  "task_to_response t = (case run_writer (task_reply_writer t) of
     Inl e \<Rightarrow> Inl e | Inr data \<Rightarrow> Inr (encrypted_if_available data))"

text \<open>The two shapes in which the handlers end.\<close>

definition reply_only :: "BdErrorCode \<Rightarrow> u8 \<Rightarrow> ('w, BdResponse) act" where
  "reply_only code op = bindE (with_only_error_code code op) (\<lambda>t. liftE (task_to_response t))"

definition reply_results :: "u8 \<Rightarrow> wr list \<Rightarrow> ('w, BdResponse) act" where
  "reply_results op results = bindE (with_results op results) (\<lambda>t. liftE (task_to_response t))"

section \<open>Connection ids and pushed messages\<close>

definition connection_id_response :: "u64 \<Rightarrow> bd_error + BdResponse" where
  "connection_id_response connection_id =
    (case run_writer
       (thenE (write_header (message_type_to_u8 LsgServiceConnectionId))
       (thenE (write_u64 connection_id) flush)) of
       Inl e \<Rightarrow> Inl e | Inr data \<Rightarrow> Inr (encrypted_if_available data))"

definition FRIEND_CUSTOM_MESSAGE :: u32 where
  "FRIEND_CUSTOM_MESSAGE = 40"

record PushMessage =
  pm_recipient :: u64
  pm_id :: u64
  pm_timestamp :: u32
  pm_sender :: u64
  pm_sender_name :: bytes
  pm_payload :: bytes

definition push_message_writer :: "PushMessage \<Rightarrow> wr" where
  "push_message_writer m =
    thenE (write_header (message_type_to_u8 LobbyServicePushMessage))
    (thenE (write_u32 FRIEND_CUSTOM_MESSAGE)
    (thenE (write_u64 (pm_recipient m))
    (thenE (write_u64 (pm_id m))
    (thenE (write_u32 (pm_timestamp m))
    (thenE (write_bool False)
    (thenE (write_u64 (pm_sender m))
    (thenE (write_str (pm_sender_name m))
    (thenE (write_blob (pm_payload m)) flush))))))))"

definition push_to_response :: "PushMessage \<Rightarrow> bd_error + BdResponse" where
  "push_to_response m = (case run_writer (push_message_writer m) of
     Inl e \<Rightarrow> Inl e | Inr data \<Rightarrow> Inr (encrypted_if_available data))"

section \<open>What a client reads\<close>

lemma run_writer_flushed:
  assumes "emits ByteMode False bs m md tc"
  obtains data pad where "run_writer m = Inr data" "run_writer (thenE m flush) = Inr data"
    "bytes_bits data = bs @ replicate pad False" "pad < 8"
proof -
  obtain w pad where w: "thenE m flush writer_new = (Inr (), w)" "w_bit_offset w = 8"
      "bytes_bits (w_out w) = bs @ replicate pad False" "pad < 8"
    by (rule emits_flushed [OF assms writer_inv_new _ _ wbits_new]) (simp_all add: writer_new_def)
  have "thenE (thenE m flush) flush writer_new = (Inr (), w)"
    using w(1) flush_flushed [OF w(2)] by (simp add: thenE_def [of "thenE m flush"] bindE_def)
  then show thesis using w that [of "w_out w" pad] by (simp add: run_writer_def)
qed

lemma thenE_assoc: "thenE (thenE a b) c = thenE a (thenE b c)"
  by (auto simp: thenE_def bindE_def fun_eq_iff split: prod.splits sum.splits)

text \<open>A response whose writer is \<open>m\<close> and ends with a flush, read back by \<open>rd\<close>.\<close>

lemma response_readable:
  assumes "emits ByteMode False bs m md tc" "consumes ByteMode False bs rd v md' tc'"
  obtains data where "run_writer (thenE m flush) = Inr data" "run_writer m = Inr data"
    "\<forall>extra. fst (rd (reader_new (data @ extra))) = Inr v" "8 * length data < length bs + 8"
proof -
  obtain data pad where d: "run_writer (thenE m flush) = Inr data" "run_writer m = Inr data"
      "bytes_bits data = bs @ replicate pad False" "pad < 8" using run_writer_flushed [OF assms(1)] .
  have "fst (rd (reader_new (data @ extra))) = Inr v" for extra
  proof -
    have "bytes_bits (data @ extra) = bs @ (replicate pad False @ bytes_bits extra)" using d(3) by simp
    from consumes_new [OF assms(2) this] show ?thesis by (metis fst_conv)
  qed
  moreover have "8 * length data = length bs + pad" using arg_cong [OF d(3), of length] by simp
  ultimately show thesis using that d by simp
qed

text \<open>The client's side of a counted reply, with the operation that reads one result.\<close>

definition client_read_results :: "'a rd \<Rightarrow> (u8 \<times> u64 \<times> u32 \<times> u8 \<times> 'a list) rd" where
  "client_read_results rd =
    bindE read_header (\<lambda>ty.
    bindE read_u64 (\<lambda>tid.
    bindE read_u32 (\<lambda>code.
    bindE read_u8 (\<lambda>op.
    bindE read_u32 (\<lambda>n.
    bindE (repeatE (unat n) rd) (\<lambda>results. returnE (ty, tid, code, op, results)))))))"

definition client_read_code :: "(u8 \<times> u64 \<times> u32 \<times> u8) rd" where
  "client_read_code =
    bindE read_header (\<lambda>ty.
    bindE read_u64 (\<lambda>tid.
    bindE read_u32 (\<lambda>code.
    bindE read_u8 (\<lambda>op. returnE (ty, tid, code, op)))))"

definition client_read_push :: "(u8 \<times> u32 \<times> u64 \<times> u64 \<times> u32 \<times> bool \<times> u64 \<times> bytes \<times> bytes) rd" where
  "client_read_push =
    bindE read_header (\<lambda>ty.
    bindE read_u32 (\<lambda>kind.
    bindE read_u64 (\<lambda>recipient.
    bindE read_u64 (\<lambda>mid.
    bindE read_u32 (\<lambda>timestamp.
    bindE read_bool (\<lambda>flag.
    bindE read_u64 (\<lambda>sender.
    bindE read_str (\<lambda>name.
    bindE read_blob (\<lambda>payload.
    returnE (ty, kind, recipient, mid, timestamp, flag, sender, name, payload))))))))))"

lemmas emits_value = emits_writes [OF u8_c.writes [OF any_value]] emits_writes [OF u32_c.writes [OF any_value]]
  emits_writes [OF u64_c.writes [OF any_value]] emits_writes [OF bool_c.writes [OF any_value]]

lemmas consumes_value = consumes_reads [OF u8_c.reads [OF any_value]]
  consumes_reads [OF u32_c.reads [OF any_value]] consumes_reads [OF u64_c.reads [OF any_value]]
  consumes_reads [OF bool_c.reads [OF any_value]]

definition task_reply_bits :: "u64 \<Rightarrow> u32 \<Rightarrow> u8 \<Rightarrow> bool list" where
  "task_reply_bits tid code op = header_bits 1
    @ enc_scalar UnsignedInteger64Type BitMode True tid
    @ enc_scalar UnsignedInteger32Type BitMode True code
    @ enc_scalar UnsignedChar8Type BitMode True op"

lemma emits_results:
  assumes "\<And>v. v \<in> set vs \<Longrightarrow> writes BitMode True (e v) (wr v)"
  shows "emits BitMode True (concat (map e vs)) (foreachE id (map wr vs)) BitMode True"
proof -
  have "foreachE id (map wr vs) = foreachE wr vs" by (induction vs) auto
  then show ?thesis using writes_foreach [of vs BitMode True e wr] assms by (simp add: emits_writes)
qed

lemma counted_reply_readable:
  assumes "\<And>v. v \<in> set vs \<Longrightarrow> writes BitMode True (e v) (wr v) \<and> reads BitMode True (e v) rd v"
    and len: "length vs < 2 ^ 32"
  obtains data where
    "task_to_response \<lparr>tr_transaction_id = tid, tr_error_code = code, tr_operation_id = op,
       tr_results = map wr vs, tr_counted = True\<rparr> = Inr (encrypted_if_available data)"
    "\<forall>extra. fst (client_read_results rd (reader_new (data @ extra))) = Inr (1, tid, error_code_to_u32 code, op, vs)"
proof -
  let ?t = "\<lparr>tr_transaction_id = tid, tr_error_code = code, tr_operation_id = op,
       tr_results = map wr vs, tr_counted = True\<rparr>"
  let ?n = "of_nat (length vs) :: u32"
  let ?bits = "header_bits 1 @ enc_scalar UnsignedInteger64Type BitMode True tid
    @ enc_scalar UnsignedInteger32Type BitMode True (error_code_to_u32 code)
    @ enc_scalar UnsignedChar8Type BitMode True op
    @ enc_scalar UnsignedInteger32Type BitMode True ?n @ concat (map e vs)"
  let ?m = "thenE (write_header 1) (thenE (write_u64 tid) (thenE (write_u32 (error_code_to_u32 code))
    (thenE (write_u8 op) (thenE (write_u32 ?n) (foreachE id (map wr vs))))))"
  have emits: "emits ByteMode False ?bits ?m BitMode True"
    by (rule emits_then emits_header emits_value emits_results | simp add: assms(1))+
  have n: "unat ?n = length vs" using len by (simp add: unat_of_nat)
  have rep: "reads BitMode True (concat (map e vs)) (repeatE (unat ?n) rd) vs"
    unfolding n by (rule reads_repeat) (simp add: list_all2_map1 list_all2_same assms(1))
  have "consumes ByteMode False (header_bits 1 @ enc_scalar UnsignedInteger64Type BitMode True tid
    @ enc_scalar UnsignedInteger32Type BitMode True (error_code_to_u32 code)
    @ enc_scalar UnsignedChar8Type BitMode True op
    @ enc_scalar UnsignedInteger32Type BitMode True ?n @ concat (map e vs) @ [])
    (client_read_results rd) (1, tid, error_code_to_u32 code, op, vs) BitMode True"
    unfolding client_read_results_def
    by (rule consumes_bind consumes_header consumes_value consumes_return
        consumes_reads [OF rep])+
  then have consumes: "consumes ByteMode False ?bits
    (client_read_results rd) (1, tid, error_code_to_u32 code, op, vs) BitMode True" by simp
  have writer: "task_reply_writer ?t = thenE ?m flush"
    by (simp add: task_reply_writer_def thenE_assoc)
  obtain data where "run_writer (thenE ?m flush) = Inr data"
      "\<forall>extra. fst (client_read_results rd (reader_new (data @ extra))) = Inr (1, tid, error_code_to_u32 code, op, vs)"
    using response_readable [OF emits consumes] .
  then show thesis using that writer by (simp add: task_to_response_def)
qed

lemma code_reply_readable:
  obtains data where
    "task_to_response \<lparr>tr_transaction_id = tid, tr_error_code = code, tr_operation_id = op,
       tr_results = [], tr_counted = False\<rparr> = Inr (encrypted_if_available data)"
    "\<forall>extra. fst (client_read_code (reader_new (data @ extra))) = Inr (1, tid, error_code_to_u32 code, op)"
proof -
  let ?m = "thenE (write_header 1) (thenE (write_u64 tid) (thenE (write_u32 (error_code_to_u32 code))
    (write_u8 op)))"
  have emits: "emits ByteMode False (task_reply_bits tid (error_code_to_u32 code) op) ?m BitMode True"
    unfolding task_reply_bits_def by (rule emits_then emits_header emits_value)+
  have "consumes ByteMode False (header_bits 1 @ enc_scalar UnsignedInteger64Type BitMode True tid
    @ enc_scalar UnsignedInteger32Type BitMode True (error_code_to_u32 code)
    @ enc_scalar UnsignedChar8Type BitMode True op @ [])
    client_read_code (1, tid, error_code_to_u32 code, op) BitMode True"
    unfolding client_read_code_def by (rule consumes_bind consumes_header consumes_value consumes_return)+
  then have consumes: "consumes ByteMode False (task_reply_bits tid (error_code_to_u32 code) op)
    client_read_code (1, tid, error_code_to_u32 code, op) BitMode True" by (simp add: task_reply_bits_def)
  have unit: "thenE (returnE ()) m = m" for m :: wr by (simp add: fun_eq_iff thenE_def monad_simps)
  have writer: "task_reply_writer \<lparr>tr_transaction_id = tid, tr_error_code = code, tr_operation_id = op,
       tr_results = [], tr_counted = False\<rparr> = thenE ?m flush"
    by (simp add: task_reply_writer_def thenE_assoc unit)
  obtain data where "run_writer (thenE ?m flush) = Inr data"
      "\<forall>extra. fst (client_read_code (reader_new (data @ extra))) = Inr (1, tid, error_code_to_u32 code, op)"
    using response_readable [OF emits consumes] .
  then show thesis using that writer by (simp add: task_to_response_def)
qed

lemma reply_only_ok:
  assumes "c_transaction conn < 2 ^ 64 - 1"
  obtains data where
    "reply_only code op conn = (Inr (encrypted_if_available data),
       conn\<lparr>c_transaction := c_transaction conn + 1\<rparr>)"
    "\<forall>extra. fst (client_read_code (reader_new (data @ extra))) = Inr (1, c_transaction conn, error_code_to_u32 code, op)"
proof -
  have id: "next_transaction_id conn = (Inr (c_transaction conn), conn\<lparr>c_transaction := c_transaction conn + 1\<rparr>)"
    using assms by (simp add: next_transaction_id_def checked_add_def word_less_nat_alt)
  obtain data where d: "task_to_response \<lparr>tr_transaction_id = c_transaction conn, tr_error_code = code,
      tr_operation_id = op, tr_results = [], tr_counted = False\<rparr> = Inr (encrypted_if_available data)"
    "\<forall>extra. fst (client_read_code (reader_new (data @ extra))) = Inr (1, c_transaction conn, error_code_to_u32 code, op)"
    using code_reply_readable .
  show thesis
    by (rule that [OF _ d(2)])
      (simp add: reply_only_def with_only_error_code_def bindE_def id monad_simps d(1))
qed

lemma reply_results_ok:
  assumes "c_transaction conn < 2 ^ 64 - 1" "length vs < 2 ^ 32"
    and "\<And>v. v \<in> set vs \<Longrightarrow> writes BitMode True (e v) (wr v) \<and> reads BitMode True (e v) rd v"
  obtains data where
    "reply_results op (map wr vs) conn = (Inr (encrypted_if_available data),
       conn\<lparr>c_transaction := c_transaction conn + 1\<rparr>)"
    "\<forall>extra. fst (client_read_results rd (reader_new (data @ extra))) = Inr (1, c_transaction conn, 0, op, vs)"
proof -
  have id: "next_transaction_id conn = (Inr (c_transaction conn), conn\<lparr>c_transaction := c_transaction conn + 1\<rparr>)"
    using assms(1) by (simp add: next_transaction_id_def checked_add_def word_less_nat_alt)
  obtain data where d: "task_to_response \<lparr>tr_transaction_id = c_transaction conn, tr_error_code = NoError,
      tr_operation_id = op, tr_results = map wr vs, tr_counted = True\<rparr> = Inr (encrypted_if_available data)"
    "\<forall>extra. fst (client_read_results rd (reader_new (data @ extra)))
      = Inr (1, c_transaction conn, error_code_to_u32 NoError, op, vs)"
    using counted_reply_readable [of vs e wr rd] assms(2,3) by blast
  show thesis
    by (rule that) (use d in \<open>simp_all add: reply_results_def with_results_def bindE_def id monad_simps\<close>)
qed

definition push_bits :: "PushMessage \<Rightarrow> bool list" where
  "push_bits m = header_bits 2 @ enc_scalar UnsignedInteger32Type BitMode True FRIEND_CUSTOM_MESSAGE
    @ enc_scalar UnsignedInteger64Type BitMode True (pm_recipient m)
    @ enc_scalar UnsignedInteger64Type BitMode True (pm_id m)
    @ enc_scalar UnsignedInteger32Type BitMode True (pm_timestamp m)
    @ enc_bool BitMode True False
    @ enc_scalar UnsignedInteger64Type BitMode True (pm_sender m)
    @ enc_str BitMode True (pm_sender_name m) @ enc_blob BitMode True (pm_payload m)"

lemma emits_push: "emits ByteMode False (push_bits m)
    (thenE (write_header 2) (thenE (write_u32 FRIEND_CUSTOM_MESSAGE) (thenE (write_u64 (pm_recipient m))
    (thenE (write_u64 (pm_id m)) (thenE (write_u32 (pm_timestamp m)) (thenE (write_bool False)
    (thenE (write_u64 (pm_sender m)) (thenE (write_str (pm_sender_name m)) (write_blob (pm_payload m)))))))))) BitMode True"
  unfolding push_bits_def
  by (rule emits_then emits_header emits_value emits_writes [OF writes_str_val]
      emits_writes [OF writes_blob_val])+

lemma push_readable:
  assumes "utf8_valid (pm_sender_name m)" "0 \<notin> set (pm_sender_name m)" "length (pm_payload m) < 2 ^ 32"
  obtains data where "push_to_response m = Inr (encrypted_if_available data)"
    "\<forall>extra. fst (client_read_push (reader_new (data @ extra))) = Inr (2, 40, pm_recipient m, pm_id m, pm_timestamp m,
      False, pm_sender m, pm_sender_name m, pm_payload m)"
proof -
  let ?m = "thenE (write_header 2) (thenE (write_u32 FRIEND_CUSTOM_MESSAGE) (thenE (write_u64 (pm_recipient m))
    (thenE (write_u64 (pm_id m)) (thenE (write_u32 (pm_timestamp m)) (thenE (write_bool False)
    (thenE (write_u64 (pm_sender m)) (thenE (write_str (pm_sender_name m)) (write_blob (pm_payload m)))))))))"
  have str: "str_ok BitMode (pm_sender_name m)" and blob: "blob_ok BitMode (pm_payload m)"
    using assms by (simp_all add: str_ok_def blob_ok_def)
  have "consumes ByteMode False (header_bits 2 @ enc_scalar UnsignedInteger32Type BitMode True FRIEND_CUSTOM_MESSAGE
    @ enc_scalar UnsignedInteger64Type BitMode True (pm_recipient m)
    @ enc_scalar UnsignedInteger64Type BitMode True (pm_id m)
    @ enc_scalar UnsignedInteger32Type BitMode True (pm_timestamp m)
    @ enc_bool BitMode True False
    @ enc_scalar UnsignedInteger64Type BitMode True (pm_sender m)
    @ enc_str BitMode True (pm_sender_name m) @ enc_blob BitMode True (pm_payload m) @ [])
    client_read_push (2, FRIEND_CUSTOM_MESSAGE, pm_recipient m, pm_id m, pm_timestamp m,
      False, pm_sender m, pm_sender_name m, pm_payload m) BitMode True"
    unfolding client_read_push_def
    by (rule consumes_bind consumes_header consumes_value consumes_return
        consumes_reads [OF reads_str_val [OF str]] consumes_reads [OF reads_blob_val [OF blob]])+
  then have consumes: "consumes ByteMode False (push_bits m) client_read_push (2, 40, pm_recipient m, pm_id m,
      pm_timestamp m, False, pm_sender m, pm_sender_name m, pm_payload m) BitMode True"
    by (simp add: push_bits_def FRIEND_CUSTOM_MESSAGE_def)
  have writer: "push_message_writer m = thenE ?m flush"
    by (simp add: push_message_writer_def thenE_assoc)
  obtain data where "run_writer (thenE ?m flush) = Inr data"
      "\<forall>extra. fst (client_read_push (reader_new (data @ extra))) = Inr (2, 40, pm_recipient m, pm_id m, pm_timestamp m,
        False, pm_sender m, pm_sender_name m, pm_payload m)"
    using response_readable [OF emits_push consumes] .
  then show thesis using that writer by (simp add: push_to_response_def)
qed

text \<open>A pushed message is not much longer than its name and its payload.\<close>

lemma push_length:
  assumes "push_to_response m = Inr resp"
  shows "length (resp_data resp) \<le> length (pm_sender_name m) + length (pm_payload m) + 64"
proof -
  have writer: "push_message_writer m = thenE (thenE (write_header 2) (thenE (write_u32 FRIEND_CUSTOM_MESSAGE)
    (thenE (write_u64 (pm_recipient m)) (thenE (write_u64 (pm_id m)) (thenE (write_u32 (pm_timestamp m))
    (thenE (write_bool False) (thenE (write_u64 (pm_sender m)) (thenE (write_str (pm_sender_name m))
    (write_blob (pm_payload m)))))))))) flush"
    by (simp add: push_message_writer_def thenE_assoc)
  obtain data pad where d: "run_writer (push_message_writer m) = Inr data"
      "bytes_bits data = push_bits m @ replicate pad False" "pad < 8"
    using run_writer_flushed [OF emits_push [of m]] unfolding writer by metis
  have "length (bytes_bits data) = length (push_bits m) + pad" using d(2) by simp
  moreover have "length (push_bits m) \<le> 8 * (length (pm_sender_name m) + length (pm_payload m)) + 400"
    by (simp add: push_bits_def header_bits_def enc_scalar_def enc_bool_def enc_str_def enc_blob_def
        tagged_def tag_bits_def)
  moreover have "resp_data resp = data"
    using assms d(1) by (auto simp: push_to_response_def encrypted_if_available_def)
  ultimately show ?thesis using d(3) by simp
qed

definition client_read_connection_id :: "(u8 \<times> u64) rd" where
  "client_read_connection_id = bindE read_header (\<lambda>ty. bindE read_u64 (\<lambda>i. returnE (ty, i)))"

lemma connection_id_readable:
  obtains data where "connection_id_response i = Inr (encrypted_if_available data)"
    "\<forall>extra. fst (client_read_connection_id (reader_new (data @ extra))) = Inr (4, i)"
    "length data < 100"
proof -
  let ?m = "thenE (write_header 4) (write_u64 i)"
  have emits: "emits ByteMode False (header_bits 4 @ enc_scalar UnsignedInteger64Type BitMode True i)
      ?m BitMode True"
    by (rule emits_then emits_header emits_value)+
  have "consumes ByteMode False (header_bits 4 @ enc_scalar UnsignedInteger64Type BitMode True i @ [])
      client_read_connection_id (4, i) BitMode True"
    unfolding client_read_connection_id_def
    by (rule consumes_bind consumes_header consumes_value consumes_return)+
  then have consumes: "consumes ByteMode False (header_bits 4 @ enc_scalar UnsignedInteger64Type BitMode True i)
      client_read_connection_id (4, i) BitMode True" by simp
  have w: "thenE (write_header (message_type_to_u8 LsgServiceConnectionId)) (thenE (write_u64 i) flush)
    = thenE ?m flush" by (simp add: thenE_assoc)
  obtain data where d: "run_writer (thenE ?m flush) = Inr data"
      "\<forall>extra. fst (client_read_connection_id (reader_new (data @ extra))) = Inr (4, i)"
    and len: "8 * length data < length (header_bits 4 @ enc_scalar UnsignedInteger64Type BitMode True i) + 8"
    using response_readable [OF emits consumes] .
  have "length data < 100"
    using len by (simp add: header_bits_def enc_scalar_def tagged_def tag_bits_def)
  then show thesis using that w d by (simp add: connection_id_response_def)
qed

section \<open>Properties\<close>

text \<open>
  A task reply says what the handler meant: a client reads from a reply with results the
  reply type, the transaction id, the code for success, the operation and exactly the
  results, whatever codec they have; and from a reply without results the type, the id, the
  code and the operation. Transaction ids count up within a connection.
\<close>

theorem task_reply_readable:
  assumes "c_transaction conn < 2 ^ 64 - 1" "length vs < 2 ^ 32"
    and "\<forall>v \<in> set vs. writes BitMode True (e v) (wr v) \<and> reads BitMode True (e v) rd v"
  shows "\<exists>data data'. reply_results op (map wr vs) conn = (Inr (encrypted_if_available data),
      conn\<lparr>c_transaction := c_transaction conn + 1\<rparr>)
    \<and> fst (client_read_results rd (reader_new data)) = Inr (1, c_transaction conn, 0, op, vs)
    \<and> reply_only code op conn = (Inr (encrypted_if_available data'),
      conn\<lparr>c_transaction := c_transaction conn + 1\<rparr>)
    \<and> fst (client_read_code (reader_new data')) = Inr (1, c_transaction conn, error_code_to_u32 code, op)"
proof -
  obtain data where "reply_results op (map wr vs) conn = (Inr (encrypted_if_available data),
      conn\<lparr>c_transaction := c_transaction conn + 1\<rparr>)"
    "\<forall>extra. fst (client_read_results rd (reader_new (data @ extra))) = Inr (1, c_transaction conn, 0, op, vs)"
    by (rule reply_results_ok [OF assms(1,2)]) (use assms(3) in auto)
  moreover obtain data' where "reply_only code op conn = (Inr (encrypted_if_available data'),
      conn\<lparr>c_transaction := c_transaction conn + 1\<rparr>)"
    "\<forall>extra. fst (client_read_code (reader_new (data' @ extra)))
      = Inr (1, c_transaction conn, error_code_to_u32 code, op)"
    using reply_only_ok [OF assms(1)] .
  ultimately show ?thesis by (metis append_Nil2)
qed

definition reply_conn :: "unit conn" where
  "reply_conn = \<lparr>c_session = example_session, c_sent = [], c_transaction = 5, c_world = ()\<rparr>"

theorem task_reply_readable_witness:
  "\<exists>data data'. reply_results 9 (map write_u64 [17, 4]) reply_conn = (Inr (encrypted_if_available data),
      reply_conn\<lparr>c_transaction := c_transaction reply_conn + 1\<rparr>)
    \<and> fst (client_read_results read_u64 (reader_new data)) = Inr (1, c_transaction reply_conn, 0, 9, [17, 4])
    \<and> reply_only AccessDenied 9 reply_conn = (Inr (encrypted_if_available data'),
      reply_conn\<lparr>c_transaction := c_transaction reply_conn + 1\<rparr>)
    \<and> fst (client_read_code (reader_new data')) = Inr (1, c_transaction reply_conn, error_code_to_u32 AccessDenied, 9)"
  by (rule task_reply_readable [of _ _ "enc_scalar UnsignedInteger64Type BitMode True"])
    (simp_all add: reply_conn_def u64_c.writes u64_c.reads)

end
