(* ===== verification/Router.thy ===== *)
theory Router
  imports Replies AuthServer
begin

text \<open>
  The message router (libbitdemon/src/lobby/messaging/router.rs): which session a user can be
  reached at, and the delivery of messages to it. Frames for other sessions are appended to a
  log with the session they go to; whether the socket takes one is a parameter. The handlers
  of the lobby see the router as part of the shared world.
\<close>

record Recipient =
  rc_session :: u64
  rc_key :: bytes

record MessageRouter =
  mr_recipients :: "u64 \<rightharpoonup> Recipient"
  mr_next_id :: u64
  mr_delivered :: "(u64 \<times> bytes) list"

definition router_new :: MessageRouter where
  "router_new = \<lparr>mr_recipients = Map.empty, mr_next_id = 1, mr_delivered = []\<rparr>"

definition router_register :: "BdSession \<Rightarrow> MessageRouter \<Rightarrow> MessageRouter" where
  "router_register s m =
    (case s_authentication s of
       None \<Rightarrow> m
     | Some auth \<Rightarrow> m\<lparr>mr_recipients := (mr_recipients m)
         (a_user_id auth \<mapsto> \<lparr>rc_session = s_id s, rc_key = a_session_key auth\<rparr>)\<rparr>)"

definition router_unregister :: "BdSession \<Rightarrow> MessageRouter \<Rightarrow> MessageRouter" where
  "router_unregister s m = m\<lparr>mr_recipients := (\<lambda>u. case mr_recipients m u of
     None \<Rightarrow> None | Some r \<Rightarrow> if rc_session r \<noteq> s_id s then Some r else None)\<rparr>"

definition online :: "MessageRouter \<Rightarrow> nat" where
  "online m = card (dom (mr_recipients m))"

definition deliver ::
  "crypto \<Rightarrow> u32 \<Rightarrow> (u64 \<Rightarrow> bool) \<Rightarrow> u64 \<Rightarrow> u64 \<Rightarrow> bytes \<Rightarrow> u32 \<Rightarrow> bytes \<Rightarrow> MessageRouter
    \<Rightarrow> bool \<times> MessageRouter" where
  "deliver c seed writable recipient sender sender_name timestamp payload m =
    (let message = \<lparr>pm_recipient = recipient, pm_id = mr_next_id m, pm_timestamp = timestamp,
           pm_sender = sender, pm_sender_name = sender_name, pm_payload = payload\<rparr>;
         m' = m\<lparr>mr_next_id := mr_next_id m + 1\<rparr>
     in case mr_recipients m' recipient of
          None \<Rightarrow> (False, m')
        | Some r \<Rightarrow>
            (case push_to_response message of
               Inl _ \<Rightarrow> (False, m')
             | Inr resp \<Rightarrow>
                 let fr = fst (frame c seed (Some (rc_key r)) resp)
                 in if writable (rc_session r)
                    then (True, m'\<lparr>mr_delivered := mr_delivered m' @ [(rc_session r, fr)]\<rparr>)
                    else (False, m')))"

section \<open>Reachability\<close>

text \<open>What happens to a router as sessions come and go.\<close>

datatype router_event = Reg BdSession | Unreg BdSession

fun router_step :: "router_event \<Rightarrow> MessageRouter \<Rightarrow> MessageRouter" where
  "router_step (Reg s) = router_register s"
| "router_step (Unreg s) = router_unregister s"

text \<open>Events that do not concern the reachability of user \<open>u\<close> at session \<open>i\<close>: no other session
  logs in as the user, and the session does not end.\<close>

fun leaves_reachable :: "u64 \<Rightarrow> u64 \<Rightarrow> router_event \<Rightarrow> bool" where
  "leaves_reachable u i (Reg s) \<longleftrightarrow> (\<forall>a. s_authentication s = Some a \<longrightarrow> a_user_id a \<noteq> u)"
| "leaves_reachable u i (Unreg s) \<longleftrightarrow> s_id s \<noteq> i"

lemma router_step_keeps:
  assumes "mr_recipients m u = Some r" "leaves_reachable u (rc_session r) e"
  shows "mr_recipients (router_step e m) u = Some r"
  using assms by (cases e) (auto simp: router_register_def router_unregister_def split: option.split)

lemma router_steps_keep:
  assumes "mr_recipients m u = Some r" "\<forall>e \<in> set evs. leaves_reachable u (rc_session r) e"
  shows "mr_recipients (fold router_step evs m) u = Some r"
  using assms by (induction evs arbitrary: m) (auto simp: router_step_keeps)

lemma unregistered_unreachable:
  "mr_recipients (router_unregister s m) u = Some r \<Longrightarrow> rc_session r \<noteq> s_id s"
  by (auto simp: router_unregister_def split: option.splits if_splits)

lemma deliver_recipients: "mr_recipients (snd (deliver c seed wr u f n ts p m)) = mr_recipients m"
  by (auto simp: deliver_def Let_def split: option.split sum.split)

lemma client_reads_pushed:
  assumes c: "crypto_ok c" and name: "utf8_valid (pm_sender_name pm)" "0 \<notin> set (pm_sender_name pm)"
    and size: "length (pm_payload pm) < 2 ^ 32" "push_to_response pm = Inr resp"
    and fits: "length (resp_data resp) + 16 < 2 ^ 32"
  shows "\<exists>data rest'. client_receive c key (fst (frame c seed (Some key) resp) @ rest) = Some (data, rest)
    \<and> fst (client_read_push (reader_new data)) = Inr (2, 40, pm_recipient pm, pm_id pm, pm_timestamp pm,
        False, pm_sender pm, pm_sender_name pm, pm_payload pm)"
proof -
  obtain data where d: "push_to_response pm = Inr (encrypted_if_available data)"
    "\<forall>extra. fst (client_read_push (reader_new (data @ extra))) = Inr (2, 40, pm_recipient pm, pm_id pm,
      pm_timestamp pm, False, pm_sender pm, pm_sender_name pm, pm_payload pm)"
    using push_readable [OF name size(1)] .
  then have resp: "resp_data resp = data" using size(2) by (simp add: encrypted_if_available_def)
  obtain pad where "client_receive c key (fst (frame c seed (Some key) resp) @ rest)
      = Some (resp_data resp @ replicate pad 0, rest)"
    using receive_encrypted [OF c fits] by blast
  then show ?thesis using d(2) resp by auto
qed

section \<open>Properties\<close>

text \<open>
  C13. A message reaches the session in which its recipient last logged in. Once a session with
  an authentication has registered, and whatever other sessions register or end afterwards -
  an older session of the same user among them - as long as this one does not end and the
  user does not log in anew, a delivery goes to this session and to no other, and with
  its key the client reads the sender, the name and the payload that were sent.
\<close>

theorem message_delivered_to_last_login:
  assumes "crypto_ok c" "s_authentication s = Some a"
    and evs: "\<forall>e \<in> set evs. leaves_reachable (a_user_id a) (s_id s) e"
    and m: "m = fold router_step evs (router_register s m0)"
    and msg: "utf8_valid name" "0 \<notin> set name" "length payload < 2 ^ 32 - 1024" "length name < 512"
    and "writable (s_id s)"
  shows "\<exists>fr data. deliver c seed writable (a_user_id a) sender name ts payload m
      = (True, m\<lparr>mr_next_id := mr_next_id m + 1, mr_delivered := mr_delivered m @ [(s_id s, fr)]\<rparr>)
    \<and> client_receive c (a_session_key a) (fr @ rest) = Some (data, rest)
    \<and> fst (client_read_push (reader_new data))
        = Inr (2, 40, a_user_id a, mr_next_id m, ts, False, sender, name, payload)"
proof -
  let ?r = "\<lparr>rc_session = s_id s, rc_key = a_session_key a\<rparr>"
  have "mr_recipients (router_register s m0) (a_user_id a) = Some ?r"
    using assms(2) by (simp add: router_register_def)
  then have r: "mr_recipients m (a_user_id a) = Some ?r"
    unfolding m using evs by (intro router_steps_keep) auto
  let ?pm = "\<lparr>pm_recipient = a_user_id a, pm_id = mr_next_id m, pm_timestamp = ts,
    pm_sender = sender, pm_sender_name = name, pm_payload = payload\<rparr>"
  obtain data where d: "push_to_response ?pm = Inr (encrypted_if_available data)"
    using push_readable [of ?pm] msg by auto
  have fits: "length (resp_data (encrypted_if_available data)) + 16 < 2 ^ 32"
    using push_length [OF d] msg(3,4) by simp
  obtain data' where "client_receive c (a_session_key a)
      (fst (frame c seed (Some (a_session_key a)) (encrypted_if_available data)) @ rest) = Some (data', rest)"
    "fst (client_read_push (reader_new data')) = Inr (2, 40, a_user_id a, mr_next_id m, ts, False,
      sender, name, payload)"
    using client_reads_pushed [OF assms(1), of ?pm, OF _ _ _ d fits] msg by fastforce
  then show ?thesis using r d assms(9) by (auto simp: deliver_def Let_def)
qed

definition first_login :: BdSession where
  "first_login = \<lparr>s_id = 4, s_authentication = Some \<lparr>a_user_id = 7, a_username = [0x61],
     a_session_key = replicate 24 1, a_title = Iw4\<rparr>\<rparr>"

definition second_login :: BdSession where
  "second_login = first_login\<lparr>s_id := 5\<rparr>"

theorem message_delivered_to_last_login_witness:
  "\<exists>fr data. deliver toy_crypto 3 (\<lambda>i. True) 7 8 [0x62] 99 [1, 2, 3]
        (fold router_step [Unreg first_login] (router_register second_login (router_register first_login router_new)))
      = (True, (fold router_step [Unreg first_login]
           (router_register second_login (router_register first_login router_new)))
         \<lparr>mr_next_id := 2, mr_delivered := [(5, fr)]\<rparr>)
    \<and> client_receive toy_crypto (replicate 24 1) (fr @ [9]) = Some (data, [9])
    \<and> fst (client_read_push (reader_new data)) = Inr (2, 40, 7, 1, 99, False, 8, [0x62], [1, 2, 3])"
proof -
  let ?m0 = "router_register first_login router_new"
  have "\<exists>a. s_authentication second_login = Some a \<and> a_user_id a = 7 \<and> a_session_key a = replicate 24 1"
    by (simp add: second_login_def first_login_def)
  then obtain a where a: "s_authentication second_login = Some a" "a_user_id a = 7"
    "a_session_key a = replicate 24 1" by blast
  have evs: "\<forall>e \<in> set [Unreg first_login]. leaves_reachable (a_user_id a) (s_id second_login) e"
    by (simp add: second_login_def first_login_def)
  have name: "utf8_valid [0x62]" "0 \<notin> set [0x62 :: u8]"
    by (simp_all add: utf8_valid.simps utf8_char_len_def word_less_nat_alt)
  have now: "mr_next_id (fold router_step [Unreg first_login] (router_register second_login ?m0)) = 1"
    "mr_delivered (fold router_step [Unreg first_login] (router_register second_login ?m0)) = []"
    "s_id second_login = 5"
    by (simp_all add: router_register_def router_unregister_def router_new_def second_login_def
        first_login_def)
  show ?thesis
    using message_delivered_to_last_login [OF toy_crypto_ok a(1) evs
          refl [of "fold router_step [Unreg first_login] (router_register second_login ?m0)"] name,
        where payload = "[1, 2, 3]" and writable = "\<lambda>i. True" and seed = 3
          and sender = 8 and ts = 99 and rest = "[9]"]
    unfolding now a by simp
qed

end
