(* ===== verification/Lobby.thy ===== *)
theory Lobby
  imports Router AuthServer
begin

text \<open>
  The lobby server (libbitdemon/src/lobby/mod.rs) and the handler that logs sessions in
  (libbitdemon/src/lobby/lsg.rs). A handler is a record of its operation, of whether it asks
  for an authenticated session, and of the framing of its requests; the server is the table
  of its handlers.
\<close>

section \<open>Services\<close>

datatype LobbyServiceId =
    Teams | Stats | MatchMaking | Messaging | LobbyService | Profile | Friends | Storage
  | Messaging2 | TitleUtilities | KeyArchive | Performance | BandwidthTest | Stats2
  | Matchmaking | Stats3 | Counter | Dml | Group | Mail | Twitch | Youtube | Twitter | Facebook
  | Anticheat | ContentStreaming | Tags | VoteRank | LinkCode | PooledStorage | Subscription
  | EventLog | RichPresence | League | League2

definition all_lobby_services :: "LobbyServiceId list" where
  "all_lobby_services =
    [Teams, Stats, MatchMaking, Messaging, LobbyService, Profile, Friends, Storage, Messaging2,
     TitleUtilities, KeyArchive, Performance, BandwidthTest, Stats2, Matchmaking, Stats3, Counter,
     Dml, Group, Mail, Twitch, Youtube, Twitter, Facebook, Anticheat, ContentStreaming, Tags,
     VoteRank, LinkCode, PooledStorage, Subscription, EventLog, RichPresence, League, League2]"

fun lobby_service_to_u8 :: "LobbyServiceId \<Rightarrow> u8" where
  "lobby_service_to_u8 Teams = 3"
| "lobby_service_to_u8 Stats = 4"
| "lobby_service_to_u8 MatchMaking = 5"
| "lobby_service_to_u8 Messaging = 6"
| "lobby_service_to_u8 LobbyService = 7"
| "lobby_service_to_u8 Profile = 8"
| "lobby_service_to_u8 Friends = 9"
| "lobby_service_to_u8 Storage = 10"
| "lobby_service_to_u8 Messaging2 = 11"
| "lobby_service_to_u8 TitleUtilities = 12"
| "lobby_service_to_u8 KeyArchive = 15"
| "lobby_service_to_u8 Performance = 17"
| "lobby_service_to_u8 BandwidthTest = 18"
| "lobby_service_to_u8 Stats2 = 19"
| "lobby_service_to_u8 Matchmaking = 21"
| "lobby_service_to_u8 Stats3 = 22"
| "lobby_service_to_u8 Counter = 23"
| "lobby_service_to_u8 Dml = 27"
| "lobby_service_to_u8 Group = 28"
| "lobby_service_to_u8 Mail = 29"
| "lobby_service_to_u8 Twitch = 31"
| "lobby_service_to_u8 Youtube = 33"
| "lobby_service_to_u8 Twitter = 35"
| "lobby_service_to_u8 Facebook = 36"
| "lobby_service_to_u8 Anticheat = 38"
| "lobby_service_to_u8 ContentStreaming = 50"
| "lobby_service_to_u8 Tags = 52"
| "lobby_service_to_u8 VoteRank = 55"
| "lobby_service_to_u8 LinkCode = 57"
| "lobby_service_to_u8 PooledStorage = 58"
| "lobby_service_to_u8 Subscription = 66"
| "lobby_service_to_u8 EventLog = 67"
| "lobby_service_to_u8 RichPresence = 68"
| "lobby_service_to_u8 League = 81"
| "lobby_service_to_u8 League2 = 82"

definition lobby_service_from_u8 :: "u8 \<Rightarrow> LobbyServiceId option" where
  "lobby_service_from_u8 v = List.find (\<lambda>s. lobby_service_to_u8 s = v) all_lobby_services"

lemma lobby_service_from_to_u8 [simp]: "lobby_service_from_u8 (lobby_service_to_u8 s) = Some s"
  by (cases s) (simp_all add: lobby_service_from_u8_def all_lobby_services_def)

lemma lobby_service_to_from_u8: "lobby_service_from_u8 v = Some s \<Longrightarrow> lobby_service_to_u8 s = v"
  by (auto simp: lobby_service_from_u8_def find_Some_iff)

datatype Framing = BitBuffer | Bytes

record 'w lobby_handler =
  lh_handle_message :: "reader \<Rightarrow> ('w, BdResponse) act"
  lh_requires_authentication :: bool
  lh_framing :: Framing

type_synonym 'w lobby_handlers = "LobbyServiceId \<rightharpoonup> 'w lobby_handler"

text \<open>The defaults of the trait.\<close>

definition default_handler :: "(reader \<Rightarrow> ('w, BdResponse) act) \<Rightarrow> 'w lobby_handler" where
  "default_handler handle = \<lparr>lh_handle_message = handle, lh_requires_authentication = True,
     lh_framing = BitBuffer\<rparr>"

definition add_service ::
  "LobbyServiceId \<Rightarrow> 'w lobby_handler \<Rightarrow> 'w lobby_handlers \<Rightarrow> 'w lobby_handlers" where
  "add_service service_id handler handlers = handlers(service_id \<mapsto> handler)"

text \<open>Unless the handler wants bytes, the rest of the message is a bit stream.\<close>

definition enter_framing :: "'w lobby_handler option \<Rightarrow> reader \<Rightarrow> ('w, unit \<times> reader) act" where
  "enter_framing maybe_handler r =
    (if map_option lh_framing maybe_handler \<noteq> Some Bytes
     then run_rd (thenE (modifyE (reader_set_mode BitMode)) read_type_checked_bit) r
     else returnE ((), r))"

definition call_handler ::
  "crypto \<Rightarrow> u32 \<Rightarrow> 'w lobby_handler option \<Rightarrow> reader \<Rightarrow> ('w, unit) act" where
  "call_handler c seed maybe_handler r =
    (case maybe_handler of
       Some handler \<Rightarrow>
         (\<lambda>conn.
           if lh_requires_authentication handler \<and> s_authentication (c_session conn) = None
           then bindE (reply_only AccessDenied 0) (send c seed) conn
           else bindE (lh_handle_message handler r) (send c seed) conn)
     | None \<Rightarrow> bindE (reply_only ServiceNotAvailable 0) (send c seed))"

definition lobby_handle_message ::
  "crypto \<Rightarrow> u32 \<Rightarrow> 'w lobby_handlers \<Rightarrow> reader \<Rightarrow> ('w, unit) act" where
  "lobby_handle_message c seed handlers r =
    bindE (run_rd read_u8 (reader_set_type_checked False r)) (\<lambda>(service_id_input, r1).
    case lobby_service_from_u8 service_id_input of
      None \<Rightarrow> throwE (IllegalServiceIdError service_id_input)
    | Some service_id \<Rightarrow>
        bindE (enter_framing (handlers service_id) r1) (\<lambda>(_, r2).
        call_handler c seed (handlers service_id) r2))"

section \<open>Logging in\<close>

record lsg_world = base_world +
  w_router :: MessageRouter

definition lsg_request :: "(Title \<times> bytes) rd" where
  "lsg_request =
    bindE read_u32 (\<lambda>title_id.
    bindE (case title_from_u32 title_id of
             None \<Rightarrow> throwE (UnknownTitleError title_id) | Some t \<Rightarrow> returnE t) (\<lambda>title.
    bindE read_u32 (\<lambda>iv_seed.
    bindE (read_bytes 128) (\<lambda>auth_proof. returnE (title, auth_proof)))))"

definition lsg_handle :: "crypto \<Rightarrow> env \<Rightarrow> reader \<Rightarrow> ('a lsg_world_scheme, BdResponse) act" where
  "lsg_handle c env r =
    bindE (run_rd lsg_request r) (\<lambda>((title, buf), _).
    bindE (\<lambda>conn. (proof_deserialize c (get_valid_keys (e_now env) (w_keys (c_world conn))) buf, conn))
      (\<lambda>auth_proof.
    thenE (ensureE (sint (p_time_expires auth_proof) \<ge> e_now env)
             (AuthenticationExpiredError (p_time_expires auth_proof) (word_of_int (e_now env))))
    (thenE (ensureE (p_title auth_proof = title) (InvalidTitleError title (p_title auth_proof)))
    (thenE (modifyE (\<lambda>conn. conn\<lparr>c_session := set_authentication
        \<lparr>a_user_id = p_user_id auth_proof, a_username = p_username auth_proof,
         a_session_key = p_session_key auth_proof, a_title = p_title auth_proof\<rparr> (c_session conn)\<rparr>))
    (thenE (modifyE (\<lambda>conn. conn\<lparr>c_world := (c_world conn)
        \<lparr>w_router := router_register (c_session conn) (w_router (c_world conn))\<rparr>\<rparr>))
    (\<lambda>conn. (connection_id_response (s_id (c_session conn)), conn)))))))"

definition lsg_handler :: "crypto \<Rightarrow> env \<Rightarrow> ('a lsg_world_scheme) lobby_handler" where
  "lsg_handler c env = (default_handler (lsg_handle c env))\<lparr>lh_requires_authentication := False\<rparr>"

definition lobby_server_new :: "crypto \<Rightarrow> env \<Rightarrow> ('a lsg_world_scheme) lobby_handlers" where
  "lobby_server_new c env = add_service LobbyService (lsg_handler c env) Map.empty"

section \<open>The dispatch\<close>

lemma encrypted_data [simp]: "resp_data (encrypted_if_available data) = data"
  by (simp add: encrypted_if_available_def)

lemma run_rd_consumes:
  assumes "consumes md tc bs m v md' tc'" "ready md tc r" "rbits r = bs @ rest"
  obtains r' where "run_rd m r conn = (Inr (v, r'), conn)" "ready md' tc' r'" "rbits r' = rest"
  using assms unfolding consumes_def run_rd_def by fastforce

lemma reader_set_type_checked_same: "r_type_checked r = b \<Longrightarrow> reader_set_type_checked b r = r"
  by (simp add: reader_set_type_checked_def)

definition request_header :: "LobbyServiceId \<Rightarrow> bool list" where
  "request_header s = bits_of (lobby_service_to_u8 s) @ [True]"

lemma lobby_dispatch:
  assumes h: "handlers s = Some h" "lh_framing h = BitBuffer"
    and auth: "\<not> (lh_requires_authentication h \<and> s_authentication (c_session conn) = None)"
    and r: "ready ByteMode False r" "rbits r = request_header s @ rest"
  obtains r' where "lobby_handle_message c seed handlers r conn
      = bindE (lh_handle_message h r') (send c seed) conn"
    "ready BitMode True r'" "rbits r' = rest"
proof -
  have tc: "reader_set_type_checked False r = r"
    using r(1) by (simp add: ready_def reader_set_type_checked_same)
  have u8: "consumes ByteMode False (bits_of (lobby_service_to_u8 s)) read_u8 (lobby_service_to_u8 s)
      ByteMode False"
    using consumes_reads [OF u8_c.reads [OF any_value, of ByteMode False "lobby_service_to_u8 s"]]
    by (simp add: enc_u8_raw)
  have "rbits r = bits_of (lobby_service_to_u8 s) @ [True] @ rest"
    using r(2) by (simp add: request_header_def)
  then obtain r1 where 1: "run_rd read_u8 r conn = (Inr (lobby_service_to_u8 s, r1), conn)"
      "ready ByteMode False r1" "rbits r1 = [True] @ rest"
    using run_rd_consumes [OF u8 r(1)] by metis
  have bit: "consumes ByteMode False ([] @ [True])
      (thenE (modifyE (reader_set_mode BitMode)) read_type_checked_bit) () BitMode True"
    by (rule consumes_then [OF consumes_bit_mode consumes_type_checked_bit])
  obtain r2 where 2: "run_rd (thenE (modifyE (reader_set_mode BitMode)) read_type_checked_bit) r1 conn
      = (Inr ((), r2), conn)" "ready BitMode True r2" "rbits r2 = rest"
    using run_rd_consumes [OF bit 1(2)] 1(3) by auto
  have "lobby_handle_message c seed handlers r conn = bindE (lh_handle_message h r2) (send c seed) conn"
    using h auth 1(1) 2(1) by (auto simp: lobby_handle_message_def enter_framing_def call_handler_def tc
        bindE_def [of "run_rd m r" for m r])
  then show thesis using that 2 by blast
qed

text \<open>A reply without results, sent.\<close>

lemma reply_only_sent:
  assumes "c_transaction conn < 2 ^ 64 - 1"
  obtains data where "bindE (reply_only code op) (send c seed) conn
      = (Inr (), conn\<lparr>c_transaction := c_transaction conn + 1,
          c_sent := c_sent conn @ [fst (frame c seed (response_key (c_session conn) (encrypted_if_available data))
            (encrypted_if_available data))]\<rparr>)"
    "\<forall>extra. fst (client_read_code (reader_new (data @ extra)))
      = Inr (1, c_transaction conn, error_code_to_u32 code, op)"
proof -
  obtain data where "reply_only code op conn = (Inr (encrypted_if_available data),
       conn\<lparr>c_transaction := c_transaction conn + 1\<rparr>)"
    "\<forall>extra. fst (client_read_code (reader_new (data @ extra)))
      = Inr (1, c_transaction conn, error_code_to_u32 code, op)"
    using reply_only_ok [OF assms] .
  then show thesis using that by (simp add: bindE_def send_def send_frame_def monad_simps)
qed

lemma run_rd_state: "snd (run_rd m r conn) = conn"
  by (cases rule: run_rd_cases [of m r conn]) auto

section \<open>The login handler\<close>

definition lsg_request_bits :: "Title \<Rightarrow> u32 \<Rightarrow> bytes \<Rightarrow> bool list" where
  "lsg_request_bits title iv_seed pd = enc_scalar UnsignedInteger32Type BitMode True (title_to_u32 title)
    @ enc_scalar UnsignedInteger32Type BitMode True iv_seed @ bytes_bits pd"

lemma consumes_lsg_request:
  assumes "length pd = 128"
  shows "consumes BitMode True (lsg_request_bits title iv_seed pd) lsg_request (title, pd) BitMode True"
proof -
  have "consumes BitMode True (enc_scalar UnsignedInteger32Type BitMode True (title_to_u32 title)
    @ [] @ enc_scalar UnsignedInteger32Type BitMode True iv_seed @ bytes_bits pd @ [])
    lsg_request (title, pd) BitMode True"
    unfolding lsg_request_def
    apply (rule consumes_bind [OF consumes_reads [OF u32_c.reads [OF any_value]]])
    apply (rule consumes_bind [where x = title and md' = BitMode and tc' = True])
     apply (simp add: consumes_return)
    apply (rule consumes_bind [OF consumes_reads [OF u32_c.reads [OF any_value]]])
    apply (rule consumes_bind [OF consumes_reads [OF reads_bytes_bit [of True pd, unfolded assms]]])
    apply (rule consumes_return)
    done
  then show ?thesis by (simp add: lsg_request_bits_def)
qed

definition proof_authentication :: "ClientOpaqueAuthProof \<Rightarrow> SessionAuthentication" where
  "proof_authentication p = \<lparr>a_user_id = p_user_id p, a_username = p_username p,
    a_session_key = p_session_key p, a_title = p_title p\<rparr>"

lemma lsg_handle_ok:
  assumes "ready BitMode True r" "rbits r = lsg_request_bits (p_title p) iv_seed pd @ rest" "length pd = 128"
    and "proof_deserialize c (get_valid_keys (e_now env) (w_keys (c_world conn))) pd = Inr p"
    and "e_now env \<le> sint (p_time_expires p)"
  shows "lsg_handle c env r conn = (connection_id_response (s_id (c_session conn)),
    conn\<lparr>c_session := set_authentication (proof_authentication p) (c_session conn),
      c_world := (c_world conn)\<lparr>w_router := router_register
        (set_authentication (proof_authentication p) (c_session conn)) (w_router (c_world conn))\<rparr>\<rparr>)"
proof -
  obtain r' where "run_rd lsg_request r conn = (Inr ((p_title p, pd), r'), conn)"
    using run_rd_consumes [OF consumes_lsg_request [OF assms(3)] assms(1,2)] .
  then show ?thesis using assms(4,5)
    by (simp add: lsg_handle_def bindE_def monad_simps proof_authentication_def set_authentication_def)
qed

text \<open>A session that the handler logs in shows an authentic proof: the proof decrypts under a
  valid key, has not expired, and is for the title of the request.\<close>

lemma lsg_handle_authentic:
  assumes "lsg_handle c env r conn = (Inr resp, conn')"
  obtains title buf r' p where "lsg_request r = (Inr (title, buf), r')"
    "proof_deserialize c (get_valid_keys (e_now env) (w_keys (c_world conn))) buf = Inr p"
    "e_now env \<le> sint (p_time_expires p)" "p_title p = title"
    "c_session conn' = set_authentication (proof_authentication p) (c_session conn)"
    "w_router (c_world conn') = router_register (c_session conn') (w_router (c_world conn))"
proof (cases rule: run_rd_cases [of lsg_request r conn])
  case (1 e)
  then show thesis using assms by (simp add: lsg_handle_def bindE_def)
next
  case (2 v r')
  obtain title buf where v: "v = (title, buf)" by fastforce
  obtain p where p: "proof_deserialize c (get_valid_keys (e_now env) (w_keys (c_world conn))) buf = Inr p"
    using assms 2(1) v by (cases "proof_deserialize c (get_valid_keys (e_now env) (w_keys (c_world conn))) buf")
      (auto simp: lsg_handle_def bindE_def)
  have "lsg_handle c env r conn = (if e_now env \<le> sint (p_time_expires p) then
      if p_title p = title then (connection_id_response (s_id (c_session conn)),
        conn\<lparr>c_session := set_authentication (proof_authentication p) (c_session conn),
          c_world := (c_world conn)\<lparr>w_router := router_register
            (set_authentication (proof_authentication p) (c_session conn)) (w_router (c_world conn))\<rparr>\<rparr>)
      else (Inl (InvalidTitleError title (p_title p)), conn)
    else (Inl (AuthenticationExpiredError (p_time_expires p) (word_of_int (e_now env))), conn))"
    using 2(1) v p
    by (simp add: lsg_handle_def bindE_def monad_simps proof_authentication_def set_authentication_def)
  then show thesis using assms that [OF 2(2) [unfolded v] p] by (auto split: if_splits)
qed

section \<open>Properties\<close>

text \<open>
  C14. A session that has not logged in reaches no service. Whatever message it sends, unless
  the message is for the login service, the world that the services share and the session
  itself stay as they are; when the server answers at all it sends one unencrypted reply,
  from which the client reads that access is denied or that there is no such service.
\<close>

theorem unauthenticated_denied:
  assumes "\<forall>s h. handlers s = Some h \<and> s \<noteq> LobbyService \<longrightarrow> lh_requires_authentication h"
    and "s_authentication (c_session conn) = None" "c_transaction conn < 2 ^ 64 - 1"
    and "fst (read_u8 (reader_set_type_checked False r)) \<noteq> Inr (lobby_service_to_u8 LobbyService)"
    and run: "lobby_handle_message c seed handlers r conn = (res, conn')"
  shows "c_world conn' = c_world conn \<and> c_session conn' = c_session conn
    \<and> (res = Inr () \<longrightarrow> (\<exists>data code. c_sent conn' = c_sent conn
          @ [fst (frame c seed None (encrypted_if_available data))]
        \<and> code \<in> {AccessDenied, ServiceNotAvailable}
        \<and> fst (client_read_code (reader_new data)) = Inr (1, c_transaction conn, error_code_to_u32 code, 0)))"
proof -
  have sent: "\<exists>data. bindE (reply_only code 0) (send c seed) conn = (Inr (), conn\<lparr>c_transaction :=
      c_transaction conn + 1, c_sent := c_sent conn @ [fst (frame c seed None (encrypted_if_available data))]\<rparr>)
    \<and> fst (client_read_code (reader_new data)) = Inr (1, c_transaction conn, error_code_to_u32 code, 0)" for code
    using reply_only_sent [OF assms(3), of code 0 c seed] assms(2)
    by (simp add: response_key_def) (metis append_Nil2)
  show ?thesis
  proof (cases rule: run_rd_cases [of read_u8 "reader_set_type_checked False r" conn])
    case (1 e)
    then show ?thesis using run by (auto simp: lobby_handle_message_def bindE_def)
  next
    case (2 v r1)
    show ?thesis
    proof (cases "lobby_service_from_u8 v")
      case None
      then show ?thesis using run 2(1) by (auto simp: lobby_handle_message_def bindE_def monad_simps)
    next
      case (Some s)
      then have s: "s \<noteq> LobbyService" using assms(4) 2(2) lobby_service_to_from_u8 by fastforce
      let ?hs = "handlers s" let ?code = "if handlers s = None then ServiceNotAvailable else AccessDenied"
      have hd: "snd (enter_framing ?hs r1 conn) = conn"
        by (simp add: enter_framing_def run_rd_state returnE_apply)
      have denied: "call_handler c seed ?hs r2 conn = bindE (reply_only ?code 0) (send c seed) conn" for r2
        using assms(1,2) s by (auto simp: call_handler_def split: option.split)
      have "lobby_handle_message c seed handlers r conn = (case enter_framing ?hs r1 conn of
          (Inl e, conn1) \<Rightarrow> (Inl e, conn1)
        | (Inr _, conn1) \<Rightarrow> bindE (reply_only ?code 0) (send c seed) conn1)"
        using 2(1) Some hd denied
        by (cases "enter_framing ?hs r1 conn"; cases "fst (enter_framing ?hs r1 conn)")
          (auto simp: lobby_handle_message_def bindE_def [of "run_rd m r" for m r]
            bindE_def [of "enter_framing m r" for m r])
      then consider e where "res = Inl e" "conn' = conn"
        | "bindE (reply_only ?code 0) (send c seed) conn = (res, conn')"
        using run hd by (cases "enter_framing ?hs r1 conn"; cases "fst (enter_framing ?hs r1 conn)") auto
      then show ?thesis
      proof cases
        case 2
        obtain data where d: "bindE (reply_only ?code 0) (send c seed) conn = (Inr (),
            conn\<lparr>c_transaction := c_transaction conn + 1,
              c_sent := c_sent conn @ [fst (frame c seed None (encrypted_if_available data))]\<rparr>)"
          "fst (client_read_code (reader_new data)) = Inr (1, c_transaction conn, error_code_to_u32 ?code, 0)"
          using sent [of ?code] by blast
        have "?code \<in> {AccessDenied, ServiceNotAvailable}" by simp
        then show ?thesis using d 2 by auto
      qed simp
    qed
  qed
qed

definition example_lobby_conn :: "lsg_world conn" where
  "example_lobby_conn = \<lparr>c_session = session_new\<lparr>s_id := 4\<rparr>, c_sent = [], c_transaction = 0,
     c_world = \<lparr>w_keys = snd (get_current_key 1000 [1] [2] key_store_new), w_router = router_new\<rparr>\<rparr>"

definition example_handlers :: "lsg_world lobby_handlers" where
  "example_handlers = add_service Storage (default_handler (\<lambda>r. throwE Panic))
     (lobby_server_new toy_crypto example_env)"

lemma example_handlers_closed:
  "\<forall>s h. example_handlers s = Some h \<and> s \<noteq> LobbyService \<longrightarrow> lh_requires_authentication h"
  by (simp add: example_handlers_def add_service_def lobby_server_new_def default_handler_def)

theorem unauthenticated_denied_witness:
  "\<exists>res conn'. lobby_handle_message toy_crypto 3 example_handlers (reader_new [10, 1]) example_lobby_conn
      = (res, conn')
    \<and> c_world conn' = c_world example_lobby_conn \<and> c_session conn' = c_session example_lobby_conn
    \<and> (res = Inr () \<longrightarrow> (\<exists>data code. c_sent conn' = c_sent example_lobby_conn
          @ [fst (frame toy_crypto 3 None (encrypted_if_available data))]
        \<and> code \<in> {AccessDenied, ServiceNotAvailable}
        \<and> fst (client_read_code (reader_new data))
            = Inr (1, c_transaction example_lobby_conn, error_code_to_u32 code, 0)))"
proof -
  obtain res conn' where run: "lobby_handle_message toy_crypto 3 example_handlers (reader_new [10, 1])
      example_lobby_conn = (res, conn')" by fastforce
  have "fst (read_u8 (reader_set_type_checked False (reader_new [10, 1]))) = Inr 10"
    by (simp add: reader_set_type_checked_def reader_new_def read_u8_def read_scalar_def expect_type_def
        cursor_read_exact_def cursor_rest_def bindE_def thenE_def monad_simps)
  then have id: "fst (read_u8 (reader_set_type_checked False (reader_new [10, 1])))
    \<noteq> Inr (lobby_service_to_u8 LobbyService)" by simp
  from unauthenticated_denied [OF example_handlers_closed _ _ id run] run show ?thesis
    by (simp add: example_lobby_conn_def session_new_def)
qed

lemma login_with_proof:
  assumes c: "crypto_ok c" and h: "handlers LobbyService = Some (lsg_handler c env)"
    and r: "ready ByteMode False r"
      "rbits r = request_header LobbyService @ lsg_request_bits (p_title p) iv_seed pd @ rest"
    and p: "proof_ok p" "proof_serialize c k p = Inr pd"
      "k \<in> set (get_valid_keys (e_now env) (w_keys (c_world conn)))"
      "no_collision c (get_valid_keys (e_now env) (w_keys (c_world conn))) k pd"
      "e_now env \<le> sint (p_time_expires p)"
    and s': "s' = set_authentication (proof_authentication p) (c_session conn)"
  shows "\<exists>fr data. lobby_handle_message c seed handlers r conn = (Inr (), conn\<lparr>c_session := s',
        c_sent := c_sent conn @ [fr],
        c_world := (c_world conn)\<lparr>w_router := router_register s' (w_router (c_world conn))\<rparr>\<rparr>)
    \<and> mr_recipients (router_register s' (w_router (c_world conn))) (p_user_id p)
      = Some \<lparr>rc_session = s_id (c_session conn), rc_key = p_session_key p\<rparr>
    \<and> client_receive c (p_session_key p) (fr @ stream) = Some (data, stream)
    \<and> fst (client_read_connection_id (reader_new data)) = Inr (4, s_id (c_session conn))"
proof -
  obtain r' where dispatch: "lobby_handle_message c seed handlers r conn
      = bindE (lsg_handle c env r') (send c seed) conn"
    and r': "ready BitMode True r'" "rbits r' = lsg_request_bits (p_title p) iv_seed pd @ rest"
    using lobby_dispatch [where handlers = handlers and s = LobbyService, OF h _ _ r, of conn c seed] by (auto simp: lsg_handler_def default_handler_def)
  have des: "proof_deserialize c (get_valid_keys (e_now env) (w_keys (c_world conn))) pd = Inr p"
    using deserialize_serialize [OF c p(1,2,3,4)] .
  have pd: "length pd = 128" using serialize_inverse [OF c p(2)] by simp
  obtain data where data: "connection_id_response (s_id (c_session conn)) = Inr (encrypted_if_available data)"
    "\<forall>extra. fst (client_read_connection_id (reader_new (data @ extra))) = Inr (4, s_id (c_session conn))"
    and len: "length data < 100"
    using connection_id_readable [of "s_id (c_session conn)"] .
  let ?resp = "encrypted_if_available data"
  have key: "response_key s' ?resp = Some (p_session_key p)"
    by (simp add: s' response_key_def set_authentication_def proof_authentication_def
        encrypted_if_available_def)
  have "length (resp_data ?resp) + 16 < 2 ^ 32" using len by (simp add: encrypted_if_available_def)
  then obtain pad where "client_receive c (p_session_key p) (fst (frame c seed (Some (p_session_key p)) ?resp) @ stream)
      = Some (data @ replicate pad 0, stream)"
    using receive_encrypted [OF c, of ?resp "p_session_key p" seed stream] encrypted_data [of data] by auto
  moreover have "lobby_handle_message c seed handlers r conn = (Inr (), conn\<lparr>c_session := s',
        c_sent := c_sent conn @ [fst (frame c seed (Some (p_session_key p)) ?resp)],
        c_world := (c_world conn)\<lparr>w_router := router_register s' (w_router (c_world conn))\<rparr>\<rparr>)"
    using dispatch lsg_handle_ok [OF r' pd des p(5)] data(1) key
    by (simp add: bindE_def send_def send_frame_def monad_simps s')
  ultimately show ?thesis using data(2)
    by (auto simp: s' router_register_def set_authentication_def proof_authentication_def)
qed

text \<open>
  C15. Who holds a proof of the authentication server logs in. When a client sends the login
  service a proof that was issued under a key that is still valid, before it expires and with
  the title it is for, the session takes the user, the title and the session key of the
  proof, the router from then on reaches the user at this session, and the one frame that
  the server sends back is encrypted under that session key: the client reads its
  connection id from it.
\<close>

theorem lsg_logs_in:
  assumes c: "crypto_ok c" and h: "handlers LobbyService = Some (lsg_handler c env)"
    and r: "ready ByteMode False r"
      "rbits r = request_header LobbyService @ lsg_request_bits (p_title p) iv_seed pd @ rest"
    and p: "proof_ok p" "proof_serialize c k p = Inr pd"
      "k \<in> set (get_valid_keys (e_now env) (w_keys (c_world conn)))"
      "no_collision c (get_valid_keys (e_now env) (w_keys (c_world conn))) k pd"
      "e_now env \<le> sint (p_time_expires p)"
    and s': "s' = set_authentication (proof_authentication p) (c_session conn)"
  shows "\<exists>fr data. lobby_handle_message c seed handlers r conn = (Inr (), conn\<lparr>c_session := s',
        c_sent := c_sent conn @ [fr],
        c_world := (c_world conn)\<lparr>w_router := router_register s' (w_router (c_world conn))\<rparr>\<rparr>)
    \<and> mr_recipients (router_register s' (w_router (c_world conn))) (p_user_id p)
      = Some \<lparr>rc_session = s_id (c_session conn), rc_key = p_session_key p\<rparr>
    \<and> client_receive c (p_session_key p) (fr @ stream) = Some (data, stream)
    \<and> fst (client_read_connection_id (reader_new data)) = Inr (4, s_id (c_session conn))"
  by (rule login_with_proof [where handlers = handlers, OF assms])

definition login_env :: env where
  "login_env = example_env\<lparr>e_now := 1300\<rparr>"

theorem lsg_logs_in_witness:
  "\<exists>pd fr data. proof_serialize toy_crypto example_key example_proof = Inr pd
    \<and> lobby_handle_message toy_crypto 3 (lobby_server_new toy_crypto login_env)
        (reader_new (pack (request_header LobbyService @ lsg_request_bits Iw4 9 pd
          @ replicate 5 False))) example_lobby_conn
      = (Inr (), example_lobby_conn\<lparr>c_session := set_authentication (proof_authentication example_proof)
            (c_session example_lobby_conn), c_sent := [fr],
          c_world := (c_world example_lobby_conn)\<lparr>w_router := router_register
            (set_authentication (proof_authentication example_proof) (c_session example_lobby_conn)) router_new\<rparr>\<rparr>)
    \<and> client_receive toy_crypto (replicate 24 5) (fr @ [8]) = Some (data, [8])
    \<and> fst (client_read_connection_id (reader_new data)) = Inr (4, 4)"
proof -
  obtain pd where pd: "proof_serialize toy_crypto example_key example_proof = Inr pd"
    using serialize_ok [OF toy_crypto_ok example_proof_ok] .
  have len: "length pd = 128" using serialize_inverse [OF toy_crypto_ok pd] by simp
  let ?bits = "request_header LobbyService @ lsg_request_bits (p_title example_proof) 9 pd"
  have "8 dvd length (?bits @ replicate 5 False)"
    by (simp add: request_header_def lsg_request_bits_def enc_scalar_def tagged_def tag_bits_def len)
  then have bits: "rbits (reader_new (pack (?bits @ replicate 5 False)))
      = request_header LobbyService @ lsg_request_bits (p_title example_proof) 9 pd @ replicate 5 False"
    by (simp add: rbits_new bytes_bits_pack)
  have h: "lobby_server_new toy_crypto login_env LobbyService = Some (lsg_handler toy_crypto login_env)"
    by (simp add: lobby_server_new_def add_service_def)
  have keys: "w_keys (c_world example_lobby_conn) = snd (get_current_key 1000 [1] [2] key_store_new)"
    by (simp add: example_lobby_conn_def)
  have now: "e_now login_env = 1300" by (simp add: login_env_def)
  have key: "example_key \<in> set (get_valid_keys (e_now login_env) (w_keys (c_world example_lobby_conn)))"
    unfolding keys now
    using current_key_valid_later [OF key_store_ok_new example_first_key, of "[]" 1300] by simp
  have unique: "no_collision toy_crypto (get_valid_keys (e_now login_env)
      (w_keys (c_world example_lobby_conn))) example_key pd"
    unfolding keys now using example_only_key by (auto simp: no_collision_def)
  have expires: "e_now login_env \<le> sint (p_time_expires example_proof)"
    by (simp add: now example_proof_def)
  show ?thesis
    using lsg_logs_in [where stream = "[8]" and handlers = "lobby_server_new toy_crypto login_env", OF toy_crypto_ok h ready_new bits example_proof_ok pd key unique expires refl,
        of 3] pd
    by (auto simp: example_lobby_conn_def example_proof_def session_new_def)
qed

end
