(* ===== verification/Request_Loops.thy ===== *)
theory Request_Loops
  imports Protocol
begin

text \<open>
  The loops in which handlers read lists of unknown length: while the next value has a type, or
  while a value can be read. The loops of the source have no bound; here they run on fuel
  that starts above the number of bits of the message, and running out of it counts as a
  panic. Each round consumes a bit at least, so they never run out: \<open>safe\<close> loops end.
\<close>

fun read_while :: "nat \<Rightarrow> bool rd \<Rightarrow> 'a rd \<Rightarrow> 'a list rd" where
  "read_while 0 cond body = throwE Panic"
| "read_while (Suc n) cond body = bindE cond (\<lambda>b.
     if b then bindE body (\<lambda>x. bindE (read_while n cond body) (\<lambda>xs. returnE (x # xs)))
     else returnE [])"

fun read_while_ok :: "nat \<Rightarrow> 'a rd \<Rightarrow> 'a list rd" where
  "read_while_ok 0 m = throwE Panic"
| "read_while_ok (Suc n) m = (\<lambda>r. case m r of
     (Inr x, r') \<Rightarrow> bindE (read_while_ok n m) (\<lambda>xs. returnE (x # xs)) r'
   | (Inl e, r') \<Rightarrow> if e = Panic then (Inl Panic, r') else (Inr [], r'))"

definition loop_fuel :: "reader \<Rightarrow> nat" where
  "loop_fuel r = 8 * length (r_buf r) + 10"

definition read_all :: "bool rd \<Rightarrow> 'a rd \<Rightarrow> 'a list rd" where
  "read_all cond body = (\<lambda>r. read_while (loop_fuel r) cond body r)"

definition read_all_ok :: "'a rd \<Rightarrow> 'a list rd" where
  "read_all_ok m = (\<lambda>r. read_while_ok (loop_fuel r) m r)"

section \<open>Reading consumes the message\<close>

definition consuming :: "nat \<Rightarrow> 'a rd \<Rightarrow> bool" where
  "consuming k m \<longleftrightarrow> (\<forall>r v r'. reader_inv r \<longrightarrow> m r = (Inr v, r')
     \<longrightarrow> length (rbits r') + k \<le> length (rbits r))"

named_theorems consuming_intros \<open>how many bits a read consumes at least\<close>

lemma consumingI:
  "(\<And>r v r'. reader_inv r \<Longrightarrow> m r = (Inr v, r') \<Longrightarrow> length (rbits r') + k \<le> length (rbits r))
    \<Longrightarrow> consuming k m"
  by (simp add: consuming_def)

lemma consumingD:
  "consuming k m \<Longrightarrow> reader_inv r \<Longrightarrow> m r = (Inr v, r') \<Longrightarrow> length (rbits r') + k \<le> length (rbits r)"
  by (simp add: consuming_def)

lemma consuming_weaken: "consuming k m \<Longrightarrow> j \<le> k \<Longrightarrow> consuming j m"
  by (auto simp: consuming_def) 

lemma consuming_bind:
  assumes "consuming j m" "safe m" "\<And>x. consuming k (f x)"
  shows "consuming (j + k) (bindE m f)"
proof (rule consumingI)
  fix r v r' assume r: "reader_inv r" and run: "bindE m f r = (Inr v, r')"
  obtain x r1 where 1: "m r = (Inr x, r1)" "f x r1 = (Inr v, r')" using run by (rule bindE_Inr_E)
  have "reader_inv r1" using safeD [OF assms(2) r] 1(1) by simp
  then show "length (rbits r') + (j + k) \<le> length (rbits r)"
    using consumingD [OF assms(1) r 1(1)] consumingD [OF assms(3) _ 1(2)] by simp
qed

lemma consuming_then: "consuming j m \<Longrightarrow> safe m \<Longrightarrow> consuming k n \<Longrightarrow> consuming (j + k) (thenE m n)"
  by (simp add: thenE_def consuming_bind)

lemma consuming_return [consuming_intros]: "consuming 0 (returnE x)"
  by (simp add: consuming_def monad_simps)

lemma consuming_throw [consuming_intros]: "consuming k (throwE e)"
  by (simp add: consuming_def monad_simps)

lemma consuming_ensure [consuming_intros]: "consuming 0 (ensureE b e)"
  by (simp add: consuming_def monad_simps)

lemma consuming_if [consuming_intros]:
  "consuming k m \<Longrightarrow> consuming k n \<Longrightarrow> consuming k (\<lambda>r. if b r then m r else n r)"
  by (auto simp: consuming_def)

lemma consuming_error [consuming_intros]: "consuming k (\<lambda>r. (Inl (e r), r))"
  by (simp add: consuming_def)

lemma consuming_value [consuming_intros]: "consuming 0 (\<lambda>r. (Inr (v r), r))"
  by (simp add: consuming_def)

lemma length_rbits_advance:
  assumes "reader_inv r" "n \<le> length (cursor_rest r)"
  shows "length (rbits (r\<lparr>r_pos := r_pos r + n\<rparr>)) + 8 * n = length (rbits r)"
  using assms by (auto simp: rbits_def pending_bits_def cursor_rest_def reader_inv_def)

lemma consuming_exact [consuming_intros]: "consuming (8 * n) (cursor_read_exact n)"
  using length_rbits_advance by (auto simp: consuming_def cursor_read_exact_def Let_def split: if_splits)

lemma consuming_read_bits [consuming_intros]:
  assumes "n \<le> length buf * 8"
  shows "consuming n (read_bits buf n)"
proof (rule consumingI)
  fix r v r' assume r: "reader_inv r" and run: "read_bits buf n r = (Inr v, r')"
  have mode: "r_mode r = BitMode" using run by (auto simp: read_bits_def monad_simps split: if_splits)
  have size: "(n + 7) div 8 \<le> length buf" using assms by linarith
  show "length (rbits r') + n \<le> length (rbits r)"
    using read_bits_loop_ok [OF r mode, of n 0 buf] read_bits_loop_eof [OF r mode, of n 0 buf] run assms mode size
    by (cases "n \<le> length (rbits r)") (auto simp: read_bits_def monad_simps takes_def)
qed

lemma consuming_cursor_u8 [consuming_intros]: "consuming 8 cursor_read_u8"
  unfolding cursor_read_u8_def
  using consuming_bind [OF consuming_exact [of 1] safe_read_exact consuming_return] by simp

lemma rbits_cached [simp]:
  "rbits (r\<lparr>r_has_data_type_cached := b\<rparr>) = rbits r"
  "rbits (r\<lparr>r_cached_data_type := t\<rparr>) = rbits r"
  by (simp_all add: rbits_def pending_bits_def cursor_rest_def)

lemma consuming_lift_data_type [consuming_intros]: "consuming 0 (lift_data_type x)"
  by (cases x) (simp_all add: lift_data_type_def consuming_intros)

lemma consuming_read_data_type [consuming_intros]: "consuming 0 read_data_type"
proof -
  have "consuming 0 (bindE cursor_read_u8 (\<lambda>v. lift_data_type (from_value v)))"
    using consuming_bind [OF consuming_cursor_u8 safe_cursor_u8 consuming_lift_data_type]
    by (rule consuming_weaken) simp
  moreover have "consuming 0 (bindE (read_bits [0] 5) (\<lambda>buf. lift_data_type (from_value (hd buf))))"
    by (rule consuming_weaken [OF consuming_bind [OF consuming_read_bits safe_read_bits
            consuming_lift_data_type], of 5 "[0]"]) simp_all
  ultimately show ?thesis by (auto simp: read_data_type_def consuming_def)
qed

lemma consuming_next_data_type [consuming_intros]: "consuming 0 next_data_type"
proof -
  have "consuming (0 + 0) (bindE read_data_type
      (\<lambda>t r. (Inr t, r\<lparr>r_cached_data_type := t, r_has_data_type_cached := True\<rparr>)))"
    by (rule consuming_bind [OF consuming_read_data_type safe_read_data_type]) (simp add: consuming_def)
  then show ?thesis by (auto simp: next_data_type_def consuming_def)
qed

lemma consuming_next_is [consuming_intros]: "consuming 0 (next_is t)"
  unfolding next_is_def
  using consuming_bind [OF consuming_next_data_type safe_next_data_type consuming_return] by simp

lemma consuming_expect_type [consuming_intros]: "consuming 0 (expect_type t)"
proof -
  have "consuming (0 + 0) (bindE read_data_type
      (\<lambda>actual. ensureE (eq_non_array actual t) (UnexpectedDataType (no_array t) actual)))"
    by (rule consuming_bind [OF consuming_read_data_type safe_read_data_type]) (rule consuming_ensure)
  then show ?thesis by (auto simp: expect_type_def consuming_def)
qed

lemma consuming_read_scalar [consuming_intros]: "consuming (8 * n) (read_scalar t n)"
proof -
  have "consuming (8 * n) (\<lambda>r. if r_mode r = ByteMode then cursor_read_exact n r
      else read_bits (replicate n 0) (n * 8) r)"
    using consuming_read_bits [of "n * 8" "replicate n 0"]
    by (intro consuming_if consuming_exact) (simp add: mult.commute)
  then show ?thesis unfolding read_scalar_def
    using consuming_then [OF consuming_expect_type safe_expect_type] by fastforce
qed

lemma consuming_word [consuming_intros]:
  "0 < n \<Longrightarrow> consuming 1 (bindE (read_scalar t n) (\<lambda>bs. returnE (f bs)))"
  by (rule consuming_weaken [OF consuming_bind [OF consuming_read_scalar safe_read_scalar consuming_return]]) simp

lemma consuming_scalars [consuming_intros]:
  "consuming 1 read_u32" "consuming 1 read_u64" "consuming 1 read_i32" "consuming 1 read_i64"
  unfolding read_u32_def read_u64_def read_i32_def read_i64_def by (intro consuming_intros; simp)+

lemma consuming_first:
  assumes "consuming 1 m" "safe m" "\<And>x. consuming 0 (f x)"
  shows "consuming 1 (bindE m f)"
  using consuming_bind [OF assms(1,2), of 0 f] assms(3) by simp

section \<open>The loops end\<close>

text \<open>A test that leaves no more to read than before when it lets the loop go on.\<close>

definition passes :: "bool rd \<Rightarrow> bool" where
  "passes cond \<longleftrightarrow> (\<forall>r r'. reader_inv r \<longrightarrow> cond r = (Inr True, r') \<longrightarrow> length (rbits r') \<le> length (rbits r))"

lemma passes_consuming [consuming_intros]: "consuming 0 cond \<Longrightarrow> passes cond"
  by (auto simp: passes_def dest: consumingD)

lemma passes_ok [consuming_intros]: "passes cond \<Longrightarrow> passes (okE cond False)"
  by (auto simp: passes_def okE_def split: prod.splits sum.splits)

lemma read_while_safe_at:
  assumes cond: "safe cond" "passes cond" and body: "safe body" "consuming 1 body"
    and r: "reader_inv r" "length (rbits r) < n"
  shows "fst (read_while n cond body r) \<noteq> Inl Panic \<and> reader_inv (snd (read_while n cond body r))"
  using r
proof (induction n arbitrary: r)
  case (Suc n)
  show ?case
  proof (cases rule: bindE_cases [of cond r "\<lambda>b. if b
      then bindE body (\<lambda>x. bindE (read_while n cond body) (\<lambda>xs. returnE (x # xs))) else returnE []"])
    case (err e r1)
    then show ?thesis using safeD [OF cond(1) Suc.prems(1)] by simp
  next
    case (ok b r1)
    have r1: "reader_inv r1" using safeD [OF cond(1) Suc.prems(1)] ok(1) by auto
    show ?thesis
    proof (cases b)
      case True
      then have len: "length (rbits r1) \<le> length (rbits r)"
        using cond(2) Suc.prems(1) ok(1) by (auto simp: passes_def)
      show ?thesis
      proof (cases rule: bindE_cases [of body r1 "\<lambda>x. bindE (read_while n cond body) (\<lambda>xs. returnE (x # xs))"])
        case (err e r2)
        then show ?thesis using safeD [OF body(1) r1] ok(2) True by simp
      next
        case inner: (ok x r2)
        have r2: "reader_inv r2" "length (rbits r2) < n"
          using safeD [OF body(1) r1] consumingD [OF body(2) r1 inner(1)] inner(1) len Suc.prems(2)
          by auto
        show ?thesis using Suc.IH [OF r2] ok(2) inner(2) True
          by (auto simp: bindE_def monad_simps split: prod.splits sum.splits)
      qed
    qed (use ok r1 in \<open>simp add: monad_simps\<close>)
  qed
qed simp

lemma read_while_ok_safe_at:
  assumes m: "safe m" "consuming 1 m" and r: "reader_inv r" "length (rbits r) < n"
  shows "fst (read_while_ok n m r) \<noteq> Inl Panic \<and> reader_inv (snd (read_while_ok n m r))"
  using r
proof (induction n arbitrary: r)
  case (Suc n)
  obtain x r1 where m1: "m r = (x, r1)" by fastforce
  show ?case
  proof (cases x)
    case (Inl e)
    then show ?thesis using safeD [OF m(1) Suc.prems(1)] m1 by simp
  next
    case (Inr v)
    have r1: "reader_inv r1" "length (rbits r1) < n"
      using safeD [OF m(1) Suc.prems(1)] consumingD [OF m(2) Suc.prems(1), of v r1] m1 Inr Suc.prems(2) by auto
    show ?thesis using Suc.IH [OF r1] m1 Inr
      by (auto simp: bindE_def monad_simps split: prod.splits sum.splits)
  qed
qed simp

lemma rbits_fuel: "reader_inv r \<Longrightarrow> length (rbits r) < loop_fuel r"
  by (auto simp: rbits_def pending_bits_def cursor_rest_def loop_fuel_def reader_inv_def)

lemma safe_read_all [safe_intros]:
  "\<lbrakk>safe cond; passes cond; safe body; consuming 1 body\<rbrakk> \<Longrightarrow> safe (read_all cond body)"
  using read_while_safe_at rbits_fuel unfolding read_all_def by (intro safeI) blast

lemma safe_read_all_ok [safe_intros]: "\<lbrakk>safe m; consuming 1 m\<rbrakk> \<Longrightarrow> safe (read_all_ok m)"
  using read_while_ok_safe_at rbits_fuel unfolding read_all_ok_def by (intro safeI) blast

section \<open>What the loops read\<close>

lemma readyD:
  assumes "ready md tc r"
  shows "reader_inv r" "\<not> r_has_data_type_cached r" "r_mode r = md" "r_type_checked r = tc"
  using assms by (simp_all add: ready_def)

text \<open>Looking at the tag of a value and then reading the value.\<close>

lemma peek_then_read:
  assumes r: "ready md True r" "rbits r = tag_bits md t @ bs @ rest" and t: "t \<noteq> MaxType"
    and n: "consumes md True bs n v md True"
  obtains r1 r2 where "next_is t r = (Inr True, r1)" "thenE (expect_type t) n r1 = (Inr v, r2)"
    "ready md True r2" "rbits r2 = rest"
proof -
  obtain ra where ra: "read_data_type r = (Inr (no_array t), ra)" "ready md True ra" "rbits ra = bs @ rest"
    using consumes_reads [OF reads_tag [OF t, of md True]] r unfolding consumes_def by metis
  define r1 where "r1 = ra\<lparr>r_cached_data_type := no_array t, r_has_data_type_cached := True\<rparr>"
  have peek: "next_is t r = (Inr True, r1)"
    using ra(1) readyD [OF r(1)]
    by (simp add: next_is_def next_data_type_def bindE_def monad_simps r1_def eq_non_array_def no_array_def)
  let ?r2 = "ra\<lparr>r_cached_data_type := no_array t\<rparr>"
  have same: "r1\<lparr>r_has_data_type_cached := False\<rparr> = ?r2"
    using readyD [OF ra(2)] by (cases ra) (simp add: r1_def)
  have "expect_type t r1 = (Inr (), ?r2)"
    using readyD [OF ra(2)] same
    by (simp add: expect_type_def read_data_type_def bindE_def monad_simps eq_non_array_def no_array_def r1_def)
  moreover have "ready md True ?r2" "rbits ?r2 = bs @ rest"
    using ra(2,3) by (simp_all add: ready_def)
  then obtain r2 where "n ?r2 = (Inr v, r2)" "ready md True r2" "rbits r2 = rest"
    using n unfolding consumes_def by blast
  ultimately show thesis using that peek by (simp add: thenE_def bindE_def)
qed

lemma consumes_raw_scalar:
  assumes "n = LENGTH('a) div 8" "8 dvd LENGTH('a)"
  shows "consumes md True (bytes_bits (to_le (v :: 'a::len word))) (bindE (\<lambda>r. if r_mode r = ByteMode
      then cursor_read_exact n r else read_bits (replicate n 0) (n * 8) r) (\<lambda>bs. returnE (from_le bs))) v md True"
proof (rule consumes_reads, rule reads_bind_return [where x = "to_le v"])
  have "length (to_le v) = n" using assms by simp
  then show "reads md True (bytes_bits (to_le v)) (\<lambda>r. if r_mode r = ByteMode then cursor_read_exact n r
      else read_bits (replicate n 0) (n * 8) r) (to_le v)"
    using reads_exact [of True "to_le v"] reads_bit_bytes [of True "to_le v"]
    by (cases md) (auto simp: reads_def)
qed (use assms in simp)

lemma peek_word:
  assumes r: "ready md True r" "rbits r = enc_scalar t md True (v :: 'a::len word) @ rest" and t: "t \<noteq> MaxType"
    and n: "n = LENGTH('a) div 8" "8 dvd LENGTH('a)"
  obtains r1 r2 where "next_is t r = (Inr True, r1)"
    "bindE (read_scalar t n) (\<lambda>bs. returnE (from_le bs)) r1 = (Inr v, r2)" "ready md True r2" "rbits r2 = rest"
proof -
  have assoc: "bindE (thenE (expect_type t) m) f = thenE (expect_type t) (bindE m f)" for m and f :: "bytes \<Rightarrow> 'a word rd"
    by (auto simp: thenE_def bindE_def fun_eq_iff split: prod.split sum.split)
  have "rbits r = tag_bits md t @ bytes_bits (to_le v) @ rest"
    using r(2) by (simp add: enc_scalar_def tagged_def)
  from peek_then_read [OF r(1) this t consumes_raw_scalar [OF n]] show thesis
    using that unfolding read_scalar_def assoc by blast
qed

lemma peek_u32:
  assumes "ready md True r" "rbits r = enc_scalar UnsignedInteger32Type md True (v :: u32) @ rest"
  obtains r1 r2 where "next_is UnsignedInteger32Type r = (Inr True, r1)" "read_u32 r1 = (Inr v, r2)"
    "ready md True r2" "rbits r2 = rest"
  using peek_word [OF assms, of 4] unfolding read_u32_def by auto

lemma peek_u64:
  assumes "ready md True r" "rbits r = enc_scalar UnsignedInteger64Type md True (v :: u64) @ rest"
  obtains r1 r2 where "next_is UnsignedInteger64Type r = (Inr True, r1)" "read_u64 r1 = (Inr v, r2)"
    "ready md True r2" "rbits r2 = rest"
  using peek_word [OF assms, of 8] unfolding read_u64_def by auto

lemma concat_longer: "\<forall>v. enc v \<noteq> [] \<Longrightarrow> length vs \<le> length (concat (map enc vs))"
proof (induction vs)
  case (Cons v vs)
  then have "0 < length (enc v)" by simp
  then have "1 \<le> length (enc v)" by linarith
  then have "Suc (length vs) \<le> length (enc v) + length (concat (map enc vs))"
    using Cons.IH [OF Cons.prems] by linarith
  then show ?case by simp
qed simp

lemma read_while_values:
  assumes step: "\<And>r v rest. ready md tc r \<Longrightarrow> rbits r = enc v @ rest
      \<Longrightarrow> \<exists>r1 r2. cond r = (Inr True, r1) \<and> body r1 = (Inr v, r2) \<and> ready md tc r2 \<and> rbits r2 = rest"
    and stop: "\<And>r. ready md tc r \<Longrightarrow> rbits r = tail \<Longrightarrow> \<exists>r1. cond r = (Inr False, r1)"
    and r: "ready md tc r" "rbits r = concat (map enc vs) @ tail" "length vs < n"
  shows "\<exists>r'. read_while n cond body r = (Inr vs, r')"
  using r
proof (induction vs arbitrary: r n)
  case Nil
  then obtain m where "n = Suc m" by (cases n) auto
  then show ?case using stop [of r] Nil by (auto simp: bindE_def monad_simps)
next
  case (Cons v vs)
  then obtain m where n: "n = Suc m" by (cases n) auto
  obtain r1 r2 where 1: "cond r = (Inr True, r1)" "body r1 = (Inr v, r2)" "ready md tc r2"
      "rbits r2 = concat (map enc vs) @ tail"
    using step [of r v "concat (map enc vs) @ tail"] Cons.prems by auto
  obtain r' where "read_while m cond body r2 = (Inr vs, r')"
    using Cons.IH [OF 1(3,4), of m] Cons.prems(3) n by auto
  then show ?case using 1(1,2) n by (simp add: bindE_def monad_simps)
qed

lemma read_all_values:
  assumes step: "\<And>r v rest. ready md tc r \<Longrightarrow> rbits r = enc v @ rest
      \<Longrightarrow> \<exists>r1 r2. cond r = (Inr True, r1) \<and> body r1 = (Inr v, r2) \<and> ready md tc r2 \<and> rbits r2 = rest"
    and stop: "\<And>r. ready md tc r \<Longrightarrow> rbits r = tail \<Longrightarrow> \<exists>r1. cond r = (Inr False, r1)"
    and r: "ready md tc r" "rbits r = concat (map enc vs) @ tail" and enc: "\<forall>v. enc v \<noteq> []"
  obtains r' where "read_all cond body r = (Inr vs, r')"
proof -
  have "length vs < loop_fuel r"
    using concat_longer [OF enc, of vs] rbits_fuel [OF readyD(1) [OF r(1)]] r(2) by simp
  then show thesis using read_while_values [of md tc enc cond body tail, OF step stop r] that
    unfolding read_all_def by blast
qed

lemma read_while_ok_values:
  assumes m: "\<And>v. reads md tc (enc v) m v"
    and stop: "\<And>r. ready md tc r \<Longrightarrow> rbits r = tail \<Longrightarrow> \<exists>e r1. m r = (Inl e, r1) \<and> e \<noteq> Panic"
    and r: "ready md tc r" "rbits r = concat (map enc vs) @ tail" "length vs < n"
  shows "\<exists>r'. read_while_ok n m r = (Inr vs, r')"
  using r
proof (induction vs arbitrary: r n)
  case Nil
  then obtain k where "n = Suc k" by (cases n) auto
  then show ?case using stop [of r] Nil by auto
next
  case (Cons v vs)
  then obtain k where n: "n = Suc k" by (cases n) auto
  have "rbits r = enc v @ (concat (map enc vs) @ tail)" using Cons.prems(2) by simp
  then obtain r2 where 1: "m r = (Inr v, r2)" "ready md tc r2" "rbits r2 = concat (map enc vs) @ tail"
    using consumes_reads [OF m, of v] Cons.prems(1) unfolding consumes_def by metis
  obtain r' where "read_while_ok k m r2 = (Inr vs, r')"
    using Cons.IH [OF 1(2,3), of k] Cons.prems(3) n by auto
  then show ?case using 1(1) n by (simp add: bindE_def monad_simps)
qed

lemma read_all_ok_values:
  assumes m: "\<And>v. reads md tc (enc v) m v"
    and stop: "\<And>r. ready md tc r \<Longrightarrow> rbits r = tail \<Longrightarrow> \<exists>e r1. m r = (Inl e, r1) \<and> e \<noteq> Panic"
    and r: "ready md tc r" "rbits r = concat (map enc vs) @ tail" and enc: "\<forall>v. enc v \<noteq> []"
  obtains r' where "read_all_ok m r = (Inr vs, r')"
proof -
  have "length vs < loop_fuel r"
    using concat_longer [OF enc, of vs] rbits_fuel [OF readyD(1) [OF r(1)]] r(2) by simp
  then show thesis using read_while_ok_values [of md tc enc m tail, OF m stop r] that
    unfolding read_all_ok_def by blast
qed

text \<open>The padding at the end of a bit stream is no tag of a value.\<close>

lemma read_data_type_padding:
  assumes r: "ready BitMode True r" "rbits r = replicate pad False"
  shows "\<exists>x r'. read_data_type r = (x, r') \<and> x \<in> {Inl IoUnexpectedEof, Inr (no_array NoType)}"
proof (cases "5 \<le> pad")
  case True
  then obtain k where "pad = 5 + k" using le_Suc_ex by blast
  then have "rbits r = tag_bits BitMode NoType @ replicate k False"
    using r(2) by (simp add: tag_bits_def bits_of_def upt_rec numeral_eq_Suc)
  then obtain r' where "read_data_type r = (Inr (no_array NoType), r')"
    using consumes_reads [OF reads_tag [of NoType BitMode True]] r(1) unfolding consumes_def
    by (metis BdDataType.distinct)
  then show ?thesis by blast
next
  case False
  then obtain r' where "read_bits [0] 5 r = (Inl IoUnexpectedEof, r')"
    using read_bits_eof [of r 5 1] readyD [OF r(1)] r(2) by auto
  then show ?thesis using readyD [OF r(1)] by (simp add: read_data_type_def bindE_def)
qed

lemma next_is_padding:
  assumes "ready BitMode True r" "rbits r = replicate pad False" "t \<noteq> NoType"
  shows "\<exists>r'. okE (next_is t) False r = (Inr False, r')"
  using read_data_type_padding [OF assms(1,2)] readyD [OF assms(1)] assms(3)
  by (auto simp: okE_def next_is_def next_data_type_def bindE_def monad_simps eq_non_array_def no_array_def)

end
