(* ===== verification/Messaging_Handler.thy ===== *)
theory Messaging_Handler
  imports Lobby Request_Loops
begin

text \<open>
  The messaging service (libbitdemon/src/lobby/messaging/handler.rs): a logged-in user sends
  a payload to one recipient or to a list of them, and the router delivers it to each that is
  online.
\<close>

datatype MessagingTaskId = SendMessage

definition messaging_task_from_u8 :: "u8 \<Rightarrow> MessagingTaskId option" where
  "messaging_task_from_u8 v = (if v = 8 then Some SendMessage else None)"

definition RECIPIENT_BITS :: nat where
  "RECIPIENT_BITS = 5 + 64"

definition another_recipient :: "bool rd" where
  "another_recipient = bindE remaining_bits (\<lambda>n.
     if RECIPIENT_BITS \<le> n then next_is UnsignedInteger64Type else returnE False)"

definition read_recipients :: "bool \<Rightarrow> u64 list rd" where
  "read_recipients single =
    (if single then bindE read_u64 (\<lambda>u. returnE [u]) else read_all another_recipient read_u64)"

definition send_message_request :: "(bytes \<times> u64 list) rd" where
  "send_message_request =
    bindE read_blob (\<lambda>payload.
    bindE read_u32 (\<lambda>unrecovered.
    bindE read_bool (\<lambda>single.
    bindE (read_recipients single) (\<lambda>recipients. returnE (payload, recipients)))))"

text \<open>The recipients in turn; the seed of the frame for each is the next one.\<close>

fun deliver_all ::
  "crypto \<Rightarrow> (nat \<Rightarrow> u32) \<Rightarrow> (u64 \<Rightarrow> bool) \<Rightarrow> u64 list \<Rightarrow> u64 \<Rightarrow> bytes \<Rightarrow> u32 \<Rightarrow> bytes
    \<Rightarrow> MessageRouter \<Rightarrow> MessageRouter" where
  "deliver_all c seeds writable [] sender name timestamp payload m = m"
| "deliver_all c seeds writable (u # us) sender name timestamp payload m =
    deliver_all c (\<lambda>i. seeds (Suc i)) writable us sender name timestamp payload
      (snd (deliver c (seeds 0) writable u sender name timestamp payload m))"

definition unix_seconds :: "env \<Rightarrow> u32" where
  "unix_seconds env = (if e_now env < 0 then 0 else word_of_int (e_now env))"

definition send_message ::
  "crypto \<Rightarrow> env \<Rightarrow> (u64 \<Rightarrow> bool) \<Rightarrow> reader \<Rightarrow> ('a lsg_world_scheme, BdResponse) act" where
  "send_message c env writable r =
    bindE (run_rd send_message_request r) (\<lambda>((payload, recipients), _). (\<lambda>conn.
    case s_authentication (c_session conn) of
      None \<Rightarrow> (Inl Panic, conn)
    | Some auth \<Rightarrow>
        reply_only NoError 8
          (conn\<lparr>c_world := (c_world conn)\<lparr>w_router :=
            deliver_all c (\<lambda>i. e_seeds env (Suc i)) writable recipients (a_user_id auth)
              (a_username auth) (unix_seconds env) payload (w_router (c_world conn))\<rparr>\<rparr>)))"

definition messaging_handle ::
  "crypto \<Rightarrow> env \<Rightarrow> (u64 \<Rightarrow> bool) \<Rightarrow> reader \<Rightarrow> ('a lsg_world_scheme, BdResponse) act" where
  "messaging_handle c env writable r =
    bindE (run_rd read_u8 r) (\<lambda>(task_id_value, r1).
    bindE (run_rd read_u8 r1) (\<lambda>(unrecovered, r2).
    case messaging_task_from_u8 task_id_value of
      None \<Rightarrow> reply_only ServiceNotAvailable task_id_value
    | Some SendMessage \<Rightarrow> send_message c env writable r2))"

section \<open>What the router has delivered\<close>

text \<open>The frame for the \<open>i\<close>-th recipient, when it is online and its socket takes it.\<close>

definition delivery ::
  "crypto \<Rightarrow> (nat \<Rightarrow> u32) \<Rightarrow> (u64 \<Rightarrow> bool) \<Rightarrow> u64 \<Rightarrow> bytes \<Rightarrow> u32 \<Rightarrow> bytes \<Rightarrow> MessageRouter
    \<Rightarrow> nat \<Rightarrow> u64 \<Rightarrow> (u64 \<times> bytes) list" where
  "delivery c seeds writable sender name timestamp payload m i u =
    (case mr_recipients m u of
       None \<Rightarrow> []
     | Some r \<Rightarrow>
         (case push_to_response \<lparr>pm_recipient = u, pm_id = mr_next_id m + of_nat i,
              pm_timestamp = timestamp, pm_sender = sender, pm_sender_name = name, pm_payload = payload\<rparr> of
            Inl _ \<Rightarrow> []
          | Inr resp \<Rightarrow> if writable (rc_session r)
              then [(rc_session r, fst (frame c (seeds i) (Some (rc_key r)) resp))] else []))"

definition deliveries ::
  "crypto \<Rightarrow> (nat \<Rightarrow> u32) \<Rightarrow> (u64 \<Rightarrow> bool) \<Rightarrow> u64 \<Rightarrow> bytes \<Rightarrow> u32 \<Rightarrow> bytes \<Rightarrow> MessageRouter
    \<Rightarrow> u64 list \<Rightarrow> (u64 \<times> bytes) list" where
  "deliveries c seeds writable sender name timestamp payload m us =
    concat (map (\<lambda>i. delivery c seeds writable sender name timestamp payload m i (us ! i)) [0..<length us])"

lemma deliver_delivery:
  "snd (deliver c (seeds 0) writable u sender name ts payload m) = m\<lparr>mr_next_id := mr_next_id m + 1,
    mr_delivered := mr_delivered m @ delivery c seeds writable sender name ts payload m 0 u\<rparr>"
  by (auto simp: deliver_def delivery_def Let_def split: option.split sum.split)

lemma delivery_shift:
  "delivery c (\<lambda>i. seeds (Suc i)) writable sender name ts payload
      (m\<lparr>mr_next_id := mr_next_id m + 1, mr_delivered := ds\<rparr>) i u
    = delivery c seeds writable sender name ts payload m (Suc i) u"
  by (cases "mr_recipients m u") (simp_all add: delivery_def add.assoc)

lemma deliver_all_spec:
  "deliver_all c seeds writable us sender name ts payload m = m\<lparr>mr_next_id := mr_next_id m + of_nat (length us),
    mr_delivered := mr_delivered m @ deliveries c seeds writable sender name ts payload m us\<rparr>"
proof (induction us arbitrary: seeds m)
  case (Cons u us)
  have "[0..<length (u # us)] = 0 # map Suc [0..<length us]"
    by (simp del: upt_Suc add: map_Suc_upt upt_conv_Cons)
  then have "deliveries c seeds writable sender name ts payload m (u # us)
    = delivery c seeds writable sender name ts payload m 0 u
      @ concat (map (\<lambda>i. delivery c seeds writable sender name ts payload m (Suc i) (us ! i)) [0..<length us])"
    unfolding deliveries_def by (simp add: o_def)
  then show ?case
    by (simp add: Cons.IH deliver_delivery [of c seeds writable u sender name ts payload m]
        deliveries_def delivery_shift add.assoc del: upt_Suc)
qed (simp add: deliveries_def)

section \<open>The request\<close>

lemma remaining_bits_rbits:
  assumes "ready BitMode tc r"
  shows "remaining_bits r = (Inr (length (rbits r)), r)"
  using readyD [OF assms]
  by (auto simp: remaining_bits_def rbits_def pending_bits_def cursor_rest_def reader_inv_def)

definition message_bits :: "bytes \<Rightarrow> u32 \<Rightarrow> u64 list \<Rightarrow> bool list" where
  "message_bits payload x us = enc_blob BitMode True payload
    @ enc_scalar UnsignedInteger32Type BitMode True x @ enc_bool BitMode True False
    @ concat (map (enc_scalar UnsignedInteger64Type BitMode True) us)"

lemma length_enc_u64 [simp]: "length (enc_scalar UnsignedInteger64Type BitMode True (u :: u64)) = 69"
  by (simp add: enc_scalar_def tagged_def tag_bits_def)

lemma read_recipients_list:
  assumes "ready BitMode True r"
    "rbits r = concat (map (enc_scalar UnsignedInteger64Type BitMode True) us) @ replicate pad False" "pad < 8"
  obtains r' where "read_recipients False r = (Inr us, r')"
proof -
  have step: "\<exists>r1 r2. another_recipient r = (Inr True, r1) \<and> read_u64 r1 = (Inr v, r2)
      \<and> ready BitMode True r2 \<and> rbits r2 = rest"
    if r: "ready BitMode True r" "rbits r = enc_scalar UnsignedInteger64Type BitMode True v @ rest" for r v rest
  proof -
    obtain r1 r2 where "next_is UnsignedInteger64Type r = (Inr True, r1)" "read_u64 r1 = (Inr v, r2)"
        "ready BitMode True r2" "rbits r2 = rest" using peek_u64 [OF r] .
    moreover have "69 \<le> length (rbits r)" unfolding r(2) by simp
    then have "another_recipient r = next_is UnsignedInteger64Type r"
      by (simp add: another_recipient_def bindE_def remaining_bits_rbits [OF r(1)] RECIPIENT_BITS_def)
    ultimately show ?thesis by metis
  qed
  have stop: "\<exists>r1. another_recipient r = (Inr False, r1)"
    if "ready BitMode True r" "rbits r = replicate pad False" for r
  proof -
    have "length (rbits r) < 69" unfolding that(2) using assms(3) by simp
    then show ?thesis
      by (simp add: another_recipient_def bindE_def remaining_bits_rbits [OF that(1)] RECIPIENT_BITS_def monad_simps)
  qed
  have enc: "\<forall>v :: u64. enc_scalar UnsignedInteger64Type BitMode True v \<noteq> []"
    by (metis length_enc_u64 list.size(3) zero_neq_numeral)
  obtain r' where "read_all another_recipient read_u64 r = (Inr us, r')"
    by (rule read_all_values [OF step stop assms(1,2) enc])
  then show thesis using that by (simp add: read_recipients_def)
qed

lemma send_message_request_reads:
  assumes r: "ready BitMode True r" "rbits r = message_bits payload x us @ replicate pad False" "pad < 8"
    and payload: "length payload < 2 ^ 32"
  obtains r' where "send_message_request r = (Inr (payload, us), r')"
proof -
  have blob: "consumes BitMode True (enc_blob BitMode True payload) read_blob payload BitMode True"
    using payload by (intro consumes_reads reads_blob_val) (simp add: blob_ok_def)
  note parts = r(2) [unfolded message_bits_def append.assoc]
  obtain r1 where 1: "read_blob r = (Inr payload, r1)" "ready BitMode True r1"
      "rbits r1 = enc_scalar UnsignedInteger32Type BitMode True x @ enc_bool BitMode True False
        @ concat (map (enc_scalar UnsignedInteger64Type BitMode True) us) @ replicate pad False"
    using blob r(1) parts unfolding consumes_def by blast
  obtain r2 where 2: "read_u32 r1 = (Inr x, r2)" "ready BitMode True r2" "rbits r2 = enc_bool BitMode True False
        @ concat (map (enc_scalar UnsignedInteger64Type BitMode True) us) @ replicate pad False"
    using consumes_value(2) [of BitMode True x] 1 unfolding consumes_def by blast
  obtain r3 where 3: "read_bool r2 = (Inr False, r3)" "ready BitMode True r3"
      "rbits r3 = concat (map (enc_scalar UnsignedInteger64Type BitMode True) us) @ replicate pad False"
    using consumes_value(4) [of BitMode True False] 2 unfolding consumes_def by blast
  obtain r4 where "read_recipients False r3 = (Inr us, r4)" using read_recipients_list [OF 3(2,3) r(3)] .
  then show thesis using that 1 2 3 by (simp add: send_message_request_def bindE_def monad_simps)
qed

lemma safe_send_message_request [safe_intros]: "safe send_message_request"
proof -
  have cond: "safe another_recipient" "consuming 0 another_recipient"
  proof -
    show "safe another_recipient" unfolding another_recipient_def by (intro safe_intros)
    have rem: "consuming 0 remaining_bits"
      unfolding remaining_bits_def by (intro consuming_intros)
    have "consuming 0 (if b then next_is UnsignedInteger64Type else returnE False)" for b
      by (cases b) (simp_all add: consuming_intros)
    then show "consuming 0 another_recipient" unfolding another_recipient_def
      using consuming_bind [OF rem safe_remaining(2)] by force
  qed
  have "safe (read_all another_recipient read_u64)"
    by (intro safe_intros cond consuming_intros)
  then have "safe (read_recipients single)" for single
    by (cases single) (auto simp: read_recipients_def intro: safe_intros)
  then show ?thesis unfolding send_message_request_def by (intro safe_intros)
qed

section \<open>Properties\<close>

text \<open>
  C19. A message goes to each recipient of the list that is online, in order, and to nobody
  else. When a logged-in user sends a payload to a list of users, of any length, the router
  gets exactly one frame for each recipient that is registered and whose socket takes it,
  numbers the messages consecutively, and keeps its recipients; the sender gets the code
  for success; and with its own key each recipient reads from its frame the sender's id
  and name and the payload.
\<close>

theorem messages_fan_out:
  assumes c: "crypto_ok c" and auth: "s_authentication (c_session conn) = Some a"
    and r: "ready BitMode True r" "rbits r = enc_scalar UnsignedChar8Type BitMode True (8 :: u8)
      @ enc_scalar UnsignedChar8Type BitMode True (0 :: u8) @ message_bits payload x us @ replicate pad False"
    and pad: "pad < 8" and tid: "c_transaction conn < 2 ^ 64 - 1"
    and msg: "utf8_valid (a_username a)" "0 \<notin> set (a_username a)" "length payload < 2 ^ 32 - 1024"
      "length (a_username a) < 512"
    and m: "m = w_router (c_world conn)" and seeds: "seeds = (\<lambda>i. e_seeds env (Suc i))"
  shows "\<exists>data. messaging_handle c env writable r conn = (Inr (encrypted_if_available data),
      conn\<lparr>c_transaction := c_transaction conn + 1,
        c_world := (c_world conn)\<lparr>w_router := m\<lparr>mr_next_id := mr_next_id m + of_nat (length us),
          mr_delivered := mr_delivered m @ deliveries c seeds writable (a_user_id a) (a_username a)
            (unix_seconds env) payload m us\<rparr>\<rparr>\<rparr>)
    \<and> fst (client_read_code (reader_new data)) = Inr (1, c_transaction conn, 0, 8)
    \<and> (\<forall>i rc. mr_recipients m (us ! i) = Some rc \<and> writable (rc_session rc) \<longrightarrow> (\<exists>fr data'.
        delivery c seeds writable (a_user_id a) (a_username a) (unix_seconds env) payload m i (us ! i)
          = [(rc_session rc, fr)]
        \<and> client_receive c (rc_key rc) fr = Some (data', [])
        \<and> fst (client_read_push (reader_new data')) = Inr (2, 40, us ! i, mr_next_id m + of_nat i,
            unix_seconds env, False, a_user_id a, a_username a, payload)))"
proof -
  obtain r1 where 1: "run_rd read_u8 r conn = (Inr (8, r1), conn)" "ready BitMode True r1"
      "rbits r1 = enc_scalar UnsignedChar8Type BitMode True (0 :: u8) @ message_bits payload x us @ replicate pad False"
    using run_rd_consumes [OF consumes_value(1) r] .
  obtain r2 where 2: "run_rd read_u8 r1 conn = (Inr (0, r2), conn)" "ready BitMode True r2"
      "rbits r2 = message_bits payload x us @ replicate pad False"
    using run_rd_consumes [OF consumes_value(1) 1(2,3)] .
  have "length payload < 2 ^ 32" using msg(3) by simp
  then obtain r3 where 3: "send_message_request r2 = (Inr (payload, us), r3)"
    using send_message_request_reads [OF 2(2,3) pad] by blast
  then have 3: "run_rd send_message_request r2 conn = (Inr ((payload, us), r3), conn)"
    by (simp add: run_rd_def)
  let ?w = "(c_world conn)\<lparr>w_router := deliver_all c seeds writable us (a_user_id a) (a_username a)
    (unix_seconds env) payload m\<rparr>"
  have handle: "messaging_handle c env writable r conn = reply_only NoError 8 (conn\<lparr>c_world := ?w\<rparr>)"
    using 1(1) 2(1) 3 auth
    by (simp add: messaging_handle_def bindE_def [of "run_rd m r" for m r] messaging_task_from_u8_def
        send_message_def m seeds)
  obtain data where data: "reply_only NoError 8 (conn\<lparr>c_world := ?w\<rparr>) = (Inr (encrypted_if_available data),
      conn\<lparr>c_world := ?w, c_transaction := c_transaction conn + 1\<rparr>)"
    "\<forall>extra. fst (client_read_code (reader_new (data @ extra))) = Inr (1, c_transaction conn, 0, 8)"
    using reply_only_ok [of "conn\<lparr>c_world := ?w\<rparr>" NoError 8] tid by auto
  have "\<exists>fr data'. delivery c seeds writable (a_user_id a) (a_username a) (unix_seconds env) payload m i (us ! i)
      = [(rc_session rc, fr)] \<and> client_receive c (rc_key rc) fr = Some (data', [])
    \<and> fst (client_read_push (reader_new data')) = Inr (2, 40, us ! i, mr_next_id m + of_nat i,
        unix_seconds env, False, a_user_id a, a_username a, payload)"
    if rc: "mr_recipients m (us ! i) = Some rc" "writable (rc_session rc)" for i rc
  proof -
    let ?pm = "\<lparr>pm_recipient = us ! i, pm_id = mr_next_id m + of_nat i, pm_timestamp = unix_seconds env,
      pm_sender = a_user_id a, pm_sender_name = a_username a, pm_payload = payload\<rparr>"
    obtain pd where pd: "push_to_response ?pm = Inr (encrypted_if_available pd)"
      using push_readable [of ?pm] msg by auto
    have "length (resp_data (encrypted_if_available pd)) + 16 < 2 ^ 32"
      using push_length [OF pd] msg(3,4) by simp
    then show ?thesis
      using client_reads_pushed [OF c, of ?pm _ "rc_key rc" "seeds i" "[]", OF _ _ _ pd] msg rc pd
      by (fastforce simp: delivery_def)
  qed
  then show ?thesis
    using handle data by (intro exI [of _ data]) (auto simp: deliver_all_spec dest: spec [of _ "[]"])
qed

definition example_chat_conn :: "lsg_world conn" where
  "example_chat_conn = \<lparr>c_session = first_login, c_sent = [], c_transaction = 0,
     c_world = \<lparr>w_keys = key_store_new, w_router = router_register first_login router_new\<rparr>\<rparr>"

definition example_chat_bits :: "bool list" where
  "example_chat_bits = enc_scalar UnsignedChar8Type BitMode True (8 :: u8)
    @ enc_scalar UnsignedChar8Type BitMode True (0 :: u8) @ message_bits [1, 2] 0 [7, 9] @ replicate 7 False"

definition example_chat_reader :: reader where
  "example_chat_reader = reader_in BitMode True (pack example_chat_bits)"

lemma example_chat_ready: "ready BitMode True example_chat_reader" "rbits example_chat_reader = example_chat_bits"
proof -
  have "length example_chat_bits = 13 + 13 + (5 + (5 + 32) + 16) + 37 + 6 + 138 + 7"
    by (simp add: example_chat_bits_def message_bits_def enc_blob_def enc_bool_def enc_scalar_def tagged_def
        tag_bits_def)
  then show "ready BitMode True example_chat_reader" "rbits example_chat_reader = example_chat_bits"
    by (simp_all add: example_chat_reader_def ready_def reader_in_def reader_new_def reader_inv_def
        bytes_bits_pack rbits_def pending_bits_def cursor_rest_def)
qed

theorem messages_fan_out_witness:
  "\<exists>data fr data'. messaging_handle toy_crypto example_env (\<lambda>_. True) example_chat_reader example_chat_conn
      = (Inr (encrypted_if_available data), example_chat_conn\<lparr>c_transaction := 1,
          c_world := (c_world example_chat_conn)\<lparr>w_router := (router_register first_login router_new)
            \<lparr>mr_next_id := 3, mr_delivered := deliveries toy_crypto (\<lambda>i. 7) (\<lambda>_. True) 7 [0x61]
              (unix_seconds example_env) [1, 2] (router_register first_login router_new) [7, 9]\<rparr>\<rparr>\<rparr>)
    \<and> fst (client_read_code (reader_new data)) = Inr (1, 0, 0, 8)
    \<and> delivery toy_crypto (\<lambda>i. 7) (\<lambda>_. True) 7 [0x61] (unix_seconds example_env) [1, 2]
        (router_register first_login router_new) 0 7 = [(4, fr)]
    \<and> client_receive toy_crypto (replicate 24 1) fr = Some (data', [])
    \<and> fst (client_read_push (reader_new data'))
        = Inr (2, 40, 7, 1, unix_seconds example_env, False, 7, [0x61], [1, 2])"
proof -
  let ?a = "\<lparr>a_user_id = 7, a_username = [0x61], a_session_key = replicate 24 1, a_title = Iw4\<rparr>"
  let ?m = "router_register first_login router_new"
  have a: "s_authentication (c_session example_chat_conn) = Some ?a"
    by (simp add: example_chat_conn_def first_login_def)
  have name: "utf8_valid (a_username ?a)" "0 \<notin> set (a_username ?a)"
    by (simp_all add: utf8_valid.simps utf8_char_len_def word_less_nat_alt)
  have bits: "rbits example_chat_reader = enc_scalar UnsignedChar8Type BitMode True (8 :: u8)
      @ enc_scalar UnsignedChar8Type BitMode True (0 :: u8) @ message_bits [1, 2] 0 [7, 9] @ replicate 7 False"
    using example_chat_ready(2) by (simp add: example_chat_bits_def)
  have m: "?m = w_router (c_world example_chat_conn)" and tid: "c_transaction example_chat_conn < 2 ^ 64 - 1"
    by (simp_all add: example_chat_conn_def)
  have known: "mr_recipients ?m 7 = Some \<lparr>rc_session = 4, rc_key = replicate 24 1\<rparr>" "mr_next_id ?m = 1"
    "mr_delivered ?m = []" "(\<lambda>i. e_seeds example_env (Suc i)) = (\<lambda>i. 7)" "c_transaction example_chat_conn = 0"
    by (simp_all add: router_register_def first_login_def router_new_def example_env_def example_chat_conn_def)
  obtain data where d: "messaging_handle toy_crypto example_env (\<lambda>_. True) example_chat_reader example_chat_conn
      = (Inr (encrypted_if_available data), example_chat_conn\<lparr>c_transaction := 1,
          c_world := (c_world example_chat_conn)\<lparr>w_router := ?m
            \<lparr>mr_next_id := 3, mr_delivered := deliveries toy_crypto (\<lambda>i. 7) (\<lambda>_. True) 7 [0x61]
              (unix_seconds example_env) [1, 2] ?m [7, 9]\<rparr>\<rparr>\<rparr>)"
    "fst (client_read_code (reader_new data)) = Inr (1, 0, 0, 8)"
    and each: "\<forall>i rc. mr_recipients ?m ([7, 9] ! i) = Some rc \<and> True \<longrightarrow> (\<exists>fr data'.
        delivery toy_crypto (\<lambda>i. 7) (\<lambda>_. True) 7 [0x61] (unix_seconds example_env) [1, 2] ?m i ([7, 9] ! i)
          = [(rc_session rc, fr)]
        \<and> client_receive toy_crypto (rc_key rc) fr = Some (data', [])
        \<and> fst (client_read_push (reader_new data')) = Inr (2, 40, [7, 9] ! i, 1 + of_nat i,
            unix_seconds example_env, False, 7, [0x61], [1, 2]))"
    using messages_fan_out [where writable = "\<lambda>_. True" and env = example_env,
        OF toy_crypto_ok a example_chat_ready(1) bits _ tid name _ _ m refl]
    unfolding known by auto
  show ?thesis
    using d each [rule_format, of 0 "\<lparr>rc_session = 4, rc_key = replicate 24 1\<rparr>"] known(1) by auto
qed

end
