(* ===== verification/Session_Registry.thy ===== *)
theory Session_Registry
  imports Errors "HOL-Library.Option_ord"
begin

text \<open>
  The registry of game sessions (libbitdemon/src/lobby/matchmaking/session.rs): each
  connection advertises at most one session, under an id and a secret that the registry draws
  itself; clients search the sessions of others. The registry is behind a mutex, and an
  operation that panics while it holds the mutex poisons it: every later one panics when
  it takes the lock. A hash map is iterated in an order that is an argument.
\<close>

definition ADDRESS_LEN :: nat where "ADDRESS_LEN = 37"
definition HOST_LEN :: nat where "HOST_LEN = 8"
definition KEY_LEN :: nat where "KEY_LEN = 16"
definition ID_LEN :: nat where "ID_LEN = HOST_LEN"
definition SECRET_LEN :: nat where "SECRET_LEN = KEY_LEN"

record MatchMakingInfo =
  mi_address :: bytes
  mi_host :: bytes
  mi_key :: bytes
  mi_free_public_slots :: i32
  mi_used_public_slots :: i32
  mi_free_private_slots :: i32
  mi_used_private_slots :: i32
  mi_title_data :: "i32 list"

record SessionQuery =
  sq_kind :: i32
  sq_limit :: i32
  sq_filters :: "i32 list"
  sq_extra :: "i32 option"

definition ANY :: i32 where
  "ANY = 0x7FFFFFFF"

definition max0 :: "i32 \<Rightarrow> i32" where
  "max0 x = (if sint x < 0 then 0 else x)"

definition playlist :: "MatchMakingInfo \<Rightarrow> u32" where
  "playlist info = mi_title_data info ! 1"

definition players :: "MatchMakingInfo \<Rightarrow> bd_error + nat" where
  "players info =
    (case checked_sadd (max0 (mi_used_public_slots info)) (max0 (mi_used_private_slots info)) of
       Inl e \<Rightarrow> Inl e | Inr n \<Rightarrow> Inr (nat (sint n)))"

definition free_slots :: "MatchMakingInfo \<Rightarrow> bd_error + i32" where
  "free_slots info =
    checked_sadd (max0 (mi_free_public_slots info)) (max0 (mi_free_private_slots info))"

definition wants :: "i32 \<Rightarrow> i32 \<Rightarrow> bool" where
  "wants flt v \<longleftrightarrow> flt = ANY \<or> flt = v"

text \<open>The slots are added up only when the other filters match and there is one for them.\<close>

definition matches :: "MatchMakingInfo \<Rightarrow> SessionQuery \<Rightarrow> bd_error + bool" where
  "matches info query =
    (if wants (sq_filters query ! 1) (mi_title_data info ! 1)
        \<and> wants (sq_filters query ! 2) (mi_title_data info ! 4)
        \<and> wants (sq_filters query ! 4) (mi_title_data info ! 2)
     then if sq_filters query ! 5 = ANY then Inr True
          else (case free_slots info of
                  Inl e \<Rightarrow> Inl e
                | Inr n \<Rightarrow> Inr (sint (sq_filters query ! 5) \<le> sint n))
     else Inr False)"

definition max_results :: "SessionQuery \<Rightarrow> nat" where
  "max_results query = (if 0 < sint (sq_limit query) then nat (sint (sq_limit query)) else 2 ^ 64 - 1)"

record Population =
  pp_players :: nat
  pp_playlists :: "u32 \<rightharpoonup> nat"

section \<open>The state\<close>

record RegistryState =
  rg_sessions :: "u64 \<rightharpoonup> MatchMakingInfo"
  rg_by_host :: "bytes \<rightharpoonup> u64"
  rg_poisoned :: bool

definition registry_new :: RegistryState where
  "registry_new = \<lparr>rg_sessions = Map.empty, rg_by_host = Map.empty, rg_poisoned = False\<rparr>"

type_synonym 'a registry = "(RegistryState, bd_error, 'a) sm"

definition locked :: "'a registry \<Rightarrow> 'a registry" where
  "locked m = (\<lambda>s. if rg_poisoned s then (Inl Panic, s)
     else case m s of
       (Inl e, s') \<Rightarrow> (Inl e, if e = Panic then s'\<lparr>rg_poisoned := True\<rparr> else s')
     | (Inr x, s') \<Rightarrow> (Inr x, s'))"

definition forget :: "u64 \<Rightarrow> (MatchMakingInfo option) registry" where
  "forget connection = (\<lambda>s.
    case rg_sessions s connection of
      None \<Rightarrow> (Inr None, s)
    | Some info \<Rightarrow>
        (Inr (Some info),
         s\<lparr>rg_sessions := (rg_sessions s)(connection := None),
           rg_by_host := (if length (mi_host info) = ID_LEN \<and> rg_by_host s (mi_host info) = Some connection
                          then (rg_by_host s)(mi_host info := None) else rg_by_host s)\<rparr>))"

definition remember :: "u64 \<Rightarrow> MatchMakingInfo \<Rightarrow> unit registry" where
  "remember connection info = modifyE (\<lambda>s.
    s\<lparr>rg_by_host := (if length (mi_host info) = ID_LEN then (rg_by_host s)(mi_host info \<mapsto> connection)
                     else rg_by_host s),
      rg_sessions := (rg_sessions s)(connection \<mapsto> info)\<rparr>)"

text \<open>The loop that draws ids until one is free: \<open>ids i\<close> is the \<open>i\<close>-th draw.\<close>

partial_function (option) mint_loop :: "(nat \<Rightarrow> bytes) \<Rightarrow> RegistryState \<Rightarrow> nat \<Rightarrow> bytes option" where
  "mint_loop ids s i = (if rg_by_host s (ids i) = None then Some (ids i) else mint_loop ids s (Suc i))"

definition mint :: "(nat \<Rightarrow> bytes) \<Rightarrow> bytes \<Rightarrow> (bytes \<times> bytes) registry" where
  "mint ids secret = (\<lambda>s. case mint_loop ids s 0 of
     None \<Rightarrow> (Inl Diverges, s) | Some host \<Rightarrow> (Inr (host, secret), s))"

section \<open>Operations\<close>

definition registry_create ::
  "(nat \<Rightarrow> bytes) \<Rightarrow> bytes \<Rightarrow> u64 \<Rightarrow> MatchMakingInfo \<Rightarrow> (bytes \<times> bytes) registry" where
  "registry_create ids rnd_secret connection info = locked (
    bindE (forget connection) (\<lambda>_.
    bindE (mint ids rnd_secret) (\<lambda>(host, secret).
    thenE (remember connection (info\<lparr>mi_host := host, mi_key := secret\<rparr>)) (returnE (host, secret)))))"

definition registry_update ::
  "(nat \<Rightarrow> bytes) \<Rightarrow> bytes \<Rightarrow> u64 \<Rightarrow> MatchMakingInfo \<Rightarrow> bool registry" where
  "registry_update ids rnd_secret connection info = locked (
    bindE (forget connection) (\<lambda>forgotten.
    case forgotten of
      Some old \<Rightarrow>
        thenE (remember connection (info\<lparr>mi_host := mi_host old, mi_key := mi_key old\<rparr>)) (returnE True)
    | None \<Rightarrow>
        bindE (mint ids rnd_secret) (\<lambda>(host, secret).
        thenE (remember connection (info\<lparr>mi_host := host, mi_key := secret\<rparr>)) (returnE False))))"

definition registry_delete :: "u64 \<Rightarrow> bytes \<Rightarrow> bool registry" where
  "registry_delete connection host =
    (if length host \<noteq> ID_LEN then returnE False
     else locked (\<lambda>s.
       if rg_by_host s host \<noteq> Some connection then (Inr False, s)
       else bindE (forget connection) (\<lambda>forgotten. returnE (forgotten \<noteq> None)) s))"

definition remove_connection :: "u64 \<Rightarrow> bool registry" where
  "remove_connection connection =
    locked (bindE (forget connection) (\<lambda>forgotten. returnE (forgotten \<noteq> None)))"

text \<open>The iterator chain of the search, which stops as soon as it has its \<open>n\<close> results: \<open>seen\<close>
  holds the addresses it has listed.\<close>

fun list_loop ::
  "(u64 \<rightharpoonup> MatchMakingInfo) \<Rightarrow> u64 \<Rightarrow> SessionQuery \<Rightarrow> bytes list \<Rightarrow> nat \<Rightarrow> u64 list
    \<Rightarrow> bd_error + MatchMakingInfo list" where
  "list_loop sessions connection query seen n [] = Inr []"
| "list_loop sessions connection query seen n (c # cs) =
    (if n = 0 then Inr []
     else case sessions c of
       None \<Rightarrow> list_loop sessions connection query seen n cs
     | Some info \<Rightarrow>
         if c = connection then list_loop sessions connection query seen n cs
         else case matches info query of
           Inl e \<Rightarrow> Inl e
         | Inr matched \<Rightarrow>
             if matched \<and> mi_address info \<notin> set seen
             then (case list_loop sessions connection query (mi_address info # seen) (n - 1) cs of
                     Inl e \<Rightarrow> Inl e | Inr infos \<Rightarrow> Inr (info # infos))
             else list_loop sessions connection query seen n cs)"

definition list_for :: "u64 list \<Rightarrow> u64 \<Rightarrow> SessionQuery \<Rightarrow> (MatchMakingInfo list) registry" where
  "list_for order connection query = locked (\<lambda>s.
    (list_loop (rg_sessions s) connection query [] (max_results query) order, s))"

definition population_add :: "MatchMakingInfo \<Rightarrow> Population \<Rightarrow> bd_error + Population" where
  "population_add info p =
    (case players info of
       Inl e \<Rightarrow> Inl e
     | Inr n \<Rightarrow>
         if 0 < n then
           (let before = (case pp_playlists p (playlist info) of None \<Rightarrow> 0 | Some k \<Rightarrow> k)
            in if before + n < 2 ^ 64 \<and> pp_players p + n < 2 ^ 64
               then Inr \<lparr>pp_players = pp_players p + n,
                      pp_playlists = (pp_playlists p)(playlist info \<mapsto> before + n)\<rparr>
               else Inl Panic)
         else Inr p)"

fun population_loop ::
  "(u64 \<rightharpoonup> MatchMakingInfo) \<Rightarrow> Population \<Rightarrow> u64 list \<Rightarrow> bd_error + Population" where
  "population_loop sessions p [] = Inr p"
| "population_loop sessions p (c # cs) =
    (case sessions c of
       None \<Rightarrow> population_loop sessions p cs
     | Some info \<Rightarrow>
         (case population_add info p of
            Inl e \<Rightarrow> Inl e | Inr p' \<Rightarrow> population_loop sessions p' cs))"

definition population :: "u64 list \<Rightarrow> Population registry" where
  "population order = locked (\<lambda>s.
    (population_loop (rg_sessions s) \<lparr>pp_players = 0, pp_playlists = Map.empty\<rparr> order, s))"

section \<open>The two tables agree\<close>

text \<open>Ids are eight bytes, and the table of hosts is the inverse of the table of sessions.\<close>

definition registry_ok :: "RegistryState \<Rightarrow> bool" where
  "registry_ok s \<longleftrightarrow> (\<forall>c info. rg_sessions s c = Some info \<longrightarrow>
      length (mi_host info) = ID_LEN \<and> rg_by_host s (mi_host info) = Some c)
    \<and> (\<forall>h c. rg_by_host s h = Some c \<longrightarrow> (\<exists>info. rg_sessions s c = Some info \<and> mi_host info = h))"

definition draws_ok :: "(nat \<Rightarrow> bytes) \<Rightarrow> bool" where
  "draws_ok ids \<longleftrightarrow> (\<forall>i. length (ids i) = ID_LEN)"

lemma registry_ok_new: "registry_ok registry_new"
  by (simp add: registry_ok_def registry_new_def)

lemma registry_okD:
  assumes "registry_ok s" "rg_sessions s c = Some info"
  shows "length (mi_host info) = ID_LEN" "rg_by_host s (mi_host info) = Some c"
  using assms by (auto simp: registry_ok_def)

lemma registry_ok_host:
  assumes "registry_ok s" "rg_by_host s h = Some c"
  obtains info where "rg_sessions s c = Some info" "mi_host info = h" "length h = ID_LEN"
  using assms that unfolding registry_ok_def by metis

lemma forget_ok:
  assumes "registry_ok s"
  shows "forget c s = (Inr (rg_sessions s c), s\<lparr>rg_sessions := (rg_sessions s)(c := None),
    rg_by_host := (case rg_sessions s c of None \<Rightarrow> rg_by_host s
      | Some info \<Rightarrow> (rg_by_host s)(mi_host info := None))\<rparr>)"
proof (cases "rg_sessions s c")
  case None
  then have "(rg_sessions s)(c := None) = rg_sessions s" by auto
  then show ?thesis using None by (simp add: forget_def)
next
  case (Some info)
  then show ?thesis using registry_okD [OF assms Some] by (simp add: forget_def)
qed

lemma registry_ok_forget:
  assumes "registry_ok s"
  shows "registry_ok (snd (forget c s))"
proof -
  have inj: "mi_host i \<noteq> mi_host j" if "rg_sessions s a = Some i" "rg_sessions s b = Some j" "a \<noteq> b" for a b i j
    using that assms by (metis registry_okD(2) option.inject)
  show ?thesis
    unfolding forget_ok [OF assms]
    using assms inj by (fastforce simp: registry_ok_def split: option.splits if_splits)
qed

lemma registry_ok_remember:
  assumes "registry_ok s" "rg_sessions s c = None" "rg_by_host s (mi_host info) = None"
    "length (mi_host info) = ID_LEN"
  shows "registry_ok (snd (remember c info s))"
  using assms by (fastforce simp: registry_ok_def remember_def modifyE_def)

lemma registry_ok_poisoned [simp]: "registry_ok (s\<lparr>rg_poisoned := b\<rparr>) = registry_ok s"
  by (simp add: registry_ok_def)

section \<open>Drawing ids\<close>

lemma mint_loop_drawn:
  assumes "mint_loop ids s i = Some h"
  shows "h \<in> range ids \<and> rg_by_host s h = None"
proof -
  have "\<forall>ids s i h. mint_loop ids s i = Some h \<longrightarrow> h \<in> range ids \<and> rg_by_host s h = None"
    by (rule allI, rule allI, rule allI, rule allI, rule impI, rule mint_loop.raw_induct)
      (auto split: if_splits)
  then show ?thesis using assms by blast
qed

section \<open>What the operations do\<close>

lemma forget_sessions:
  "registry_ok s \<Longrightarrow> rg_sessions (snd (forget c s)) = (rg_sessions s)(c := None)"
  "registry_ok s \<Longrightarrow> rg_poisoned (snd (forget c s)) = rg_poisoned s"
  "registry_ok s \<Longrightarrow> fst (forget c s) = Inr (rg_sessions s c)"
  by (simp_all add: forget_ok)

lemma store_minted:
  assumes s1: "registry_ok s1" "rg_sessions s1 c = None" and ids: "draws_ok ids"
    and h: "mint_loop ids s1 0 = Some h"
  obtains s2 where "remember c (info\<lparr>mi_host := h, mi_key := secret\<rparr>) s1 = (Inr (), s2)" "registry_ok s2"
    "rg_sessions s2 = (rg_sessions s1)(c \<mapsto> info\<lparr>mi_host := h, mi_key := secret\<rparr>)"
    "rg_poisoned s2 = rg_poisoned s1"
    "\<forall>d j. rg_sessions s1 d = Some j \<longrightarrow> mi_host j \<noteq> h"
proof -
  let ?info = "info\<lparr>mi_host := h, mi_key := secret\<rparr>"
  have drawn: "length h = ID_LEN" "rg_by_host s1 h = None"
    using mint_loop_drawn [OF h] ids by (auto simp: draws_ok_def)
  have "\<forall>d j. rg_sessions s1 d = Some j \<longrightarrow> mi_host j \<noteq> h"
    using drawn(2) registry_okD(2) [OF s1(1)] by force
  moreover have "registry_ok (snd (remember c ?info s1))"
    using registry_ok_remember [OF s1(1,2), of ?info] drawn by simp
  ultimately show thesis
    by (intro that [of "snd (remember c ?info s1)"]) (simp_all add: remember_def modifyE_def)
qed

lemma registry_create_ok:
  assumes s: "registry_ok s" "\<not> rg_poisoned s" and ids: "draws_ok ids"
    and h: "mint_loop ids (snd (forget c s)) 0 = Some h"
  obtains s' where "registry_create ids secret c info s = (Inr (h, secret), s')" "registry_ok s'"
    "\<not> rg_poisoned s'" "rg_sessions s' = (rg_sessions s)(c \<mapsto> info\<lparr>mi_host := h, mi_key := secret\<rparr>)"
    "\<forall>d j. d \<noteq> c \<and> rg_sessions s d = Some j \<longrightarrow> mi_host j \<noteq> h"
proof -
  define s1 where "s1 = snd (forget c s)"
  have f: "forget c s = (Inr (rg_sessions s c), s1)"
    using forget_sessions(3) [OF s(1)] by (metis s1_def prod.collapse)
  have s1: "registry_ok s1" "rg_sessions s1 = (rg_sessions s)(c := None)" "\<not> rg_poisoned s1"
    using registry_ok_forget [OF s(1)] forget_sessions [OF s(1)] s(2) by (simp_all add: s1_def)
  have none: "rg_sessions s1 c = None" by (simp add: s1(2))
  have h1: "mint_loop ids s1 0 = Some h" using h by (simp add: s1_def)
  obtain s2 where s2: "remember c (info\<lparr>mi_host := h, mi_key := secret\<rparr>) s1 = (Inr (), s2)" "registry_ok s2"
    "rg_sessions s2 = (rg_sessions s1)(c \<mapsto> info\<lparr>mi_host := h, mi_key := secret\<rparr>)"
    "rg_poisoned s2 = rg_poisoned s1" "\<forall>d j. rg_sessions s1 d = Some j \<longrightarrow> mi_host j \<noteq> h"
    using store_minted [OF s1(1) none ids h1] .
  have "registry_create ids secret c info s = (Inr (h, secret), s2)"
    using s(2) f h1 s2(1)
    by (simp add: registry_create_def locked_def bindE_def thenE_def mint_def monad_simps)
  moreover have "\<forall>d j. d \<noteq> c \<and> rg_sessions s d = Some j \<longrightarrow> mi_host j \<noteq> h"
    using s2(5) unfolding s1(2) by (metis fun_upd_other)
  ultimately show thesis using that [of s2] s2(2-4) s1(2,3) by simp
qed

lemma registry_update_known:
  assumes s: "registry_ok s" "\<not> rg_poisoned s" and old: "rg_sessions s c = Some old"
  obtains s' where "registry_update ids secret c info s = (Inr True, s')" "registry_ok s'"
    "\<not> rg_poisoned s'" "rg_sessions s' = (rg_sessions s)(c \<mapsto> info\<lparr>mi_host := mi_host old, mi_key := mi_key old\<rparr>)"
proof -
  let ?info = "info\<lparr>mi_host := mi_host old, mi_key := mi_key old\<rparr>"
  define s1 where "s1 = snd (forget c s)"
  have f: "forget c s = (Inr (Some old), s1)"
    using forget_sessions(3) [OF s(1)] old by (metis s1_def prod.collapse)
  have s1: "registry_ok s1" "rg_sessions s1 = (rg_sessions s)(c := None)" "\<not> rg_poisoned s1"
    "rg_by_host s1 (mi_host old) = None"
    using registry_ok_forget [OF s(1), of c] s(2) old by (simp_all add: s1_def forget_ok [OF s(1)])
  let ?s2 = "snd (remember c ?info s1)"
  have "registry_ok ?s2"
    using registry_ok_remember [OF s1(1), of c ?info] s1 registry_okD(1) [OF s(1) old] by simp
  moreover have "registry_update ids secret c info s = (Inr True, ?s2)"
    using s(2) f
    by (simp add: registry_update_def locked_def bindE_def thenE_def remember_def modifyE_def monad_simps)
  ultimately show thesis using that [of ?s2] s1 by (simp add: remember_def modifyE_def)
qed

lemma registry_update_new:
  assumes s: "registry_ok s" "\<not> rg_poisoned s" and new: "rg_sessions s c = None" and ids: "draws_ok ids"
    and h: "mint_loop ids s 0 = Some h"
  obtains s' where "registry_update ids secret c info s = (Inr False, s')" "registry_ok s'"
    "\<not> rg_poisoned s'" "rg_sessions s' = (rg_sessions s)(c \<mapsto> info\<lparr>mi_host := h, mi_key := secret\<rparr>)"
proof -
  have f: "forget c s = (Inr None, s)" using new by (simp add: forget_def)
  obtain s2 where s2: "remember c (info\<lparr>mi_host := h, mi_key := secret\<rparr>) s = (Inr (), s2)" "registry_ok s2"
    "rg_sessions s2 = (rg_sessions s)(c \<mapsto> info\<lparr>mi_host := h, mi_key := secret\<rparr>)"
    "rg_poisoned s2 = rg_poisoned s"
    using store_minted [OF s(1) new ids h] by blast
  have "registry_update ids secret c info s = (Inr False, s2)"
    using s(2) f h s2(1)
    by (simp add: registry_update_def locked_def bindE_def thenE_def mint_def monad_simps)
  then show thesis using that [of s2] s2 s(2) by simp
qed

lemma registry_delete_ok:
  assumes s: "registry_ok s" "\<not> rg_poisoned s"
  obtains s' where "registry_delete c host s = (Inr (\<exists>info. rg_sessions s c = Some info \<and> mi_host info = host), s')"
    "registry_ok s'" "\<not> rg_poisoned s'"
    "rg_sessions s' = (if \<exists>info. rg_sessions s c = Some info \<and> mi_host info = host
       then (rg_sessions s)(c := None) else rg_sessions s)"
proof (cases "\<exists>info. rg_sessions s c = Some info \<and> mi_host info = host")
  case True
  then obtain info where i: "rg_sessions s c = Some info" "mi_host info = host" by blast
  define s1 where "s1 = snd (forget c s)"
  have f: "forget c s = (Inr (Some info), s1)"
    using forget_sessions(3) [OF s(1)] i(1) by (metis s1_def prod.collapse)
  have "registry_delete c host s = (Inr True, s1)"
    using f s(2) registry_okD [OF s(1) i(1)] i(2)
    by (simp add: registry_delete_def locked_def bindE_def monad_simps)
  moreover have "registry_ok s1" "rg_sessions s1 = (rg_sessions s)(c := None)" "\<not> rg_poisoned s1"
    using registry_ok_forget [OF s(1)] forget_sessions [OF s(1)] s(2) by (simp_all add: s1_def)
  ultimately show thesis using that [of s1] True by simp
next
  case False
  have "registry_delete c host s = (Inr False, s)"
  proof (cases "length host = ID_LEN")
    case True
    have "rg_by_host s host \<noteq> Some c" using registry_ok_host [OF s(1)] False by blast
    then show ?thesis using s(2) True by (simp add: registry_delete_def locked_def)
  qed (simp add: registry_delete_def monad_simps)
  then show thesis using that [of s] False s by simp
qed

lemma remove_connection_ok:
  assumes s: "registry_ok s" "\<not> rg_poisoned s"
  obtains s' where "remove_connection c s = (Inr (rg_sessions s c \<noteq> None), s')"
    "registry_ok s'" "\<not> rg_poisoned s'" "rg_sessions s' = (rg_sessions s)(c := None)"
proof -
  define s1 where "s1 = snd (forget c s)"
  have f: "forget c s = (Inr (rg_sessions s c), s1)"
    using forget_sessions(3) [OF s(1)] by (metis s1_def prod.collapse)
  have "remove_connection c s = (Inr (rg_sessions s c \<noteq> None), s1)"
    using f s(2) by (simp add: remove_connection_def locked_def bindE_def monad_simps)
  moreover have "registry_ok s1" "rg_sessions s1 = (rg_sessions s)(c := None)" "\<not> rg_poisoned s1"
    using registry_ok_forget [OF s(1)] forget_sessions [OF s(1)] s(2) by (simp_all add: s1_def)
  ultimately show thesis using that [of s1] by simp
qed

section \<open>The contract\<close>

text \<open>
  What the lobby relies on: a store of one record per connection, keyed by ids that the store
  gives out. The laws say what each operation does to the record of every connection; the
  lemmas in the locale follow from them alone.
\<close>

locale session_directory =
  fixes lookup :: "'s \<Rightarrow> u64 \<rightharpoonup> MatchMakingInfo"
    and create :: "u64 \<Rightarrow> MatchMakingInfo \<Rightarrow> ('s, bd_error, bytes \<times> bytes) sm"
    and update :: "u64 \<Rightarrow> MatchMakingInfo \<Rightarrow> ('s, bd_error, bool) sm"
    and delete :: "u64 \<Rightarrow> bytes \<Rightarrow> ('s, bd_error, bool) sm"
    and remove :: "u64 \<Rightarrow> ('s, bd_error, bool) sm"
    and inv :: "'s \<Rightarrow> bool"
  assumes create_law: "inv s \<Longrightarrow> create c info s = (Inr (h, k), s')
      \<Longrightarrow> inv s' \<and> lookup s' = (lookup s)(c \<mapsto> info\<lparr>mi_host := h, mi_key := k\<rparr>)
        \<and> (\<forall>d j. d \<noteq> c \<and> lookup s d = Some j \<longrightarrow> mi_host j \<noteq> h)"
    and update_law: "inv s \<Longrightarrow> lookup s c = Some old
      \<Longrightarrow> \<exists>s'. update c info s = (Inr True, s') \<and> inv s'
        \<and> lookup s' = (lookup s)(c \<mapsto> info\<lparr>mi_host := mi_host old, mi_key := mi_key old\<rparr>)"
    and delete_law: "inv s \<Longrightarrow> \<exists>s'. inv s'
        \<and> delete c h s = (Inr (\<exists>info. lookup s c = Some info \<and> mi_host info = h), s')
        \<and> lookup s' = (if \<exists>info. lookup s c = Some info \<and> mi_host info = h
            then (lookup s)(c := None) else lookup s)"
    and remove_law: "inv s \<Longrightarrow> \<exists>s'. remove c s = (Inr (lookup s c \<noteq> None), s') \<and> inv s'
        \<and> lookup s' = (lookup s)(c := None)"
begin

text \<open>Only the connection that holds a session can delete it.\<close>

lemma delete_foreign:
  assumes "inv s" "delete d h s = (res, s')" "d \<noteq> c"
  shows "lookup s' c = lookup s c"
  using delete_law [OF assms(1), of d h] assms(2,3) by (auto split: if_splits)

lemma delete_own_id_only:
  assumes "inv s" "delete c h s = (Inr True, s')"
  shows "\<exists>info. lookup s c = Some info \<and> mi_host info = h \<and> lookup s' c = None"
proof -
  obtain s'' where *: "delete c h s = (Inr (\<exists>info. lookup s c = Some info \<and> mi_host info = h), s'')"
    "lookup s'' = (if \<exists>info. lookup s c = Some info \<and> mi_host info = h
       then (lookup s)(c := None) else lookup s)"
    using delete_law [OF assms(1), of c h] by blast
  then have own: "\<exists>info. lookup s c = Some info \<and> mi_host info = h" and "s'' = s'" using assms(2) by simp_all
  then have "lookup s' c = None" using *(2) by simp
  then show ?thesis using own by blast
qed

text \<open>A session keeps its id and its secret from its creation on, however often it is updated.\<close>

lemma update_keeps_identity:
  assumes "inv s" "create c info s = (Inr (h, k), s1)"
  shows "\<exists>s'. fold (\<lambda>i s. snd (update c i s)) infos s1 = s' \<and> inv s'
    \<and> (\<exists>j. lookup s' c = Some j \<and> mi_host j = h \<and> mi_key j = k)"
proof -
  have "inv s1 \<and> (\<exists>j. lookup s1 c = Some j \<and> mi_host j = h \<and> mi_key j = k)"
    using create_law [OF assms] by simp
  then show ?thesis
  proof (induction infos arbitrary: s1)
    case (Cons i infos)
    then obtain j where j: "inv s1" "lookup s1 c = Some j" "mi_host j = h" "mi_key j = k" by blast
    obtain s2 where "update c i s1 = (Inr True, s2)" "inv s2"
      "lookup s2 = (lookup s1)(c \<mapsto> i\<lparr>mi_host := mi_host j, mi_key := mi_key j\<rparr>)"
      using update_law [OF j(1,2)] by blast
    then show ?case using Cons.IH [of s2] j by simp
  qed simp
qed

end

lemma registry_create_law:
  assumes "registry_ok s \<and> \<not> rg_poisoned s" "draws_ok ids"
    and run: "registry_create ids secret c info s = (Inr (h, k), s')"
  shows "(registry_ok s' \<and> \<not> rg_poisoned s') \<and> rg_sessions s' = (rg_sessions s)(c \<mapsto> info\<lparr>mi_host := h, mi_key := k\<rparr>)
    \<and> (\<forall>d j. d \<noteq> c \<and> rg_sessions s d = Some j \<longrightarrow> mi_host j \<noteq> h)"
proof -
  define s1 where "s1 = snd (forget c s)"
  have f: "forget c s = (Inr (rg_sessions s c), s1)"
    using forget_sessions(3) [of s c] assms(1) by (metis s1_def prod.collapse)
  have poisoned: "\<not> rg_poisoned s" using assms(1) by simp
  obtain h' where h': "mint_loop ids (snd (forget c s)) 0 = Some h'"
  proof (cases "mint_loop ids (snd (forget c s)) 0")
    case None
    have "registry_create ids secret c info s = (Inl Diverges, s1)"
      using poisoned f None [folded s1_def] by (simp add: registry_create_def locked_def bindE_def mint_def)
    then show thesis using run by simp
  qed (use that in simp)
  obtain s2 where "registry_create ids secret c info s = (Inr (h', secret), s2)" "registry_ok s2"
    "\<not> rg_poisoned s2" "rg_sessions s2 = (rg_sessions s)(c \<mapsto> info\<lparr>mi_host := h', mi_key := secret\<rparr>)"
    "\<forall>d j. d \<noteq> c \<and> rg_sessions s d = Some j \<longrightarrow> mi_host j \<noteq> h'"
    by (rule registry_create_ok [OF _ _ assms(2) h']) (use assms(1) in auto)
  then show ?thesis using run by simp
qed

text \<open>The ids that the random generator draws always have eight bytes.\<close>

definition eight_bytes :: "(nat \<Rightarrow> bytes) \<Rightarrow> nat \<Rightarrow> bytes" where
  "eight_bytes ids i = take ID_LEN (ids i @ replicate ID_LEN 0)"

lemma draws_eight_bytes: "draws_ok (eight_bytes ids)"
  by (auto simp: draws_ok_def eight_bytes_def)

lemma eight_bytes_id: "draws_ok ids \<Longrightarrow> eight_bytes ids = ids"
  by (simp add: draws_ok_def eight_bytes_def fun_eq_iff)

interpretation directory: session_directory rg_sessions "registry_create (eight_bytes ids) secret"
  "registry_update (eight_bytes ids) secret" registry_delete remove_connection
  "\<lambda>s. registry_ok s \<and> \<not> rg_poisoned s"
  for ids secret
proof (unfold_locales, goal_cases)
  case (1 s c info h k s')
  then show ?case using registry_create_law [OF _ draws_eight_bytes] by blast
next
  case (2 s c old info)
  then have s: "registry_ok s" "\<not> rg_poisoned s" by simp_all
  show ?case by (rule registry_update_known [OF s 2(2)]) blast
next
  case (3 s c h)
  then have s: "registry_ok s" "\<not> rg_poisoned s" by simp_all
  show ?case by (rule registry_delete_ok [OF s]) blast
next
  case (4 s c)
  then have s: "registry_ok s" "\<not> rg_poisoned s" by simp_all
  show ?case by (rule remove_connection_ok [OF s]) blast
qed

section \<open>Reachable registries\<close>

inductive registry_reachable :: "RegistryState \<Rightarrow> bool" where
  reach_new: "registry_reachable registry_new"
| reach_create: "\<lbrakk>registry_reachable s; draws_ok ids; registry_create ids secret c info s = (res, s')\<rbrakk>
    \<Longrightarrow> registry_reachable s'"
| reach_update: "\<lbrakk>registry_reachable s; draws_ok ids; registry_update ids secret c info s = (res', s')\<rbrakk>
    \<Longrightarrow> registry_reachable s'"
| reach_delete: "\<lbrakk>registry_reachable s; registry_delete c h s = (res', s')\<rbrakk> \<Longrightarrow> registry_reachable s'"
| reach_remove: "\<lbrakk>registry_reachable s; remove_connection c s = (res', s')\<rbrakk> \<Longrightarrow> registry_reachable s'"
| reach_list: "\<lbrakk>registry_reachable s; list_for order c query s = (found, s')\<rbrakk> \<Longrightarrow> registry_reachable s'"
| reach_population: "\<lbrakk>registry_reachable s; population order s = (pop, s')\<rbrakk> \<Longrightarrow> registry_reachable s'"

lemma locked_poisoned: "rg_poisoned s \<Longrightarrow> locked m s = (Inl Panic, s)"
  by (simp add: locked_def)

lemma locked_keeps:
  assumes "registry_ok s" "\<And>s. registry_ok s \<Longrightarrow> registry_ok (snd (m s))"
  shows "registry_ok (snd (locked m s))"
  using assms(1) assms(2) [of s] by (auto simp: locked_def split: prod.splits sum.splits)

lemma registry_create_keeps:
  assumes "registry_ok s" "draws_ok ids"
  shows "registry_ok (snd (registry_create ids secret c info s))"
proof (cases "rg_poisoned s")
  case True
  then show ?thesis using assms(1) by (simp add: registry_create_def locked_poisoned)
next
  case False
  define s1 where "s1 = snd (forget c s)"
  have f: "forget c s = (Inr (rg_sessions s c), s1)"
    using forget_sessions(3) [OF assms(1), of c] by (metis s1_def prod.collapse)
  have s1: "registry_ok s1" using registry_ok_forget [OF assms(1)] by (simp add: s1_def)
  show ?thesis
  proof (cases "mint_loop ids s1 0")
    case None
    then show ?thesis using f s1 False by (simp add: registry_create_def locked_def bindE_def mint_def)
  next
    case (Some h)
    then show ?thesis
      using registry_create_ok [OF assms(1) False assms(2), of c h secret info] by (metis s1_def snd_conv)
  qed
qed

lemma registry_update_keeps:
  assumes "registry_ok s" "draws_ok ids"
  shows "registry_ok (snd (registry_update ids secret c info s))"
proof (cases "rg_poisoned s")
  case True
  then show ?thesis using assms(1) by (simp add: registry_update_def locked_poisoned)
next
  case False
  show ?thesis
  proof (cases "rg_sessions s c")
    case (Some old)
    then show ?thesis using registry_update_known [OF assms(1) False Some] by (metis snd_conv)
  next
    case None
    have f: "forget c s = (Inr None, s)" using None by (simp add: forget_def)
    show ?thesis
    proof (cases "mint_loop ids s 0")
      case no_id: None
      then show ?thesis using f False assms(1) by (simp add: registry_update_def locked_def bindE_def mint_def)
    next
      case (Some h)
      then show ?thesis using registry_update_new [OF assms(1) False None assms(2) Some] by (metis snd_conv)
    qed
  qed
qed

lemma registry_delete_keeps:
  assumes "registry_ok s"
  shows "registry_ok (snd (registry_delete c h s))"
proof (cases "rg_poisoned s")
  case True
  then show ?thesis using assms by (simp add: registry_delete_def locked_poisoned monad_simps)
next
  case False
  show ?thesis by (rule registry_delete_ok [OF assms False, of c h]) simp
qed

lemma remove_connection_keeps:
  assumes "registry_ok s"
  shows "registry_ok (snd (remove_connection c s))"
proof (cases "rg_poisoned s")
  case True
  then show ?thesis using assms by (simp add: remove_connection_def locked_poisoned)
next
  case False
  show ?thesis by (rule remove_connection_ok [OF assms False, of c]) simp
qed

lemma registry_reachable_ok: "registry_reachable s \<Longrightarrow> registry_ok s"
proof (induction rule: registry_reachable.induct)
  case reach_new
  show ?case by (rule registry_ok_new)
next
  case reach_create
  then show ?case by (metis registry_create_keeps snd_conv)
next
  case reach_update
  then show ?case by (metis registry_update_keeps snd_conv)
next
  case reach_delete
  then show ?case by (metis registry_delete_keeps snd_conv)
next
  case reach_remove
  then show ?case by (metis remove_connection_keeps snd_conv)
next
  case (reach_list s order c query found s')
  have "registry_ok (snd (list_for order c query s))"
    unfolding list_for_def by (rule locked_keeps [OF reach_list.IH]) simp
  then show ?case using reach_list.hyps(2) by simp
next
  case (reach_population s order pop s')
  have "registry_ok (snd (population order s))"
    unfolding population_def by (rule locked_keeps [OF reach_population.IH]) simp
  then show ?case using reach_population.hyps(2) by simp
qed

section \<open>Properties\<close>

text \<open>
  C20. The ids of the advertised sessions are unique, whatever operations have been run. In
  every registry that operations lead to, however they end, each session has an id of eight
  bytes, two connections never have the same one, and the table of ids leads to exactly
  the connection that advertises the session.
\<close>

theorem registry_consistent:
  assumes "registry_reachable s"
  shows "(rg_sessions s c = Some info \<and> rg_sessions s d = Some info' \<and> mi_host info = mi_host info' \<longrightarrow> c = d)
    \<and> (rg_by_host s h = Some c \<longleftrightarrow> (\<exists>i. rg_sessions s c = Some i \<and> mi_host i = h))
    \<and> (rg_sessions s c = Some info \<longrightarrow> length (mi_host info) = 8)"
  using registry_reachable_ok [OF assms]
  by (auto simp: registry_ok_def ID_LEN_def HOST_LEN_def) (metis option.inject)+

definition lobby_info :: MatchMakingInfo where
  "lobby_info = \<lparr>mi_address = replicate 37 1, mi_host = replicate 8 0, mi_key = replicate 16 0,
     mi_free_public_slots = 4, mi_used_public_slots = 2, mi_free_private_slots = 0,
     mi_used_private_slots = 1, mi_title_data = [8, 5, 3, 0, 142, 0, 5, 0, 0]\<rparr>"

definition id_draws :: "nat \<Rightarrow> bytes" where
  "id_draws i = replicate 7 9 @ [of_nat i]"

lemma id_draws_ok: "draws_ok id_draws"
  by (simp add: draws_ok_def id_draws_def ID_LEN_def HOST_LEN_def)

definition one_lobby :: RegistryState where
  "one_lobby = snd (registry_create id_draws (replicate 16 3) 1 lobby_info registry_new)"

lemma create_one_lobby:
  "registry_create id_draws (replicate 16 3) 1 lobby_info registry_new
    = (Inr (id_draws 0, replicate 16 3), one_lobby)"
  "rg_sessions one_lobby = [1 \<mapsto> lobby_info\<lparr>mi_host := id_draws 0, mi_key := replicate 16 3\<rparr>]"
  "\<not> rg_poisoned one_lobby"
proof -
  have draw: "mint_loop id_draws (snd (forget 1 registry_new)) 0 = Some (id_draws 0)"
    by (simp add: mint_loop.simps forget_def registry_new_def)
  obtain s' where "registry_create id_draws (replicate 16 3) 1 lobby_info registry_new
      = (Inr (id_draws 0, replicate 16 3), s')" "\<not> rg_poisoned s'"
    "rg_sessions s' = [1 \<mapsto> lobby_info\<lparr>mi_host := id_draws 0, mi_key := replicate 16 3\<rparr>]"
    using registry_create_ok [OF registry_ok_new _ id_draws_ok draw, of "replicate 16 3" lobby_info]
    by (auto simp: registry_new_def)
  then show "registry_create id_draws (replicate 16 3) 1 lobby_info registry_new
    = (Inr (id_draws 0, replicate 16 3), one_lobby)"
    "rg_sessions one_lobby = [1 \<mapsto> lobby_info\<lparr>mi_host := id_draws 0, mi_key := replicate 16 3\<rparr>]"
    "\<not> rg_poisoned one_lobby" by (simp_all add: one_lobby_def)
qed

lemma one_lobby_reachable: "registry_reachable one_lobby"
  using reach_create [OF reach_new id_draws_ok create_one_lobby(1)] .

theorem registry_consistent_witness:
  "rg_by_host one_lobby (id_draws 0) = Some 1
    \<and> (\<exists>i. rg_sessions one_lobby 1 = Some i \<and> mi_host i = id_draws 0 \<and> length (mi_host i) = 8)"
proof -
  let ?i = "lobby_info\<lparr>mi_host := id_draws 0, mi_key := replicate 16 3\<rparr>"
  have "rg_sessions one_lobby 1 = Some ?i" by (simp add: create_one_lobby(2))
  then show ?thesis
    using registry_consistent [OF one_lobby_reachable, of 1 ?i 1 ?i "id_draws 0"] by auto
qed

text \<open>
  C21. A session belongs to the connection that created it. In a registry whose tables agree
  and whose lock is not poisoned, the creation gives the session an id that no other has and
  keeps the sessions of all others; whatever updates the connection makes, the id and
  the secret stay; and a deletion succeeds only for the connection that advertises the
  session of that very id, and touches no session of another.
\<close>

theorem sessions_are_owned:
  assumes s: "registry_ok s" "\<not> rg_poisoned s" and ids: "draws_ok ids"
    and create: "registry_create ids secret c info s = (Inr (host, key), s1)"
    and updates: "s2 = fold (\<lambda>i s. snd (registry_update ids secret c i s)) infos s1"
    and delete: "registry_delete d h s2 = (Inr done, s3)"
  shows "rg_sessions s1 = (rg_sessions s)(c \<mapsto> info\<lparr>mi_host := host, mi_key := key\<rparr>)
    \<and> (\<forall>b j. b \<noteq> c \<and> rg_sessions s b = Some j \<longrightarrow> mi_host j \<noteq> host)
    \<and> (\<exists>j. rg_sessions s2 c = Some j \<and> mi_host j = host \<and> mi_key j = key)
    \<and> (done \<longrightarrow> (\<exists>j. rg_sessions s2 d = Some j \<and> mi_host j = h))
    \<and> (\<forall>b. b \<noteq> d \<longrightarrow> rg_sessions s3 b = rg_sessions s2 b)"
proof -
  note ok = conjI [OF s] and draws = eight_bytes_id [OF ids]
  note created = directory.create_law [where ids = ids, unfolded draws, OF ok create]
  have s2: "registry_ok s2 \<and> \<not> rg_poisoned s2" "\<exists>j. rg_sessions s2 c = Some j \<and> mi_host j = host \<and> mi_key j = key"
    using directory.update_keeps_identity [where ids = ids, unfolded draws, OF ok create, of infos]
    by (simp_all add: updates)
  have "\<exists>j. rg_sessions s2 d = Some j \<and> mi_host j = h" if "done"
    using directory.delete_own_id_only [OF s2(1), of d h s3] delete that by auto
  moreover have "rg_sessions s3 b = rg_sessions s2 b" if "b \<noteq> d" for b
    using directory.delete_foreign [OF s2(1) delete] that by auto
  ultimately show ?thesis using created s2(2) by blast
qed

theorem sessions_are_owned_witness:
  "\<exists>s3. registry_delete 2 (id_draws 0) (fold (\<lambda>i s. snd (registry_update id_draws (replicate 16 3) 1 i s))
        [lobby_info] one_lobby) = (Inr False, s3)
    \<and> (\<exists>j. rg_sessions s3 1 = Some j \<and> mi_host j = id_draws 0 \<and> mi_key j = replicate 16 3)"
proof -
  let ?s2 = "fold (\<lambda>i s. snd (registry_update id_draws (replicate 16 3) 1 i s)) [lobby_info] one_lobby"
  have ok: "registry_ok one_lobby" using registry_reachable_ok [OF one_lobby_reachable] .
  have old: "rg_sessions one_lobby 1 = Some (lobby_info\<lparr>mi_host := id_draws 0, mi_key := replicate 16 3\<rparr>)"
    by (simp add: create_one_lobby(2))
  obtain s2 where s2: "registry_update id_draws (replicate 16 3) 1 lobby_info one_lobby = (Inr True, s2)"
    "registry_ok s2" "\<not> rg_poisoned s2" "rg_sessions s2 = (rg_sessions one_lobby)(1 \<mapsto> lobby_info
      \<lparr>mi_host := mi_host (lobby_info\<lparr>mi_host := id_draws 0, mi_key := replicate 16 3\<rparr>),
       mi_key := mi_key (lobby_info\<lparr>mi_host := id_draws 0, mi_key := replicate 16 3\<rparr>)\<rparr>)"
    using registry_update_known [OF ok create_one_lobby(3) old] .
  have same: "?s2 = s2" by (simp add: s2(1))
  have none: "rg_sessions s2 2 = None" by (simp add: s2(4) create_one_lobby(2))
  have "\<exists>s3. registry_delete 2 (id_draws 0) s2 = (Inr False, s3)"
    by (rule registry_delete_ok [OF s2(2,3), of 2 "id_draws 0"]) (simp add: none)
  then obtain s3 where "registry_delete 2 (id_draws 0) s2 = (Inr False, s3)" ..
  then have d: "registry_delete 2 (id_draws 0) ?s2 = (Inr False, s3)" by (simp only: same)
  have "\<not> rg_poisoned registry_new" by (simp add: registry_new_def)
  note owned = sessions_are_owned [OF registry_ok_new this id_draws_ok create_one_lobby(1) refl d]
  have "\<exists>j. rg_sessions ?s2 1 = Some j \<and> mi_host j = id_draws 0 \<and> mi_key j = replicate 16 3"
    by (rule conjunct1 [OF conjunct2 [OF conjunct2 [OF owned]]])
  moreover have "rg_sessions s3 1 = rg_sessions ?s2 1"
    by (rule conjunct2 [OF conjunct2 [OF conjunct2 [OF conjunct2 [OF owned]]], rule_format]) simp
  ultimately have "\<exists>j. rg_sessions s3 1 = Some j \<and> mi_host j = id_draws 0 \<and> mi_key j = replicate 16 3"
    by (simp only:)
  then show ?thesis using d by blast
qed

end
