(* ===== verification/Registry_Search.thy ===== *)
theory Registry_Search
  imports Session_Registry
begin

text \<open>
  What the registry tells: which sessions a search lists, how many players there are, that
  drawing an id ends, and what a session does whose slots do not add up.
\<close>

section \<open>The search\<close>

lemma list_loop_sound:
  assumes "list_loop sessions connection query seen n cs = Inr infos"
  shows "length infos \<le> n \<and> distinct (map mi_address infos)
    \<and> (\<forall>i \<in> set infos. mi_address i \<notin> set seen)
    \<and> (\<forall>i \<in> set infos. \<exists>c \<in> set cs. c \<noteq> connection \<and> sessions c = Some i \<and> matches i query = Inr True)"
  using assms
proof (induction sessions connection query seen n cs arbitrary: infos rule: list_loop.induct)
  case (2 sessions connection query seen n c cs)
  consider "n = 0" | "n \<noteq> 0" "sessions c = None" | info where "n \<noteq> 0" "sessions c = Some info" "c = connection"
    | info where "n \<noteq> 0" "sessions c = Some info" "c \<noteq> connection" by blast
  then show ?case
  proof cases
    case 1
    then show ?thesis using 2(5) by simp
  next
    case skip: 2
    then show ?thesis using 2(1) [OF skip] 2(5) by auto
  next
    case own: (3 info)
    then show ?thesis using 2(2) [OF own] 2(5) by auto
  next
    case i: (4 info)
    then obtain m where m: "matches info query = Inr m" using 2(5) by (auto split: sum.splits)
    show ?thesis
    proof (cases "m \<and> mi_address info \<notin> set seen")
      case True
      then obtain rest where "list_loop sessions connection query (mi_address info # seen) (n - 1) cs = Inr rest"
          "infos = info # rest"
        using 2(5) i m by (auto split: sum.splits)
      then show ?thesis using 2(3) [OF i m True, of rest] i m True by auto
    next
      case False
      then show ?thesis using 2(4) [OF i m False, of infos] 2(5) i m by auto
    qed
  qed
qed simp

lemma list_loop_complete:
  assumes "list_loop sessions connection query seen n cs = Inr infos" "length infos < n"
    and "c \<in> set cs" "c \<noteq> connection" "sessions c = Some i" "matches i query = Inr True"
  shows "mi_address i \<in> set seen \<union> set (map mi_address infos)"
  using assms
proof (induction sessions connection query seen n cs arbitrary: infos rule: list_loop.induct)
  case (2 sessions connection query seen n d cs)
  show ?case
  proof (cases "sessions d = None \<or> d = connection")
    case True
    then show ?thesis using 2 by (auto split: option.splits if_splits)
  next
    case False
    then obtain info where i: "n \<noteq> 0" "sessions d = Some info" "d \<noteq> connection" using 2 by auto
    then obtain m where m: "matches info query = Inr m" using 2(5) by (auto split: sum.splits)
    show ?thesis
    proof (cases "m \<and> mi_address info \<notin> set seen")
      case True
      then obtain rest where r: "list_loop sessions connection query (mi_address info # seen) (n - 1) cs = Inr rest"
          "infos = info # rest"
        using 2(5) i m by (auto split: sum.splits)
      show ?thesis
      proof (cases "c = d")
        case True
        then show ?thesis using 2 i r by simp
      next
        case False
        then show ?thesis using 2(3) [OF i m True r(1)] 2 r by auto
      qed
    next
      case False
      then have "list_loop sessions connection query seen n cs = Inr infos" using 2(5) i m by auto
      then show ?thesis using 2(4) [OF i m False] 2 i m False by (cases "c = d") auto
    qed
  qed
qed simp

lemma matches_panic: "matches i q = Inl e \<Longrightarrow> e = Panic"
  by (auto simp: matches_def free_slots_def checked_sadd_def split: if_splits sum.splits)

lemma list_loop_panic:
  assumes "length cs \<le> n" "c \<in> set cs" "c \<noteq> connection" "sessions c = Some i" "matches i query = Inl e"
  shows "list_loop sessions connection query seen n cs = Inl Panic"
  using assms
proof (induction sessions connection query seen n cs rule: list_loop.induct)
  case (2 sessions connection query seen n d cs)
  show ?case
  proof (cases "sessions d = None \<or> d = connection")
    case True
    then show ?thesis using 2 by (auto split: option.splits)
  next
    case False
    then obtain info where j: "n \<noteq> 0" "sessions d = Some info" "d \<noteq> connection" using 2 by auto
    show ?thesis
    proof (cases "matches info query")
      case (Inl e)
      then show ?thesis using j matches_panic by auto
    next
      case (Inr m)
      have c: "c \<in> set cs" using 2 j Inr by auto
      show ?thesis
      proof (cases "m \<and> mi_address info \<notin> set seen")
        case True
        have "length cs \<le> n - 1" using 2(5) j(1) by simp
        then show ?thesis using 2(3) [OF j Inr True _ c] 2 j Inr True by simp
      next
        case False
        then show ?thesis using 2(4) [OF j Inr False _ c] 2 j Inr by auto
      qed
    qed
  qed
qed simp

section \<open>The population\<close>

definition player_count :: "MatchMakingInfo \<Rightarrow> nat" where
  "player_count info = (case players info of Inl _ \<Rightarrow> 0 | Inr n \<Rightarrow> n)"

definition in_playlist :: "Population \<Rightarrow> u32 \<Rightarrow> nat" where
  "in_playlist p k = (case pp_playlists p k of None \<Rightarrow> 0 | Some n \<Rightarrow> n)"

definition no_empty_playlist :: "Population \<Rightarrow> bool" where
  "no_empty_playlist p \<longleftrightarrow> (\<forall>k n. pp_playlists p k = Some n \<longrightarrow> 0 < n)"

lemma population_add_ok:
  assumes "population_add info p = Inr p'"
  shows "pp_players p' = pp_players p + player_count info
    \<and> in_playlist p' k = in_playlist p k + (if playlist info = k then player_count info else 0)
    \<and> (no_empty_playlist p \<longrightarrow> no_empty_playlist p')"
  using assms
  by (auto simp: population_add_def player_count_def in_playlist_def no_empty_playlist_def Let_def
      split: sum.splits if_splits option.splits)

lemma population_loop_ok:
  assumes "population_loop sessions p cs = Inr p'"
  shows "pp_players p' = pp_players p + (\<Sum>c\<leftarrow>cs. case sessions c of None \<Rightarrow> 0 | Some i \<Rightarrow> player_count i)
    \<and> in_playlist p' k = in_playlist p k + (\<Sum>c\<leftarrow>cs. case sessions c of None \<Rightarrow> 0
        | Some i \<Rightarrow> if playlist i = k then player_count i else 0)
    \<and> (no_empty_playlist p \<longrightarrow> no_empty_playlist p')"
  using assms
proof (induction cs arbitrary: p)
  case (Cons c cs)
  show ?case
  proof (cases "sessions c")
    case None
    then show ?thesis using Cons by simp
  next
    case (Some i)
    then obtain p1 where p1: "population_add i p = Inr p1" "population_loop sessions p1 cs = Inr p'"
      using Cons.prems by (auto split: sum.splits)
    show ?thesis using Cons.IH [OF p1(2)] population_add_ok [OF p1(1), of k] Some by auto
  qed
qed simp

section \<open>Properties\<close>

text \<open>
  C22. A search lists what it should. The sessions it returns are advertised by other connections
  and match the query, no address appears twice, and there are no more of them than the
  limit; when there are fewer, every other session that matches is there with its address.
  The registry stays as it was. This holds in whatever order the table is iterated.
\<close>

theorem search_lists_matching:
  assumes "list_for order connection query s = (Inr infos, s')" "set order = dom (rg_sessions s)"
  shows "s' = s \<and> length infos \<le> max_results query \<and> distinct (map mi_address infos)
    \<and> (\<forall>i \<in> set infos. \<exists>c. c \<noteq> connection \<and> rg_sessions s c = Some i \<and> matches i query = Inr True)
    \<and> (length infos < max_results query \<longrightarrow> (\<forall>c i. c \<noteq> connection \<and> rg_sessions s c = Some i
        \<and> matches i query = Inr True \<longrightarrow> mi_address i \<in> set (map mi_address infos)))"
proof -
  have loop: "list_loop (rg_sessions s) connection query [] (max_results query) order = Inr infos" and "s' = s"
    using assms(1) by (auto simp: list_for_def locked_def split: if_splits sum.splits)
  then show ?thesis
    using list_loop_sound [OF loop] list_loop_complete [OF loop] assms(2) by (auto simp: domI)
qed

definition any_query :: SessionQuery where
  "any_query = \<lparr>sq_kind = 2, sq_limit = 50, sq_filters = [ANY, ANY, ANY, ANY, ANY, ANY], sq_extra = None\<rparr>"

theorem search_lists_matching_witness:
  "let infos = [lobby_info\<lparr>mi_host := id_draws 0, mi_key := replicate 16 3\<rparr>] in
    list_for [1] 2 any_query one_lobby = (Inr infos, one_lobby)
    \<and> length infos \<le> max_results any_query \<and> distinct (map mi_address infos)"
proof -
  let ?infos = "[lobby_info\<lparr>mi_host := id_draws 0, mi_key := replicate 16 3\<rparr>]"
  have "max_results any_query = 50" by (simp add: max_results_def any_query_def)
  then have run: "list_for [1] 2 any_query one_lobby = (Inr ?infos, one_lobby)"
    by (simp add: list_for_def locked_def create_one_lobby matches_def any_query_def wants_def)
  have "set [1] = dom (rg_sessions one_lobby)" by (simp add: create_one_lobby(2))
  from search_lists_matching [OF run this] show ?thesis using run by (simp add: Let_def)
qed

text \<open>
  The population is the sum of the players of the sessions, whatever the order in which the
  table is iterated: the total adds the used slots of all sessions, and each playlist
  appears with the total of its sessions when that is positive, and not at all otherwise.
\<close>

theorem population_sums_players:
  assumes "population order s = (Inr p, s')" "distinct order" "set order = dom (rg_sessions s)"
  shows "pp_players p = (\<Sum>c \<in> dom (rg_sessions s). player_count (the (rg_sessions s c)))
    \<and> pp_playlists p k = (let n = (\<Sum>c \<in> {c \<in> dom (rg_sessions s). playlist (the (rg_sessions s c)) = k}.
        player_count (the (rg_sessions s c))) in if n = 0 then None else Some n)"
proof -
  let ?d = "dom (rg_sessions s)"
  let ?count = "\<lambda>c. player_count (the (rg_sessions s c))"
  let ?in = "\<lambda>c. playlist (the (rg_sessions s c)) = k"
  have loop: "population_loop (rg_sessions s) \<lparr>pp_players = 0, pp_playlists = Map.empty\<rparr> order = Inr p"
    using assms(1) by (auto simp: population_def locked_def split: if_splits sum.splits)
  have sum: "(\<Sum>c\<leftarrow>order. case rg_sessions s c of None \<Rightarrow> 0 | Some i \<Rightarrow> f i)
    = (\<Sum>c \<in> ?d. f (the (rg_sessions s c)))" for f :: "MatchMakingInfo \<Rightarrow> nat"
  proof -
    have "(\<Sum>c\<leftarrow>order. case rg_sessions s c of None \<Rightarrow> 0 | Some i \<Rightarrow> f i)
      = (\<Sum>c \<in> ?d. case rg_sessions s c of None \<Rightarrow> 0 | Some i \<Rightarrow> f i)"
      using assms(2,3) by (simp add: sum_list_distinct_conv_sum_set)
    also have "\<dots> = (\<Sum>c \<in> ?d. f (the (rg_sessions s c)))" by (rule sum.cong) auto
    finally show ?thesis .
  qed
  have all: "pp_players p = (\<Sum>c \<in> ?d. ?count c)" "no_empty_playlist p"
    "in_playlist p k = (\<Sum>c \<in> ?d. if ?in c then ?count c else 0)"
    using population_loop_ok [OF loop, of k] sum [of player_count]
      sum [of "\<lambda>i. if playlist i = k then player_count i else 0"]
    by (simp_all add: no_empty_playlist_def in_playlist_def)
  have fin: "finite ?d" using assms(3) by (metis List.finite_set)
  have "in_playlist p k = (\<Sum>c \<in> {c \<in> ?d. ?in c}. ?count c)"
    using all(3) by (simp add: sum.inter_filter [OF fin])
  then have "pp_playlists p k = (let n = (\<Sum>c \<in> {c \<in> ?d. ?in c}. ?count c) in if n = 0 then None else Some n)"
    using all(2) unfolding in_playlist_def no_empty_playlist_def Let_def
    by (metis (no_types, lifting) less_irrefl option.exhaust option.simps(4,5))
  then show ?thesis using all(1) by simp
qed

theorem population_sums_players_witness:
  "\<exists>p. population [1] one_lobby = (Inr p, one_lobby)
    \<and> pp_players p = (\<Sum>c \<in> dom (rg_sessions one_lobby). player_count (the (rg_sessions one_lobby c)))
    \<and> pp_players p = 3 \<and> pp_playlists p 5 = Some 3"
proof -
  have n: "players (lobby_info\<lparr>mi_host := id_draws 0, mi_key := replicate 16 3\<rparr>) = Inr 3"
    by (simp add: players_def lobby_info_def max0_def checked_sadd_def fits_signed_def)
  let ?p = "\<lparr>pp_players = 3, pp_playlists = [5 \<mapsto> 3]\<rparr>"
  have run: "population [1] one_lobby = (Inr ?p, one_lobby)"
    by (simp add: population_def locked_def create_one_lobby population_add_def n)
      (simp add: playlist_def lobby_info_def)
  have "distinct [1 :: u64]" "set [1] = dom (rg_sessions one_lobby)" by (simp_all add: create_one_lobby(2))
  from population_sums_players [OF run this, of 5] run show ?thesis by (intro exI [of _ ?p]) simp
qed

text \<open>An id is taken for a connection when the session of another one has it.\<close>

definition host_taken :: "RegistryState \<Rightarrow> u64 \<Rightarrow> bytes \<Rightarrow> bool" where
  "host_taken s c h \<longleftrightarrow> (\<exists>d info. d \<noteq> c \<and> rg_sessions s d = Some info \<and> mi_host info = h)"

lemma host_taken_forget:
  assumes "registry_ok s"
  shows "rg_by_host (snd (forget c s)) h = None \<longleftrightarrow> \<not> host_taken s c h"
proof -
  have ok: "registry_ok (snd (forget c s))" "rg_sessions (snd (forget c s)) = (rg_sessions s)(c := None)"
    using registry_ok_forget [OF assms] forget_sessions(1) [OF assms] by simp_all
  have "(\<exists>d. rg_by_host (snd (forget c s)) h = Some d) \<longleftrightarrow> host_taken s c h"
  proof
    assume "\<exists>d. rg_by_host (snd (forget c s)) h = Some d"
    then obtain d where "rg_by_host (snd (forget c s)) h = Some d" ..
    then obtain info where "rg_sessions (snd (forget c s)) d = Some info" "mi_host info = h"
      using registry_ok_host [OF ok(1)] by metis
    then show "host_taken s c h" unfolding ok(2) host_taken_def by (auto split: if_splits)
  next
    assume "host_taken s c h"
    then obtain d info where "d \<noteq> c" "rg_sessions s d = Some info" "mi_host info = h" by (auto simp: host_taken_def)
    then have "rg_sessions (snd (forget c s)) d = Some info" "mi_host info = h" unfolding ok(2) by simp_all
    then show "\<exists>d. rg_by_host (snd (forget c s)) h = Some d" using registry_okD(2) [OF ok(1)] by blast
  qed
  then show ?thesis by (cases "rg_by_host (snd (forget c s)) h") auto
qed

lemma mint_loop_first:
  "\<lbrakk>rg_by_host s (ids (i + k)) = None; \<And>j. j < k \<Longrightarrow> rg_by_host s (ids (i + j)) \<noteq> None\<rbrakk>
    \<Longrightarrow> mint_loop ids s i = Some (ids (i + k))"
proof (induction k arbitrary: i)
  case 0
  then show ?case by (simp add: mint_loop.simps)
next
  case (Suc k)
  have "mint_loop ids s (Suc i) = Some (ids (Suc i + k))"
  proof (rule Suc.IH)
    show "rg_by_host s (ids (Suc i + k)) = None" using Suc.prems(1) by simp
    show "rg_by_host s (ids (Suc i + j)) \<noteq> None" if "j < k" for j using Suc.prems(2) [of "Suc j"] that by simp
  qed
  moreover have "rg_by_host s (ids i) \<noteq> None" using Suc.prems(2) [of 0] by simp
  ultimately show ?case by (auto simp: mint_loop.simps [of ids s i])
qed

text \<open>
  C23. Creating a session ends. When any of the drawn ids is one that no other connection's session
  has, the loop that draws ids returns, with the first such draw: every draw before it is
  taken, and it is not. The creation then returns that id and the secret; the session is
  stored under the connection with both, all other sessions are as they were, and the
  registry stays consistent. An update by a connection that has no session does the same.
\<close>

theorem create_returns:
  assumes "registry_ok s" "\<not> rg_poisoned s" "draws_ok ids" "\<not> host_taken s c (ids i)"
  shows "\<exists>k s'. k \<le> i \<and> \<not> host_taken s c (ids k) \<and> (\<forall>j < k. host_taken s c (ids j))
    \<and> registry_create ids secret c info s = (Inr (ids k, secret), s') \<and> registry_ok s' \<and> \<not> rg_poisoned s'
    \<and> rg_sessions s' = (rg_sessions s)(c \<mapsto> info\<lparr>mi_host := ids k, mi_key := secret\<rparr>)
    \<and> (rg_sessions s c = None \<longrightarrow> registry_update ids secret c info s = (Inr False, s'))"
proof -
  let ?s1 = "snd (forget c s)"
  define k where "k = (LEAST k. \<not> host_taken s c (ids k))"
  have k: "k \<le> i" "\<not> host_taken s c (ids k)" "\<forall>j < k. host_taken s c (ids j)"
    using Least_le [of "\<lambda>k. \<not> host_taken s c (ids k)" i] LeastI [of "\<lambda>k. \<not> host_taken s c (ids k)" i] assms(4)
    by (auto simp: k_def dest: not_less_Least)
  have h: "mint_loop ids ?s1 0 = Some (ids k)"
    using mint_loop_first [of ?s1 ids 0 k] k(2,3) by (simp add: host_taken_forget [OF assms(1)])
  obtain s' where s': "registry_create ids secret c info s = (Inr (ids k, secret), s')" "registry_ok s'" "\<not> rg_poisoned s'"
    "rg_sessions s' = (rg_sessions s)(c \<mapsto> info\<lparr>mi_host := ids k, mi_key := secret\<rparr>)"
    using registry_create_ok [OF assms(1-3) h] by blast
  have "registry_update ids secret c info s = (Inr False, s')" if "rg_sessions s c = None"
  proof -
    have f: "forget c s = (Inr None, s)" using that by (simp add: forget_def)
    have m: "mint ids secret s = (Inr (ids k, secret), s)" using h f by (simp add: mint_def)
    obtain r where r: "remember c (info\<lparr>mi_host := ids k, mi_key := secret\<rparr>) s = (Inr (), r)"
      by (simp add: remember_def monad_simps)
    have "registry_create ids secret c info s = (Inr (ids k, secret), r)"
      using assms(2) by (simp add: registry_create_def locked_def bindE_def thenE_def f m r monad_simps)
    moreover have "registry_update ids secret c info s = (Inr False, r)"
      using assms(2) by (simp add: registry_update_def locked_def bindE_def thenE_def f m r monad_simps)
    ultimately show ?thesis using s'(1) by simp
  qed
  with k s' show ?thesis by (intro exI [of _ k] exI [of _ s'] conjI impI) assumption+
qed

text \<open>Connection 1 has the id of draw 0, so connection 2 gets that of draw 1.\<close>

theorem create_returns_witness:
  "\<exists>s'. registry_create id_draws [7] 2 lobby_info one_lobby = (Inr (id_draws 1, [7]), s')
    \<and> rg_sessions s' 2 = Some (lobby_info\<lparr>mi_host := id_draws 1, mi_key := [7]\<rparr>)
    \<and> registry_update id_draws [7] 2 lobby_info one_lobby = (Inr False, s')"
proof -
  have taken: "host_taken one_lobby 2 (id_draws 0)" "\<not> host_taken one_lobby 2 (id_draws 1)"
    by (auto simp: host_taken_def create_one_lobby(2) id_draws_def)
  obtain k s' where k: "k \<le> 1" "\<not> host_taken one_lobby 2 (id_draws k)"
      and s': "registry_create id_draws [7] 2 lobby_info one_lobby = (Inr (id_draws k, [7]), s')"
        "rg_sessions s' = (rg_sessions one_lobby)(2 \<mapsto> lobby_info\<lparr>mi_host := id_draws k, mi_key := [7]\<rparr>)"
        "rg_sessions one_lobby 2 = None \<longrightarrow> registry_update id_draws [7] 2 lobby_info one_lobby = (Inr False, s')"
    using create_returns [OF registry_reachable_ok [OF one_lobby_reachable] create_one_lobby(3) id_draws_ok taken(2),
        of "[7]" lobby_info] by (elim exE conjE) (rule that)
  have "k = 1" using k taken(1) by (cases k) auto
  then show ?thesis using s' by (simp add: create_one_lobby(2))
qed

text \<open>
  One session whose free slots overflow when they are added takes the whole registry down.
  A search that filters by free slots and meets such a session panics while it holds the
  lock, and from then on every creation, update, deletion, search and count, of any
  connection, panics too: no later session is registered or found.
\<close>

theorem slot_overflow_poisons:
  assumes "\<not> rg_poisoned s" "c \<in> set order" "rg_sessions s c = Some i" "c \<noteq> connection"
    and "matches i query = Inl Panic" "length order \<le> max_results query"
  shows "\<exists>s'. list_for order connection query s = (Inl Panic, s')
    \<and> registry_create ids secret d info s' = (Inl Panic, s') \<and> registry_update ids secret d info s' = (Inl Panic, s')
    \<and> (length h = 8 \<longrightarrow> registry_delete d h s' = (Inl Panic, s')) \<and> remove_connection d s' = (Inl Panic, s')
    \<and> list_for order' d query' s' = (Inl Panic, s') \<and> population order' s' = (Inl Panic, s')"
proof -
  have "list_loop (rg_sessions s) connection query [] (max_results query) order = Inl Panic"
    by (rule list_loop_panic [where sessions = "rg_sessions s", OF assms(6,2,4,3,5)])
  then have "list_for order connection query s = (Inl Panic, s\<lparr>rg_poisoned := True\<rparr>)"
    using assms(1) by (simp add: list_for_def locked_def)
  moreover have "rg_poisoned (s\<lparr>rg_poisoned := True\<rparr>)" by simp
  ultimately show ?thesis
    by (intro exI [of _ "s\<lparr>rg_poisoned := True\<rparr>"])
      (simp add: registry_create_def registry_update_def registry_delete_def remove_connection_def
        list_for_def population_def locked_poisoned ID_LEN_def HOST_LEN_def)
qed

definition overflowing_info :: MatchMakingInfo where
  "overflowing_info = lobby_info\<lparr>mi_free_public_slots := 0x7FFFFFFF, mi_free_private_slots := 1\<rparr>"

definition bad_registry :: RegistryState where
  "bad_registry = \<lparr>rg_sessions = [1 \<mapsto> overflowing_info], rg_by_host = [replicate 8 0 \<mapsto> 1], rg_poisoned = False\<rparr>"

definition slots_query :: SessionQuery where
  "slots_query = any_query\<lparr>sq_filters := [ANY, ANY, ANY, ANY, ANY, 2]\<rparr>"

theorem slot_overflow_poisons_witness:
  "\<exists>s'. list_for [1] 2 slots_query bad_registry = (Inl Panic, s')
    \<and> registry_create id_draws [7] 3 lobby_info s' = (Inl Panic, s')
    \<and> registry_update id_draws [7] 3 lobby_info s' = (Inl Panic, s')
    \<and> (length (id_draws 0) = 8 \<longrightarrow> registry_delete 3 (id_draws 0) s' = (Inl Panic, s'))
    \<and> remove_connection 3 s' = (Inl Panic, s')
    \<and> list_for [] 3 any_query s' = (Inl Panic, s') \<and> population [] s' = (Inl Panic, s')"
proof (rule slot_overflow_poisons)
  show "matches overflowing_info slots_query = Inl Panic"
    by (simp add: matches_def wants_def slots_query_def any_query_def ANY_def free_slots_def overflowing_info_def
        max0_def checked_sadd_def fits_signed_def)
  show "length [1] \<le> max_results slots_query"
    by (simp add: max_results_def slots_query_def any_query_def)
  show "(1 :: u64) \<noteq> 2" by simp
qed (simp_all add: bad_registry_def)

end
