(* ===== verification/Service_Support.thy ===== *)
theory Service_Support
  imports Lobby Request_Loops
begin

text \<open>
  What the handlers of the small lobby services share. Such a handler is generic over a service
  (a trait object of the source): here its world is the state of the service, and a server
  embeds it into its own world with \<open>in_world\<close>. Requests that list ids of unknown number are
  read by \<open>read_u32_list\<close> and \<open>read_u64_list\<close>. \<open>answers\<close> runs a handler on requests that arrive on
  any connections, one after the other.
\<close>

section \<open>Services in a world\<close>

definition on_service :: "('s, bd_error, 'a) sm \<Rightarrow> ('s, 'a) act" where
  "on_service m = (\<lambda>conn. case m (c_world conn) of (x, s) \<Rightarrow> (x, conn\<lparr>c_world := s\<rparr>))"

definition the_session :: "('w, BdSession) act" where
  "the_session = (\<lambda>conn. (Inr (c_session conn), conn))"

text \<open>An operation of a service that unwraps the identity of the session.\<close>

definition authenticated :: "BdSession \<Rightarrow> (SessionAuthentication \<Rightarrow> ('s, bd_error, 'a) sm) \<Rightarrow> ('s, bd_error, 'a) sm" where
  "authenticated session m =
    (case s_authentication session of None \<Rightarrow> throwE Panic | Some authentication \<Rightarrow> m authentication)"

definition in_world :: "('w \<Rightarrow> 's) \<Rightarrow> ('s \<Rightarrow> 'w \<Rightarrow> 'w) \<Rightarrow> ('s, 'a) act \<Rightarrow> ('w, 'a) act" where
  "in_world get put m = (\<lambda>conn.
    case m \<lparr>c_session = c_session conn, c_sent = c_sent conn, c_transaction = c_transaction conn,
            c_world = get (c_world conn)\<rparr> of
      (x, conn') \<Rightarrow> (x, \<lparr>c_session = c_session conn', c_sent = c_sent conn',
         c_transaction = c_transaction conn', c_world = put (c_world conn') (c_world conn)\<rparr>))"

text \<open>A request: the session it comes from, the number of the next transaction of its
  connection, and the message.\<close>

type_synonym request = "BdSession \<times> u64 \<times> reader"

definition answer ::
  "(reader \<Rightarrow> ('w, BdResponse) act) \<Rightarrow> request \<Rightarrow> 'w \<Rightarrow> (bd_error + BdResponse) \<times> 'w" where
  "answer handle q w =
    (case q of (s, tid, r) \<Rightarrow>
      case handle r \<lparr>c_session = s, c_sent = [], c_transaction = tid, c_world = w\<rparr> of
        (x, conn) \<Rightarrow> (x, c_world conn))"

fun answers ::
  "(reader \<Rightarrow> ('w, BdResponse) act) \<Rightarrow> request list \<Rightarrow> 'w \<Rightarrow> (bd_error + BdResponse) list \<times> 'w" where
  "answers handle [] w = ([], w)"
| "answers handle (q # qs) w =
    (case answer handle q w of (x, w1) \<Rightarrow> case answers handle qs w1 of (xs, w2) \<Rightarrow> (x # xs, w2))"

lemma on_service_ok: "m (c_world conn) = (x, s) \<Longrightarrow> on_service m conn = (x, conn\<lparr>c_world := s\<rparr>)"
  by (simp add: on_service_def)

lemma bind_on_service:
  "m (c_world conn) = (Inr x, s) \<Longrightarrow> bindE (on_service m) f conn = f x (conn\<lparr>c_world := s\<rparr>)"
  by (simp add: on_service_def bindE_def)

lemma bind_on_service_err:
  "m (c_world conn) = (Inl e, s) \<Longrightarrow> bindE (on_service m) f conn = (Inl e, conn\<lparr>c_world := s\<rparr>)"
  by (simp add: on_service_def bindE_def)

lemma bind_the_session: "bindE the_session f conn = f (c_session conn) conn"
  by (simp add: the_session_def bindE_def)

lemma run_rd_ok: "m r = (Inr v, r') \<Longrightarrow> run_rd m r conn = (Inr (v, r'), conn)"
  by (simp add: run_rd_def)

lemma run_rd_err: "m r = (Inl e, r') \<Longrightarrow> run_rd m r conn = (Inl e, conn)"
  by (simp add: run_rd_def)

text \<open>A chain of \<open>run_rd\<close>, \<open>the_session\<close> and service operations whose results are known.\<close>

lemma bind_run_rd: "m r = (Inr v, r') \<Longrightarrow> bindE (run_rd m r) f conn = f (v, r') conn"
  by (simp add: run_rd_def bindE_def)

lemma bind_run_rd_err: "m r = (Inl e, r') \<Longrightarrow> bindE (run_rd m r) f conn = (Inl e, conn)"
  by (simp add: run_rd_def bindE_def)

section \<open>Values of requests\<close>

abbreviation enc_u8 :: "u8 \<Rightarrow> bool list" where
  "enc_u8 \<equiv> enc_scalar UnsignedChar8Type BitMode True"

abbreviation enc_u32 :: "u32 \<Rightarrow> bool list" where
  "enc_u32 \<equiv> enc_scalar UnsignedInteger32Type BitMode True"

abbreviation enc_i64 :: "i64 \<Rightarrow> bool list" where
  "enc_i64 \<equiv> enc_scalar SignedInteger64Type BitMode True"

abbreviation enc_u64 :: "u64 \<Rightarrow> bool list" where
  "enc_u64 \<equiv> enc_scalar UnsignedInteger64Type BitMode True"

lemmas reads_u8 = u8_c.reads [OF any_value, of BitMode True]
lemmas reads_u32 = u32_c.reads [OF any_value, of BitMode True]
lemmas reads_u64 = u64_c.reads [OF any_value, of BitMode True]
lemmas reads_i64 = i64_c.reads [OF any_value, of BitMode True]
lemmas reads_bool = bool_c.reads [OF any_value, of BitMode True]
lemmas writes_u32 = u32_c.writes [OF any_value, of BitMode True]
lemmas writes_u64 = u64_c.writes [OF any_value, of BitMode True]
lemmas writes_i64 = i64_c.writes [OF any_value, of BitMode True]
lemmas writes_bool = bool_c.writes [OF any_value, of BitMode True]

lemma enc_scalar_not_Nil [simp]: "enc_scalar t BitMode True v \<noteq> []"
  by (simp add: enc_scalar_def tagged_def tag_bits_def)

lemma reads_short_blob: "length b < 2 ^ 32 \<Longrightarrow> reads BitMode True (enc_blob BitMode True b) read_blob b"
  by (rule reads_blob_val) (simp add: blob_ok_def)

text \<open>Reading a value off a message that is ready.\<close>

lemma reads_ready:
  assumes "reads BitMode True bs m v" "ready BitMode True r" "rbits r = bs @ rest"
  obtains r' where "m r = (Inr v, r')" "ready BitMode True r'" "rbits r' = rest"
  using consumes_reads [OF assms(1)] assms(2,3) unfolding consumes_def by blast

lemma read_word_padding:
  assumes "ready BitMode True r" "rbits r = replicate pad False" "t \<noteq> NoType"
  shows "\<exists>e r1. bindE (read_scalar t n) f r = (Inl e, r1) \<and> e \<noteq> Panic"
proof -
  obtain x r' where "read_data_type r = (x, r')" "x \<in> {Inl IoUnexpectedEof, Inr (no_array NoType)}"
    using read_data_type_padding [OF assms(1,2)] by blast
  then show ?thesis using readyD [OF assms(1)] assms(3)
    by (auto simp: read_scalar_def expect_type_def thenE_def bindE_def monad_simps eq_non_array_def no_array_def)
qed

definition read_u32_list :: "u32 list rd" where
  "read_u32_list = read_all (okE (next_is UnsignedInteger32Type) False) read_u32"

definition read_u64_list :: "u64 list rd" where
  "read_u64_list = read_all (okE (next_is UnsignedInteger64Type) False) read_u64"

lemma read_u32_list_values:
  assumes "ready BitMode True r" "rbits r = concat (map enc_u32 ids) @ replicate pad False"
  obtains r' where "read_u32_list r = (Inr ids, r')"
  unfolding read_u32_list_def
proof (rule read_all_values [OF _ _ assms])
  fix r v rest assume "ready BitMode True r" "rbits r = enc_u32 v @ rest"
  then obtain r1 r2 where "next_is UnsignedInteger32Type r = (Inr True, r1)" "read_u32 r1 = (Inr v, r2)"
      "ready BitMode True r2" "rbits r2 = rest" by (rule peek_u32)
  then show "\<exists>r1 r2. okE (next_is UnsignedInteger32Type) False r = (Inr True, r1) \<and> read_u32 r1 = (Inr v, r2)
      \<and> ready BitMode True r2 \<and> rbits r2 = rest" by (metis okE_ok)
next
  fix r assume "ready BitMode True r" "rbits r = replicate pad False"
  then show "\<exists>r1. okE (next_is UnsignedInteger32Type) False r = (Inr False, r1)"
    by (rule next_is_padding) simp
qed simp_all

lemma read_u64_list_values:
  assumes "ready BitMode True r" "rbits r = concat (map enc_u64 ids) @ replicate pad False"
  obtains r' where "read_u64_list r = (Inr ids, r')"
  unfolding read_u64_list_def
proof (rule read_all_values [OF _ _ assms])
  fix r v rest assume "ready BitMode True r" "rbits r = enc_u64 v @ rest"
  then obtain r1 r2 where "next_is UnsignedInteger64Type r = (Inr True, r1)" "read_u64 r1 = (Inr v, r2)"
      "ready BitMode True r2" "rbits r2 = rest" by (rule peek_u64)
  then show "\<exists>r1 r2. okE (next_is UnsignedInteger64Type) False r = (Inr True, r1) \<and> read_u64 r1 = (Inr v, r2)
      \<and> ready BitMode True r2 \<and> rbits r2 = rest" by (metis okE_ok)
next
  fix r assume "ready BitMode True r" "rbits r = replicate pad False"
  then show "\<exists>r1. okE (next_is UnsignedInteger64Type) False r = (Inr False, r1)"
    by (rule next_is_padding) simp
qed simp_all

lemma consuming_small [consuming_intros]: "consuming 1 read_u8" "consuming 1 read_u16"
  unfolding read_u8_def read_u16_def by (intro consuming_intros; simp)+

lemma consuming_0_bind:
  assumes "consuming k m" "safe m" "\<And>x. consuming 0 (f x)"
  shows "consuming 0 (bindE m f)"
  by (rule consuming_weaken [OF consuming_bind [OF assms]]) simp

lemma safe_ok [safe_intros]: "safe m \<Longrightarrow> safe (okE m d)"
  unfolding safe_def okE_def by (fastforce split: prod.splits sum.splits)

lemma safe_lists [safe_intros]: "safe read_u32_list" "safe read_u64_list"
  unfolding read_u32_list_def read_u64_list_def by (intro safe_intros consuming_intros)+

section \<open>Handlers that do no harm\<close>

text \<open>A reply is sent whenever its results can be written.\<close>

definition writable_result :: "wr \<Rightarrow> bool" where
  "writable_result w \<longleftrightarrow> (\<exists>bs. writes BitMode True bs w)"

lemma writable_resultI: "writes BitMode True bs w \<Longrightarrow> writable_result w"
  by (auto simp: writable_result_def)

lemma task_reply_sent:
  assumes "\<And>w. w \<in> set (tr_results t) \<Longrightarrow> writable_result w"
  obtains data where "task_to_response t = Inr (encrypted_if_available data)"
proof -
  obtain e where e: "\<And>w. w \<in> set (tr_results t) \<Longrightarrow> writes BitMode True (e w) w"
    using assms unfolding writable_result_def by metis
  let ?count = "if tr_counted t then write_u32 (of_nat (length (tr_results t))) else returnE ()"
  have results: "emits BitMode True (concat (map e (tr_results t))) (foreachE id (tr_results t)) BitMode True"
    using writes_foreach [of "tr_results t" BitMode True e id] e by (simp add: emits_writes)
  have count: "emits BitMode True (if tr_counted t then enc_u32 (of_nat (length (tr_results t))) else []) ?count BitMode True"
    using emits_value(2) emits_writes [OF writes_return] by auto
  have "emits ByteMode False (header_bits 1 @ enc_u64 (tr_transaction_id t)
      @ enc_u32 (error_code_to_u32 (tr_error_code t)) @ enc_u8 (tr_operation_id t)
      @ (if tr_counted t then enc_u32 (of_nat (length (tr_results t))) else []) @ concat (map e (tr_results t)))
    (thenE (write_header 1) (thenE (write_u64 (tr_transaction_id t)) (thenE (write_u32 (error_code_to_u32 (tr_error_code t)))
      (thenE (write_u8 (tr_operation_id t)) (thenE ?count (foreachE id (tr_results t))))))) BitMode True"
    by (intro emits_then [OF emits_header] emits_then [OF emits_value(3)] emits_then [OF emits_value(2)]
        emits_then [OF emits_value(1)] emits_then [OF count results])
  from run_writer_flushed [OF this] obtain data where "run_writer (task_reply_writer t) = Inr data"
    by (auto simp: task_reply_writer_def thenE_assoc)
  then show thesis using that by (simp add: task_to_response_def)
qed

lemma transaction_taken:
  assumes "c_transaction conn < 2 ^ 64 - 1"
  shows "next_transaction_id conn = (Inr (c_transaction conn), conn\<lparr>c_transaction := c_transaction conn + 1\<rparr>)"
  using assms by (simp add: next_transaction_id_def checked_add_def word_less_nat_alt)

lemma reply_results_sent:
  assumes "c_transaction conn < 2 ^ 64 - 1" "\<And>w. w \<in> set ws \<Longrightarrow> writable_result w"
  obtains data where "reply_results op ws conn
    = (Inr (encrypted_if_available data), conn\<lparr>c_transaction := c_transaction conn + 1\<rparr>)"
proof -
  obtain data where "task_to_response \<lparr>tr_transaction_id = c_transaction conn, tr_error_code = NoError,
      tr_operation_id = op, tr_results = ws, tr_counted = True\<rparr> = Inr (encrypted_if_available data)"
    using task_reply_sent assms(2) by (metis TaskReply.select_convs(4))
  then show thesis using that
    by (simp add: reply_results_def with_results_def bindE_def transaction_taken [OF assms(1)] monad_simps)
qed

text \<open>A handler that, whatever arrives, answers with the next transaction or fails with an error
  that is no panic, and changes nothing else.\<close>

definition harmless :: "(reader \<Rightarrow> ('w, BdResponse) act) \<Rightarrow> bool" where
  "harmless handle \<longleftrightarrow> (\<forall>r conn. reader_inv r \<and> c_transaction conn < 2 ^ 64 - 1 \<longrightarrow>
     (case handle r conn of
        (Inl e, conn') \<Rightarrow> e \<noteq> Panic \<and> conn' = conn
      | (Inr response, conn') \<Rightarrow> (\<exists>data. response = encrypted_if_available data)
          \<and> conn' = conn\<lparr>c_transaction := c_transaction conn + 1\<rparr>))"

named_theorems harmless_intros \<open>handlers that do no harm\<close>

lemma harmless_reply_only [harmless_intros]: "harmless (\<lambda>r. reply_only code op)"
  unfolding harmless_def
proof (intro allI impI)
  fix r and conn :: "'a conn" assume "reader_inv r \<and> c_transaction conn < 2 ^ 64 - 1"
  then obtain data where "reply_only code op conn
      = (Inr (encrypted_if_available data), conn\<lparr>c_transaction := c_transaction conn + 1\<rparr>)"
    using reply_only_ok by blast
  then show "case reply_only code op conn of (Inl e, conn') \<Rightarrow> e \<noteq> Panic \<and> conn' = conn
    | (Inr response, conn') \<Rightarrow> (\<exists>data. response = encrypted_if_available data)
        \<and> conn' = conn\<lparr>c_transaction := c_transaction conn + 1\<rparr>" by auto
qed

lemma harmless_reply_results [harmless_intros]:
  assumes "\<And>w. w \<in> set ws \<Longrightarrow> writable_result w"
  shows "harmless (\<lambda>r. reply_results op ws)"
  unfolding harmless_def
proof (intro allI impI)
  fix r and conn :: "'a conn" assume "reader_inv r \<and> c_transaction conn < 2 ^ 64 - 1"
  then obtain data where "reply_results op ws conn
      = (Inr (encrypted_if_available data), conn\<lparr>c_transaction := c_transaction conn + 1\<rparr>)"
    using reply_results_sent assms by blast
  then show "case reply_results op ws conn of (Inl e, conn') \<Rightarrow> e \<noteq> Panic \<and> conn' = conn
    | (Inr response, conn') \<Rightarrow> (\<exists>data. response = encrypted_if_available data)
        \<and> conn' = conn\<lparr>c_transaction := c_transaction conn + 1\<rparr>" by auto
qed

lemma harmless_read [harmless_intros]:
  fixes f :: "'v \<Rightarrow> reader \<Rightarrow> ('a, BdResponse) act"
  assumes "safe m" "\<And>v. harmless (f v)"
  shows "harmless (\<lambda>r. bindE (run_rd m r) (\<lambda>(v, r1). f v r1))"
  unfolding harmless_def
proof (intro allI impI)
  fix r and conn :: "'a conn" assume r: "reader_inv r \<and> c_transaction conn < 2 ^ 64 - 1"
  obtain x r1 where m: "m r = (x, r1)" by fastforce
  have s: "x \<noteq> Inl Panic" "reader_inv r1" using safeD [OF assms(1), of r] r m by auto
  show "case bindE (run_rd m r) (\<lambda>(v, r1). f v r1) conn of (Inl e, conn') \<Rightarrow> e \<noteq> Panic \<and> conn' = conn
    | (Inr response, conn') \<Rightarrow> (\<exists>data. response = encrypted_if_available data)
        \<and> conn' = conn\<lparr>c_transaction := c_transaction conn + 1\<rparr>"
  proof (cases x)
    case (Inl e)
    then show ?thesis using m s(1) by (simp add: bindE_def run_rd_def)
  next
    case (Inr v)
    then have run: "bindE (run_rd m r) (\<lambda>(v, r1). f v r1) conn = f v r1 conn"
      using m by (simp add: bindE_def run_rd_def)
    show ?thesis unfolding run using assms(2) [of v] s(2) r by (simp add: harmless_def)
  qed
qed

lemma harmless_option [harmless_intros]:
  "harmless f \<Longrightarrow> (\<And>t. harmless (g t)) \<Longrightarrow> harmless (\<lambda>r. case x of None \<Rightarrow> f r | Some t \<Rightarrow> g t r)"
  by (cases x) simp_all

section \<open>Concrete messages\<close>

lemma reader_in_ready:
  assumes "8 dvd length bits"
  shows "ready BitMode True (reader_in BitMode True (pack bits))" "rbits (reader_in BitMode True (pack bits)) = bits"
  using assms
  by (simp_all add: ready_def reader_in_def reader_new_def reader_inv_def bytes_bits_pack rbits_def
      pending_bits_def cursor_rest_def)

text \<open>The reader of a message behind its header, padded to whole bytes.\<close>

definition padding :: "nat \<Rightarrow> nat" where
  "padding n = (8 - n mod 8) mod 8"

definition message_reader :: "bool list \<Rightarrow> reader" where
  "message_reader bits = reader_in BitMode True (pack (bits @ replicate (padding (length bits)) False))"

lemma message_reader:
  "ready BitMode True (message_reader bits)"
  "rbits (message_reader bits) = bits @ replicate (padding (length bits)) False"
proof -
  obtain k m where n: "length bits = 8 * k + m" "m < 8"
    using div_mult_mod_eq [of "length bits" 8] by (metis mod_less_divisor mult.commute zero_less_numeral)
  have "length bits + padding (length bits) = (if m = 0 then 8 * k else 8 * (k + 1))"
    using n by (simp add: padding_def)
  then have "(length bits + padding (length bits)) mod 8 = 0" by simp
  then have dvd: "8 dvd length (bits @ replicate (padding (length bits)) False)" by (simp add: dvd_eq_mod_eq_0)
  show "ready BitMode True (message_reader bits)"
    "rbits (message_reader bits) = bits @ replicate (padding (length bits)) False"
    unfolding message_reader_def by (rule reader_in_ready [OF dvd])+
qed

end
