(* ===== verification/Matchmaking_Handler.thy ===== *)
theory Matchmaking_Handler
  imports Registry_Search Service_Support
begin

text \<open>
  The matchmaking service (libbitdemon/src/lobby/matchmaking/handler.rs and the formats of
  session.rs): a client advertises a session, updates and deletes it, and searches. The world
  of the handler is the registry.
\<close>

section \<open>Formats\<close>

definition info_deserialize :: "MatchMakingInfo rd" where
  "info_deserialize =
    bindE read_blob (\<lambda>address.
    bindE read_blob (\<lambda>host.
    bindE read_blob (\<lambda>key.
    thenE (ensureE (length address = ADDRESS_LEN \<and> length host = HOST_LEN \<and> length key = KEY_LEN)
             (MalformedAdvertisementError (length address) (length host) (length key)))
    (bindE read_i32 (\<lambda>free_public_slots.
     bindE read_i32 (\<lambda>used_public_slots.
     bindE read_i32 (\<lambda>free_private_slots.
     bindE read_i32 (\<lambda>used_private_slots.
     bindE (repeatE 9 read_i32) (\<lambda>title_data.
     returnE \<lparr>mi_address = address, mi_host = host, mi_key = key,
       mi_free_public_slots = free_public_slots, mi_used_public_slots = used_public_slots,
       mi_free_private_slots = free_private_slots, mi_used_private_slots = used_private_slots,
       mi_title_data = title_data\<rparr>)))))))))"

definition info_serialize :: "MatchMakingInfo \<Rightarrow> wr" where
  "info_serialize i =
    thenE (write_blob (mi_address i))
    (thenE (write_blob (mi_host i))
    (thenE (write_blob (mi_key i))
    (thenE (write_i32 (mi_free_public_slots i))
    (thenE (write_i32 (mi_used_public_slots i))
    (thenE (write_i32 (mi_free_private_slots i))
    (thenE (write_i32 (mi_used_private_slots i))
           (foreachE write_i32 (mi_title_data i))))))))"

definition create_result_serialize :: "bytes \<times> bytes \<Rightarrow> wr" where
  "create_result_serialize r = thenE (write_blob (fst r)) (write_blob (snd r))"

definition query_deserialize :: "SessionQuery rd" where
  "query_deserialize =
    bindE read_i32 (\<lambda>kind.
    bindE read_i32 (\<lambda>limit.
    bindE (repeatE 6 read_i32) (\<lambda>filters.
    bindE (if kind = 2 then bindE read_i32 (\<lambda>e. returnE (Some e)) else returnE None) (\<lambda>extra.
    returnE \<lparr>sq_kind = kind, sq_limit = limit, sq_filters = filters, sq_extra = extra\<rparr>))))"

definition read_trailer :: "unit rd" where
  "read_trailer = bindE (repeatE 2 (read_bits [0] 8)) (\<lambda>_. returnE ())"

definition read_advertisement :: "MatchMakingInfo rd" where
  "read_advertisement = bindE info_deserialize (\<lambda>info. thenE read_trailer (returnE info))"

section \<open>Tasks\<close>

datatype MatchMakingTaskId = CreateSession | UpdateSession | DeleteSession | FindSessions

definition matchmaking_task_from_u8 :: "u8 \<Rightarrow> MatchMakingTaskId option" where
  "matchmaking_task_from_u8 v =
    (if v = 1 then Some CreateSession else if v = 2 then Some UpdateSession
     else if v = 3 then Some DeleteSession else if v = 5 then Some FindSessions else None)"

text \<open>An operation of the registry, run by a handler.\<close>

definition on_registry :: "'a registry \<Rightarrow> (RegistryState, 'a) act" where
  "on_registry m = (\<lambda>conn. case m (c_world conn) of (x, w) \<Rightarrow> (x, conn\<lparr>c_world := w\<rparr>))"

definition session_id :: "('w, u64) act" where
  "session_id = (\<lambda>conn. (Inr (s_id (c_session conn)), conn))"

definition create_session :: "(nat \<Rightarrow> bytes) \<Rightarrow> bytes \<Rightarrow> reader \<Rightarrow> (RegistryState, BdResponse) act" where
  "create_session ids rnd_secret r =
    bindE (run_rd read_advertisement r) (\<lambda>(info, _).
    bindE session_id (\<lambda>connection.
    bindE (on_registry (registry_create ids rnd_secret connection info)) (\<lambda>created.
    reply_results 1 [create_result_serialize created])))"

text \<open>The trace message adds the public slots up, with the overflow check of all additions:
  src/run.bash turns tracing on.\<close>

definition update_session :: "(nat \<Rightarrow> bytes) \<Rightarrow> bytes \<Rightarrow> reader \<Rightarrow> (RegistryState, BdResponse) act" where
  "update_session ids rnd_secret r =
    bindE (run_rd read_advertisement r) (\<lambda>(info, _).
    bindE (liftE (checked_sadd (mi_used_public_slots info) (mi_free_public_slots info))) (\<lambda>_.
    bindE session_id (\<lambda>connection.
    bindE (on_registry (registry_update ids rnd_secret connection info)) (\<lambda>_.
    reply_only NoError 2))))"

definition delete_session :: "reader \<Rightarrow> (RegistryState, BdResponse) act" where
  "delete_session r =
    bindE (run_rd read_blob r) (\<lambda>(host, _).
    bindE session_id (\<lambda>connection.
    bindE (on_registry (registry_delete connection host)) (\<lambda>removed.
    reply_only NoError 3)))"

definition find_sessions :: "u64 list \<Rightarrow> reader \<Rightarrow> (RegistryState, BdResponse) act" where
  "find_sessions order r =
    bindE (run_rd (bindE query_deserialize (\<lambda>query. thenE read_trailer (returnE query))) r) (\<lambda>(query, _).
    bindE session_id (\<lambda>connection.
    bindE (on_registry (list_for order connection query)) (\<lambda>infos.
    reply_results 5 (map info_serialize infos))))"

definition matchmaking_handle ::
  "(nat \<Rightarrow> bytes) \<Rightarrow> bytes \<Rightarrow> u64 list \<Rightarrow> reader \<Rightarrow> (RegistryState, BdResponse) act" where
  "matchmaking_handle ids rnd_secret order r =
    bindE (run_rd read_u8 r) (\<lambda>(task_id_value, r1).
    bindE (run_rd read_u8 r1) (\<lambda>(unrecovered, r2).
    case matchmaking_task_from_u8 task_id_value of
      None \<Rightarrow> reply_only ServiceNotAvailable task_id_value
    | Some CreateSession \<Rightarrow> create_session ids rnd_secret r2
    | Some UpdateSession \<Rightarrow> update_session ids rnd_secret r2
    | Some DeleteSession \<Rightarrow> delete_session r2
    | Some FindSessions \<Rightarrow> find_sessions order r2))"

section \<open>Round trips\<close>

definition info_ok :: "MatchMakingInfo \<Rightarrow> bool" where
  "info_ok i \<longleftrightarrow> length (mi_address i) = ADDRESS_LEN \<and> length (mi_host i) = HOST_LEN
    \<and> length (mi_key i) = KEY_LEN \<and> length (mi_title_data i) = 9"

definition enc_i32 :: "i32 \<Rightarrow> bool list" where
  "enc_i32 = enc_scalar SignedInteger32Type BitMode True"

definition enc_info :: "MatchMakingInfo \<Rightarrow> bool list" where
  "enc_info i = enc_blob BitMode True (mi_address i) @ enc_blob BitMode True (mi_host i)
    @ enc_blob BitMode True (mi_key i) @ enc_i32 (mi_free_public_slots i) @ enc_i32 (mi_used_public_slots i)
    @ enc_i32 (mi_free_private_slots i) @ enc_i32 (mi_used_private_slots i)
    @ concat (map enc_i32 (mi_title_data i))"

lemmas reads_i32 = i32_c.reads [OF any_value, of BitMode True, folded enc_i32_def]
lemmas writes_i32 = i32_c.writes [OF any_value, of BitMode True, folded enc_i32_def]

lemma reads_i32s: "reads BitMode True (concat (map enc_i32 xs)) (repeatE (length xs) read_i32) xs"
  by (rule reads_repeat) (simp add: list_all2_map1 list_all2_same reads_i32)

lemma writes_info: "writes BitMode True (enc_info i) (info_serialize i)"
  unfolding enc_info_def info_serialize_def
  by (intro writes_then writes_blob_val writes_i32 writes_foreach)

lemma reads_info:
  assumes "info_ok i"
  shows "reads BitMode True (enc_info i) info_deserialize i"
proof -
  have i: "length (mi_address i) = ADDRESS_LEN" "length (mi_host i) = HOST_LEN" "length (mi_key i) = KEY_LEN"
    "length (mi_title_data i) = 9" using assms by (simp_all add: info_ok_def)
  have title: "reads BitMode True (concat (map enc_i32 (mi_title_data i))) (repeatE 9 read_i32) (mi_title_data i)"
    using reads_i32s [of "mi_title_data i"] i(4) by simp
  have whole: "reads BitMode True [] (returnE \<lparr>mi_address = mi_address i, mi_host = mi_host i, mi_key = mi_key i,
      mi_free_public_slots = mi_free_public_slots i, mi_used_public_slots = mi_used_public_slots i,
      mi_free_private_slots = mi_free_private_slots i, mi_used_private_slots = mi_used_private_slots i,
      mi_title_data = mi_title_data i\<rparr>) i"
    by (cases i) (simp add: reads_return)
  have "reads BitMode True (enc_blob BitMode True (mi_address i) @ enc_blob BitMode True (mi_host i)
    @ enc_blob BitMode True (mi_key i) @ enc_i32 (mi_free_public_slots i) @ enc_i32 (mi_used_public_slots i)
    @ enc_i32 (mi_free_private_slots i) @ enc_i32 (mi_used_private_slots i)
    @ concat (map enc_i32 (mi_title_data i)) @ []) info_deserialize i"
    unfolding info_deserialize_def
    by (intro reads_bind [OF reads_short_blob] reads_ensure_then reads_bind [OF reads_i32] reads_bind [OF title])
      (use i in \<open>simp_all add: whole ADDRESS_LEN_def HOST_LEN_def KEY_LEN_def\<close>)
  then show ?thesis by (simp add: enc_info_def)
qed

lemma reads_trailer:
  assumes "length tr = 16"
  shows "reads BitMode tc tr read_trailer ()"
proof -
  have bits: "reads BitMode tc bs (read_bits [0] 8) (pack bs)" if "length bs = 8" for bs
    using reads_bits [of 1 bs tc] that by simp
  have "reads BitMode tc (concat [take 8 tr, drop 8 tr]) (repeatE (length [pack (take 8 tr), pack (drop 8 tr)])
      (read_bits [0] 8)) [pack (take 8 tr), pack (drop 8 tr)]"
    by (rule reads_repeat) (use bits [of "take 8 tr"] bits [of "drop 8 tr"] assms in simp)
  then have "reads BitMode tc tr (repeatE 2 (read_bits [0] 8)) [pack (take 8 tr), pack (drop 8 tr)]"
    by (simp add: numeral_2_eq_2 del: repeatE.simps)
  then show ?thesis unfolding read_trailer_def using reads_bind_return by fastforce
qed

lemma reads_advertisement:
  assumes "info_ok i" "length tr = 16"
  shows "reads BitMode True (enc_info i @ tr) read_advertisement i"
proof -
  have "reads BitMode True (enc_info i @ tr @ []) read_advertisement i"
    unfolding read_advertisement_def
    by (intro reads_bind [OF reads_info] reads_then [OF reads_trailer] reads_return assms)
  then show ?thesis by simp
qed

definition query_ok :: "SessionQuery \<Rightarrow> bool" where
  "query_ok q \<longleftrightarrow> length (sq_filters q) = 6 \<and> (sq_extra q \<noteq> None \<longleftrightarrow> sq_kind q = 2)"

definition enc_query :: "SessionQuery \<Rightarrow> bool list" where
  "enc_query q = enc_i32 (sq_kind q) @ enc_i32 (sq_limit q) @ concat (map enc_i32 (sq_filters q))
    @ (case sq_extra q of None \<Rightarrow> [] | Some e \<Rightarrow> enc_i32 e)"

lemma reads_query:
  assumes "query_ok q"
  shows "reads BitMode True (enc_query q) query_deserialize q"
proof -
  have filters: "reads BitMode True (concat (map enc_i32 (sq_filters q))) (repeatE 6 read_i32) (sq_filters q)"
    using reads_i32s [of "sq_filters q"] assms by (simp add: query_ok_def)
  have extra: "reads BitMode True (case sq_extra q of None \<Rightarrow> [] | Some e \<Rightarrow> enc_i32 e)
      (if sq_kind q = 2 then bindE read_i32 (\<lambda>e. returnE (Some e)) else returnE None) (sq_extra q)"
    using assms by (cases "sq_extra q") (auto simp: query_ok_def reads_return intro: reads_bind_return [OF reads_i32])
  have whole: "reads BitMode True [] (returnE \<lparr>sq_kind = sq_kind q, sq_limit = sq_limit q,
      sq_filters = sq_filters q, sq_extra = sq_extra q\<rparr>) q"
    by (cases q) (simp add: reads_return)
  have "reads BitMode True (enc_i32 (sq_kind q) @ enc_i32 (sq_limit q) @ concat (map enc_i32 (sq_filters q))
    @ (case sq_extra q of None \<Rightarrow> [] | Some e \<Rightarrow> enc_i32 e) @ []) query_deserialize q"
    unfolding query_deserialize_def
    by (intro reads_bind [OF reads_i32] reads_bind [OF filters] reads_bind [OF extra] whole)
  then show ?thesis by (simp add: enc_query_def)
qed

text \<open>The request of a task: its number, a byte, and what the task reads.\<close>

definition task_bits :: "u8 \<Rightarrow> bool list" where
  "task_bits t = enc_scalar UnsignedChar8Type BitMode True t @ enc_scalar UnsignedChar8Type BitMode True (0 :: u8)"

lemma read_task_bytes:
  assumes "ready BitMode True r" "rbits r = task_bits t @ rest"
  obtains r1 r2 where "run_rd read_u8 r conn = (Inr (t, r1), conn)" "run_rd read_u8 r1 conn = (Inr (0, r2), conn)"
    "ready BitMode True r2" "rbits r2 = rest"
proof -
  have bits: "rbits r = enc_scalar UnsignedChar8Type BitMode True t
      @ enc_scalar UnsignedChar8Type BitMode True (0 :: u8) @ rest"
    using assms(2) by (simp add: task_bits_def)
  obtain r1 where 1: "run_rd read_u8 r conn = (Inr (t, r1), conn)" "ready BitMode True r1"
      "rbits r1 = enc_scalar UnsignedChar8Type BitMode True (0 :: u8) @ rest"
    using run_rd_consumes [OF consumes_value(1) assms(1) bits] .
  obtain r2 where "run_rd read_u8 r1 conn = (Inr (0, r2), conn)" "ready BitMode True r2" "rbits r2 = rest"
    using run_rd_consumes [OF consumes_value(1) 1(2,3)] .
  then show thesis using that 1(1) by blast
qed

definition read_create_result :: "(bytes \<times> bytes) rd" where
  "read_create_result = bindE read_blob (\<lambda>h. bindE read_blob (\<lambda>k. returnE (h, k)))"

definition enc_create_result :: "bytes \<times> bytes \<Rightarrow> bool list" where
  "enc_create_result r = enc_blob BitMode True (fst r) @ enc_blob BitMode True (snd r)"

lemma create_result_codec:
  assumes "length (fst r) < 2 ^ 32" "length (snd r) < 2 ^ 32"
  shows "writes BitMode True (enc_create_result r) (create_result_serialize r)
    \<and> reads BitMode True (enc_create_result r) read_create_result r"
proof
  show "writes BitMode True (enc_create_result r) (create_result_serialize r)"
    unfolding enc_create_result_def create_result_serialize_def by (intro writes_then writes_blob_val)
  have "reads BitMode True (enc_blob BitMode True (fst r) @ enc_blob BitMode True (snd r) @ []) read_create_result
      (fst r, snd r)"
    unfolding read_create_result_def
    by (intro reads_bind [OF reads_short_blob] reads_return assms)
  then show "reads BitMode True (enc_create_result r) read_create_result r" by (simp add: enc_create_result_def)
qed

section \<open>Properties\<close>

text \<open>
  A client that advertises a session gets an id and a secret that are its own. The handler
  reads the advertisement as the client wrote it, stores it for the connection under a
  fresh id - not under the id and key the client sent - and the client reads that id and the
  secret from the reply; the sessions of all other connections stay.
\<close>

theorem create_session_replies_id:
  assumes s: "registry_ok (c_world conn)" "\<not> rg_poisoned (c_world conn)" "draws_ok ids"
    and h: "mint_loop ids (snd (forget (s_id (c_session conn)) (c_world conn))) 0 = Some host"
    and secret: "length secret = 16" and info: "info_ok info" and tid: "c_transaction conn < 2 ^ 64 - 1"
    and r: "ready BitMode True r" "rbits r = task_bits 1 @ (enc_info info @ tr) @ rest" "length tr = 16"
  shows "\<exists>data s'. matchmaking_handle ids secret order r conn = (Inr (encrypted_if_available data),
      conn\<lparr>c_world := s', c_transaction := c_transaction conn + 1\<rparr>)
    \<and> fst (client_read_results read_create_result (reader_new data))
        = Inr (1, c_transaction conn, 0, 1, [(host, secret)])
    \<and> rg_sessions s' = (rg_sessions (c_world conn))
        (s_id (c_session conn) \<mapsto> info\<lparr>mi_host := host, mi_key := secret\<rparr>)
    \<and> registry_ok s' \<and> \<not> rg_poisoned s'"
proof -
  obtain r1 r2 where task: "run_rd read_u8 r conn = (Inr (1, r1), conn)" "run_rd read_u8 r1 conn = (Inr (0, r2), conn)"
      "ready BitMode True r2" "rbits r2 = (enc_info info @ tr) @ rest"
    using read_task_bytes [OF r(1,2)] .
  obtain r3 where adv: "run_rd read_advertisement r2 conn = (Inr (info, r3), conn)"
    using run_rd_consumes [OF consumes_reads [OF reads_advertisement [OF info r(3)]] task(3,4)] .
  obtain s' where s': "registry_create ids secret (s_id (c_session conn)) info (c_world conn) = (Inr (host, secret), s')"
      "registry_ok s'" "\<not> rg_poisoned s'"
      "rg_sessions s' = (rg_sessions (c_world conn))
        (s_id (c_session conn) \<mapsto> info\<lparr>mi_host := host, mi_key := secret\<rparr>)"
    using registry_create_ok [OF s h, of secret info] .
  let ?conn = "conn\<lparr>c_world := s'\<rparr>"
  have "length host = 8" using mint_loop_drawn [OF h] s(3) by (auto simp: draws_ok_def ID_LEN_def HOST_LEN_def)
  then have codec: "writes BitMode True (enc_create_result v) (create_result_serialize v)
      \<and> reads BitMode True (enc_create_result v) read_create_result v" if "v \<in> set [(host, secret)]" for v
    using that secret by (intro create_result_codec) auto
  obtain data where data: "reply_results 1 (map create_result_serialize [(host, secret)]) ?conn
      = (Inr (encrypted_if_available data), ?conn\<lparr>c_transaction := c_transaction ?conn + 1\<rparr>)"
    "\<forall>extra. fst (client_read_results read_create_result (reader_new (data @ extra)))
      = Inr (1, c_transaction ?conn, 0, 1, [(host, secret)])"
    by (rule reply_results_ok [of ?conn "[(host, secret)]", OF _ _ codec]) (use tid in simp_all)
  have "matchmaking_handle ids secret order r conn = reply_results 1 (map create_result_serialize [(host, secret)]) ?conn"
    using task(1,2) adv s'(1)
    by (simp add: matchmaking_handle_def matchmaking_task_from_u8_def create_session_def session_id_def
        on_registry_def bindE_def)
  then show ?thesis using data(1) data(2) [rule_format, of "[]"] s'(2-4) by auto
qed

definition client_one :: "RegistryState conn" where
  "client_one = \<lparr>c_session = first_login, c_sent = [], c_transaction = 0, c_world = one_lobby\<rparr>"

lemma lobby_info_ok: "info_ok lobby_info"
  by (simp add: info_ok_def lobby_info_def ADDRESS_LEN_def HOST_LEN_def KEY_LEN_def)

lemma length_enc_i32 [simp]: "length (enc_i32 v) = 37"
  by (simp add: enc_i32_def enc_scalar_def tagged_def tag_bits_def)

lemma length_enc_i32s [simp]: "length (concat (map enc_i32 vs)) = 37 * length vs"
  by (induction vs) simp_all

lemma length_task_bits [simp]: "length (task_bits t) = 26"
  by (simp add: task_bits_def enc_scalar_def tagged_def tag_bits_def)

lemma length_lobby_info_bits: "length (enc_info lobby_info) = 3 * 42 + 61 * 8 + 13 * 37"
  by (simp add: enc_info_def enc_blob_def enc_scalar_def tagged_def tag_bits_def)
    (simp add: lobby_info_def)

theorem create_session_replies_id_witness:
  "\<exists>data s'. matchmaking_handle id_draws (replicate 16 3) [] (reader_in BitMode True (pack (task_bits 1
        @ (enc_info lobby_info @ replicate 16 False) @ replicate 7 False))) client_one
      = (Inr (encrypted_if_available data), client_one\<lparr>c_world := s', c_transaction := 1\<rparr>)
    \<and> fst (client_read_results read_create_result (reader_new data)) = Inr (1, 0, 0, 1, [(id_draws 1, replicate 16 3)])
    \<and> rg_sessions s' 4 = Some (lobby_info\<lparr>mi_host := id_draws 1, mi_key := replicate 16 3\<rparr>)
    \<and> rg_sessions s' 1 = rg_sessions one_lobby 1"
proof -
  have other: "forget 4 one_lobby = (Inr None, one_lobby)" by (simp add: forget_def create_one_lobby(2))
  have ids: "s_id (c_session client_one) = 4" by (simp add: client_one_def first_login_def)
  have taken: "rg_by_host one_lobby (id_draws 0) = Some 1"
    using registry_okD(2) [OF registry_reachable_ok [OF one_lobby_reachable], of 1] create_one_lobby(2) by simp
  have free: "rg_by_host one_lobby (id_draws 1) = None"
  proof (rule ccontr)
    assume "rg_by_host one_lobby (id_draws 1) \<noteq> None"
    then obtain c where "rg_by_host one_lobby (id_draws 1) = Some c" by auto
    then obtain i where "rg_sessions one_lobby c = Some i" "mi_host i = id_draws 1"
      using registry_ok_host [OF registry_reachable_ok [OF one_lobby_reachable]] by blast
    then show False by (auto simp: create_one_lobby(2) id_draws_def split: if_splits)
  qed
  have draw: "mint_loop id_draws (snd (forget (s_id (c_session client_one)) (c_world client_one))) 0
      = Some (id_draws 1)"
    unfolding ids using other taken free by (simp add: client_one_def mint_loop.simps)
  let ?bits = "task_bits 1 @ (enc_info lobby_info @ replicate 16 False) @ replicate 7 False"
  have bits: "8 dvd length ?bits" by (simp add: length_lobby_info_bits)
  have s: "registry_ok (c_world client_one)" "\<not> rg_poisoned (c_world client_one)" "c_transaction client_one < 2 ^ 64 - 1"
    using registry_reachable_ok [OF one_lobby_reachable] create_one_lobby(3) by (simp_all add: client_one_def)
  obtain data s' where "matchmaking_handle id_draws (replicate 16 3) [] (reader_in BitMode True (pack ?bits)) client_one
      = (Inr (encrypted_if_available data), client_one\<lparr>c_world := s', c_transaction := c_transaction client_one + 1\<rparr>)"
    "fst (client_read_results read_create_result (reader_new data))
      = Inr (1, c_transaction client_one, 0, 1, [(id_draws 1, replicate 16 3)])"
    "rg_sessions s' = (rg_sessions (c_world client_one))
      (s_id (c_session client_one) \<mapsto> lobby_info\<lparr>mi_host := id_draws 1, mi_key := replicate 16 3\<rparr>)"
    using create_session_replies_id [OF s(1,2) id_draws_ok draw _ lobby_info_ok s(3) reader_in_ready [OF bits],
        of "replicate 16 3" "[]"] by auto
  then show ?thesis unfolding ids by (auto simp: client_one_def)
qed

lemma list_loop_total:
  assumes "\<forall>c i. sessions c = Some i \<longrightarrow> (\<exists>b. matches i query = Inr b)"
  shows "\<exists>infos. list_loop sessions connection query seen n cs = Inr infos \<and> length infos \<le> length cs"
proof (induction cs arbitrary: seen n)
  case (Cons c cs)
  show ?case
  proof (cases "n = 0 \<or> sessions c = None \<or> c = connection")
    case True
    then show ?thesis using Cons.IH [of seen n] by (auto split: option.split intro: le_SucI)
  next
    case False
    then obtain i where "sessions c = Some i" by auto
    then obtain b where i: "sessions c = Some i" "matches i query = Inr b" using assms by blast
    show ?thesis
      using Cons.IH [of seen n] Cons.IH [of "mi_address i # seen" "n - 1"] i False by (auto intro: le_SucI)
  qed
qed simp

text \<open>
  A search answers with the sessions of others that match. When no session's slots
  overflow and the limit leaves room for all, the client reads from the reply, in full, only
  sessions of other connections that match its query, no address twice, and every
  address under which another connection advertises a matching session.
\<close>

theorem find_sessions_lists_matching:
  assumes "\<not> rg_poisoned (c_world conn)" "c_transaction conn < 2 ^ 64 - 1" "query_ok query"
    and order: "set order = dom (rg_sessions (c_world conn))" "length order < max_results query"
      "length order < 2 ^ 32"
    and infos: "\<forall>c i. rg_sessions (c_world conn) c = Some i \<longrightarrow> info_ok i \<and> (\<exists>b. matches i query = Inr b)"
    and r: "ready BitMode True r" "rbits r = task_bits 5 @ (enc_query query @ tr) @ rest" "length tr = 16"
  shows "\<exists>data found. matchmaking_handle ids secret order r conn = (Inr (encrypted_if_available data),
      conn\<lparr>c_transaction := c_transaction conn + 1\<rparr>)
    \<and> fst (client_read_results info_deserialize (reader_new data)) = Inr (1, c_transaction conn, 0, 5, found)
    \<and> distinct (map mi_address found)
    \<and> (\<forall>i \<in> set found. \<exists>c. c \<noteq> s_id (c_session conn) \<and> rg_sessions (c_world conn) c = Some i
        \<and> matches i query = Inr True)
    \<and> (\<forall>c i. c \<noteq> s_id (c_session conn) \<and> rg_sessions (c_world conn) c = Some i \<and> matches i query = Inr True
        \<longrightarrow> mi_address i \<in> set (map mi_address found))"
proof -
  let ?me = "s_id (c_session conn)" let ?ss = "rg_sessions (c_world conn)"
  obtain r1 r2 where task: "run_rd read_u8 r conn = (Inr (5, r1), conn)" "run_rd read_u8 r1 conn = (Inr (0, r2), conn)"
      "ready BitMode True r2" "rbits r2 = (enc_query query @ tr) @ rest"
    using read_task_bytes [OF r(1,2)] .
  have "reads BitMode True (enc_query query @ tr @ []) (bindE query_deserialize (\<lambda>query. thenE read_trailer (returnE query))) query"
    by (intro reads_bind [OF reads_query] reads_then [OF reads_trailer] reads_return assms(3) r(3))
  then have q: "consumes BitMode True (enc_query query @ tr)
      (bindE query_deserialize (\<lambda>query. thenE read_trailer (returnE query))) query BitMode True"
    by (simp add: consumes_reads)
  obtain r3 where read: "run_rd (bindE query_deserialize (\<lambda>query. thenE read_trailer (returnE query))) r2 conn
      = (Inr (query, r3), conn)"
    using run_rd_consumes [OF q task(3,4)] .
  obtain found where loop: "list_loop ?ss ?me query [] (max_results query) order = Inr found"
      and len: "length found \<le> length order"
    using list_loop_total infos by metis
  have list: "list_for order ?me query (c_world conn) = (Inr found, c_world conn)"
    using loop assms(1) by (simp add: list_for_def locked_def)
  have sound: "\<forall>i \<in> set found. \<exists>c. c \<noteq> ?me \<and> ?ss c = Some i \<and> matches i query = Inr True"
    and dist: "distinct (map mi_address found)"
    using list_loop_sound [OF loop] by auto
  have complete: "mi_address i \<in> set (map mi_address found)"
    if "c \<noteq> ?me" "?ss c = Some i" "matches i query = Inr True" for c i
    using list_loop_complete [OF loop _ _ that] len order(1,2) that(2) by (auto simp: domI)
  have codec: "writes BitMode True (enc_info i) (info_serialize i) \<and> reads BitMode True (enc_info i) info_deserialize i"
    if "i \<in> set found" for i
    using that sound infos by (metis writes_info reads_info)
  obtain data where data: "reply_results 5 (map info_serialize found) conn
      = (Inr (encrypted_if_available data), conn\<lparr>c_transaction := c_transaction conn + 1\<rparr>)"
    "\<forall>extra. fst (client_read_results info_deserialize (reader_new (data @ extra)))
      = Inr (1, c_transaction conn, 0, 5, found)"
    by (rule reply_results_ok [of conn found, OF assms(2) _ codec]) (use len order(3) in simp_all)
  have "matchmaking_handle ids secret order r conn = reply_results 5 (map info_serialize found) conn"
    using task(1,2) read list
    by (simp add: matchmaking_handle_def matchmaking_task_from_u8_def find_sessions_def session_id_def
        on_registry_def bindE_def)
  then show ?thesis using data(1) data(2) [rule_format, of "[]"] sound dist complete
    by (intro exI [of _ data] exI [of _ found]) auto
qed

definition wire_query :: SessionQuery where
  "wire_query = any_query\<lparr>sq_extra := Some 0\<rparr>"

theorem find_sessions_lists_matching_witness:
  "\<exists>data found. matchmaking_handle id_draws [] [1] (reader_in BitMode True (pack (task_bits 5
        @ (enc_query wire_query @ replicate 16 False) @ replicate 1 False))) client_one
      = (Inr (encrypted_if_available data), client_one\<lparr>c_transaction := c_transaction client_one + 1\<rparr>)
    \<and> fst (client_read_results info_deserialize (reader_new data)) = Inr (1, c_transaction client_one, 0, 5, found)
    \<and> distinct (map mi_address found)
    \<and> (\<forall>i \<in> set found. \<exists>c. c \<noteq> s_id (c_session client_one) \<and> rg_sessions (c_world client_one) c = Some i
        \<and> matches i wire_query = Inr True)
    \<and> (\<forall>c i. c \<noteq> s_id (c_session client_one) \<and> rg_sessions (c_world client_one) c = Some i
        \<and> matches i wire_query = Inr True \<longrightarrow> mi_address i \<in> set (map mi_address found))"
proof (rule find_sessions_lists_matching)
  let ?bits = "task_bits 5 @ (enc_query wire_query @ replicate 16 False) @ replicate 1 False"
  have "length ?bits = 26 + (37 + 37 + 6 * 37 + 37 + 16) + 1"
    by (simp add: enc_query_def wire_query_def any_query_def)
  then have bits: "8 dvd length ?bits" by simp
  show "ready BitMode True (reader_in BitMode True (pack ?bits))" "rbits (reader_in BitMode True (pack ?bits)) = ?bits"
    using reader_in_ready [OF bits] .
  show "query_ok wire_query" by (simp add: query_ok_def wire_query_def any_query_def)
  show "set [1] = dom (rg_sessions (c_world client_one))" by (simp add: client_one_def create_one_lobby(2))
  show "length [1 :: u64] < max_results wire_query" by (simp add: max_results_def wire_query_def any_query_def)
  show "\<forall>c i. rg_sessions (c_world client_one) c = Some i \<longrightarrow> info_ok i \<and> (\<exists>b. matches i wire_query = Inr b)"
    by (simp add: client_one_def create_one_lobby(2) info_ok_def lobby_info_def id_draws_def ADDRESS_LEN_def
        HOST_LEN_def KEY_LEN_def matches_def wants_def wire_query_def any_query_def) blast
qed (simp_all add: client_one_def create_one_lobby)

end
