(* ===== verification/Social_Store.thy ===== *)
theory Social_Store
  imports Errors "HOL-Library.AList"
begin

text \<open>
  The tables of the social database (dw-server/src/social/db.rs) and the statements that the
  friends list and the activities run on them (friends.rs and activity.rs). A table is the
  association list of its rows from their primary key to the other columns, a statement is a
  function on the tables, and a parameter of type u64 that does not fit the signed integers
  of the database is an error of the statement. Rows that an ORDER BY leaves tied come in the
  order of the table.
\<close>

section \<open>Statements\<close>

definition sql_fits :: "u64 \<Rightarrow> bool" where
  "sql_fits u \<longleftrightarrow> unat u < 2 ^ 63"

definition statement :: "u64 list \<Rightarrow> ('d \<Rightarrow> 'a) \<Rightarrow> 'd \<Rightarrow> 'a option" where
  "statement params f db = (if list_all sql_fits params then Some (f db) else None)"

text \<open>A statement whose error the code drops.\<close>

definition attempt :: "u64 list \<Rightarrow> ('d \<Rightarrow> 'd) \<Rightarrow> 'd \<Rightarrow> 'd" where
  "attempt params f db = (case statement params f db of None \<Rightarrow> db | Some db' \<Rightarrow> db')"

definition insert_or_ignore :: "'k \<Rightarrow> 'v \<Rightarrow> ('k \<times> 'v) list \<Rightarrow> ('k \<times> 'v) list" where
  "insert_or_ignore k v t = (if map_of t k = None then t @ [(k, v)] else t)"

definition delete_where :: "('k \<Rightarrow> bool) \<Rightarrow> ('k \<times> 'v) list \<Rightarrow> ('k \<times> 'v) list" where
  "delete_where P t = filter (\<lambda>(k, _). \<not> P k) t"

text \<open>The NOCASE collation folds the ASCII letters.\<close>

definition fold_case :: "u8 \<Rightarrow> u8" where
  "fold_case b = (if 0x41 \<le> b \<and> b \<le> 0x5A then b + 0x20 else b)"

definition nocase_eq :: "bytes \<Rightarrow> bytes \<Rightarrow> bool" where
  "nocase_eq a b \<longleftrightarrow> map fold_case a = map fold_case b"

text \<open>LIKE with an escape character: a percent sign matches any bytes, an underscore any one.\<close>

fun sql_like :: "u8 \<Rightarrow> bytes \<Rightarrow> bytes \<Rightarrow> bool" where
  "sql_like esc [] s = (s = [])"
| "sql_like esc (p # ps) s =
    (if p = esc then
       (case ps of
          [] \<Rightarrow> False
        | q # qs \<Rightarrow> (case s of [] \<Rightarrow> False | b # bs \<Rightarrow> fold_case q = fold_case b \<and> sql_like esc qs bs))
     else if p = 0x25 then sql_like esc ps s \<or> (case s of [] \<Rightarrow> False | b # bs \<Rightarrow> sql_like esc (p # ps) bs)
     else case s of
       [] \<Rightarrow> False
     | b # bs \<Rightarrow> (p = 0x5F \<or> fold_case p = fold_case b) \<and> sql_like esc ps bs)"

section \<open>The tables\<close>

record SocialDb =
  db_friend :: "((u64 \<times> u64) \<times> int) list"
  db_friend_request :: "((u64 \<times> u64) \<times> int) list"
  db_known_user :: "(u64 \<times> bytes \<times> int) list"
  db_activity :: "(u64 \<times> bytes \<times> int) list"
  db_invite :: "((u64 \<times> u64) \<times> bytes \<times> int) list"

definition social_db_new :: SocialDb where
  "social_db_new = \<lparr>db_friend = [], db_friend_request = [], db_known_user = [], db_activity = [],
     db_invite = []\<rparr>"

section \<open>Known users\<close>

definition lookup_name :: "SocialDb \<Rightarrow> u64 \<Rightarrow> bytes option" where
  "lookup_name db user_id =
    (case statement [user_id] (\<lambda>db. map_of (db_known_user db) user_id) db of
       Some (Some (username, _)) \<Rightarrow> Some username
     | _ \<Rightarrow> None)"

definition insert_known_user :: "u64 \<Rightarrow> bytes \<Rightarrow> int \<Rightarrow> SocialDb \<Rightarrow> SocialDb" where
  "insert_known_user user_id username now =
    attempt [user_id] (\<lambda>db. db\<lparr>db_known_user := AList.update user_id (username, now) (db_known_user db)\<rparr>)"

definition lookup_ids :: "SocialDb \<Rightarrow> bytes \<Rightarrow> u64 list" where
  "lookup_ids db username =
    map fst (sort_key (\<lambda>(_, _, seen_at). - seen_at)
      (filter (\<lambda>(_, name, _). nocase_eq name username) (db_known_user db)))"

definition coalesce_name :: "SocialDb \<Rightarrow> u64 \<Rightarrow> bytes" where
  "coalesce_name db user_id =
    (case map_of (db_known_user db) user_id of None \<Rightarrow> [] | Some (username, _) \<Rightarrow> username)"

section \<open>Friends\<close>

record Friendship =
  fs_user_id :: u64
  fs_username :: bytes
  fs_mutual :: bool

text \<open>The rows of a table whose one key column is \<open>user\<close>, oldest first, seen through the other.\<close>

definition rows_of :: "('k \<Rightarrow> u64) \<Rightarrow> ('k \<Rightarrow> u64) \<Rightarrow> ('k \<times> int) list \<Rightarrow> u64 \<Rightarrow> u64 list" where
  "rows_of this other t user =
    map (other \<circ> fst) (sort_key snd (filter (\<lambda>(k, _). this k = user) t))"

definition friends_list :: "SocialDb \<Rightarrow> u64 \<Rightarrow> Friendship list" where
  "friends_list db user_id =
    (case statement [user_id] (\<lambda>db. rows_of fst snd (db_friend db) user_id) db of
       None \<Rightarrow> []
     | Some ids \<Rightarrow> map (\<lambda>f. \<lparr>fs_user_id = f, fs_username = coalesce_name db f,
         fs_mutual = (map_of (db_friend db) (f, user_id) \<noteq> None)\<rparr>) ids)"

definition incoming_requests :: "SocialDb \<Rightarrow> u64 \<Rightarrow> Friendship list" where
  "incoming_requests db user_id =
    (case statement [user_id] (\<lambda>db. rows_of snd fst (db_friend_request db) user_id) db of
       None \<Rightarrow> []
     | Some ids \<Rightarrow> map (\<lambda>f. \<lparr>fs_user_id = f, fs_username = coalesce_name db f, fs_mutual = False\<rparr>) ids)"

definition outgoing_requests :: "SocialDb \<Rightarrow> u64 \<Rightarrow> Friendship list" where
  "outgoing_requests db user_id =
    (case statement [user_id] (\<lambda>db. rows_of fst snd (db_friend_request db) user_id) db of
       None \<Rightarrow> []
     | Some ids \<Rightarrow> map (\<lambda>f. \<lparr>fs_user_id = f, fs_username = coalesce_name db f, fs_mutual = False\<rparr>) ids)"

text \<open>The outcome of an action is a word for the client, of success or of failure.\<close>

type_synonym outcome = "bytes + bytes"

definition pending :: "u64 \<Rightarrow> u64 \<Rightarrow> SocialDb \<Rightarrow> bool" where
  "pending from to db =
    (case statement [from, to] (\<lambda>db. map_of (db_friend_request db) (from, to) \<noteq> None) db of
       None \<Rightarrow> False | Some b \<Rightarrow> b)"

definition both_ways :: "u64 \<Rightarrow> u64 \<Rightarrow> u64 \<times> u64 \<Rightarrow> bool" where
  "both_ways a b = (\<lambda>(x, y). x = a \<and> y = b \<or> x = b \<and> y = a)"

definition insert_friend :: "int \<Rightarrow> u64 \<times> u64 \<Rightarrow> SocialDb \<Rightarrow> SocialDb option" where
  "insert_friend now = (\<lambda>(a, b). statement [a, b]
    (\<lambda>db. db\<lparr>db_friend := insert_or_ignore (a, b) now (db_friend db)\<rparr>))"

definition accept_locked :: "u64 \<Rightarrow> u64 \<Rightarrow> int \<Rightarrow> SocialDb \<Rightarrow> outcome \<times> SocialDb" where
  "accept_locked user other now db =
    (let db1 = attempt [user, other]
           (\<lambda>db. db\<lparr>db_friend_request := delete_where (both_ways user other) (db_friend_request db)\<rparr>) db
     in case insert_friend now (user, other) db1 of
          None \<Rightarrow> (Inl (str ''could not record the friendship''), db1)
        | Some db2 \<Rightarrow>
            (case insert_friend now (other, user) db2 of
               None \<Rightarrow> (Inl (str ''could not record the friendship''), db2)
             | Some db3 \<Rightarrow> (Inr (str ''friends''), db3)))"

definition friends_request :: "int \<Rightarrow> u64 \<Rightarrow> u64 \<Rightarrow> SocialDb \<Rightarrow> outcome \<times> SocialDb" where
  "friends_request now from to db =
    (if from = to then (Inl (str ''cannot befriend yourself''), db)
     else if pending to from db then accept_locked from to now db
     else case statement [from, to]
            (\<lambda>db. db\<lparr>db_friend_request := insert_or_ignore (from, to) now (db_friend_request db)\<rparr>) db of
       Some db' \<Rightarrow> (Inr (str ''requested''), db')
     | None \<Rightarrow> (Inl (str ''could not record the request''), db))"

definition friends_accept :: "int \<Rightarrow> u64 \<Rightarrow> u64 \<Rightarrow> SocialDb \<Rightarrow> outcome \<times> SocialDb" where
  "friends_accept now user from db =
    (if \<not> pending from user db then (Inl (str ''no such request''), db)
     else accept_locked user from now db)"

definition friends_remove :: "u64 \<Rightarrow> u64 \<Rightarrow> SocialDb \<Rightarrow> outcome \<times> SocialDb" where
  "friends_remove user other db =
    (let db1 = attempt [user, other]
           (\<lambda>db. db\<lparr>db_friend := delete_where (both_ways user other) (db_friend db)\<rparr>) db;
         db2 = attempt [user, other]
           (\<lambda>db. db\<lparr>db_friend_request := delete_where (both_ways user other) (db_friend_request db)\<rparr>) db1
     in (Inr (str ''removed''), db2))"

section \<open>Activities and invitations\<close>

definition activity_of :: "SocialDb \<Rightarrow> u64 \<Rightarrow> bytes option" where
  "activity_of db user_id =
    (case statement [user_id] (\<lambda>db. map_of (db_activity db) user_id) db of
       Some (Some (connection, _)) \<Rightarrow> Some connection
     | _ \<Rightarrow> None)"

definition insert_activity :: "u64 \<Rightarrow> bytes \<Rightarrow> int \<Rightarrow> SocialDb \<Rightarrow> SocialDb" where
  "insert_activity user_id connection now =
    attempt [user_id] (\<lambda>db. db\<lparr>db_activity := AList.update user_id (connection, now) (db_activity db)\<rparr>)"

text \<open>The deletion of an activity, with the number of rows it deleted.\<close>

definition delete_activity :: "u64 \<Rightarrow> SocialDb \<Rightarrow> nat \<times> SocialDb" where
  "delete_activity user_id db =
    (case statement [user_id] (\<lambda>db. db\<lparr>db_activity := delete_where (\<lambda>u. u = user_id) (db_activity db)\<rparr>) db of
       None \<Rightarrow> (0, db)
     | Some db' \<Rightarrow> (length (db_activity db) - length (db_activity db'), db'))"

definition insert_invite :: "u64 \<Rightarrow> u64 \<Rightarrow> bytes \<Rightarrow> int \<Rightarrow> SocialDb \<Rightarrow> SocialDb" where
  "insert_invite from to connection now =
    attempt [to, from] (\<lambda>db. db\<lparr>db_invite := AList.update (to, from) (connection, now) (db_invite db)\<rparr>)"

record Invitation =
  iv_from :: u64
  iv_from_name :: bytes
  iv_connection :: bytes

definition take_invites :: "u64 \<Rightarrow> SocialDb \<Rightarrow> Invitation list \<times> SocialDb" where
  "take_invites user_id db =
    (let out = (case statement [user_id] (\<lambda>db. sort_key (snd \<circ> snd)
                  (filter (\<lambda>((to, _), _). to = user_id) (db_invite db))) db of
           None \<Rightarrow> []
         | Some rows \<Rightarrow> map (\<lambda>((_, from), connection, _). \<lparr>iv_from = from,
             iv_from_name = coalesce_name db from, iv_connection = connection\<rparr>) rows)
     in (out, if out = [] then db
              else attempt [user_id]
                (\<lambda>db. db\<lparr>db_invite := delete_where (\<lambda>(to, _). to = user_id) (db_invite db)\<rparr>) db))"

section \<open>Laws of the tables\<close>

lemma map_of_insert_or_ignore:
  "map_of (insert_or_ignore k v t) k' = (if k' = k \<and> map_of t k = None then Some v else map_of t k')"
  by (auto simp: insert_or_ignore_def map_add_def split: option.splits)

lemma map_of_delete_where: "map_of (delete_where P t) k = (if P k then None else map_of t k)"
  by (induction t) (auto simp: delete_where_def)

lemma keys_insert_or_ignore: "fst ` set (insert_or_ignore k v t) = insert k (fst ` set t)"
  by (auto simp: insert_or_ignore_def map_of_eq_None_iff)

lemma keys_delete_where: "fst ` set (delete_where P t) = {k \<in> fst ` set t. \<not> P k}"
  by (force simp: delete_where_def)

lemma distinct_insert_or_ignore: "distinct (map fst t) \<Longrightarrow> distinct (map fst (insert_or_ignore k v t))"
  by (auto simp: insert_or_ignore_def map_of_eq_None_iff)

lemma distinct_delete_where: "distinct (map fst t) \<Longrightarrow> distinct (map fst (delete_where P t))"
  by (induction t) (auto simp: delete_where_def)

lemma set_rows_of: "set (rows_of this other t u) = other ` {k \<in> fst ` set t. this k = u}"
  by (force simp: rows_of_def)

lemma statement_fits [simp]: "list_all sql_fits params \<Longrightarrow> statement params f db = Some (f db)"
  by (simp add: statement_def)

lemma statement_unfit [simp]: "\<not> list_all sql_fits params \<Longrightarrow> statement params f db = None"
  unfolding statement_def by simp

lemma attempt_fits [simp]: "list_all sql_fits params \<Longrightarrow> attempt params f db = f db"
  by (simp add: attempt_def)

lemma attempt_unfit [simp]: "\<not> list_all sql_fits params \<Longrightarrow> attempt params f db = db"
  unfolding attempt_def by simp

end
