(* ===== verification/Social_Graph.thy ===== *)
theory Social_Graph
  imports Social_Store
begin

text \<open>
  What the friend actions (dw-server/src/social/friends.rs) promise. The contract is a graph:
  a set of friendships, each the set of its two users, and a set of directed requests. The
  tables keep every friendship as two rows and refine the operations of the graph; the locale
  \<open>friend_graph\<close> states the refinement and what a client may conclude from it.
\<close>

section \<open>The contract\<close>

record friend_graph =
  g_friends :: "u64 set set"
  g_requests :: "(u64 \<times> u64) set"

definition spec_befriend :: "u64 \<Rightarrow> u64 \<Rightarrow> friend_graph \<Rightarrow> friend_graph" where
  "spec_befriend a b g = g\<lparr>g_friends := insert {a, b} (g_friends g),
     g_requests := g_requests g - {(a, b), (b, a)}\<rparr>"

definition spec_request :: "u64 \<Rightarrow> u64 \<Rightarrow> friend_graph \<Rightarrow> friend_graph" where
  "spec_request a b g =
    (if a = b \<or> \<not> sql_fits a \<or> \<not> sql_fits b then g
     else if (b, a) \<in> g_requests g then spec_befriend a b g
     else g\<lparr>g_requests := insert (a, b) (g_requests g)\<rparr>)"

definition spec_accept :: "u64 \<Rightarrow> u64 \<Rightarrow> friend_graph \<Rightarrow> friend_graph" where
  "spec_accept a b g = (if (b, a) \<in> g_requests g then spec_befriend a b g else g)"

definition spec_remove :: "u64 \<Rightarrow> u64 \<Rightarrow> friend_graph \<Rightarrow> friend_graph" where
  "spec_remove a b g = g\<lparr>g_friends := g_friends g - {{a, b}}, g_requests := g_requests g - {(a, b), (b, a)}\<rparr>"

section \<open>What the tables keep\<close>

definition friend_rows :: "SocialDb \<Rightarrow> (u64 \<times> u64) set" where
  "friend_rows db = fst ` set (db_friend db)"

definition request_rows :: "SocialDb \<Rightarrow> (u64 \<times> u64) set" where
  "request_rows db = fst ` set (db_friend_request db)"

definition graph_of :: "SocialDb \<Rightarrow> friend_graph" where
  "graph_of db = \<lparr>g_friends = (\<lambda>(a, b). {a, b}) ` friend_rows db, g_requests = request_rows db\<rparr>"

definition social_ok :: "SocialDb \<Rightarrow> bool" where
  "social_ok db \<longleftrightarrow> sym (friend_rows db) \<and> irrefl (friend_rows db) \<and> irrefl (request_rows db)
    \<and> asym (request_rows db)
    \<and> (\<forall>(a, b) \<in> friend_rows db \<union> request_rows db. sql_fits a \<and> sql_fits b)"

lemma social_ok_new: "social_ok social_db_new"
  by (simp add: social_ok_def social_db_new_def friend_rows_def request_rows_def sym_def irrefl_def asym_on_def)

lemma social_okD:
  assumes "social_ok db"
  shows "(a, b) \<in> friend_rows db \<Longrightarrow> (b, a) \<in> friend_rows db"
    and "(a, b) \<in> friend_rows db \<Longrightarrow> a \<noteq> b" and "(a, b) \<in> request_rows db \<Longrightarrow> a \<noteq> b"
    and "(a, b) \<in> request_rows db \<Longrightarrow> (b, a) \<notin> request_rows db"
    and "(a, b) \<in> friend_rows db \<Longrightarrow> sql_fits a \<and> sql_fits b"
    and "(a, b) \<in> request_rows db \<Longrightarrow> sql_fits a \<and> sql_fits b"
  using assms unfolding social_ok_def sym_def irrefl_def asym_on_def by fast+

lemma map_of_rows:
  "map_of (db_friend db) k \<noteq> None \<longleftrightarrow> k \<in> friend_rows db"
  "map_of (db_friend_request db) k \<noteq> None \<longleftrightarrow> k \<in> request_rows db"
  by (simp_all add: friend_rows_def request_rows_def map_of_eq_None_iff)

lemma g_requests_of [simp]: "g_requests (graph_of db) = request_rows db"
  by (simp add: graph_of_def)

lemma graph_friends_iff:
  assumes "social_ok db"
  shows "{a, b} \<in> g_friends (graph_of db) \<longleftrightarrow> (a, b) \<in> friend_rows db"
proof
  assume "{a, b} \<in> g_friends (graph_of db)"
  then obtain x y where "(x, y) \<in> friend_rows db" "{a, b} = {x, y}" by (auto simp: graph_of_def)
  then show "(a, b) \<in> friend_rows db"
    using social_okD(1) [OF assms, of x y] by (auto simp: doubleton_eq_iff)
qed (force simp: graph_of_def)

text \<open>Two tables with the right rows are well-formed and have the right graph.\<close>

lemma social_okI:
  assumes "social_ok db"
    and "friend_rows db' = friend_rows db - {(a, b), (b, a)} \<or> friend_rows db' = friend_rows db
      \<or> friend_rows db' = friend_rows db \<union> {(a, b), (b, a)} \<and> a \<noteq> b \<and> sql_fits a \<and> sql_fits b"
    and "request_rows db' \<subseteq> request_rows db \<or> request_rows db' = insert (a, b) (request_rows db)
      \<and> a \<noteq> b \<and> sql_fits a \<and> sql_fits b \<and> (b, a) \<notin> request_rows db"
  shows "social_ok db'"
proof -
  have "sym (friend_rows db')"
    using assms(1,2) unfolding social_ok_def sym_def by blast
  moreover have "irrefl (friend_rows db')"
    using assms(2) social_okD(2) [OF assms(1)] by (auto simp: irrefl_def) blast+
  moreover have "irrefl (request_rows db')"
    using assms(3) social_okD(3) [OF assms(1)] by (auto simp: irrefl_def) blast+
  moreover have "asym (request_rows db')"
  proof (rule asymI)
    fix x y assume xy: "(x, y) \<in> request_rows db'"
    have old: "(y, x) \<notin> request_rows db" if "(x, y) \<in> request_rows db" for x y
      using social_okD(4) [OF assms(1) that] .
    show "(y, x) \<notin> request_rows db'"
      using assms(3)
    proof
      assume "request_rows db' \<subseteq> request_rows db"
      then show ?thesis using xy old by blast
    next
      assume "request_rows db' = insert (a, b) (request_rows db) \<and> a \<noteq> b \<and> sql_fits a \<and> sql_fits b
        \<and> (b, a) \<notin> request_rows db"
      then show ?thesis using xy old [of x y] by auto
    qed
  qed
  moreover have "\<forall>(a, b) \<in> friend_rows db' \<union> request_rows db'. sql_fits a \<and> sql_fits b"
  proof -
    have "sql_fits x \<and> sql_fits y" if "(x, y) \<in> friend_rows db' \<union> request_rows db'" for x y
      using that assms(2,3) social_okD(5,6) [OF assms(1), of x y] by auto
    then show ?thesis by blast
  qed
  ultimately show ?thesis by (simp add: social_ok_def)
qed

section \<open>The rows after each action\<close>

lemma accept_locked_rows:
  assumes "sql_fits a" "sql_fits b"
  shows "fst (accept_locked a b now db) = Inr (str ''friends'')"
    "friend_rows (snd (accept_locked a b now db)) = friend_rows db \<union> {(a, b), (b, a)}"
    "request_rows (snd (accept_locked a b now db)) = request_rows db - {(a, b), (b, a)}"
  using assms by (auto simp: accept_locked_def insert_friend_def Let_def friend_rows_def request_rows_def
      keys_insert_or_ignore keys_delete_where both_ways_def)

lemma pending_iff: "pending a b db \<longleftrightarrow> sql_fits a \<and> sql_fits b \<and> (a, b) \<in> request_rows db"
proof (cases "list_all sql_fits [a, b]")
  case True
  then show ?thesis by (simp add: pending_def map_of_rows(2) [symmetric])
next
  case False
  then show ?thesis by (auto simp: pending_def)
qed

lemma friends_request_cases:
  obtains (self) "a = b" "friends_request now a b db = (Inl (str ''cannot befriend yourself''), db)"
  | (unfit) "a \<noteq> b" "\<not> (sql_fits a \<and> sql_fits b)"
      "friends_request now a b db = (Inl (str ''could not record the request''), db)"
  | (crossed) "a \<noteq> b" "sql_fits a" "sql_fits b" "(b, a) \<in> request_rows db"
      "friends_request now a b db = accept_locked a b now db"
  | (requested) db' where "a \<noteq> b" "sql_fits a" "sql_fits b" "(b, a) \<notin> request_rows db"
      "friends_request now a b db = (Inr (str ''requested''), db')"
      "db' = db\<lparr>db_friend_request := insert_or_ignore (a, b) now (db_friend_request db)\<rparr>"
proof (cases "a = b")
  case True
  then show ?thesis using self by (simp add: friends_request_def)
next
  case ne: False
  show ?thesis
  proof (cases "sql_fits a \<and> sql_fits b")
    case True
    then show ?thesis using ne crossed requested
      by (cases "(b, a) \<in> request_rows db") (simp_all add: friends_request_def pending_iff)
  next
    case False
    then have "\<not> list_all sql_fits [a, b]" "\<not> pending b a db" by (auto simp: pending_iff)
    then show ?thesis using ne False unfit by (simp add: friends_request_def)
  qed
qed

lemma request_rows_inserted:
  "request_rows (db\<lparr>db_friend_request := insert_or_ignore k now (db_friend_request db)\<rparr>) = insert k (request_rows db)"
  "friend_rows (db\<lparr>db_friend_request := t\<rparr>) = friend_rows db"
  by (simp_all add: request_rows_def friend_rows_def keys_insert_or_ignore)

lemma friends_remove_rows:
  assumes "social_ok db"
  shows "friend_rows (snd (friends_remove a b db)) = friend_rows db - {(a, b), (b, a)}"
    "request_rows (snd (friends_remove a b db)) = request_rows db - {(a, b), (b, a)}"
proof -
  have "friend_rows (snd (friends_remove a b db)) = friend_rows db - {(a, b), (b, a)}
    \<and> request_rows (snd (friends_remove a b db)) = request_rows db - {(a, b), (b, a)}"
  proof (cases "list_all sql_fits [a, b]")
    case True
    then show ?thesis
      by (auto simp: friends_remove_def Let_def friend_rows_def request_rows_def keys_delete_where both_ways_def)
  next
    case False
    then have "friends_remove a b db = (Inr (str ''removed''), db)" by (simp add: friends_remove_def Let_def)
    moreover have "{(a, b), (b, a)} \<inter> (friend_rows db \<union> request_rows db) = {}"
      using False social_okD(5,6) [OF assms] by auto
    ultimately show ?thesis by auto
  qed
  then show "friend_rows (snd (friends_remove a b db)) = friend_rows db - {(a, b), (b, a)}"
    "request_rows (snd (friends_remove a b db)) = request_rows db - {(a, b), (b, a)}" by simp_all
qed

section \<open>Refinement\<close>

lemma friends_request_ok:
  assumes "social_ok db" shows "social_ok (snd (friends_request now a b db))"
proof (cases rule: friends_request_cases [of a b now db])
  case crossed
  then show ?thesis
    by (intro social_okI [OF assms, of _ a b]) (auto simp: accept_locked_rows)
next
  case requested
  then show ?thesis
    by (intro social_okI [OF assms, of _ a b]) (auto simp: request_rows_inserted)
qed (use assms in simp_all)

lemma friends_accept_ok:
  assumes "social_ok db" shows "social_ok (snd (friends_accept now a b db))"
  using assms social_okD(3) [OF assms, of b a]
  by (auto simp: friends_accept_def pending_iff accept_locked_rows intro!: social_okI [OF assms, of _ a b])

lemma friends_remove_ok:
  assumes "social_ok db" shows "social_ok (snd (friends_remove a b db))"
  by (rule social_okI [OF assms, of _ a b]) (auto simp: friends_remove_rows [OF assms])

lemma insert_same_pair: "insert {a, b} (insert {b, a} X) = insert {a, b} X"
  by (simp add: insert_commute [of a])

lemma image_minus_fibre: "(\<And>x. f x = y \<longleftrightarrow> x \<in> S) \<Longrightarrow> f ` (R - S) = f ` R - {y}"
  by blast

lemma friends_request_refines:
  "graph_of (snd (friends_request now a b db)) = spec_request a b (graph_of db)"
proof (cases rule: friends_request_cases [of a b now db])
  case crossed
  then show ?thesis
    by (simp add: spec_request_def spec_befriend_def graph_of_def accept_locked_rows insert_same_pair)
next
  case requested
  then show ?thesis by (simp add: spec_request_def graph_of_def request_rows_inserted)
qed (auto simp: spec_request_def)

lemma friends_accept_refines:
  assumes "social_ok db"
  shows "graph_of (snd (friends_accept now a b db)) = spec_accept a b (graph_of db)"
proof (cases "(b, a) \<in> request_rows db")
  case True
  then show ?thesis using social_okD(6) [OF assms True]
    by (simp add: friends_accept_def pending_iff spec_accept_def spec_befriend_def graph_of_def
        accept_locked_rows insert_same_pair)
qed (simp add: friends_accept_def pending_iff spec_accept_def graph_of_def)

lemma friends_remove_refines:
  assumes "social_ok db"
  shows "graph_of (snd (friends_remove a b db)) = spec_remove a b (graph_of db)"
proof -
  have "(\<lambda>(a, b). {a, b}) ` (friend_rows db - {(a, b), (b, a)}) = (\<lambda>(a, b). {a, b}) ` friend_rows db - {{a, b}}"
    by (rule image_minus_fibre) (auto simp: doubleton_eq_iff split: prod.splits)
  then show ?thesis by (simp add: graph_of_def spec_remove_def friends_remove_rows [OF assms])
qed

section \<open>Rosters\<close>

lemma friends_list_ids:
  assumes "social_ok db"
  shows "fs_user_id ` set (friends_list db u) = {v. (u, v) \<in> friend_rows db}"
    and "f \<in> set (friends_list db u) \<Longrightarrow> fs_mutual f"
proof -
  have "fs_user_id ` set (friends_list db u) = {v. (u, v) \<in> friend_rows db}
    \<and> (\<forall>f \<in> set (friends_list db u). fs_mutual f)"
  proof (cases "sql_fits u")
    case True
    have "set (rows_of fst snd (db_friend db) u) = {v. (u, v) \<in> friend_rows db}"
      by (force simp: set_rows_of friend_rows_def)
    then have "set (friends_list db u) = (\<lambda>v. \<lparr>fs_user_id = v, fs_username = coalesce_name db v,
        fs_mutual = ((v, u) \<in> friend_rows db)\<rparr>) ` {v. (u, v) \<in> friend_rows db}"
      using True by (simp add: friends_list_def map_of_rows(1) del: not_None_eq)
    then show ?thesis using social_okD(1) [OF assms, of u] by (auto simp: image_image)
  next
    case False
    then show ?thesis using social_okD(5) [OF assms, of u] by (auto simp: friends_list_def)
  qed
  then show "fs_user_id ` set (friends_list db u) = {v. (u, v) \<in> friend_rows db}"
    and "f \<in> set (friends_list db u) \<Longrightarrow> fs_mutual f" by simp_all
qed

lemma request_list_ids:
  assumes "social_ok db"
  shows "fs_user_id ` set (incoming_requests db u) = {v. (v, u) \<in> request_rows db}"
    and "fs_user_id ` set (outgoing_requests db u) = {v. (u, v) \<in> request_rows db}"
proof -
  have "fs_user_id ` set (incoming_requests db u) = {v. (v, u) \<in> request_rows db}
    \<and> fs_user_id ` set (outgoing_requests db u) = {v. (u, v) \<in> request_rows db}"
  proof (cases "sql_fits u")
    case True
    then show ?thesis
      by (force simp: incoming_requests_def outgoing_requests_def set_rows_of request_rows_def image_image)
  next
    case False
    then show ?thesis using social_okD(6) [OF assms] by (auto simp: incoming_requests_def outgoing_requests_def)
  qed
  then show "fs_user_id ` set (incoming_requests db u) = {v. (v, u) \<in> request_rows db}"
    and "fs_user_id ` set (outgoing_requests db u) = {v. (u, v) \<in> request_rows db}" by simp_all
qed

section \<open>Consent\<close>

datatype friend_event = Asks u64 u64 | Accepts u64 u64 | Removes u64 u64

definition consents :: "u64 \<Rightarrow> u64 \<Rightarrow> friend_event list \<Rightarrow> bool" where
  "consents a b evs \<longleftrightarrow> Asks a b \<in> set evs \<or> Accepts a b \<in> set evs"

lemma consents_snoc [simp]:
  "consents a b (evs @ [e]) \<longleftrightarrow> consents a b evs \<or> e = Asks a b \<or> e = Accepts a b"
  by (auto simp: consents_def)

locale friend_store =
  fixes ok :: "'s \<Rightarrow> bool" and graph :: "'s \<Rightarrow> friend_graph"
    and req acc rem :: "int \<Rightarrow> u64 \<Rightarrow> u64 \<Rightarrow> 's \<Rightarrow> 's"
  assumes ok_req: "ok s \<Longrightarrow> ok (req t a b s)" and ok_acc: "ok s \<Longrightarrow> ok (acc t a b s)"
    and ok_rem: "ok s \<Longrightarrow> ok (rem t a b s)"
    and graph_req: "ok s \<Longrightarrow> graph (req t a b s) = spec_request a b (graph s)"
    and graph_acc: "ok s \<Longrightarrow> graph (acc t a b s) = spec_accept a b (graph s)"
    and graph_rem: "ok s \<Longrightarrow> graph (rem t a b s) = spec_remove a b (graph s)"
begin

fun act :: "int \<times> friend_event \<Rightarrow> 's \<Rightarrow> 's" where
  "act (t, Asks a b) s = req t a b s"
| "act (t, Accepts a b) s = acc t a b s"
| "act (t, Removes a b) s = rem t a b s"

lemma ok_act: "ok s \<Longrightarrow> ok (act e s)"
  by (cases "(e, s)" rule: act.cases) (auto simp: ok_req ok_acc ok_rem)

lemma ok_run: "ok s \<Longrightarrow> ok (fold act evs s)"
  by (induction evs arbitrary: s) (auto simp: ok_act)

definition consented :: "friend_event list \<Rightarrow> friend_graph \<Rightarrow> bool" where
  "consented evs g \<longleftrightarrow> (\<forall>(a, b) \<in> g_requests g. Asks a b \<in> set evs)
    \<and> (\<forall>p \<in> g_friends g. \<exists>a b. p = {a, b} \<and> consents a b evs \<and> consents b a evs)"

lemma consented_mono: "consented evs g \<Longrightarrow> consented (evs @ [e]) g"
  unfolding consented_def by fastforce

lemma consented_befriend:
  assumes "consented evs g" "consents a b evs" "(b, a) \<in> g_requests g"
  shows "consented evs (spec_befriend a b g)"
proof -
  have "consents b a evs" using assms(1,3) by (auto simp: consented_def consents_def)
  then show ?thesis using assms unfolding consented_def spec_befriend_def by auto
qed

lemma consented_request:
  assumes "consented evs g" "Asks a b \<in> set evs"
  shows "consented evs (spec_request a b g)"
proof -
  have "consents a b evs" using assms(2) by (simp add: consents_def)
  moreover have "consented evs (g\<lparr>g_requests := insert (a, b) (g_requests g)\<rparr>)"
    using assms by (simp add: consented_def)
  ultimately show ?thesis using assms(1) consented_befriend by (simp add: spec_request_def)
qed

lemma consented_act:
  assumes "ok s" "consented evs (graph s)"
  shows "consented (evs @ [snd e]) (graph (act e s))"
proof -
  note old = consented_mono [OF assms(2), of "snd e"]
  obtain t where e: "e = (t, snd e)" by (cases e) simp
  show ?thesis
  proof (cases "snd e")
    case (Asks a b)
    then have "act e s = req t a b s" using e by (metis act.simps(1))
    then show ?thesis using consented_request [OF old, of a b] by (simp add: graph_req [OF assms(1)] Asks)
  next
    case (Accepts a b)
    then have "act e s = acc t a b s" using e by (metis act.simps(2))
    then show ?thesis using old consented_befriend [OF old, of a b]
      by (simp add: graph_acc [OF assms(1)] spec_accept_def Accepts)
  next
    case (Removes a b)
    then have "act e s = rem t a b s" using e by (metis act.simps(3))
    then show ?thesis using old by (auto simp: graph_rem [OF assms(1)] spec_remove_def consented_def)
  qed
qed

lemma consented_run:
  assumes "ok s" "consented [] (graph s)"
  shows "consented (map snd evs) (graph (fold act evs s))"
proof (induction evs rule: rev_induct)
  case (snoc e evs)
  then show ?case using consented_act [OF ok_run [OF assms(1)] snoc.IH, of e] by simp
qed (use assms(2) in simp)

end

interpretation social: friend_store social_ok graph_of
  "\<lambda>t a b s. snd (friends_request t a b s)" "\<lambda>t a b s. snd (friends_accept t a b s)"
  "\<lambda>t a b s. snd (friends_remove a b s)"
  by unfold_locales
    (simp_all add: friends_request_ok friends_accept_ok friends_remove_ok friends_request_refines
      friends_accept_refines friends_remove_refines)

fun friend_step :: "int \<times> friend_event \<Rightarrow> SocialDb \<Rightarrow> SocialDb" where
  "friend_step (now, Asks a b) db = snd (friends_request now a b db)"
| "friend_step (now, Accepts a b) db = snd (friends_accept now a b db)"
| "friend_step (now, Removes a b) db = snd (friends_remove a b db)"

lemma friend_step_act: "friend_step = social.act"
proof (intro ext)
  fix e s show "friend_step e s = social.act e s"
    by (cases "(e, s)" rule: friend_step.cases) simp_all
qed

section \<open>Properties\<close>

text \<open>
  C24. The friend actions refine the graph of friendships. In tables that agree, asking, accepting
  and removing change the graph as its specification says - a request that meets one in the
  other direction befriends both, an acceptance needs a request, a removal takes everything
  between the two - and keep the tables in agreement. A user's list shows exactly the
  friends of the graph, every one of them as mutual, and the requests of the graph are
  exactly the incoming and the outgoing ones.
\<close>

theorem friend_actions_refine:
  assumes "social_ok db"
  shows "graph_of (snd (friends_request now a b db)) = spec_request a b (graph_of db)
    \<and> graph_of (snd (friends_accept now a b db)) = spec_accept a b (graph_of db)
    \<and> graph_of (snd (friends_remove a b db)) = spec_remove a b (graph_of db)
    \<and> social_ok (friend_step e db)
    \<and> fs_user_id ` set (friends_list db u) = {v. {u, v} \<in> g_friends (graph_of db)}
    \<and> (\<forall>f \<in> set (friends_list db u). fs_mutual f)
    \<and> fs_user_id ` set (incoming_requests db u) = {v. (v, u) \<in> g_requests (graph_of db)}
    \<and> fs_user_id ` set (outgoing_requests db u) = {v. (u, v) \<in> g_requests (graph_of db)}"
  using social.graph_req [OF assms] social.graph_acc [OF assms] social.graph_rem [OF assms]
    social.ok_act [OF assms, of e] friends_list_ids(1) [OF assms, of u]
    friends_list_ids(2) [OF assms] request_list_ids [OF assms, of u]
  by (simp add: friend_step_act graph_friends_iff [OF assms])

definition friends_db :: SocialDb where
  "friends_db = fold friend_step [(10, Asks 1 2), (20, Accepts 2 1), (30, Asks 3 1)] social_db_new"

lemma friends_db_ok: "social_ok friends_db"
  unfolding friends_db_def friend_step_act by (rule social.ok_run [OF social_ok_new])

theorem friend_actions_refine_witness:
  "graph_of (snd (friends_request 40 1 3 friends_db)) = spec_request 1 3 (graph_of friends_db)
    \<and> fs_user_id ` set (incoming_requests friends_db 1) = {v. (v, 1) \<in> g_requests (graph_of friends_db)}"
  using friend_actions_refine [OF friends_db_ok, of 40 1 3 "(40, Asks 1 3)" 1] by blast

text \<open>
  Nobody becomes a friend without both having said so. Whatever actions are run, from no
  friends on and by whomever, each user of a friendship has asked for it or accepted it, and
  each pending request was made by the user it is from.
\<close>

theorem friendship_needs_both:
  assumes "db = fold friend_step evs social_db_new"
  shows "(f \<in> set (friends_list db u) \<longrightarrow> consents u (fs_user_id f) (map snd evs)
      \<and> consents (fs_user_id f) u (map snd evs))
    \<and> (f \<in> set (incoming_requests db u) \<longrightarrow> Asks (fs_user_id f) u \<in> snd ` set evs)"
proof -
  have ok: "social_ok db"
    using social.ok_run [OF social_ok_new] by (simp add: assms friend_step_act)
  have "social.consented [] (graph_of social_db_new)"
    by (simp add: social.consented_def graph_of_def friend_rows_def request_rows_def social_db_new_def)
  from social.consented_run [OF social_ok_new this, of evs]
  have con: "social.consented (map snd evs) (graph_of db)" by (simp add: assms friend_step_act)
  have "consents u v (map snd evs) \<and> consents v u (map snd evs)" if "(u, v) \<in> friend_rows db" for v
  proof -
    have "{u, v} \<in> g_friends (graph_of db)" using that graph_friends_iff [OF ok] by simp
    then obtain a b where "{u, v} = {a, b}" "consents a b (map snd evs)" "consents b a (map snd evs)"
      using con unfolding social.consented_def by blast
    then show ?thesis by (auto simp: doubleton_eq_iff)
  qed
  moreover have "Asks v u \<in> snd ` set evs" if "(v, u) \<in> request_rows db" for v
    using con that by (auto simp: social.consented_def graph_of_def)
  ultimately show ?thesis
    using friends_list_ids(1) [OF ok, of u] request_list_ids(1) [OF ok, of u] by blast
qed

theorem friendship_needs_both_witness:
  "\<exists>f. f \<in> set (friends_list friends_db 1) \<and> fs_user_id f = 2
    \<and> consents 1 2 [Asks 1 2, Accepts 2 1, Asks 3 1] \<and> consents 2 1 [Asks 1 2, Accepts 2 1, Asks 3 1]"
proof -
  have "2 \<in> fs_user_id ` set (friends_list friends_db 1)"
    unfolding friends_list_ids(1) [OF friends_db_ok]
    by (simp add: friends_db_def friend_rows_def social_db_new_def friends_request_def friends_accept_def
        pending_def accept_locked_def insert_friend_def statement_def attempt_def sql_fits_def
        insert_or_ignore_def delete_where_def both_ways_def)
  then obtain f where "f \<in> set (friends_list friends_db 1)" "fs_user_id f = 2" by auto
  then show ?thesis using friendship_needs_both [OF friends_db_def, of f 1] by auto
qed

end
