(* ===== verification/Social_Watch.thy ===== *)
theory Social_Watch
  imports Social_Graph
begin

text \<open>
  Revisions and presence (dw-server/src/social/watch.rs), and the operations of friends.rs
  and activity.rs that announce what they change. The world is the database together with the
  tables that the process keeps: the revision of each user, the moment each was last seen,
  and the tick that wakes the waiting polls. Instants are nanoseconds; the iteration order of
  a hash map is an argument.
\<close>

section \<open>The world\<close>

record SocialWorld =
  sw_db :: SocialDb
  sw_revisions :: "u64 \<rightharpoonup> u64"
  sw_revisions_poisoned :: bool
  sw_epoch :: u64
  sw_tick :: u64
  sw_seen :: "u64 \<rightharpoonup> nat"

type_synonym 'a social = "(SocialWorld, bd_error, 'a) sm"

definition ONLINE_FOR :: nat where "ONLINE_FOR = 45 * 10 ^ 9"
definition MAX_WAIT :: nat where "MAX_WAIT = 30 * 10 ^ 9"

definition epoch_of :: "int \<Rightarrow> u64" where
  "epoch_of millis = push_bit 16 (word_of_int millis)"

definition social_world_new :: "int \<Rightarrow> SocialDb \<Rightarrow> SocialWorld" where
  "social_world_new millis db = \<lparr>sw_db = db, sw_revisions = Map.empty, sw_revisions_poisoned = False,
     sw_epoch = epoch_of millis, sw_tick = 0, sw_seen = Map.empty\<rparr>"

definition on_db :: "(SocialDb \<Rightarrow> 'a \<times> SocialDb) \<Rightarrow> 'a social" where
  "on_db f = (\<lambda>w. case f (sw_db w) of (x, db) \<Rightarrow> (Inr x, w\<lparr>sw_db := db\<rparr>))"

definition read_db :: "(SocialDb \<Rightarrow> 'a) \<Rightarrow> 'a social" where
  "read_db f = (\<lambda>w. (Inr (f (sw_db w)), w))"

section \<open>Revisions\<close>

text \<open>The lock of the revisions: a panic under it poisons it.\<close>

definition with_revisions :: "'a social \<Rightarrow> 'a social" where
  "with_revisions m = (\<lambda>w. if sw_revisions_poisoned w then (Inl Panic, w)
     else case m w of
       (Inl e, w') \<Rightarrow> (Inl e, if e = Panic then w'\<lparr>sw_revisions_poisoned := True\<rparr> else w')
     | (Inr x, w') \<Rightarrow> (Inr x, w'))"

definition revision_of :: "SocialWorld \<Rightarrow> u64 \<Rightarrow> u64" where
  "revision_of w user = (case sw_revisions w user of None \<Rightarrow> sw_epoch w | Some r \<Rightarrow> r)"

definition revision :: "u64 \<Rightarrow> u64 social" where
  "revision user = with_revisions (\<lambda>w. (Inr (revision_of w user), w))"

definition bump_one :: "u64 \<Rightarrow> unit social" where
  "bump_one user = (\<lambda>w.
    case checked_add (revision_of w user) 1 of
      Inl e \<Rightarrow> (Inl e, w\<lparr>sw_revisions := (sw_revisions w)(user \<mapsto> revision_of w user)\<rparr>)
    | Inr r \<Rightarrow> (Inr (), w\<lparr>sw_revisions := (sw_revisions w)(user \<mapsto> r)\<rparr>))"

definition bump :: "u64 list \<Rightarrow> unit social" where
  "bump users = thenE (with_revisions (foreachE bump_one users)) (modifyE (\<lambda>w. w\<lparr>sw_tick := sw_tick w + 1\<rparr>))"

definition watchers_of :: "SocialDb \<Rightarrow> u64 \<Rightarrow> u64 list" where
  "watchers_of db user =
    remdups_adj (sort (map fs_user_id (friends_list db user) @ map fs_user_id (incoming_requests db user)
      @ map fs_user_id (outgoing_requests db user)))"

definition bump_watchers_of :: "u64 \<Rightarrow> unit social" where
  "bump_watchers_of user = bindE (read_db (\<lambda>db. watchers_of db user)) (\<lambda>watchers.
     if watchers \<noteq> [] then bump watchers else returnE ())"

section \<open>Presence\<close>

definition is_online :: "nat \<Rightarrow> SocialWorld \<Rightarrow> u64 \<Rightarrow> bool" where
  "is_online now w user = (case sw_seen w user of None \<Rightarrow> False | Some at \<Rightarrow> now - at < ONLINE_FOR)"

definition touch :: "nat \<Rightarrow> u64 \<Rightarrow> unit social" where
  "touch now user = (\<lambda>w.
    let arrived = (case sw_seen w user of None \<Rightarrow> True | Some at \<Rightarrow> ONLINE_FOR \<le> now - at);
        w' = w\<lparr>sw_seen := (sw_seen w)(user \<mapsto> now)\<rparr>
    in if arrived then bump_watchers_of user w' else (Inr (), w'))"

definition sweep :: "nat \<Rightarrow> u64 list \<Rightarrow> unit social" where
  "sweep now order = (\<lambda>w.
    let gone = filter (\<lambda>user. case sw_seen w user of None \<Rightarrow> False | Some at \<Rightarrow> ONLINE_FOR \<le> now - at) order
    in foreachE bump_watchers_of gone (w\<lparr>sw_seen := sw_seen w |` (- set gone)\<rparr>))"

text \<open>
  The long poll. It subscribes, reads the revision, and as long as that is what the caller has
  it waits for the next tick; the deadline ends it with the revision as it is then. The
  worlds of the wake-ups, as the other requests have left them, are arguments: without one the
  poll still waits (\<open>None\<close>), otherwise the result is the revision and the world it was read in.
\<close>

datatype wake_up = Ticked SocialWorld | DeadlinePassed SocialWorld

fun poll_loop ::
  "u64 \<Rightarrow> u64 \<Rightarrow> SocialWorld \<Rightarrow> wake_up list \<Rightarrow> ((bd_error + u64) \<times> SocialWorld) option" where
  "poll_loop user since w wakes =
    (case revision user w of
       (Inl e, w1) \<Rightarrow> Some (Inl e, w1)
     | (Inr now, w1) \<Rightarrow>
         if now \<noteq> since then Some (Inr now, w1)
         else case wakes of
           [] \<Rightarrow> None
         | Ticked w' # wakes' \<Rightarrow> poll_loop user since w' wakes'
         | DeadlinePassed w' # _ \<Rightarrow> Some (revision user w'))"

definition changed_since ::
  "u64 \<Rightarrow> u64 option \<Rightarrow> SocialWorld \<Rightarrow> wake_up list \<Rightarrow> ((bd_error + u64) \<times> SocialWorld) option" where
  "changed_since user since w wakes =
    (case since of None \<Rightarrow> Some (revision user w) | Some s \<Rightarrow> poll_loop user s w wakes)"

section \<open>Operations that announce\<close>

definition note_user :: "int \<Rightarrow> u64 \<Rightarrow> bytes \<Rightarrow> unit social" where
  "note_user now user_id username =
    bindE (read_db (\<lambda>db. case lookup_name db user_id of None \<Rightarrow> False | Some was \<Rightarrow> was \<noteq> username)) (\<lambda>renamed.
    thenE (on_db (\<lambda>db. ((), insert_known_user user_id username now db)))
    (if renamed then bump_watchers_of user_id else returnE ()))"

definition set_activity :: "int \<Rightarrow> u64 \<Rightarrow> bytes \<Rightarrow> unit social" where
  "set_activity now user_id connection =
    bindE (read_db (\<lambda>db. case activity_of db user_id of None \<Rightarrow> True | Some was \<Rightarrow> was \<noteq> connection)) (\<lambda>changed.
    thenE (on_db (\<lambda>db. ((), insert_activity user_id connection now db)))
    (if changed then bump_watchers_of user_id else returnE ()))"

definition clear_activity :: "u64 \<Rightarrow> unit social" where
  "clear_activity user_id =
    bindE (on_db (delete_activity user_id)) (\<lambda>cleared.
    if cleared \<noteq> 0 then bump_watchers_of user_id else returnE ())"

definition invite :: "int \<Rightarrow> u64 \<Rightarrow> u64 \<Rightarrow> bytes \<Rightarrow> unit social" where
  "invite now from to connection =
    thenE (on_db (\<lambda>db. ((), insert_invite from to connection now db))) (bump [to])"

text \<open>A friend action of the routes: what changed is announced to the two users.\<close>

definition friend_action :: "(u64 \<Rightarrow> u64 \<Rightarrow> SocialDb \<Rightarrow> outcome \<times> SocialDb) \<Rightarrow> u64 \<Rightarrow> u64 \<Rightarrow> outcome social" where
  "friend_action f user other =
    bindE (on_db (f user other)) (\<lambda>result.
    case result of
      Inl e \<Rightarrow> returnE (Inl e)
    | Inr word \<Rightarrow> thenE (bump [user, other]) (returnE (Inr word)))"

section \<open>Bumps\<close>

lemma on_db_apply [monad_simps]: "on_db f w = (case f (sw_db w) of (x, db) \<Rightarrow> (Inr x, w\<lparr>sw_db := db\<rparr>))"
  by (simp add: on_db_def)

lemma bindE_read_db [monad_simps]: "bindE (read_db f) k w = k (f (sw_db w)) w"
  by (simp add: read_db_def bindE_def)

lemma bindE_on_db [monad_simps]:
  "bindE (on_db f) k w = (case f (sw_db w) of (x, db) \<Rightarrow> k x (w\<lparr>sw_db := db\<rparr>))"
  by (simp add: on_db_def bindE_def split: prod.splits)

lemma thenE_on_db [monad_simps]:
  "thenE (on_db f) k w = (case f (sw_db w) of (x, db) \<Rightarrow> k (w\<lparr>sw_db := db\<rparr>))"
  by (simp add: thenE_def monad_simps)

lemma revision_of_update [simp]:
  "revision_of (w\<lparr>sw_tick := t\<rparr>) u = revision_of w u"
  "revision_of (w\<lparr>sw_db := db\<rparr>) u = revision_of w u"
  "revision_of (w\<lparr>sw_seen := seen\<rparr>) u = revision_of w u"
  "revision_of (w\<lparr>sw_revisions := (sw_revisions w)(v \<mapsto> r)\<rparr>) u = (if u = v then r else revision_of w u)"
  by (simp_all add: revision_of_def split: option.splits)

text \<open>What a computation that only bumps leaves alone.\<close>

definition same_but_revisions :: "SocialWorld \<Rightarrow> SocialWorld \<Rightarrow> bool" where
  "same_but_revisions w w' \<longleftrightarrow> sw_db w' = sw_db w \<and> sw_seen w' = sw_seen w \<and> sw_epoch w' = sw_epoch w
    \<and> (\<forall>u. unat (revision_of w u) \<le> unat (revision_of w' u))"

lemma same_but_revisions_refl [simp]: "same_but_revisions w w"
  by (simp add: same_but_revisions_def)

lemma same_but_revisions_trans:
  "same_but_revisions w w' \<Longrightarrow> same_but_revisions w' w'' \<Longrightarrow> same_but_revisions w w''"
  by (auto simp: same_but_revisions_def intro: order_trans)

lemma bump_one_ok:
  assumes "bump_one u w = (Inr x, w')"
  shows "same_but_revisions w w'" "unat (revision_of w u) < unat (revision_of w' u)"
    "sw_revisions_poisoned w' = sw_revisions_poisoned w" "sw_tick w' = sw_tick w"
proof -
  have fits: "unat (revision_of w u) + 1 < 2 ^ 64"
    and w': "w' = w\<lparr>sw_revisions := (sw_revisions w)(u \<mapsto> revision_of w u + 1)\<rparr>"
    using assms by (auto simp: bump_one_def checked_add_def split: if_splits)
  have "unat (revision_of w u + 1) = unat (revision_of w u) + 1"
    using fits by (simp add: unat_word_ariths)
  then show "same_but_revisions w w'" "unat (revision_of w u) < unat (revision_of w' u)"
    by (auto simp: same_but_revisions_def w')
  show "sw_revisions_poisoned w' = sw_revisions_poisoned w" "sw_tick w' = sw_tick w" by (simp_all add: w')
qed

lemma bump_all_ok:
  assumes "foreachE bump_one us w = (Inr x, w')"
  shows "same_but_revisions w w' \<and> sw_revisions_poisoned w' = sw_revisions_poisoned w
    \<and> (\<forall>u \<in> set us. unat (revision_of w u) < unat (revision_of w' u))"
  using assms
proof (induction us arbitrary: w)
  case (Cons u us)
  from Cons.prems obtain w1 where w1: "bump_one u w = (Inr (), w1)" "foreachE bump_one us w1 = (Inr x, w')"
    by (auto elim: thenE_Inr_E)
  note one = bump_one_ok [OF w1(1)] and rest = Cons.IH [OF w1(2)]
  have "unat (revision_of w v) < unat (revision_of w' v)" if "v \<in> set (u # us)" for v
  proof (cases "v = u")
    case True
    then show ?thesis using one(2) rest by (auto simp: same_but_revisions_def intro: less_le_trans)
  next
    case False
    then show ?thesis using one(1) rest that by (auto simp: same_but_revisions_def intro: le_less_trans)
  qed
  then show ?case using same_but_revisions_trans [OF one(1)] one(3) rest by simp
qed (simp add: monad_simps)

lemma bump_ok:
  assumes "bump us w = (Inr x, w')"
  shows "same_but_revisions w w'" "u \<in> set us \<Longrightarrow> unat (revision_of w u) < unat (revision_of w' u)"
proof -
  obtain w1 where "with_revisions (foreachE bump_one us) w = (Inr (), w1)"
    and w': "w' = w1\<lparr>sw_tick := sw_tick w1 + 1\<rparr>"
    using assms unfolding bump_def by (auto elim!: thenE_Inr_E simp: monad_simps)
  then have "foreachE bump_one us w = (Inr (), w1)"
    by (auto simp: with_revisions_def split: if_splits prod.splits sum.splits)
  from bump_all_ok [OF this] show "same_but_revisions w w'"
    "u \<in> set us \<Longrightarrow> unat (revision_of w u) < unat (revision_of w' u)"
    by (auto simp: w' same_but_revisions_def)
qed

lemma bump_watchers_ok:
  assumes "bump_watchers_of user w = (Inr x, w')"
  shows "same_but_revisions w w'"
    "u \<in> set (watchers_of (sw_db w) user) \<Longrightarrow> unat (revision_of w u) < unat (revision_of w' u)"
  using assms bump_ok [of "watchers_of (sw_db w) user" w x w'] unfolding bump_watchers_of_def monad_simps
  by (auto simp: monad_simps split: if_splits)

end
