(* ===== verification/Social_Text.thy ===== *)
theory Social_Text
  imports Social_Store
begin

text \<open>
  The text that the social routes read and write (dw-server/src/social/routes.rs and the
  search of friends.rs): ids in decimal and in hexadecimal, members of JSON objects found by
  their name, lists of ids, LIKE patterns. Text is UTF-8, and as every character that these
  functions look for is an ASCII one, they work on its bytes.
\<close>

section \<open>Numbers\<close>

definition digit_value :: "nat \<Rightarrow> u8 \<Rightarrow> nat option" where
  "digit_value radix b =
    (let v = (if 0x30 \<le> b \<and> b \<le> 0x39 then Some (unat b - 0x30)
              else if 0x61 \<le> b \<and> b \<le> 0x7A then Some (unat b - 0x61 + 10)
              else if 0x41 \<le> b \<and> b \<le> 0x5A then Some (unat b - 0x41 + 10)
              else None)
     in case v of Some d \<Rightarrow> if d < radix then Some d else None | None \<Rightarrow> None)"

fun digits_value :: "nat \<Rightarrow> nat \<Rightarrow> bytes \<Rightarrow> nat option" where
  "digits_value radix n [] = Some n"
| "digits_value radix n (b # bs) =
    (case digit_value radix b of None \<Rightarrow> None | Some d \<Rightarrow> digits_value radix (radix * n + d) bs)"

text \<open>\<open>u64::from_str_radix\<close>, and \<open>parse\<close> with radix 10: a plus sign is allowed, nothing is not a
  number, and a number that does not fit is an error.\<close>

definition parse_radix :: "nat \<Rightarrow> bytes \<Rightarrow> u64 option" where
  "parse_radix radix s =
    (let ds = (case s of b # bs \<Rightarrow> if b = 0x2B then bs else s | [] \<Rightarrow> [])
     in if ds = [] then None
        else case digits_value radix 0 ds of
          Some n \<Rightarrow> if n < 2 ^ 64 then Some (of_nat n) else None
        | None \<Rightarrow> None)"

definition parse_u64 :: "bytes \<Rightarrow> u64 option" where
  "parse_u64 = parse_radix 10"

fun show_nat :: "nat \<Rightarrow> bytes" where
  "show_nat n = (if n < 10 then [0x30 + of_nat n] else show_nat (n div 10) @ [0x30 + of_nat (n mod 10)])"

declare show_nat.simps [simp del]

section \<open>Searching and splitting\<close>

text \<open>The text of a header value, when it is visible ASCII.\<close>

definition header_text :: "bytes \<Rightarrow> bytes option" where
  "header_text v = (if list_all (\<lambda>b. b = 9 \<or> 0x20 \<le> b \<and> b < 0x7F) v then Some v else None)"

fun find_sub :: "bytes \<Rightarrow> bytes \<Rightarrow> nat option" where
  "find_sub p [] = (if p = [] then Some 0 else None)"
| "find_sub p (x # xs) =
    (if take (length p) (x # xs) = p then Some 0 else map_option Suc (find_sub p xs))"

definition strip_prefix :: "bytes \<Rightarrow> bytes \<Rightarrow> bytes option" where
  "strip_prefix p s = (if take (length p) s = p then Some (drop (length p) s) else None)"

definition strip_suffix :: "bytes \<Rightarrow> bytes \<Rightarrow> bytes option" where
  "strip_suffix p s = map_option rev (strip_prefix (rev p) (rev s))"

fun split_on :: "u8 \<Rightarrow> bytes \<Rightarrow> bytes list" where
  "split_on b [] = [[]]"
| "split_on b (x # xs) =
    (if x = b then [] # split_on b xs
     else case split_on b xs of [] \<Rightarrow> [[x]] | y # ys \<Rightarrow> (x # y) # ys)"

text \<open>The white space of Unicode, encoded.\<close>

definition white_space :: "bytes list" where
  "white_space = [[0x09], [0x0A], [0x0B], [0x0C], [0x0D], [0x20], [0xC2, 0x85], [0xC2, 0xA0],
     [0xE1, 0x9A, 0x80]]
   @ map (\<lambda>i. [0xE2, 0x80, 0x80 + of_nat i]) [0..<11]
   @ [[0xE2, 0x80, 0xA8], [0xE2, 0x80, 0xA9], [0xE2, 0x80, 0xAF], [0xE2, 0x81, 0x9F], [0xE3, 0x80, 0x80]]"

function strip_any :: "bytes list \<Rightarrow> bytes \<Rightarrow> bytes" where
  "strip_any ws s =
    (case List.find (\<lambda>w. w \<noteq> [] \<and> s \<noteq> [] \<and> take (length w) s = w) ws of
       None \<Rightarrow> s
     | Some w \<Rightarrow> strip_any ws (drop (length w) s))"
  by pat_completeness auto
termination
  by (relation "measure (length \<circ> snd)") (auto simp: find_Some_iff)

declare strip_any.simps [simp del]

definition trim :: "bytes \<Rightarrow> bytes" where
  "trim s = rev (strip_any (map rev white_space) (rev (strip_any white_space s)))"

definition trim_matches :: "u8 \<Rightarrow> bytes \<Rightarrow> bytes" where
  "trim_matches b s = rev (dropWhile (\<lambda>x. x = b) (rev (dropWhile (\<lambda>x. x = b) s)))"

section \<open>Ids in paths and bodies\<close>

definition parse_xuid :: "bytes \<Rightarrow> u64 option" where
  "parse_xuid segment =
    (case Option.bind (Option.bind (strip_prefix (str ''xuid('') segment) (strip_suffix (str '')''))) parse_u64 of
       Some uid \<Rightarrow> Some uid
     | None \<Rightarrow> parse_u64 segment)"

definition xuid_in :: "bytes \<Rightarrow> u64 option" where
  "xuid_in path =
    (case find_sub (str ''xuid('') path of
       Some at \<Rightarrow>
         (let rest = drop (at + 5) path
          in case find_sub (str '')'') rest of
               None \<Rightarrow> None
             | Some end_at \<Rightarrow> parse_u64 (take end_at rest))
     | None \<Rightarrow> parse_u64 path)"

definition xuids_in :: "bytes \<Rightarrow> u64 list" where
  "xuids_in body =
    (case find_sub (str ''\"invitedUsers\"'') body of
       None \<Rightarrow> []
     | Some at \<Rightarrow>
         (let rest = drop at body
          in case find_sub (str ''['') rest of
               None \<Rightarrow> []
             | Some open_at \<Rightarrow>
                 (case find_sub (str '']'') (drop open_at rest) of
                    None \<Rightarrow> []
                  | Some close_at \<Rightarrow>
                      List.map_filter (\<lambda>f. parse_u64 (trim_matches 0x22 (trim f)))
                        (split_on 0x2C (take (close_at - 1) (drop (open_at + 1) rest))))))"

section \<open>Members of JSON objects\<close>

text \<open>The text up to the closing quote, its escapes resolved to the character after the backslash.\<close>

fun quoted_text :: "bytes \<Rightarrow> bytes \<Rightarrow> bytes option" where
  "quoted_text out [] = None"
| "quoted_text out (c # cs) =
    (if c = 0x22 then Some out
     else if c = 0x5C then (case cs of [] \<Rightarrow> None | n # ns \<Rightarrow> quoted_text (out @ [n]) ns)
     else quoted_text (out @ [c]) cs)"

definition quoted :: "bytes \<Rightarrow> bytes" where
  "quoted s = [0x22] @ s @ [0x22]"

definition member :: "bytes \<Rightarrow> bytes \<Rightarrow> bytes option" where
  "member body key =
    Option.bind (find_sub (quoted key) body) (\<lambda>at.
    let rest = drop (at + length key + 2) body in
    Option.bind (find_sub [0x3A] rest) (\<lambda>colon.
    let rest = drop (colon + 1) rest in
    Option.bind (find_sub [0x22] rest) (\<lambda>open_at.
    quoted_text [] (drop (open_at + 1) rest))))"

fun all_chunks :: "bytes \<Rightarrow> bytes \<Rightarrow> bool" where
  "all_chunks c [] = True"
| "all_chunks c (x # xs) = (take 2 (x # xs) = c \<and> all_chunks c (drop 2 (x # xs)))"

definition repeated_byte :: "bytes \<Rightarrow> bool" where
  "repeated_byte b \<longleftrightarrow> b \<noteq> [] \<and> even (length b) \<and> all_chunks (take 2 b) b"

definition usable_session :: "bytes \<Rightarrow> bytes + unit" where
  "usable_session connection =
    (case member connection (str ''dw_sec_kid'') of
       Some kid \<Rightarrow>
         if repeated_byte kid then Inl (str ''carries a placeholder security ID'')
         else (case member connection (str ''dw_sec_key'') of
           Some key \<Rightarrow> if repeated_byte key then Inl (str ''carries a placeholder security key'') else Inr ()
         | None \<Rightarrow> Inr ())
     | None \<Rightarrow>
         (case member connection (str ''dw_sec_key'') of
            Some key \<Rightarrow> if repeated_byte key then Inl (str ''carries a placeholder security key'') else Inr ()
          | None \<Rightarrow> Inr ()))"

section \<open>The search\<close>

definition SEARCH_LIMIT :: nat where "SEARCH_LIMIT = 64"

text \<open>The longest pattern that the LIKE of the database takes.\<close>

definition LIKE_LIMIT :: nat where "LIKE_LIMIT = 50000"

definition like_escape :: "u8 \<Rightarrow> bytes" where
  "like_escape c = (if c \<in> {0x5C, 0x25, 0x5F} then [0x5C, c] else [c])"

definition like_pattern :: "bytes \<Rightarrow> bytes" where
  "like_pattern query = [0x25] @ concat (map like_escape query) @ [0x25]"

record Match =
  mt_user_id :: u64
  mt_username :: bytes

definition friends_search :: "SocialDb \<Rightarrow> bytes \<Rightarrow> Match list" where
  "friends_search db query =
    (if trim query = [] then []
     else if LIKE_LIMIT < length (like_pattern query) then []
     else take SEARCH_LIMIT (map (\<lambda>(uid, name, _). \<lparr>mt_user_id = uid, mt_username = name\<rparr>)
       (sort_key (\<lambda>(_, name, _). if nocase_eq name query then (0 :: nat) else 1)
         (sort_key (\<lambda>(_, _, seen_at). - seen_at)
           (filter (\<lambda>(_, name, _). sql_like 0x5C (like_pattern query) name) (db_known_user db))))))"

section \<open>What a pattern matches\<close>

lemma sql_like_percent:
  assumes "esc \<noteq> 0x25"
  shows "sql_like esc (0x25 # ps) s \<longleftrightarrow> (\<exists>u v. s = u @ v \<and> sql_like esc ps v)"
proof (induction s)
  case (Cons b bs)
  then show ?case using assms by (auto simp: append_eq_Cons_conv Cons_eq_append_conv)
qed (use assms in simp)

lemma sql_like_escaped:
  "sql_like 0x5C (concat (map like_escape q) @ ps) s
    \<longleftrightarrow> (\<exists>u v. s = u @ v \<and> map fold_case u = map fold_case q \<and> sql_like 0x5C ps v)"
proof (induction q arbitrary: s)
  case (Cons c q)
  have "sql_like 0x5C (like_escape c @ rest) s \<longleftrightarrow>
      (\<exists>b bs. s = b # bs \<and> fold_case b = fold_case c \<and> sql_like 0x5C rest bs)" for rest
    by (cases s) (auto simp: like_escape_def)
  then show ?case by (auto simp: Cons.IH Cons_eq_append_conv) (metis append_Cons list.simps(9))+
qed simp

lemma sql_like_pattern:
  "sql_like 0x5C (like_pattern q) s \<longleftrightarrow> (\<exists>u m v. s = u @ m @ v \<and> nocase_eq m q)"
proof -
  have last: "sql_like 0x5C [0x25] v" for v
    by (simp add: sql_like_percent del: sql_like.simps(2))
  have "sql_like 0x5C (like_pattern q) s \<longleftrightarrow>
      (\<exists>u v. s = u @ v \<and> sql_like 0x5C (concat (map like_escape q) @ [0x25]) v)"
    by (simp add: like_pattern_def sql_like_percent del: sql_like.simps)
  also have "\<dots> \<longleftrightarrow> (\<exists>u m v. s = u @ m @ v \<and> nocase_eq m q)"
    by (simp add: sql_like_escaped last nocase_eq_def del: sql_like.simps) blast
  finally show ?thesis .
qed

lemma length_like_pattern: "length (like_pattern q) \<le> 2 * length q + 2"
proof -
  have "length (concat (map like_escape q)) \<le> 2 * length q"
    by (induction q) (auto simp: like_escape_def)
  then show ?thesis by (simp add: like_pattern_def)
qed

text \<open>
  The search finds names by any part of them. For a query that is not blank and not too long
  for the database it returns known users whose name contains the query but for the case of
  ASCII letters - percent signs, underscores and backslashes of the query stand for
  themselves - at most 64 of them, all when there are fewer, and those whose name is the
  query before the others.
\<close>

theorem search_finds_names:
  assumes "trim query \<noteq> []" "length query < 25000" and found: "found = friends_search db query"
  shows "(\<forall>m \<in> set found. \<exists>u n v seen_at. mt_username m = u @ n @ v \<and> nocase_eq n query
      \<and> (mt_user_id m, mt_username m, seen_at) \<in> set (db_known_user db))
    \<and> length found \<le> 64
    \<and> (length found < 64 \<longrightarrow> (\<forall>uid u n v seen_at. nocase_eq n query \<and>
        (uid, u @ n @ v, seen_at) \<in> set (db_known_user db)
        \<longrightarrow> \<lparr>mt_user_id = uid, mt_username = u @ n @ v\<rparr> \<in> set found))
    \<and> (\<forall>i j. i < j \<and> j < length found \<and> nocase_eq (mt_username (found ! j)) query
        \<longrightarrow> nocase_eq (mt_username (found ! i)) query)"
proof -
  let ?rank = "\<lambda>(uid :: u64, name, seen_at :: int). if nocase_eq name query then (0 :: nat) else 1"
  let ?row = "\<lambda>(uid, name, seen_at :: int). \<lparr>mt_user_id = uid, mt_username = name\<rparr>"
  define rows where "rows = sort_key ?rank (sort_key (\<lambda>(_, _, seen_at). - seen_at)
    (filter (\<lambda>(_, name, _). sql_like 0x5C (like_pattern query) name) (db_known_user db)))"
  have "found = take 64 (map ?row rows)"
    using assms(1,2) length_like_pattern [of query]
    by (simp add: found friends_search_def LIKE_LIMIT_def SEARCH_LIMIT_def rows_def)
  then have found_rows: "found = map ?row (take 64 rows)" by (simp add: take_map)
  have rows: "set rows = {(uid, name, seen_at). (uid, name, seen_at) \<in> set (db_known_user db)
      \<and> (\<exists>u n v. name = u @ n @ v \<and> nocase_eq n query)}"
    by (auto simp: rows_def sql_like_pattern)
  have sound: "\<exists>u n v seen_at. mt_username m = u @ n @ v \<and> nocase_eq n query
      \<and> (mt_user_id m, mt_username m, seen_at) \<in> set (db_known_user db)" if m: "m \<in> set found" for m
  proof -
    obtain row where row: "row \<in> set rows" "m = ?row row"
      using m set_take_subset [of 64 rows] unfolding found_rows set_map by blast
    obtain uid name seen_at where "row = (uid, name, seen_at)" by (cases row)
    then show ?thesis using row rows by auto
  qed
  have len: "length found \<le> 64" by (simp add: found_rows)
  have complete: "\<lparr>mt_user_id = uid, mt_username = u @ n @ v\<rparr> \<in> set found"
    if "length found < 64" "nocase_eq n query" "(uid, u @ n @ v, seen_at) \<in> set (db_known_user db)"
    for uid u n v seen_at
  proof -
    have "(uid, u @ n @ v, seen_at) \<in> set rows" using that(2,3) rows by auto
    moreover have "take 64 rows = rows" using that(1) by (simp add: found_rows)
    ultimately show ?thesis by (force simp: found_rows)
  qed
  have exact: "nocase_eq (mt_username (found ! i)) query"
    if "i < j" "j < length found" "nocase_eq (mt_username (found ! j)) query" for i j
  proof -
    have "sorted (map ?rank rows)" unfolding rows_def by (rule sorted_sort_key)
    then have "?rank (rows ! i) \<le> ?rank (rows ! j)"
      using that(1,2) sorted_nth_mono [of "map ?rank rows" i j] by (simp add: found_rows)
    then show ?thesis using that by (auto simp: found_rows split: prod.splits if_splits)
  qed
  show ?thesis
    by (intro conjI ballI allI impI; (elim conjE)?; rule sound len complete exact; assumption)
qed

definition soap_db :: SocialDb where
  "soap_db = social_db_new\<lparr>db_known_user := [(7, str ''MacTavish'', 30), (8, str ''100% SOAP'', 20),
     (9, str ''soap'', 10)]\<rparr>"

theorem search_finds_names_witness:
  "length (friends_search soap_db (str ''% s'')) \<le> 64
    \<and> \<lparr>mt_user_id = 8, mt_username = str ''100'' @ str ''% S'' @ str ''OAP''\<rparr>
        \<in> set (friends_search soap_db (str ''% s''))"
proof -
  let ?found = "friends_search soap_db (str ''% s'')"
  have nonblank: "trim (str ''% s'') \<noteq> []"
    by (simp add: trim_def strip_any.simps white_space_def str_def upt_rec)
  have short: "length (str ''% s'') < 25000" by (simp add: str_def)
  have row: "(8, str ''100'' @ str ''% S'' @ str ''OAP'', 20) \<in> set (db_known_user soap_db)"
    by (simp add: soap_db_def str_def)
  have "nocase_eq (str ''% S'') (str ''% s'')" by (simp add: nocase_eq_def str_def fold_case_def)
  moreover have "length ?found < 64"
  proof -
    have "length ?found \<le> length (db_known_user soap_db)"
      by (simp add: friends_search_def) (metis length_filter_le min.coboundedI1 min.commute)
    then show ?thesis by (simp add: soap_db_def)
  qed
  ultimately show ?thesis
    using search_finds_names [OF nonblank short refl, of soap_db] row by blast
qed

section \<open>Round trips\<close>

lemma digit_value_decimal: "d < 10 \<Longrightarrow> digit_value 10 (0x30 + of_nat d) = Some d"
proof -
  assume "d < 10"
  then have "d \<in> {0, 1, 2, 3, 4, 5, 6, 7, 8, 9}" by auto
  then show ?thesis by (auto simp: digit_value_def)
qed

lemma digits_value_append:
  "digits_value r n (xs @ ys) = Option.bind (digits_value r n xs) (\<lambda>m. digits_value r m ys)"
  by (induction xs arbitrary: n) (auto split: option.splits)

lemma digits_value_show: "digits_value 10 0 (show_nat n) = Some n"
proof (induction n rule: show_nat.induct)
  case (1 n)
  then show ?case
    by (cases "n < 10")
      (simp_all add: show_nat.simps [of n] digits_value_append digit_value_decimal)
qed

lemma show_nat_digits: "set (show_nat n) \<subseteq> {0x30 + of_nat d | d. d < 10}" "show_nat n \<noteq> []"
proof (induction n rule: show_nat.induct)
  case (1 n)
  {
    case 1
    then show ?case using "1.IH" by (cases "n < 10") (auto simp: show_nat.simps [of n])
  next
    case 2
    then show ?case by (simp add: show_nat.simps [of n])
  }
qed

lemma digit_neq: "d < 10 \<Longrightarrow> (0x30 :: u8) + of_nat d \<notin> {0x2B, 0x28, 0x29, 0x78}"
proof -
  assume "d < 10"
  then have "d \<in> {0, 1, 2, 3, 4, 5, 6, 7, 8, 9}" by auto
  then show ?thesis by auto
qed

lemma parse_show_u64: "parse_u64 (show_nat (unat u)) = Some u"
proof -
  obtain b bs where s: "show_nat (unat u) = b # bs" using show_nat_digits(2) by (cases "show_nat (unat u)") auto
  then have "b \<noteq> 0x2B" using show_nat_digits(1) [of "unat u"] digit_neq by fastforce
  moreover have "unat u < 2 ^ LENGTH(64)" by (rule unsigned_less)
  ultimately show ?thesis using digits_value_show [of "unat u"]
    by (simp add: parse_u64_def parse_radix_def s)
qed

end
