(* ===== verification/Social_Routes.thy ===== *)
theory Social_Routes
  imports Social_Watch Social_Text
begin

text \<open>
  The HTTP routes of the social service (dw-server/src/social/routes.rs). A handler takes the
  parts of its request - path segments, query, body, header - and answers with a status and a
  body; the JSON encoding of the bodies is that of the library. A handler that waits is split
  where other requests can run.
\<close>

section \<open>Bodies\<close>

record Person =
  pe_xuid :: bytes
  pe_is_favorite :: bool
  pe_is_following_caller :: bool
  pe_social_networks :: "bytes list"

record FriendAction =
  fa_user :: bytes
  fa_id :: "bytes option"
  fa_other :: "bytes option"

record FriendView =
  fv_id :: u64
  fv_name :: bytes
  fv_mutual :: bool

record InviteView =
  vi_from :: u64
  vi_name :: bytes
  vi_connection :: bytes

record PresenceView =
  pv_id :: u64
  pv_name :: bytes
  pv_mutual :: bool
  pv_online :: bool
  pv_joinable :: bool

datatype SocialBody =
    Empty
  | PlainText bytes
  | ActionResult bytes
  | PeopleResponse nat "Person list"
  | Results "Match list"
  | FriendsAndIncoming "FriendView list" "FriendView list"
  | Invites "InviteView list"
  | SocialState u64 "PresenceView list" "PresenceView list" "InviteView list"
  | JoinResult bytes "bytes option"

type_synonym SocialResponse = "nat \<times> SocialBody"

section \<open>Who is meant\<close>

datatype Found = FoundOne u64 | FoundMany "u64 list" | FoundNone

definition by_name :: "SocialDb \<Rightarrow> bytes \<Rightarrow> Found" where
  "by_name db who =
    (case lookup_ids db who of [] \<Rightarrow> FoundNone | [uid] \<Rightarrow> FoundOne uid | ids \<Rightarrow> FoundMany ids)"

datatype NoOne = Missing | NotAnId bytes | Ambiguous bytes nat | Unknown

definition by_id :: "bytes \<Rightarrow> NoOne + u64" where
  "by_id what = (case parse_u64 what of None \<Rightarrow> Inl (NotAnId what) | Some uid \<Rightarrow> Inr uid)"

definition caller :: "SocialDb \<Rightarrow> bytes \<Rightarrow> Found" where
  "caller db who = (case parse_u64 who of Some uid \<Rightarrow> FoundOne uid | None \<Rightarrow> by_name db who)"

definition resolve :: "SocialDb \<Rightarrow> bytes \<Rightarrow> u64 option" where
  "resolve db who =
    (case caller db who of
       FoundOne uid \<Rightarrow> Some uid
     | FoundMany ids \<Rightarrow> (case ids of [] \<Rightarrow> None | uid # _ \<Rightarrow> Some uid)
     | FoundNone \<Rightarrow> None)"

definition refused :: "NoOne \<Rightarrow> SocialResponse" where
  "refused why =
    (case why of
       Missing \<Rightarrow> (400, ActionResult (str ''the request names nobody''))
     | NotAnId what \<Rightarrow> (400, ActionResult (quoted what @ str '' is not a player id''))
     | Ambiguous who how_many \<Rightarrow> (409, ActionResult (show_nat how_many @ str '' players answer to ''
         @ quoted who @ str ''; search and pick one''))
     | Unknown \<Rightarrow> (404, ActionResult (str ''unknown player; they must have signed in at least once'')))"

datatype Other = OtherName | OtherId

definition target :: "SocialDb \<Rightarrow> FriendAction \<Rightarrow> Other \<Rightarrow> NoOne + u64" where
  "target db body other_is =
    (case fa_id body of
       Some uid \<Rightarrow> by_id uid
     | None \<Rightarrow>
         (case fa_other body of
            None \<Rightarrow> Inl Missing
          | Some other \<Rightarrow>
              (case other_is of
                 OtherId \<Rightarrow> by_id other
               | OtherName \<Rightarrow>
                   (case by_name db other of
                      FoundOne uid \<Rightarrow> Inr uid
                    | FoundMany ids \<Rightarrow> Inl (Ambiguous other (length ids))
                    | FoundNone \<Rightarrow> Inl Unknown))))"

text \<open>The two users an action is about, or why there are none.\<close>

definition users_of :: "SocialDb \<Rightarrow> FriendAction \<Rightarrow> Other \<Rightarrow> NoOne + (u64 \<times> u64)" where
  "users_of db body other_is =
    (case caller db (fa_user body) of
       FoundMany ids \<Rightarrow> Inl (Ambiguous (fa_user body) (length ids))
     | FoundNone \<Rightarrow> Inl Unknown
     | FoundOne user \<Rightarrow> (case target db body other_is of Inl why \<Rightarrow> Inl why | Inr other \<Rightarrow> Inr (user, other)))"

section \<open>Friends\<close>

definition people :: "bytes \<Rightarrow> SocialResponse social" where
  "people segment = read_db (\<lambda>db.
    case parse_xuid segment of
      None \<Rightarrow> (400, PlainText (str ''bad user''))
    | Some user_id \<Rightarrow>
        (let people = map (\<lambda>f. \<lparr>pe_xuid = show_nat (unat (fs_user_id f)), pe_is_favorite = False,
               pe_is_following_caller = fs_mutual f, pe_social_networks = []\<rparr>) (friends_list db user_id)
         in (200, PeopleResponse (length people) people)))"

definition act :: "FriendAction \<Rightarrow> Other \<Rightarrow> (u64 \<Rightarrow> u64 \<Rightarrow> SocialDb \<Rightarrow> outcome \<times> SocialDb) \<Rightarrow> SocialResponse social" where
  "act body other_is f =
    bindE (read_db (\<lambda>db. users_of db body other_is)) (\<lambda>users.
    case users of
      Inl why \<Rightarrow> returnE (refused why)
    | Inr (user, other) \<Rightarrow>
        bindE (friend_action f user other) (\<lambda>result.
        case result of
          Inr word \<Rightarrow> returnE (200, ActionResult word)
        | Inl e \<Rightarrow> returnE (400, ActionResult e)))"

definition request_route :: "int \<Rightarrow> FriendAction \<Rightarrow> SocialResponse social" where
  "request_route now body = act body OtherName (friends_request now)"

definition accept_route :: "int \<Rightarrow> FriendAction \<Rightarrow> SocialResponse social" where
  "accept_route now body = act body OtherId (friends_accept now)"

definition remove_route :: "FriendAction \<Rightarrow> SocialResponse social" where
  "remove_route body = act body OtherId friends_remove"

definition search_route :: "bytes \<Rightarrow> SocialResponse social" where
  "search_route name = read_db (\<lambda>db. (200, Results (friends_search db name)))"

definition friend_view :: "Friendship \<Rightarrow> FriendView" where
  "friend_view f = \<lparr>fv_id = fs_user_id f, fv_name = fs_username f, fv_mutual = fs_mutual f\<rparr>"

definition list_route :: "nat \<Rightarrow> bytes \<Rightarrow> SocialResponse social" where
  "list_route now who =
    bindE (read_db (\<lambda>db. resolve db who)) (\<lambda>found.
    case found of
      None \<Rightarrow> returnE (404, PlainText (str ''unknown player''))
    | Some user \<Rightarrow>
        thenE (touch now user)
        (read_db (\<lambda>db. (200, FriendsAndIncoming
          (map friend_view (friends_list db user) @ map friend_view (outgoing_requests db user))
          (map friend_view (incoming_requests db user))))))"

section \<open>Activities and invitations\<close>

definition set_activity_route :: "int \<Rightarrow> bytes \<Rightarrow> bytes \<Rightarrow> SocialResponse social" where
  "set_activity_route now user body =
    (case xuid_in user of
       None \<Rightarrow> returnE (400, PlainText (str ''bad user''))
     | Some user_id \<Rightarrow>
         (case member body (str ''connectionString'') of
            None \<Rightarrow> returnE (200, Empty)
          | Some connection \<Rightarrow>
              (case usable_session connection of
                 Inl _ \<Rightarrow> returnE (200, Empty)
               | Inr () \<Rightarrow> thenE (set_activity now user_id connection) (returnE (200, Empty)))))"

definition delete_activity_route :: "bytes \<Rightarrow> SocialResponse social" where
  "delete_activity_route user =
    thenE (case xuid_in user of Some user_id \<Rightarrow> clear_activity user_id | None \<Rightarrow> returnE ())
      (returnE (200, Empty))"

definition find_map :: "('a \<Rightarrow> 'b option) \<Rightarrow> 'a list \<Rightarrow> 'b option" where
  "find_map f xs = (case List.map_filter f xs of [] \<Rightarrow> None | y # _ \<Rightarrow> Some y)"

definition identity_in :: "bytes option \<Rightarrow> u64 option" where
  "identity_in authorization =
    Option.bind (Option.bind authorization header_text) (\<lambda>v.
    Option.bind (strip_prefix (str ''IW4x1.0 '') v) (\<lambda>t.
    Option.bind (find_map (strip_prefix (str ''xuid='')) (split_on 0x3B t)) (parse_radix 16)))"

definition send_invites_route :: "int \<Rightarrow> bytes option \<Rightarrow> bytes \<Rightarrow> SocialResponse social" where
  "send_invites_route now authorization body =
    (case identity_in authorization of
       None \<Rightarrow> returnE (401, PlainText (str ''no identity''))
     | Some from \<Rightarrow>
         bindE (read_db (\<lambda>db. case member body (str ''connectionString'') of
             Some c \<Rightarrow> Some c | None \<Rightarrow> activity_of db from)) (\<lambda>found.
         case found of
           None \<Rightarrow> returnE (200, Empty)
         | Some connection \<Rightarrow>
             (case usable_session connection of
                Inl _ \<Rightarrow> returnE (200, Empty)
              | Inr () \<Rightarrow>
                  thenE (foreachE (\<lambda>to. invite now from to connection) (xuids_in body))
                    (returnE (200, Empty)))))"

definition invite_view :: "Invitation \<Rightarrow> InviteView" where
  "invite_view i = \<lparr>vi_from = iv_from i, vi_name = iv_from_name i, vi_connection = iv_connection i\<rparr>"

definition invites_route :: "bytes \<Rightarrow> SocialResponse social" where
  "invites_route who =
    bindE (read_db (\<lambda>db. resolve db who)) (\<lambda>found.
    case found of
      None \<Rightarrow> returnE (404, PlainText (str ''unknown player''))
    | Some user \<Rightarrow>
        bindE (on_db (take_invites user)) (\<lambda>waiting. returnE (200, Invites (map invite_view waiting))))"

section \<open>The state of a user's friends\<close>

definition presence :: "nat \<Rightarrow> SocialWorld \<Rightarrow> Friendship \<Rightarrow> PresenceView" where
  "presence now w f =
    (let online = (fs_mutual f \<and> is_online now w (fs_user_id f))
     in \<lparr>pv_id = fs_user_id f, pv_name = fs_username f, pv_mutual = fs_mutual f, pv_online = online,
         pv_joinable = (online \<and> activity_of (sw_db w) (fs_user_id f) \<noteq> None)\<rparr>)"

definition view :: "nat \<Rightarrow> SocialWorld \<Rightarrow> u64 \<Rightarrow> PresenceView list \<times> PresenceView list" where
  "view now w user =
    (map (presence now w) (friends_list (sw_db w) user) @ map (presence now w) (outgoing_requests (sw_db w) user),
     map (presence now w) (incoming_requests (sw_db w) user))"

text \<open>How long a poll may wait, from the \<open>wait\<close> of the query in seconds.\<close>

definition poll_wait :: "bytes option \<Rightarrow> nat" where
  "poll_wait wait =
    min (case Option.bind wait parse_u64 of None \<Rightarrow> MAX_WAIT | Some s \<Rightarrow> unat s * 10 ^ 9) MAX_WAIT"

text \<open>What the handler does after its poll has returned.\<close>

definition social_answer :: "nat \<Rightarrow> u64 \<Rightarrow> u64 \<Rightarrow> SocialResponse social" where
  "social_answer now user rv =
    thenE (touch now user) (\<lambda>w.
    let (friends, incoming) = view now w user
    in bindE (on_db (take_invites user)) (\<lambda>waiting.
       returnE (200, SocialState rv friends incoming (map invite_view waiting))) w)"

text \<open>The handler: it comes at the instant \<open>now\<close>, others run while it waits, as \<open>wakes\<close> says, and
  it answers at \<open>later\<close>. The result is \<open>None\<close> while it waits.\<close>

definition social_route ::
  "nat \<Rightarrow> nat \<Rightarrow> bytes \<Rightarrow> bytes option \<Rightarrow> wake_up list \<Rightarrow> SocialWorld
    \<Rightarrow> ((bd_error + SocialResponse) \<times> SocialWorld) option" where
  "social_route now later who since wakes w =
    (case resolve (sw_db w) who of
       None \<Rightarrow> Some (Inr (404, PlainText (str ''unknown player'')), w)
     | Some user \<Rightarrow>
         (case touch now user w of
            (Inl e, w1) \<Rightarrow> Some (Inl e, w1)
          | (Inr (), w1) \<Rightarrow>
              (case changed_since user (Option.bind since parse_u64) w1 wakes of
                 None \<Rightarrow> None
               | Some (Inl e, w2) \<Rightarrow> Some (Inl e, w2)
               | Some (Inr rv, w2) \<Rightarrow> Some (social_answer later user rv w2))))"

section \<open>Joining\<close>

definition join_refused :: "nat \<Rightarrow> bytes \<Rightarrow> SocialResponse" where
  "join_refused status why = (status, JoinResult why None)"

definition join_route :: "nat \<Rightarrow> FriendAction \<Rightarrow> SocialResponse social" where
  "join_route now body = (\<lambda>w.
    case users_of (sw_db w) body OtherId of
      Inl why \<Rightarrow> (Inr (refused why), w)
    | Inr (user, other) \<Rightarrow>
        (Inr (if \<not> list_ex (\<lambda>f. fs_user_id f = other \<and> fs_mutual f) (friends_list (sw_db w) user)
              then join_refused 403 (str ''you are not friends'')
              else if \<not> is_online now w other then join_refused 404 (str ''they are offline'')
              else case activity_of (sw_db w) other of
                None \<Rightarrow> join_refused 404 (str ''they are not in a game'')
              | Some connection \<Rightarrow>
                  (case usable_session connection of
                     Inl _ \<Rightarrow> join_refused 404 (str ''they are not in a game'')
                   | Inr () \<Rightarrow> (200, JoinResult (str ''joining'') (Some connection)))), w))"

end
