(* ===== verification/Social_Feed.thy ===== *)
theory Social_Feed
  imports Social_Routes
begin

text \<open>
  The feed of the social service: what a user sees of its friends changes only together with
  the user's revision, so that a long poll misses nothing. The relation \<open>announced\<close> states it
  of two worlds; every operation is shown to keep to it, and the routes are composed of them.
\<close>

section \<open>Rosters and watchers\<close>

definition roster :: "SocialDb \<Rightarrow> u64 \<Rightarrow> u64 set" where
  "roster db u = {v. (u, v) \<in> friend_rows db \<or> (v, u) \<in> request_rows db \<or> (u, v) \<in> request_rows db}"

lemma roster_sym: "social_ok db \<Longrightarrow> v \<in> roster db u \<longleftrightarrow> u \<in> roster db v"
  using social_okD(1) by (auto simp: roster_def)

lemma set_watchers_of: "social_ok db \<Longrightarrow> set (watchers_of db u) = roster db u"
  by (auto simp: watchers_of_def roster_def friends_list_ids request_list_ids)

lemma rows_of_iff:
  "v \<in> set (rows_of fst snd t u) \<longleftrightarrow> (u, v) \<in> fst ` set t"
  "v \<in> set (rows_of snd fst t u) \<longleftrightarrow> (v, u) \<in> fst ` set t"
  by (force simp: set_rows_of)+

definition same_tables :: "SocialDb \<Rightarrow> SocialDb \<Rightarrow> bool" where
  "same_tables db db' \<longleftrightarrow> db_friend db' = db_friend db \<and> db_friend_request db' = db_friend_request db"

lemma same_tables_rows:
  assumes "same_tables db db'"
  shows "friend_rows db' = friend_rows db" "request_rows db' = request_rows db"
    "social_ok db' = social_ok db" "roster db' = roster db"
  using assms by (auto simp: same_tables_def friend_rows_def request_rows_def social_ok_def roster_def)

section \<open>What a view is made of\<close>

definition profile :: "nat \<Rightarrow> SocialWorld \<Rightarrow> u64 \<Rightarrow> bytes \<times> bool \<times> bool" where
  "profile now w v = (coalesce_name (sw_db w) v, is_online now w v, activity_of (sw_db w) v \<noteq> None)"

lemma presence_cong:
  assumes "profile now w' v = profile now w v"
  shows "presence now w' \<lparr>fs_user_id = v, fs_username = coalesce_name (sw_db w') v, fs_mutual = m\<rparr>
    = presence now w \<lparr>fs_user_id = v, fs_username = coalesce_name (sw_db w) v, fs_mutual = m\<rparr>"
  using assms by (simp add: profile_def presence_def Let_def)

lemma view_cong:
  assumes tables: "same_tables (sw_db w) (sw_db w')" and ok: "social_ok (sw_db w)"
    and profiles: "\<And>v. v \<in> roster (sw_db w) u \<Longrightarrow> profile now w' v = profile now w v"
  shows "view now w' u = view now w u"
proof (cases "sql_fits u")
  case True
  have "v \<in> roster (sw_db w) u" if "v \<in> set (rows_of fst snd (db_friend (sw_db w)) u)
      \<union> set (rows_of fst snd (db_friend_request (sw_db w)) u)
      \<union> set (rows_of snd fst (db_friend_request (sw_db w)) u)" for v
    using that by (auto simp: roster_def friend_rows_def request_rows_def rows_of_iff simp del: set_rows_of)
  then have same: "presence now w' \<lparr>fs_user_id = v, fs_username = coalesce_name (sw_db w') v, fs_mutual = m\<rparr>
      = presence now w \<lparr>fs_user_id = v, fs_username = coalesce_name (sw_db w) v, fs_mutual = m\<rparr>"
    if "v \<in> set (rows_of fst snd (db_friend (sw_db w)) u)
      \<union> set (rows_of fst snd (db_friend_request (sw_db w)) u)
      \<union> set (rows_of snd fst (db_friend_request (sw_db w)) u)" for v m
    using that presence_cong [OF profiles] by blast
  show ?thesis using True tables same
    by (simp add: view_def friends_list_def incoming_requests_def outgoing_requests_def same_tables_def)
next
  case False
  then show ?thesis by (simp add: view_def friends_list_def incoming_requests_def outgoing_requests_def)
qed

section \<open>Announced changes\<close>

definition announced :: "nat \<Rightarrow> SocialWorld \<Rightarrow> SocialWorld \<Rightarrow> bool" where
  "announced now w w' \<longleftrightarrow> social_ok (sw_db w') \<and> (\<forall>u. unat (revision_of w u) \<le> unat (revision_of w' u)
    \<and> (view now w' u \<noteq> view now w u \<longrightarrow> unat (revision_of w u) < unat (revision_of w' u)))"

lemma announcedD:
  assumes "announced now w w'"
  shows "social_ok (sw_db w')" "unat (revision_of w u) \<le> unat (revision_of w' u)"
    "view now w' u \<noteq> view now w u \<Longrightarrow> unat (revision_of w u) < unat (revision_of w' u)"
  using assms by (auto simp: announced_def)

lemma announced_refl: "social_ok (sw_db w) \<Longrightarrow> announced now w w"
  by (simp add: announced_def)

lemma announced_trans:
  assumes "announced now w w'" "announced now w' w''"
  shows "announced now w w''"
proof -
  have "unat (revision_of w u) < unat (revision_of w'' u)" if "view now w'' u \<noteq> view now w u" for u
    using that announcedD(2,3) [OF assms(1), of u] announcedD(2,3) [OF assms(2), of u]
    by (cases "view now w' u = view now w u") auto
  then show ?thesis
    using announcedD [OF assms(1)] announcedD [OF assms(2)] order_trans unfolding announced_def by blast
qed

definition announces :: "nat \<Rightarrow> 'a social \<Rightarrow> bool" where
  "announces now m \<longleftrightarrow> (\<forall>w x w'. social_ok (sw_db w) \<and> m w = (Inr x, w') \<longrightarrow> announced now w w')"

named_theorems announces_intros

lemma announcesI: "(\<And>w x w'. social_ok (sw_db w) \<Longrightarrow> m w = (Inr x, w') \<Longrightarrow> announced now w w') \<Longrightarrow> announces now m"
  by (auto simp: announces_def)

lemma announcesD: "announces now m \<Longrightarrow> m w = (Inr x, w') \<Longrightarrow> social_ok (sw_db w) \<Longrightarrow> announced now w w'"
  by (auto simp: announces_def)

lemma announces_return [announces_intros]: "announces now (returnE x)"
  by (rule announcesI) (simp add: monad_simps announced_refl)

lemma announces_read [announces_intros]: "announces now (read_db f)"
  by (rule announcesI) (auto simp: read_db_def announced_refl)

lemma announces_bind [announces_intros]:
  assumes "announces now m" "\<And>x. announces now (f x)" shows "announces now (bindE m f)"
proof (rule announcesI)
  fix w y w'' assume ok: "social_ok (sw_db w)" and run: "bindE m f w = (Inr y, w'')"
  obtain x w' where "m w = (Inr x, w')" "f x w' = (Inr y, w'')" using bindE_Inr_E [OF run] .
  then show "announced now w w''"
    using announcesD [OF assms(1) _ ok] announcesD [OF assms(2)] announcedD(1) announced_trans by metis
qed

lemma announces_then [announces_intros]: "announces now m \<Longrightarrow> announces now n \<Longrightarrow> announces now (thenE m n)"
  by (simp add: thenE_def announces_bind)

lemma announces_foreach [announces_intros]: "(\<And>x. announces now (f x)) \<Longrightarrow> announces now (foreachE f xs)"
  by (induction xs) (simp_all add: announces_intros)

lemma view_bumped: "same_but_revisions w w' \<Longrightarrow> view now w' = view now w"
  by (rule ext) (simp add: view_def presence_def [abs_def] is_online_def same_but_revisions_def)

lemma announced_bumped:
  assumes "announced now w w1" "same_but_revisions w1 w'"
  shows "announced now w w'"
proof -
  have "sw_db w' = sw_db w1" using assms(2) by (simp add: same_but_revisions_def)
  moreover have "unat (revision_of w1 u) \<le> unat (revision_of w' u)" for u
    using assms(2) by (simp add: same_but_revisions_def)
  ultimately show ?thesis
    using assms(1) view_bumped [OF assms(2), of now] unfolding announced_def
    by (metis order_trans less_le_trans)
qed

text \<open>A change to one user's profile is announced when all who watch the user are.\<close>

lemma announced_profile:
  assumes ok: "social_ok (sw_db w)" and tables: "same_tables (sw_db w) (sw_db w1)"
    and rev: "\<And>u. revision_of w1 u = revision_of w u"
    and others: "\<And>v. v \<noteq> x \<Longrightarrow> profile now w1 v = profile now w v"
    and told: "profile now w1 x = profile now w x \<and> w' = w1 \<or> bump_watchers_of x w1 = (Inr y, w')"
  shows "announced now w w'"
proof -
  have ok1: "social_ok (sw_db w1)" using ok same_tables_rows(3) [OF tables] by simp
  have unchanged: "view now w1 u = view now w u" if "x \<notin> roster (sw_db w) u \<or> profile now w1 x = profile now w x" for u
    by (rule view_cong [OF tables ok]) (use that others in metis)
  from told show ?thesis
  proof
    assume "profile now w1 x = profile now w x \<and> w' = w1"
    then show ?thesis using unchanged ok1 rev by (simp add: announced_def)
  next
    assume bumped: "bump_watchers_of x w1 = (Inr y, w')"
    note same = bump_watchers_ok(1) [OF bumped]
    have "unat (revision_of w u) < unat (revision_of w' u)" if "x \<in> roster (sw_db w) u" for u
    proof -
      have "u \<in> set (watchers_of (sw_db w1) x)"
        using that roster_sym [OF ok] by (simp add: set_watchers_of [OF ok1] same_tables_rows(4) [OF tables])
      then show ?thesis using bump_watchers_ok(2) [OF bumped] rev by metis
    qed
    moreover have "view now w' u = view now w u" if "x \<notin> roster (sw_db w) u" for u
      using unchanged that view_bumped [OF same] by simp
    ultimately show ?thesis
      using same ok1 rev by (auto simp: announced_def same_but_revisions_def)
  qed
qed

section \<open>Operations on profiles\<close>

lemma map_of_update: "map_of (AList.update k v t) k' = (if k' = k then Some v else map_of t k')"
  by (simp add: update_conv')

lemma is_online_db [simp]: "is_online now (w\<lparr>sw_db := db\<rparr>) v = is_online now w v"
  by (simp add: is_online_def)

lemma after_insert_activity [simp]:
  "activity_of (insert_activity u c t db) v = (if v = u \<and> sql_fits u then Some c else activity_of db v)"
  "coalesce_name (insert_activity u c t db) v = coalesce_name db v"
proof -
  show "activity_of (insert_activity u c t db) v = (if v = u \<and> sql_fits u then Some c else activity_of db v)"
    by (cases "sql_fits u"; cases "sql_fits v") (auto simp: insert_activity_def activity_of_def map_of_update)
  show "coalesce_name (insert_activity u c t db) v = coalesce_name db v"
    by (cases "sql_fits u") (simp_all add: insert_activity_def coalesce_name_def)
qed

lemma after_insert_known_user [simp]:
  "activity_of (insert_known_user u n t db) v = activity_of db v"
  "coalesce_name (insert_known_user u n t db) v = (if v = u \<and> sql_fits u then n else coalesce_name db v)"
proof -
  show "activity_of (insert_known_user u n t db) v = activity_of db v"
    by (cases "sql_fits u"; cases "sql_fits v") (simp_all add: insert_known_user_def activity_of_def)
  show "coalesce_name (insert_known_user u n t db) v = (if v = u \<and> sql_fits u then n else coalesce_name db v)"
    by (cases "sql_fits u") (simp_all add: insert_known_user_def coalesce_name_def map_of_update)
qed

lemma same_tables_inserts [simp]:
  "same_tables db (insert_activity u c t db)" "same_tables db (insert_known_user u n t db)"
  by (cases "sql_fits u", simp_all add: same_tables_def insert_activity_def)
    (cases "sql_fits u", simp_all add: same_tables_def insert_known_user_def)

lemma activity_of_fits: "activity_of db u = Some c \<Longrightarrow> sql_fits u"
  by (cases "sql_fits u") (simp_all add: activity_of_def)

lemma lookup_name_SomeD: "lookup_name db u = Some n \<Longrightarrow> sql_fits u \<and> coalesce_name db u = n"
  by (cases "sql_fits u") (auto simp: lookup_name_def coalesce_name_def split: option.splits)

lemma announces_set_activity [announces_intros]: "announces now (set_activity t user connection)"
proof (rule announcesI)
  fix w x w' assume ok: "social_ok (sw_db w)" and run: "set_activity t user connection w = (Inr x, w')"
  let ?w1 = "w\<lparr>sw_db := insert_activity user connection t (sw_db w)\<rparr>"
  show "announced now w w'"
  proof (rule announced_profile [OF ok, of ?w1])
    show "profile now ?w1 user = profile now w user \<and> w' = ?w1 \<or> bump_watchers_of user ?w1 = (Inr x, w')"
    proof (cases "activity_of (sw_db w) user = Some connection")
      case True
      then have w': "w' = ?w1" using run by (simp add: set_activity_def monad_simps)
      show ?thesis using True activity_of_fits [OF True] by (simp add: w' profile_def)
    next
      case False
      then show ?thesis using run by (auto simp: set_activity_def monad_simps split: option.splits)
    qed
  qed (simp_all add: profile_def)
qed

lemma length_filter_same: "length (filter P xs) = length xs \<Longrightarrow> filter P xs = xs"
proof (induction xs)
  case (Cons x xs)
  show ?case
  proof (cases "P x")
    case False
    then have "length (filter P xs) = Suc (length xs)" using Cons.prems by simp
    with length_filter_le [of P xs] have False by linarith
    then show ?thesis ..
  qed (use Cons in simp)
qed simp

lemma delete_activity_cases:
  obtains (none) "delete_activity user db = (0, db)"
  | (some) n where "n \<noteq> 0" "sql_fits user"
    "delete_activity user db = (n, db\<lparr>db_activity := delete_where (\<lambda>u. u = user) (db_activity db)\<rparr>)"
proof (cases "sql_fits user \<and> delete_where (\<lambda>u. u = user) (db_activity db) \<noteq> db_activity db")
  case True
  then have "length (delete_where (\<lambda>u. u = user) (db_activity db)) \<noteq> length (db_activity db)"
    using length_filter_same unfolding delete_where_def by blast
  moreover have "length (delete_where (\<lambda>u. u = user) (db_activity db)) \<le> length (db_activity db)"
    by (simp add: delete_where_def)
  ultimately have "length (db_activity db) - length (delete_where (\<lambda>u. u = user) (db_activity db)) \<noteq> 0" by simp
  then show ?thesis using True by (intro some) (simp_all add: delete_activity_def)
next
  case False
  then show ?thesis by (cases "sql_fits user") (auto simp: delete_activity_def intro!: none)
qed

lemma announces_clear_activity [announces_intros]: "announces now (clear_activity user)"
proof (rule announcesI)
  fix w x w' assume ok: "social_ok (sw_db w)" and run: "clear_activity user w = (Inr x, w')"
  show "announced now w w'"
  proof (cases rule: delete_activity_cases [of user "sw_db w"])
    case none
    then have "w' = w" using run by (simp add: clear_activity_def monad_simps)
    then show ?thesis using announced_refl [OF ok] by simp
  next
    case (some n)
    let ?w1 = "w\<lparr>sw_db := (sw_db w)\<lparr>db_activity := delete_where (\<lambda>u. u = user) (db_activity (sw_db w))\<rparr>\<rparr>"
    show ?thesis
    proof (rule announced_profile [OF ok, of ?w1])
      show "profile now ?w1 user = profile now w user \<and> w' = ?w1 \<or> bump_watchers_of user ?w1 = (Inr x, w')"
        using run some by (simp add: clear_activity_def monad_simps)
      show "profile now ?w1 v = profile now w v" if "v \<noteq> user" for v
        using that by (cases "sql_fits v")
          (simp_all add: profile_def coalesce_name_def activity_of_def map_of_delete_where)
    qed (simp_all add: same_tables_def)
  qed
qed

lemma announced_note_user:
  assumes ok: "social_ok (sw_db w)" and run: "note_user t user name w = (Inr x, w')"
    and known: "lookup_name (sw_db w) user \<noteq> None \<or> roster (sw_db w) user = {}"
  shows "announced now w w'"
proof (cases "lookup_name (sw_db w) user")
  case None
  let ?w1 = "w\<lparr>sw_db := insert_known_user user name t (sw_db w)\<rparr>"
  have tables: "same_tables (sw_db w) (sw_db ?w1)" by simp
  have "w' = ?w1" using None run by (simp add: note_user_def monad_simps)
  moreover have "view now ?w1 u = view now w u" for u
  proof (rule view_cong [OF tables ok])
    fix v assume "v \<in> roster (sw_db w) u"
    then have "v \<noteq> user" using None known roster_sym [OF ok, of v u] by auto
    then show "profile now ?w1 v = profile now w v" by (simp add: profile_def)
  qed
  ultimately show ?thesis using ok same_tables_rows(3) [OF tables] by (simp add: announced_def)
next
  case (Some was)
  let ?w1 = "w\<lparr>sw_db := insert_known_user user name t (sw_db w)\<rparr>"
  show ?thesis
  proof (rule announced_profile [OF ok, of ?w1])
    show "profile now ?w1 user = profile now w user \<and> w' = ?w1 \<or> bump_watchers_of user ?w1 = (Inr x, w')"
    proof (cases "was = name")
      case True
      then have w': "w' = ?w1" using Some run by (simp add: note_user_def monad_simps)
      show ?thesis using True lookup_name_SomeD [OF Some] by (simp add: w' profile_def)
    next
      case False
      then show ?thesis using Some run by (simp add: note_user_def monad_simps)
    qed
  qed (simp_all add: profile_def)
qed

section \<open>Presence\<close>

lemma announces_touch [announces_intros]: "announces now (touch now user)"
proof (rule announcesI)
  fix w x w' assume ok: "social_ok (sw_db w)" and run: "touch now user w = (Inr x, w')"
  let ?w1 = "w\<lparr>sw_seen := (sw_seen w)(user \<mapsto> now)\<rparr>"
  show "announced now w w'"
  proof (rule announced_profile [OF ok, of ?w1])
    show "profile now ?w1 user = profile now w user \<and> w' = ?w1 \<or> bump_watchers_of user ?w1 = (Inr x, w')"
    proof (cases "is_online now w user")
      case True
      then have "w' = ?w1" using run by (auto simp: touch_def is_online_def split: option.splits)
      then show ?thesis using True by (simp add: profile_def is_online_def ONLINE_FOR_def)
    next
      case False
      then show ?thesis using run by (auto simp: touch_def is_online_def not_less split: option.splits)
    qed
  qed (simp_all add: profile_def is_online_def same_tables_def)
qed

lemma bump_watchers_all_ok:
  assumes "foreachE bump_watchers_of us w = (Inr x, w')"
  shows "same_but_revisions w w' \<and> (\<forall>v \<in> set us. \<forall>u \<in> set (watchers_of (sw_db w) v).
    unat (revision_of w u) < unat (revision_of w' u))"
  using assms
proof (induction us arbitrary: w)
  case (Cons v us)
  from Cons.prems obtain w1 where w1: "bump_watchers_of v w = (Inr (), w1)" "foreachE bump_watchers_of us w1 = (Inr x, w')"
    by (auto elim: thenE_Inr_E)
  note one = bump_watchers_ok [OF w1(1)] and rest = Cons.IH [OF w1(2)]
  have db: "sw_db w1 = sw_db w" and first: "\<And>u. unat (revision_of w u) \<le> unat (revision_of w1 u)"
    and later: "\<And>u. unat (revision_of w1 u) \<le> unat (revision_of w' u)"
    using one(1) rest by (simp_all add: same_but_revisions_def)
  have "unat (revision_of w u) < unat (revision_of w' u)"
    if "y \<in> set (v # us)" "u \<in> set (watchers_of (sw_db w) y)" for y u
  proof (cases "y = v")
    case True
    then show ?thesis using one(2) [of u] that later [of u] by simp
  next
    case False
    then show ?thesis using rest that first [of u] db by (auto intro: le_less_trans)
  qed
  then show ?case using same_but_revisions_trans [OF one(1)] rest by blast
qed (simp add: monad_simps)

lemma announces_sweep [announces_intros]: "announces now (sweep now order)"
proof (rule announcesI)
  fix w x w' assume ok: "social_ok (sw_db w)" and run: "sweep now order w = (Inr x, w')"
  define gone where "gone = filter (\<lambda>user. case sw_seen w user of None \<Rightarrow> False | Some at \<Rightarrow> ONLINE_FOR \<le> now - at) order"
  let ?w1 = "w\<lparr>sw_seen := sw_seen w |` (- set gone)\<rparr>"
  have bumped: "foreachE bump_watchers_of gone ?w1 = (Inr x, w')" using run by (simp add: sweep_def gone_def Let_def)
  have "announced now w ?w1"
  proof (rule announced_profile [OF ok, of ?w1])
    have offline: "is_online now ?w1 v = is_online now w v" for v
      by (auto simp: is_online_def restrict_map_def gone_def split: option.splits)
    show "profile now ?w1 v = profile now w v" if "v \<noteq> x" for v x
      by (simp add: profile_def offline)
    show "profile now ?w1 x = profile now w x \<and> ?w1 = ?w1 \<or> bump_watchers_of x ?w1 = (Inr (), ?w1)" for x
      by (simp add: profile_def offline)
  qed (simp_all add: same_tables_def)
  then show "announced now w w'"
    using announced_bumped bump_watchers_all_ok [OF bumped] by blast
qed

section \<open>Friend actions\<close>

text \<open>What an action between two users leaves alone.\<close>

definition between :: "u64 \<Rightarrow> u64 \<Rightarrow> SocialDb \<Rightarrow> SocialDb \<Rightarrow> bool" where
  "between a b db db' \<longleftrightarrow> db_known_user db' = db_known_user db \<and> db_activity db' = db_activity db
    \<and> (\<forall>u. u \<noteq> a \<and> u \<noteq> b \<longrightarrow> rows_of fst snd (db_friend db') u = rows_of fst snd (db_friend db) u
        \<and> rows_of fst snd (db_friend_request db') u = rows_of fst snd (db_friend_request db) u
        \<and> rows_of snd fst (db_friend_request db') u = rows_of snd fst (db_friend_request db) u
        \<and> (\<forall>f. map_of (db_friend db') (f, u) = map_of (db_friend db) (f, u)))"

lemma between_refl [simp]: "between a b db db"
  by (simp add: between_def)

lemma between_trans: "between a b db db' \<Longrightarrow> between a b db' db'' \<Longrightarrow> between a b db db''"
  by (simp add: between_def)

lemma rows_of_insert: "this k \<noteq> u \<Longrightarrow> rows_of this other (insert_or_ignore k v t) u = rows_of this other t u"
  by (simp add: rows_of_def insert_or_ignore_def)

lemma rows_of_delete:
  assumes "\<And>k. P k \<Longrightarrow> this k \<noteq> u"
  shows "rows_of this other (delete_where P t) u = rows_of this other t u"
proof -
  have "filter (\<lambda>(k, _). this k = u) (delete_where P t) = filter (\<lambda>(k, _). this k = u) t"
    using assms by (auto simp: delete_where_def intro!: filter_cong)
  then show ?thesis by (simp add: rows_of_def)
qed

lemma between_insert_friend: "between a b db (db\<lparr>db_friend := insert_or_ignore (a, b) t (db_friend db)\<rparr>)"
  by (auto simp: between_def map_of_insert_or_ignore intro!: rows_of_insert)

lemma between_insert_request:
  "between a b db (db\<lparr>db_friend_request := insert_or_ignore (a, b) t (db_friend_request db)\<rparr>)"
  by (auto simp: between_def intro!: rows_of_insert)

lemma between_delete:
  "between a b db (db\<lparr>db_friend := delete_where (both_ways a b) (db_friend db)\<rparr>)"
  "between a b db (db\<lparr>db_friend_request := delete_where (both_ways a b) (db_friend_request db)\<rparr>)"
proof -
  have "fst k \<noteq> u \<and> snd k \<noteq> u" if "both_ways a b k" "u \<noteq> a" "u \<noteq> b" for k u
    using that by (auto simp: both_ways_def)
  then have rows: "rows_of fst snd (delete_where (both_ways a b) t) u = rows_of fst snd t u"
    "rows_of snd fst (delete_where (both_ways a b) t) u = rows_of snd fst t u"
    if "u \<noteq> a" "u \<noteq> b" for t :: "((u64 \<times> u64) \<times> int) list" and u
    using that by (auto intro!: rows_of_delete)
  have other: "\<not> both_ways a b (f, u)" if "u \<noteq> a" "u \<noteq> b" for f u
    using that by (simp add: both_ways_def)
  show "between a b db (db\<lparr>db_friend := delete_where (both_ways a b) (db_friend db)\<rparr>)"
    "between a b db (db\<lparr>db_friend_request := delete_where (both_ways a b) (db_friend_request db)\<rparr>)"
    by (simp_all add: between_def rows other map_of_delete_where)
qed

lemma between_attempt: "between a b db (f db) \<Longrightarrow> between a b db (attempt params f db)"
  by (cases "list_all sql_fits params") simp_all

lemma between_sym: "between a b db db' \<longleftrightarrow> between b a db db'"
  by (auto simp: between_def)

lemma between_accept_locked: "between a b db (snd (accept_locked a b t db))"
proof -
  let ?d1 = "attempt [a, b] (\<lambda>db. db\<lparr>db_friend_request := delete_where (both_ways a b) (db_friend_request db)\<rparr>) db"
  have d1: "between a b db ?d1" by (rule between_attempt) (rule between_delete(2))
  have step: "insert_friend t (a, b) d = Some d' \<Longrightarrow> between a b d d'"
    "insert_friend t (b, a) d = Some d' \<Longrightarrow> between a b d d'" for d d'
    using between_insert_friend [of a b d t] between_insert_friend [of b a d t]
    by (auto simp: insert_friend_def statement_def between_sym [of b a] split: if_splits)
  show ?thesis
    by (auto simp: accept_locked_def Let_def split: option.splits intro: d1 between_trans [OF d1 step(1)]
        between_trans [OF between_trans [OF d1 step(1)] step(2)])
qed

definition between_action :: "(u64 \<Rightarrow> u64 \<Rightarrow> SocialDb \<Rightarrow> outcome \<times> SocialDb) \<Rightarrow> bool" where
  "between_action f \<longleftrightarrow> (\<forall>a b db. social_ok db \<longrightarrow> social_ok (snd (f a b db)) \<and> between a b db (snd (f a b db))
    \<and> (\<forall>e. fst (f a b db) = Inl e \<longrightarrow> snd (f a b db) = db))"

lemma between_request: "between_action (friends_request t)"
  unfolding between_action_def
proof (intro allI impI)
  fix a b db assume ok: "social_ok db"
  have "between a b db (snd (friends_request t a b db))
    \<and> (\<forall>e. fst (friends_request t a b db) = Inl e \<longrightarrow> snd (friends_request t a b db) = db)"
    by (cases rule: friends_request_cases [of a b t db])
      (simp_all add: between_accept_locked accept_locked_rows between_insert_request)
  then show "social_ok (snd (friends_request t a b db)) \<and> between a b db (snd (friends_request t a b db))
    \<and> (\<forall>e. fst (friends_request t a b db) = Inl e \<longrightarrow> snd (friends_request t a b db) = db)"
    using friends_request_ok [OF ok] by simp
qed

lemma between_accept: "between_action (friends_accept t)"
  unfolding between_action_def
proof (intro allI impI conjI)
  fix a b db assume ok: "social_ok db"
  show "social_ok (snd (friends_accept t a b db))" by (rule friends_accept_ok [OF ok])
  show "between a b db (snd (friends_accept t a b db))"
    by (simp add: friends_accept_def between_accept_locked)
  show "snd (friends_accept t a b db) = db" if "fst (friends_accept t a b db) = Inl e" for e
    using that by (auto simp: friends_accept_def pending_iff accept_locked_rows)
qed

lemma between_remove: "between_action friends_remove"
  unfolding between_action_def
proof (intro allI impI conjI)
  fix a b db assume ok: "social_ok db"
  show "social_ok (snd (friends_remove a b db))" by (rule friends_remove_ok [OF ok])
  show "between a b db (snd (friends_remove a b db))"
    by (auto simp: friends_remove_def Let_def intro!: between_trans [OF between_attempt between_attempt] between_delete)
qed (simp add: friends_remove_def Let_def)

lemma view_between:
  assumes "between a b db db'" "u \<noteq> a" "u \<noteq> b" "sw_db w = db"
  shows "view now (w\<lparr>sw_db := db'\<rparr>) u = view now w u"
proof -
  have names: "coalesce_name db' = coalesce_name db" and acts: "activity_of db' = activity_of db"
    using assms(1) by (auto simp: between_def coalesce_name_def activity_of_def statement_def fun_eq_iff)
  have "friends_list db' u = friends_list db u" "incoming_requests db' u = incoming_requests db u"
    "outgoing_requests db' u = outgoing_requests db u"
    using assms(1-3) names
    by (simp_all add: between_def friends_list_def incoming_requests_def outgoing_requests_def statement_def)
  then show ?thesis by (simp add: view_def presence_def [abs_def] acts assms(4))
qed

lemma announces_friend_action:
  assumes f: "between_action f" shows "announces now (friend_action f a b)"
proof (rule announcesI)
  fix w x w' assume ok: "social_ok (sw_db w)" and run: "friend_action f a b w = (Inr x, w')"
  obtain r db where r: "f a b (sw_db w) = (r, db)" by (cases "f a b (sw_db w)")
  then have db: "social_ok db" "between a b (sw_db w) db" "\<And>e. r = Inl e \<Longrightarrow> db = sw_db w"
    using f ok unfolding between_action_def by (metis fst_conv snd_conv)+
  let ?w1 = "w\<lparr>sw_db := db\<rparr>"
  show "announced now w w'"
  proof (cases r)
    case (Inl e)
    then have "w' = w" using run r db(3) by (simp add: friend_action_def monad_simps)
    then show ?thesis using announced_refl [OF ok] by simp
  next
    case (Inr word)
    then have bumped: "bump [a, b] ?w1 = (Inr (), w')"
      using run r by (auto simp: friend_action_def monad_simps elim!: thenE_Inr_E)
    note same = bump_ok(1) [OF bumped]
    have "view now w' u = view now w u" if "u \<noteq> a" "u \<noteq> b" for u
      using view_between [OF db(2) that] view_bumped [OF same] by simp
    moreover have "unat (revision_of w u) < unat (revision_of w' u)" if "u = a \<or> u = b" for u
      using bump_ok(2) [OF bumped, of u] that by auto
    ultimately show ?thesis
      using same db(1) by (auto simp: announced_def same_but_revisions_def)
  qed
qed

section \<open>Routes\<close>

lemma announces_on_db:
  assumes "\<And>db. same_tables db (snd (f db)) \<and> db_known_user (snd (f db)) = db_known_user db
    \<and> db_activity (snd (f db)) = db_activity db"
  shows "announces now (on_db f)"
proof (rule announcesI)
  fix w x w' assume ok: "social_ok (sw_db w)" and run: "on_db f w = (Inr x, w')"
  let ?w1 = "w\<lparr>sw_db := snd (f (sw_db w))\<rparr>"
  have w': "w' = ?w1" using run by (auto simp: on_db_def split: prod.splits)
  have same: "profile now ?w1 v = profile now w v" for v
    using assms [of "sw_db w"] by (simp add: profile_def coalesce_name_def activity_of_def statement_def)
  show "announced now w w'"
    by (rule announced_profile [OF ok, of ?w1]) (use assms same w' in simp_all)
qed

lemma announces_bump [announces_intros]: "announces now (bump us)"
  by (rule announcesI) (use announced_bumped announced_refl bump_ok(1) in blast)

lemma announces_invite [announces_intros]: "announces now (invite t from to connection)"
  unfolding invite_def
  by (intro announces_then announces_on_db announces_bump)
    (cases "list_all sql_fits [to, from]"; simp add: insert_invite_def same_tables_def)

lemma announces_take_invites [announces_intros]: "announces now (on_db (take_invites user))"
  by (rule announces_on_db) (auto simp: take_invites_def Let_def same_tables_def attempt_def statement_def)

lemma announces_if [announces_intros]: "announces now m \<Longrightarrow> announces now n \<Longrightarrow> announces now (if b then m else n)"
  by simp

lemma announces_act [announces_intros]: "between_action f \<Longrightarrow> announces now (act body other_is f)"
  unfolding act_def
  by (intro announces_intros announces_friend_action; (simp split: sum.split prod.split)?)
    (intro allI impI conjI announces_intros announces_friend_action; (simp split: sum.split)?;
     auto intro!: announces_intros)+

text \<open>What reaches the service: the requests, the two halves of a poll, the sweeper, and the note
  that the login takes of a name.\<close>

datatype social_request =
    RequestR FriendAction | AcceptR FriendAction | RemoveR FriendAction | ListR bytes
  | ActivityR bytes bytes | NoActivityR bytes | SendInvitesR "bytes option" bytes | InvitesR bytes
  | ArriveR u64 | AnswerR u64 u64 | SweepR "u64 list" | NoteR u64 bytes

definition discard :: "'a social \<Rightarrow> unit social" where
  "discard m = bindE m (\<lambda>_. returnE ())"

fun serve :: "int \<Rightarrow> nat \<Rightarrow> social_request \<Rightarrow> unit social" where
  "serve t now (RequestR body) = discard (request_route t body)"
| "serve t now (AcceptR body) = discard (accept_route t body)"
| "serve t now (RemoveR body) = discard (remove_route body)"
| "serve t now (ListR who) = discard (list_route now who)"
| "serve t now (ActivityR user body) = discard (set_activity_route t user body)"
| "serve t now (NoActivityR user) = discard (delete_activity_route user)"
| "serve t now (SendInvitesR authorization body) = discard (send_invites_route t authorization body)"
| "serve t now (InvitesR who) = discard (invites_route who)"
| "serve t now (ArriveR user) = touch now user"
| "serve t now (AnswerR user rv) = discard (social_answer now user rv)"
| "serve t now (SweepR order) = sweep now order"
| "serve t now (NoteR user name) = note_user t user name"

fun first_note :: "social_request \<Rightarrow> SocialWorld \<Rightarrow> bool" where
  "first_note (NoteR user name) w = (lookup_name (sw_db w) user = None)"
| "first_note _ w = False"

lemma announces_discard [announces_intros]: "announces now m \<Longrightarrow> announces now (discard m)"
  unfolding discard_def by (intro announces_intros)

lemma announces_social_answer [announces_intros]: "announces now (social_answer now user rv)"
proof -
  have "announces now (\<lambda>w. let (friends, incoming) = view now w user
    in bindE (on_db (take_invites user)) (\<lambda>waiting.
       returnE (200, SocialState rv friends incoming (map invite_view waiting))) w)"
  proof (rule announcesI)
    fix w x w' assume "social_ok (sw_db w)"
      "(let (friends, incoming) = view now w user in bindE (on_db (take_invites user)) (\<lambda>waiting.
          returnE (200, SocialState rv friends incoming (map invite_view waiting))) w) = (Inr x, w')"
    then show "announced now w w'"
      using announcesD [OF announces_bind [OF announces_take_invites announces_return]]
      by (auto simp: Let_def split: prod.splits)
  qed
  then show ?thesis unfolding social_answer_def by (intro announces_intros)
qed

lemma announces_list_route [announces_intros]: "announces now (list_route now who)"
  unfolding list_route_def
  by (intro announces_intros; simp split: option.split) (intro allI impI conjI announces_intros)

lemma announces_activity_routes [announces_intros]:
  "announces now (set_activity_route t user body)" "announces now (delete_activity_route user)"
  unfolding set_activity_route_def delete_activity_route_def
  by (auto split: option.split sum.split unit.split intro!: announces_intros)

lemma announces_invite_routes [announces_intros]:
  "announces now (send_invites_route t authorization body)" "announces now (invites_route who)"
  unfolding send_invites_route_def invites_route_def
  by (auto split: option.split sum.split unit.split intro!: announces_intros)

lemma announces_serve:
  assumes "social_ok (sw_db w)" "serve t now r w = (Inr x, w')"
    and "\<not> first_note r w \<or> (\<forall>u name. r = NoteR u name \<longrightarrow> roster (sw_db w) u = {})"
  shows "announced now w w'"
proof (cases "\<exists>u name. r = NoteR u name")
  case True
  then show ?thesis using assms announced_note_user by fastforce
next
  case False
  then have "announces now (serve t now r)"
    by (cases r; simp only: serve.simps request_route_def accept_route_def remove_route_def)
      (intro announces_intros between_request between_accept between_remove | simp)+
  then show ?thesis by (rule announcesD [where m = "serve t now r", OF _ assms(2,1)])
qed

section \<open>Properties\<close>

text \<open>
  C25. What a user sees of its friends changes only with its revision. Whatever request is served
  but the first name of a user that others already have as a friend or a request, if it does
  not panic the tables still agree, no revision falls, and each user whose view - friends,
  requests, their names, who is online and who can be joined - is another than before has a
  greater revision. The request left out does change such views and announces nothing, as
  \<open>first_name_unannounced\<close> shows.
\<close>

theorem changes_are_announced:
  assumes "social_ok (sw_db w)" "serve t now r w = (Inr x, w')"
    and "\<not> first_note r w \<or> (\<forall>u name. r = NoteR u name \<longrightarrow> roster (sw_db w) u = {})"
  shows "social_ok (sw_db w') \<and> unat (revision_of w u) \<le> unat (revision_of w' u)
    \<and> (view now w' u \<noteq> view now w u \<longrightarrow> unat (revision_of w u) < unat (revision_of w' u))"
  using announcedD [OF announces_serve [OF assms]] by blast

definition feed_world :: SocialWorld where
  "feed_world = social_world_new 1000 friends_db"

lemma friends_db_value: "friends_db = social_db_new\<lparr>db_friend := [((2, 1), 20), ((1, 2), 20)],
    db_friend_request := [((3, 1), 30)]\<rparr>"
  by (simp add: friends_db_def social_db_new_def friends_request_def friends_accept_def pending_def
      accept_locked_def insert_friend_def statement_def attempt_def sql_fits_def insert_or_ignore_def
      delete_where_def both_ways_def)

lemma friends_db_lists:
  "friends_list friends_db 2 = [\<lparr>fs_user_id = 1, fs_username = [], fs_mutual = True\<rparr>]"
  "friends_list friends_db 1 = [\<lparr>fs_user_id = 2, fs_username = [], fs_mutual = True\<rparr>]"
  "incoming_requests friends_db 2 = []" "outgoing_requests friends_db 2 = []"
  "outgoing_requests friends_db 1 = []"
  by (simp_all add: friends_db_value social_db_new_def friends_list_def incoming_requests_def
      outgoing_requests_def rows_of_def sql_fits_def coalesce_name_def)

definition arrived_world :: SocialWorld where
  "arrived_world = feed_world\<lparr>sw_seen := [2 \<mapsto> 7], sw_revisions := [1 \<mapsto> epoch_of 1000 + 1], sw_tick := 1\<rparr>"

lemma serve_arrival: "serve 50 7 (ArriveR 2) feed_world = (Inr (), arrived_world)"
  by (simp add: touch_def feed_world_def social_world_new_def bump_watchers_of_def read_db_def bindE_def
      watchers_of_def friends_db_lists bump_def thenE_def with_revisions_def bump_one_def revision_of_def
      checked_add_def epoch_of_def monad_simps arrived_world_def)

lemma view_arrival: "view 7 arrived_world 1 \<noteq> view 7 feed_world 1"
  by (simp add: view_def friends_db_lists arrived_world_def feed_world_def social_world_new_def presence_def
      is_online_def ONLINE_FOR_def)

theorem changes_are_announced_witness:
  "unat (revision_of feed_world 1) < unat (revision_of arrived_world 1)"
  using changes_are_announced [OF _ serve_arrival, of 1] view_arrival friends_db_ok
  by (simp add: feed_world_def social_world_new_def)

section \<open>Polls\<close>

type_synonym social_events = "(int \<times> nat \<times> social_request) list"

text \<open>A run of requests that all end, none of which gives a watched user its first name.\<close>

inductive served :: "social_events \<Rightarrow> SocialWorld \<Rightarrow> SocialWorld \<Rightarrow> bool" where
  served_nil: "served [] w w"
| served_cons: "served ((t, now, r) # es) w w''"
    if "serve t now r w = (Inr (), w')" "served es w' w''"
      "\<not> first_note r w \<or> (\<forall>u name. r = NoteR u name \<longrightarrow> roster (sw_db w) u = {})"

inductive_cases served_consE: "served ((t, now, r) # es) w w''"
inductive_simps served_nil_iff [simp]: "served [] w w'"

text \<open>Some request of the run changed what the user sees at that instant.\<close>

fun saw_change :: "u64 \<Rightarrow> social_events \<Rightarrow> SocialWorld \<Rightarrow> bool" where
  "saw_change u [] w = False"
| "saw_change u ((t, now, r) # es) w =
    (let w' = snd (serve t now r w) in view now w' u \<noteq> view now w u \<or> saw_change u es w')"

lemma served_announced:
  assumes "served es w w'" "social_ok (sw_db w)"
  shows "social_ok (sw_db w') \<and> unat (revision_of w u) \<le> unat (revision_of w' u)
    \<and> (saw_change u es w \<longrightarrow> unat (revision_of w u) < unat (revision_of w' u))"
  using assms
proof (induction rule: served.induct)
  case (served_cons t now r w w1 es w2)
  note step = announcedD [OF announces_serve [OF served_cons.prems served_cons.hyps(1,3)]]
  show ?case using step(2,3) [of u] served_cons.IH [OF step(1)] served_cons.hyps(1)
    by (auto simp: Let_def)
qed simp

lemma poll_returns:
  assumes "revision_of w user \<noteq> since" "\<not> sw_revisions_poisoned w"
  shows "poll_loop user since w wakes = Some (Inr (revision_of w user), w)"
  using assms by (simp add: revision_def with_revisions_def)

lemma poll_waits:
  assumes "revision_of w user = since" "\<not> sw_revisions_poisoned w"
  shows "poll_loop user since w (Ticked w' # wakes) = poll_loop user since w' wakes"
    "poll_loop user since w (DeadlinePassed w' # wakes) = Some (revision user w')"
    "poll_loop user since w [] = None"
  using assms by (simp_all add: revision_def with_revisions_def)

text \<open>
  C26. A poll misses nothing that is announced. A user has read revision \<open>since\<close>; after that any
  requests of any users are served, but none that gives its first name to a user that others
  already have as a friend or a request, which is not announced (\<open>first_name_unannounced\<close>),
  and one of them changes what the user sees. Then a poll for \<open>since\<close>
  returns, at its start when it comes after the change and at the first wake-up after it when
  it has been waiting, and with a revision greater than \<open>since\<close>; and a poll for whom nothing
  has been announced waits, until its deadline ends it with the revision it knows.
\<close>

theorem polls_miss_nothing:
  assumes "social_ok (sw_db w)" "since = revision_of w user"
    and "\<not> sw_revisions_poisoned w" "\<not> sw_revisions_poisoned w'"
    and "served es w w'" "saw_change user es w"
  shows "\<exists>rv. unat since < unat rv \<and> changed_since user (Some since) w' wakes = Some (Inr rv, w')
    \<and> changed_since user (Some since) w (Ticked w' # wakes) = Some (Inr rv, w')
    \<and> changed_since user (Some since) w (Ticked w # wakes) = changed_since user (Some since) w wakes
    \<and> changed_since user (Some since) w [] = None
    \<and> changed_since user (Some since) w [DeadlinePassed w] = Some (Inr since, w)"
proof -
  have greater: "unat since < unat (revision_of w' user)"
    using served_announced [OF assms(5,1), of user] assms(2,6) by simp
  then have other: "revision_of w' user \<noteq> since" by blast
  then have "changed_since user (Some since) w' wakes = Some (Inr (revision_of w' user), w')"
    using poll_returns [OF other assms(4)] by (simp add: changed_since_def del: poll_loop.simps)
  moreover note greater
  moreover have "revision user w = (Inr since, w)"
    by (simp add: revision_def with_revisions_def assms(2,3))
  ultimately show ?thesis
    using poll_waits [OF assms(2) [symmetric] assms(3)]
    by (auto simp: changed_since_def poll_returns [OF other assms(4)] simp del: poll_loop.simps)
qed

theorem polls_miss_nothing_witness:
  "\<exists>rv. unat (epoch_of 1000) < unat rv
    \<and> changed_since 1 (Some (epoch_of 1000)) feed_world [Ticked arrived_world] = Some (Inr rv, arrived_world)"
proof -
  have since: "epoch_of 1000 = revision_of feed_world 1"
    by (simp add: feed_world_def social_world_new_def revision_of_def)
  have "served [(50, 7, ArriveR 2)] feed_world arrived_world"
    by (intro served_cons [OF serve_arrival] served_nil) simp
  moreover have "saw_change 1 [(50, 7, ArriveR 2)] feed_world"
    using view_arrival serve_arrival by (simp del: serve.simps)
  ultimately show ?thesis
    using polls_miss_nothing [OF _ since, of arrived_world "[(50, 7, ArriveR 2)]" "[]"] friends_db_ok
    by (auto simp: feed_world_def arrived_world_def social_world_new_def)
qed

section \<open>Departures\<close>

text \<open>
  Who has gone is noticed at the next sweep. A sweep over all who have been seen leaves only
  users who are online, forgets nobody who is, and gives each user who has one that left as a
  friend or as a request a greater revision.
\<close>

theorem sweep_announces_departures:
  assumes "social_ok (sw_db w)" "set order = dom (sw_seen w)" "sweep now order w = (Inr x, w')"
  shows "(\<forall>v. v \<in> dom (sw_seen w') \<longleftrightarrow> is_online now w v) \<and> (\<forall>v. is_online now w' v = is_online now w v)
    \<and> (v \<in> dom (sw_seen w) \<and> \<not> is_online now w v \<and> v \<in> roster (sw_db w) u
        \<longrightarrow> unat (revision_of w u) < unat (revision_of w' u))"
proof -
  define gone where "gone = filter (\<lambda>user. case sw_seen w user of None \<Rightarrow> False | Some at \<Rightarrow> ONLINE_FOR \<le> now - at) order"
  let ?w1 = "w\<lparr>sw_seen := sw_seen w |` (- set gone)\<rparr>"
  have gone: "v \<in> set gone \<longleftrightarrow> v \<in> dom (sw_seen w) \<and> \<not> is_online now w v" for v
    using assms(2) by (auto simp: gone_def is_online_def domI split: option.splits)
  have bumped: "same_but_revisions ?w1 w' \<and> (\<forall>v \<in> set gone. \<forall>u \<in> set (watchers_of (sw_db w) v).
      unat (revision_of w u) < unat (revision_of w' u))"
    using bump_watchers_all_ok [of gone ?w1 x w'] assms(3) by (simp add: sweep_def gone_def Let_def)
  then have seen: "sw_seen w' = sw_seen w |` (- set gone)" by (simp add: same_but_revisions_def)
  have "v \<in> dom (sw_seen w') \<longleftrightarrow> is_online now w v" for v
    using gone [of v] by (auto simp: seen restrict_map_def is_online_def split: option.splits if_splits)
  moreover have "is_online now w' v = is_online now w v" for v
    using gone [of v] by (auto simp: seen restrict_map_def is_online_def split: option.splits if_splits)
  moreover have "unat (revision_of w u) < unat (revision_of w' u)" if "v \<in> set gone" "v \<in> roster (sw_db w) u"
    using bumped that roster_sym [OF assms(1), of v u] set_watchers_of [OF assms(1)] by blast
  ultimately show ?thesis using gone [of v] by blast
qed

theorem sweep_announces_departures_witness:
  "\<exists>w'. sweep (46 * 10 ^ 9) [2] arrived_world = (Inr (), w')
    \<and> unat (revision_of arrived_world 1) < unat (revision_of w' 1)"
proof -
  have db: "sw_db arrived_world = friends_db" by (simp add: arrived_world_def feed_world_def social_world_new_def)
  have "fst (sweep (46 * 10 ^ 9) [2] arrived_world) = Inr ()"
    by (simp add: sweep_def db arrived_world_def feed_world_def social_world_new_def bump_watchers_of_def
        read_db_def bindE_def watchers_of_def friends_db_lists bump_def thenE_def with_revisions_def
        bump_one_def revision_of_def checked_add_def epoch_of_def monad_simps ONLINE_FOR_def)
  then obtain w' where run: "sweep (46 * 10 ^ 9) [2] arrived_world = (Inr (), w')"
    by (metis prod.collapse)
  have "2 \<in> roster friends_db 1"
    by (simp add: roster_def friends_db_value friend_rows_def social_db_new_def)
  then show ?thesis
    using sweep_announces_departures [OF _ _ run, of 2 1] run friends_db_ok
    by (simp add: db) (simp add: arrived_world_def is_online_def ONLINE_FOR_def)
qed

section \<open>Joining\<close>




section \<open>A change that is not announced\<close>

definition stranger_world :: SocialWorld where
  "stranger_world = social_world_new 1000 (social_db_new\<lparr>db_friend_request := [((1, 5), 10)]\<rparr>)"

text \<open>
  The first name of a user is not announced. User 1 has asked user 5, whom the service does
  not know yet, to be a friend, and sees a request to somebody without a name; when user 5
  then logs in for the first time, the name appears in what user 1 sees but user 1's
  revision stays, so that a poll goes on waiting.
\<close>

theorem first_name_unannounced:
  "\<exists>w'. serve 20 7 (NoteR 5 (str ''Soap'')) stranger_world = (Inr (), w')
    \<and> view 7 w' 1 \<noteq> view 7 stranger_world 1
    \<and> changed_since 1 (Some (revision_of stranger_world 1)) w' [] = None"
proof -
  let ?db = "social_db_new\<lparr>db_friend_request := [((1, 5), 10)]\<rparr>"
  let ?w' = "stranger_world\<lparr>sw_db := insert_known_user 5 (str ''Soap'') 20 ?db\<rparr>"
  have "lookup_name ?db 5 = None" by (simp add: lookup_name_def social_db_new_def sql_fits_def)
  then have "serve 20 7 (NoteR 5 (str ''Soap'')) stranger_world = (Inr (), ?w')"
    by (simp add: note_user_def monad_simps stranger_world_def social_world_new_def)
  moreover have "view 7 ?w' 1 \<noteq> view 7 stranger_world 1"
    by (simp add: view_def stranger_world_def social_world_new_def insert_known_user_def friends_list_def
        outgoing_requests_def rows_of_def social_db_new_def sql_fits_def coalesce_name_def presence_def str_def)
  moreover have "changed_since 1 (Some (revision_of stranger_world 1)) ?w' [] = None"
    by (simp add: changed_since_def revision_def with_revisions_def stranger_world_def social_world_new_def
        revision_of_def)
  ultimately show ?thesis by blast
qed

end
