(* ===== verification/Http_Auth.thy ===== *)
theory Http_Auth
  imports Lobby Social_Watch Social_Text
begin

text \<open>
  Authentication over HTTP (dw-server/src/auth/mod.rs): the identity is a header of the
  request, the reply carries a ticket for the client and a proof for the lobby server. The
  encoding of the two as text is a parameter; the random session key is an argument.
\<close>

section \<open>Text\<close>








section \<open>Requests and replies\<close>

definition TICKET_SIZE :: nat where "TICKET_SIZE = 128"




definition serialize_ticket :: "AuthTicket \<Rightarrow> bytes option" where
  "serialize_ticket ticket =
    (case run_writer (ticket_serialize ticket) of
       Inl _ \<Rightarrow> None
     | Inr buf \<Rightarrow> if TICKET_SIZE < length buf then None else Some (resize TICKET_SIZE 0 buf))"



section \<open>The handler\<close>







section \<open>Issuing\<close>





lemma serialize_ticket_too_long: "64 < length (t_username t) \<Longrightarrow> serialize_ticket t = None"
  by (simp add: serialize_ticket_def run_ticket)


section \<open>From the header to the lobby\<close>







end
