(* ===== verification/Counter.thy ===== *)
theory Counter
  imports Service_Support
begin

text \<open>
  The counter service: libbitdemon/src/lobby/counter reads requests to add to counters and
  to get their totals, dw-server/src/lobby/counter/service.rs keeps the totals in memory. A total
  is an i64 and adding to it is checked: an overflow panics under the write lock and poisons it.
\<close>

section \<open>The service\<close>

record CounterIncrement =
  ci_counter_id :: u32
  ci_counter_increment :: i64

record CounterValue =
  cv_counter_id :: u32
  cv_counter_value :: i64

record DwCounterService =
  cs_data :: "u32 \<rightharpoonup> i64"
  cs_poisoned :: bool

definition counter_service_new :: DwCounterService where
  "counter_service_new = \<lparr>cs_data = Map.empty, cs_poisoned = False\<rparr>"

definition get_counter_totals :: "u32 list \<Rightarrow> (DwCounterService, bd_error, CounterValue list) sm" where
  "get_counter_totals counter_ids = (\<lambda>s.
    if cs_poisoned s then (Inl Panic, s)
    else (Inr (map (\<lambda>counter_id. \<lparr>cv_counter_id = counter_id,
        cv_counter_value = (case cs_data s counter_id of None \<Rightarrow> 0 | Some v \<Rightarrow> v)\<rparr>) counter_ids), s))"

fun increment_loop :: "CounterIncrement list \<Rightarrow> (DwCounterService, bd_error, unit) sm" where
  "increment_loop [] s = (Inr (), s)"
| "increment_loop (increment # increments) s =
    (let data = cs_data s; counter_id = ci_counter_id increment
     in case data counter_id of
          Some existing_value \<Rightarrow>
            (case checked_sadd existing_value (ci_counter_increment increment) of
               Inl e \<Rightarrow> (Inl e, s\<lparr>cs_poisoned := True\<rparr>)
             | Inr v \<Rightarrow> increment_loop increments (s\<lparr>cs_data := data(counter_id \<mapsto> v)\<rparr>))
        | None \<Rightarrow>
            increment_loop increments (s\<lparr>cs_data := data(counter_id \<mapsto> ci_counter_increment increment)\<rparr>))"

definition increment_counters :: "CounterIncrement list \<Rightarrow> (DwCounterService, bd_error, unit) sm" where
  "increment_counters increments = (\<lambda>s.
    if cs_poisoned s then (Inl Panic, s) else increment_loop increments s)"

section \<open>The handler\<close>

record CounterValueResult =
  cr_counter_id :: u32
  cr_counter_value :: i64

definition counter_value_serialize :: "CounterValueResult \<Rightarrow> wr" where
  "counter_value_serialize v = thenE (write_u32 (cr_counter_id v)) (write_i64 (cr_counter_value v))"

definition counter_value_deserialize :: "CounterValueResult rd" where
  "counter_value_deserialize =
    bindE read_u32 (\<lambda>counter_id.
    bindE read_i64 (\<lambda>counter_value.
    returnE \<lparr>cr_counter_id = counter_id, cr_counter_value = counter_value\<rparr>))"

datatype CounterTaskId = IncrementCounters | GetCounterTotals

definition counter_task_from_u8 :: "u8 \<Rightarrow> CounterTaskId option" where
  "counter_task_from_u8 v =
    (if v = 1 then Some IncrementCounters else if v = 2 then Some GetCounterTotals else None)"

text \<open>The handler is generic over its service: the operations are arguments.\<close>

definition handle_increment_counters ::
  "(CounterIncrement list \<Rightarrow> ('s, bd_error, unit) sm) \<Rightarrow> reader \<Rightarrow> ('s, BdResponse) act" where
  "handle_increment_counters increment r =
    bindE (run_rd (read_all_ok counter_value_deserialize) r) (\<lambda>(values, _).
    thenE (on_service (increment (map (\<lambda>v. \<lparr>ci_counter_id = cr_counter_id v,
        ci_counter_increment = cr_counter_value v\<rparr>) (filter (\<lambda>v. cr_counter_id v > 0) values))))
    (reply_only NoError 1))"

definition handle_get_counter_totals ::
  "(u32 list \<Rightarrow> ('s, bd_error, CounterValue list) sm) \<Rightarrow> reader \<Rightarrow> ('s, BdResponse) act" where
  "handle_get_counter_totals totals r =
    bindE (run_rd read_u32_list r) (\<lambda>(counter_ids, _).
    bindE (on_service (totals counter_ids)) (\<lambda>values.
    reply_results 2 (map (\<lambda>v. counter_value_serialize
      \<lparr>cr_counter_id = cv_counter_id v, cr_counter_value = cv_counter_value v\<rparr>) values)))"

definition counter_handle ::
  "(u32 list \<Rightarrow> ('s, bd_error, CounterValue list) sm) \<Rightarrow> (CounterIncrement list \<Rightarrow> ('s, bd_error, unit) sm)
    \<Rightarrow> reader \<Rightarrow> ('s, BdResponse) act" where
  "counter_handle totals increment r =
    bindE (run_rd read_u8 r) (\<lambda>(task_id_value, r1).
    case counter_task_from_u8 task_id_value of
      None \<Rightarrow> reply_only NoError task_id_value
    | Some IncrementCounters \<Rightarrow> handle_increment_counters increment r1
    | Some GetCounterTotals \<Rightarrow> handle_get_counter_totals totals r1)"

section \<open>What a service of counters promises\<close>

text \<open>The sum of the increments of a counter, over the integers; only the ids the handler passes
  on count.\<close>

definition added :: "CounterValueResult list \<Rightarrow> u32 \<Rightarrow> int" where
  "added vs i = (\<Sum>v \<leftarrow> vs. if cr_counter_id v = i \<and> i > 0 then sint (cr_counter_value v) else 0)"

definition in_range :: "(u32 \<Rightarrow> int) \<Rightarrow> bool" where
  "in_range f \<longleftrightarrow> (\<forall>i. fits_signed TYPE(64) (f i))"

definition increments_of :: "CounterValueResult list \<Rightarrow> CounterIncrement list" where
  "increments_of vs = map (\<lambda>v. \<lparr>ci_counter_id = cr_counter_id v, ci_counter_increment = cr_counter_value v\<rparr>)
    (filter (\<lambda>v. cr_counter_id v > 0) vs)"

lemma added_Nil [simp]: "added [] i = 0"
  by (simp add: added_def)

lemma added_append [simp]: "added (vs @ ws) i = added vs i + added ws i"
  by (simp add: added_def)

lemma added_Cons: "added (v # vs) i
    = (if cr_counter_id v = i \<and> i > 0 then sint (cr_counter_value v) else 0) + added vs i"
  by (simp add: added_def)

text \<open>A state of the service stands for the function from ids to totals; the service is usable
  while it stands for one. Increments that leave every total in range at every moment are
  added, and totals are reported as they are.\<close>

locale counter_service =
  fixes totals :: "u32 list \<Rightarrow> ('s, bd_error, CounterValue list) sm"
    and increment :: "CounterIncrement list \<Rightarrow> ('s, bd_error, unit) sm"
    and counts :: "'s \<Rightarrow> (u32 \<Rightarrow> int) \<Rightarrow> bool"
  assumes totals_law: "counts s f \<Longrightarrow> totals ids s
      = (Inr (map (\<lambda>i. \<lparr>cv_counter_id = i, cv_counter_value = word_of_int (f i)\<rparr>) ids), s)"
    and increment_law: "counts s f \<Longrightarrow> (\<And>n. in_range (\<lambda>i. f i + added (take n vs) i))
      \<Longrightarrow> \<exists>s'. increment (increments_of vs) s = (Inr (), s') \<and> counts s' (\<lambda>i. f i + added vs i)"

definition enc_counter :: "CounterValueResult \<Rightarrow> bool list" where
  "enc_counter v = enc_u32 (cr_counter_id v) @ enc_i64 (cr_counter_value v)"

definition increment_request :: "request \<Rightarrow> CounterValueResult list \<Rightarrow> bool" where
  "increment_request q vs \<longleftrightarrow> (case q of (_, tid, r) \<Rightarrow> tid < 2 ^ 64 - 1 \<and> ready BitMode True r
     \<and> (\<exists>pad. rbits r = enc_u8 1 @ concat (map enc_counter vs) @ replicate pad False))"

definition totals_request :: "request \<Rightarrow> u32 list \<Rightarrow> bool" where
  "totals_request q ids \<longleftrightarrow> (case q of (_, tid, r) \<Rightarrow> tid < 2 ^ 64 - 1 \<and> ready BitMode True r
     \<and> length ids < 2 ^ 32 \<and> (\<exists>pad. rbits r = enc_u8 2 @ concat (map enc_u32 ids) @ replicate pad False))"

lemma writes_counter: "writes BitMode True (enc_counter v) (counter_value_serialize v)"
  unfolding enc_counter_def counter_value_serialize_def by (intro writes_then writes_u32 writes_i64)

lemma reads_counter: "reads BitMode True (enc_counter v) counter_value_deserialize v"
proof -
  have "reads BitMode True (enc_u32 (cr_counter_id v) @ enc_i64 (cr_counter_value v) @ []) counter_value_deserialize v"
    unfolding counter_value_deserialize_def
    by (intro reads_bind [OF reads_u32] reads_bind [OF reads_i64]) (cases v; simp add: reads_return)
  then show ?thesis by (simp add: enc_counter_def)
qed

lemma read_counters:
  assumes "ready BitMode True r" "rbits r = concat (map enc_counter vs) @ replicate pad False"
  obtains r' where "read_all_ok counter_value_deserialize r = (Inr vs, r')"
proof (rule read_all_ok_values [OF reads_counter _ assms])
  fix r assume r: "ready BitMode True r" "rbits r = replicate pad False"
  obtain e r1 where "read_u32 r = (Inl e, r1)" "e \<noteq> Panic"
    using read_word_padding [OF r, of UnsignedInteger32Type] unfolding read_u32_def by blast
  then show "\<exists>e r1. counter_value_deserialize r = (Inl e, r1) \<and> e \<noteq> Panic"
    by (simp add: counter_value_deserialize_def bindE_def)
qed (simp_all add: enc_counter_def)

text \<open>A request reaches the operation of its task with the values the client wrote.\<close>

lemma increment_request_runs:
  assumes "increment_request (session, tid, r) vs"
  shows "counter_handle totals increment r conn
    = thenE (on_service (increment (increments_of vs))) (reply_only NoError 1) conn"
proof -
  obtain pad where r: "ready BitMode True r" "rbits r = enc_u8 1 @ concat (map enc_counter vs) @ replicate pad False"
    using assms by (auto simp: increment_request_def)
  obtain r1 where 1: "read_u8 r = (Inr 1, r1)" "ready BitMode True r1"
      "rbits r1 = concat (map enc_counter vs) @ replicate pad False" using reads_ready [OF reads_u8 r] .
  obtain r2 where "read_all_ok counter_value_deserialize r1 = (Inr vs, r2)" using read_counters [OF 1(2,3)] .
  then show ?thesis using 1(1)
    by (simp add: counter_handle_def bind_run_rd counter_task_from_u8_def handle_increment_counters_def increments_of_def)
qed

lemma totals_request_runs:
  assumes "totals_request (session, tid, r) ids"
  shows "counter_handle totals increment r conn = bindE (on_service (totals ids)) (\<lambda>values.
    reply_results 2 (map counter_value_serialize (map (\<lambda>v. \<lparr>cr_counter_id = cv_counter_id v,
      cr_counter_value = cv_counter_value v\<rparr>) values))) conn"
proof -
  obtain pad where r: "ready BitMode True r" "rbits r = enc_u8 2 @ concat (map enc_u32 ids) @ replicate pad False"
    using assms by (auto simp: totals_request_def)
  obtain r1 where 1: "read_u8 r = (Inr 2, r1)" "ready BitMode True r1"
      "rbits r1 = concat (map enc_u32 ids) @ replicate pad False" using reads_ready [OF reads_u8 r] .
  obtain r2 where "read_u32_list r1 = (Inr ids, r2)" using read_u32_list_values [OF 1(2,3)] .
  then show ?thesis using 1(1)
    by (simp add: counter_handle_def bind_run_rd counter_task_from_u8_def handle_get_counter_totals_def comp_def)
qed

context counter_service
begin

lemma increment_answered:
  assumes "counts s f" "\<And>n. in_range (\<lambda>i. f i + added (take n vs) i)" "increment_request q vs"
  shows "\<exists>data s'. answer (counter_handle totals increment) q s = (Inr (encrypted_if_available data), s')
    \<and> counts s' (\<lambda>i. f i + added vs i)"
proof -
  obtain session tid r where q: "q = (session, tid, r)" by (cases q)
  obtain s' where s': "increment (increments_of vs) s = (Inr (), s')" "counts s' (\<lambda>i. f i + added vs i)"
    using increment_law [OF assms(1,2)] by blast
  let ?conn = "\<lparr>c_session = session, c_sent = [], c_transaction = tid, c_world = s\<rparr> :: 's conn"
  have tid: "c_transaction (?conn\<lparr>c_world := s'\<rparr>) < 2 ^ 64 - 1"
    using assms(3) by (simp add: q increment_request_def)
  obtain data where "reply_only NoError 1 (?conn\<lparr>c_world := s'\<rparr>) = (Inr (encrypted_if_available data),
      ?conn\<lparr>c_world := s', c_transaction := tid + 1\<rparr>)" using reply_only_ok [OF tid, of NoError 1] by auto
  then show ?thesis using s'
    by (simp add: answer_def q increment_request_runs [OF assms(3) [unfolded q]] thenE_def bind_on_service) blast
qed

lemma increments_answered:
  assumes "list_all2 increment_request qs vss" "counts s f" "\<And>n. in_range (\<lambda>i. f i + added (take n (concat vss)) i)"
  shows "\<exists>xs s'. answers (counter_handle totals increment) qs s = (xs, s')
    \<and> (\<forall>x \<in> set xs. \<exists>data. x = Inr (encrypted_if_available data)) \<and> counts s' (\<lambda>i. f i + added (concat vss) i)"
  using assms
proof (induction qs vss arbitrary: s f rule: list_all2_induct)
  case (Cons q qs vs vss)
  have "take (min n (length vs)) (concat (vs # vss)) = take n vs" for n by (cases "n \<le> length vs") simp_all
  then have "in_range (\<lambda>i. f i + added (take n vs) i)" for n
    using Cons.prems(2) [of "min n (length vs)"] by simp
  then obtain data s1 where 1: "answer (counter_handle totals increment) q s = (Inr (encrypted_if_available data), s1)"
      "counts s1 (\<lambda>i. f i + added vs i)"
    using increment_answered [OF Cons.prems(1) _ Cons.hyps(1)] by blast
  have "in_range (\<lambda>i. f i + added vs i + added (take n (concat vss)) i)" for n
    using Cons.prems(2) [of "length vs + n"] by (simp add: add.assoc)
  from Cons.IH [OF 1(2) this] 1(1) show ?case by (auto simp: add.assoc)
qed simp

lemma totals_answered:
  assumes "counts s f" "totals_request q ids"
  shows "\<exists>data. answer (counter_handle totals increment) q s = (Inr (encrypted_if_available data), s)
    \<and> fst (client_read_results counter_value_deserialize (reader_new data)) = Inr (1, fst (snd q), 0, 2,
        map (\<lambda>i. \<lparr>cr_counter_id = i, cr_counter_value = word_of_int (f i)\<rparr>) ids)"
proof -
  obtain session tid r where q: "q = (session, tid, r)" by (cases q)
  let ?conn = "\<lparr>c_session = session, c_sent = [], c_transaction = tid, c_world = s\<rparr> :: 's conn"
  let ?vs = "map (\<lambda>i. \<lparr>cr_counter_id = i, cr_counter_value = word_of_int (f i)\<rparr>) ids"
  have tid: "c_transaction ?conn < 2 ^ 64 - 1" and len: "length ?vs < 2 ^ 32"
    using assms(2) by (simp_all add: q totals_request_def)
  obtain data where data: "reply_results 2 (map counter_value_serialize ?vs) ?conn = (Inr (encrypted_if_available data),
      ?conn\<lparr>c_transaction := c_transaction ?conn + 1\<rparr>)"
    "\<forall>extra. fst (client_read_results counter_value_deserialize (reader_new (data @ extra)))
      = Inr (1, c_transaction ?conn, 0, 2, ?vs)"
    using reply_results_ok [of ?conn ?vs enc_counter counter_value_serialize counter_value_deserialize 2,
        OF tid len] writes_counter reads_counter by blast
  have "on_service (totals ids) ?conn = (Inr (map (\<lambda>i. \<lparr>cv_counter_id = i,
      cv_counter_value = word_of_int (f i)\<rparr>) ids), ?conn)"
    using totals_law [OF assms(1), of ids] by (simp add: on_service_def)
  then have "counter_handle totals increment r ?conn = reply_results 2 (map counter_value_serialize ?vs) ?conn"
    unfolding totals_request_runs [OF assms(2) [unfolded q]]
    by (subst bindE_ok) (assumption, simp only: map_map comp_def CounterValue.simps)
  then show ?thesis using data(1) data(2) [rule_format, of "[]"] by (auto simp: answer_def q)
qed

end

section \<open>The totals kept in memory\<close>

definition total :: "DwCounterService \<Rightarrow> u32 \<Rightarrow> int" where
  "total s i = (case cs_data s i of None \<Rightarrow> 0 | Some v \<Rightarrow> sint v)"

definition dw_counts :: "DwCounterService \<Rightarrow> (u32 \<Rightarrow> int) \<Rightarrow> bool" where
  "dw_counts s f \<longleftrightarrow> \<not> cs_poisoned s \<and> total s = f"

lemma sint_in_range: "fits_signed TYPE(64) x \<Longrightarrow> sint (word_of_int x :: i64) = x"
  by (simp add: sint_sbintrunc' fits_signed_def signed_take_bit_int_eq_self)

lemma sint_checked_sadd:
  fixes a b :: i64
  assumes "fits_signed TYPE(64) (sint a + sint b)"
  shows "checked_sadd a b = Inr (a + b)" "sint (a + b) = sint a + sint b"
proof -
  show "checked_sadd a b = Inr (a + b)" using assms by (simp add: checked_sadd_def)
  have "word_of_int (sint a + sint b) = a + b" by simp
  with sint_in_range [OF assms] show "sint (a + b) = sint a + sint b" by metis
qed

lemma total_insert: "total (s\<lparr>cs_data := (cs_data s)(k \<mapsto> v)\<rparr>) i = (if i = k then sint v else total s i)"
  by (simp add: total_def)

lemma increment_loop_adds:
  assumes "\<And>n. in_range (\<lambda>i. total s i + added (take n vs) i)"
  shows "\<exists>s'. increment_loop (increments_of vs) s = (Inr (), s') \<and> cs_poisoned s' = cs_poisoned s
    \<and> (\<forall>i. total s' i = total s i + added vs i)"
  using assms
proof (induction vs arbitrary: s)
  case (Cons v vs)
  let ?k = "cr_counter_id v" and ?x = "cr_counter_value v"
  show ?case
  proof (cases "?k > 0")
    case False
    then have skip: "added (v # ws) i = added ws i" for ws i by (auto simp: added_Cons)
    have "in_range (\<lambda>i. total s i + added (take n vs) i)" for n
      using Cons.prems [of "Suc n"] by (simp add: skip)
    then show ?thesis using Cons.IH [of s] False by (simp add: increments_of_def skip)
  next
    case True
    have fits: "fits_signed TYPE(64) (total s ?k + sint ?x)"
      using Cons.prems [of "Suc 0"] True by (auto simp: added_Cons in_range_def dest: spec [of _ ?k])
    obtain y where y: "sint y = total s ?k + sint ?x"
      "increment_loop (increments_of (v # vs)) s = increment_loop (increments_of vs) (s\<lparr>cs_data := (cs_data s)(?k \<mapsto> y)\<rparr>)"
    proof (cases "cs_data s ?k")
      case None
      then show thesis using that [of ?x] True by (simp add: increments_of_def total_def)
    next
      case (Some z)
      then show thesis using that [of "z + ?x"] True sint_checked_sadd [of z ?x] fits
        by (simp add: increments_of_def total_def)
    qed
    let ?s = "s\<lparr>cs_data := (cs_data s)(?k \<mapsto> y)\<rparr>"
    have t: "total ?s i = total s i + (if ?k = i \<and> i > 0 then sint ?x else 0)" for i
      using y(1) True by (auto simp: total_insert)
    have "in_range (\<lambda>i. total ?s i + added (take n vs) i)" for n
      using Cons.prems [of "Suc n"] by (simp add: added_Cons t add.assoc)
    from Cons.IH [OF this] show ?thesis using y(2) by (simp add: t added_Cons add.assoc)
  qed
qed (simp add: increments_of_def)

lemma dw_totals: "dw_counts s f \<Longrightarrow> get_counter_totals ids s
    = (Inr (map (\<lambda>i. \<lparr>cv_counter_id = i, cv_counter_value = word_of_int (f i)\<rparr>) ids), s)"
  by (auto simp: dw_counts_def get_counter_totals_def total_def split: option.split)

interpretation dw_counter: counter_service get_counter_totals increment_counters dw_counts
proof
  fix s f vs
  assume s: "dw_counts s f" and range: "\<And>n. in_range (\<lambda>i. f i + added (take n vs) i)"
  then have "in_range (\<lambda>i. total s i + added (take n vs) i)" for n by (simp add: dw_counts_def)
  from increment_loop_adds [OF this] s
  show "\<exists>s'. increment_counters (increments_of vs) s = (Inr (), s') \<and> dw_counts s' (\<lambda>i. f i + added vs i)"
    by (auto simp: increment_counters_def dw_counts_def)
qed (rule dw_totals)

section \<open>Properties\<close>

lemma dw_counts_new: "dw_counts counter_service_new (\<lambda>i. 0)"
  by (simp add: dw_counts_def counter_service_new_def total_def fun_eq_iff)

text \<open>
  C31. Counters add up. After any requests of any connections that increment counters, each
  answered, a client that asks for totals reads for every id it asked for, in its order,
  exactly the sum over the integers of all increments of that counter - zero for a counter
  that nobody incremented and for the id 0, which the handler skips - as long as no sum
  leaves the range of an i64 on the way.
\<close>

theorem counters_add_up:
  assumes "list_all2 increment_request requests increments"
    and "\<And>n. in_range (added (take n (concat increments)))" and "totals_request (session, tid, r) ids"
  shows "\<exists>xs s data vs. answers (counter_handle get_counter_totals increment_counters) requests counter_service_new = (xs, s)
    \<and> (\<forall>x \<in> set xs. \<exists>data. x = Inr (encrypted_if_available data))
    \<and> answer (counter_handle get_counter_totals increment_counters) (session, tid, r) s
        = (Inr (encrypted_if_available data), s)
    \<and> fst (client_read_results counter_value_deserialize (reader_new data)) = Inr (1, tid, 0, 2, vs)
    \<and> map cr_counter_id vs = ids
    \<and> map (\<lambda>v. sint (cr_counter_value v)) vs = map (added (concat increments)) ids"
proof -
  obtain xs s where s: "answers (counter_handle get_counter_totals increment_counters) requests counter_service_new = (xs, s)"
    "\<forall>x \<in> set xs. \<exists>data. x = Inr (encrypted_if_available data)" "dw_counts s (added (concat increments))"
    using dw_counter.increments_answered [OF assms(1) dw_counts_new] assms(2) by auto
  have "in_range (added (concat increments))" using assms(2) [of "length (concat increments)"] by simp
  then have "sint (word_of_int (added (concat increments) i) :: i64) = added (concat increments) i" for i
    by (intro sint_in_range) (simp add: in_range_def)
  moreover obtain data where data: "answer (counter_handle get_counter_totals increment_counters) (session, tid, r) s
      = (Inr (encrypted_if_available data), s)"
    "fst (client_read_results counter_value_deserialize (reader_new data)) = Inr (1, tid, 0, 2,
        map (\<lambda>i. \<lparr>cr_counter_id = i, cr_counter_value = word_of_int (added (concat increments) i)\<rparr>) ids)"
    (is "_ = Inr (_, _, _, _, ?vs)")
    using dw_counter.totals_answered [OF s(3) assms(3)] by auto
  ultimately have vs: "map cr_counter_id ?vs = ids"
      "map (\<lambda>v. sint (cr_counter_value v)) ?vs = map (added (concat increments)) ids"
    by (simp_all add: comp_def)
  show ?thesis using s(1,2) data vs by blast
qed

lemma in_range_small: "(\<And>i. -1 \<le> f i \<and> f i \<le> 3) \<Longrightarrow> in_range f"
  unfolding in_range_def fits_signed_def
proof (intro allI)
  fix i assume "\<And>i. -1 \<le> f i \<and> f i \<le> 3"
  then have "-1 \<le> f i" "f i \<le> 3" by blast+
  then show "- (2 ^ (LENGTH(64) - 1)) \<le> f i \<and> f i < 2 ^ (LENGTH(64) - 1)" by simp
qed

definition example_user :: BdSession where
  "example_user = \<lparr>s_id = 4, s_authentication = None\<rparr>"

definition add_to_counter :: "u32 \<Rightarrow> i64 \<Rightarrow> request" where
  "add_to_counter i x = (example_user, 0, message_reader (enc_u8 1
    @ concat (map enc_counter [\<lparr>cr_counter_id = i, cr_counter_value = x\<rparr>])))"

lemma add_to_counter: "increment_request (add_to_counter i x) [\<lparr>cr_counter_id = i, cr_counter_value = x\<rparr>]"
  unfolding add_to_counter_def increment_request_def
  by (simp add: message_reader del: concat.simps list.map)

definition ask_for_totals :: "u32 list \<Rightarrow> request" where
  "ask_for_totals ids = (example_user, 9, message_reader (enc_u8 2 @ concat (map enc_u32 ids)))"

lemma ask_for_totals: "length ids < 2 ^ 32 \<Longrightarrow> totals_request (ask_for_totals ids) ids"
  unfolding ask_for_totals_def totals_request_def by (simp add: message_reader)

theorem counters_add_up_witness:
  "\<exists>xs s data vs. answers (counter_handle get_counter_totals increment_counters)
      [add_to_counter 5 3, add_to_counter 5 (- 1)] counter_service_new = (xs, s)
    \<and> answer (counter_handle get_counter_totals increment_counters) (ask_for_totals [5, 6]) s
        = (Inr (encrypted_if_available data), s)
    \<and> fst (client_read_results counter_value_deserialize (reader_new data)) = Inr (1, 9, 0, 2, vs)
    \<and> map cr_counter_id vs = [5, 6] \<and> map (\<lambda>v. sint (cr_counter_value v)) vs = [2, 0]"
proof -
  let ?vss = "[[\<lparr>cr_counter_id = 5, cr_counter_value = 3\<rparr>], [\<lparr>cr_counter_id = 5, cr_counter_value = - 1\<rparr>]]"
  have requests: "list_all2 increment_request [add_to_counter 5 3, add_to_counter 5 (- 1)] ?vss"
    using add_to_counter [of 5 3] add_to_counter [of 5 "- 1"] by simp
  have "added (take n (concat ?vss)) i \<in> {-1 .. 3}" for n i
    by (cases n; cases "n - 1") (auto simp: added_def)
  then have bounds: "-1 \<le> added (take n (concat ?vss)) i" "added (take n (concat ?vss)) i \<le> 3" for n i
    unfolding atLeastAtMost_iff by blast+
  have range: "in_range (added (take n (concat ?vss)))" for n
    by (intro in_range_small conjI bounds)
  have sums: "map (added (concat ?vss)) [5, 6] = [2, 0]" by (simp add: added_def)
  show ?thesis
    using counters_add_up [OF requests range ask_for_totals [of "[5, 6]", unfolded ask_for_totals_def], unfolded sums]
    unfolding ask_for_totals_def by fastforce
qed

text \<open>
  A client can break the counters for everybody. When a client adds a number to a counter
  whose total leaves the range of an i64 with it, the request panics while it holds the lock
  for writing; and from then on every request of every connection that increments counters
  or asks for totals panics.
\<close>

theorem counter_overflow_poisons:
  assumes "cs_data s (cr_counter_id v) = Some x" "cr_counter_id v > 0"
    and "\<not> fits_signed TYPE(64) (sint x + sint (cr_counter_value v))"
    and "increment_request q (v # vs)" "increment_request q' vs' \<or> totals_request q' ids"
  shows "\<exists>s'. answer (counter_handle get_counter_totals increment_counters) q s = (Inl Panic, s')
    \<and> answer (counter_handle get_counter_totals increment_counters) q' s' = (Inl Panic, s')"
proof -
  have broken: "answer (counter_handle get_counter_totals increment_counters) q' s' = (Inl Panic, s')"
    if "cs_poisoned s'" for s'
    using assms(5)
  proof (cases q')
    case (fields session tid r)
    then show ?thesis using assms(5) that
      by (auto simp: answer_def increment_request_runs totals_request_runs thenE_def bind_on_service_err
          increment_counters_def get_counter_totals_def)
  qed
  obtain session tid r where q: "q = (session, tid, r)" by (cases q)
  have "increment_counters (increments_of (v # vs)) s = (Inl Panic, s\<lparr>cs_poisoned := True\<rparr>)"
    using assms(1-3) by (auto simp: increment_counters_def increments_of_def checked_sadd_def)
  then have "answer (counter_handle get_counter_totals increment_counters) q s = (Inl Panic, s\<lparr>cs_poisoned := True\<rparr>)"
    by (simp add: answer_def q increment_request_runs [OF assms(4) [unfolded q]] thenE_def bind_on_service_err)
  then show ?thesis using broken by auto
qed

theorem counter_overflow_poisons_witness:
  "\<exists>s'. answer (counter_handle get_counter_totals increment_counters) (add_to_counter 5 1)
      \<lparr>cs_data = [5 \<mapsto> 0x7FFFFFFFFFFFFFFF], cs_poisoned = False\<rparr> = (Inl Panic, s')
    \<and> answer (counter_handle get_counter_totals increment_counters) (ask_for_totals [6]) s' = (Inl Panic, s')"
proof (rule counter_overflow_poisons [OF _ _ _ add_to_counter disjI2 [OF ask_for_totals]])
  show "\<not> fits_signed TYPE(64) (sint (0x7FFFFFFFFFFFFFFF :: i64)
      + sint (cr_counter_value \<lparr>cr_counter_id = 5, cr_counter_value = 1\<rparr>))"
    by (simp add: fits_signed_def)
qed simp_all

end
