(* ===== verification/Group_Service.thy ===== *)
theory Group_Service
  imports Service_Support
begin

text \<open>
  The group service: libbitdemon/src/lobby/group reads which groups a session is in and asks
  for their sizes, dw-server/src/lobby/group/service.rs counts the sessions of each group. The
  order in which a hash set lists its elements is an argument, \<open>order\<close>.
\<close>

section \<open>The service\<close>

record DwGroupService =
  gs_counts :: "u32 \<rightharpoonup> u64"
  gs_session_groups :: "u64 \<rightharpoonup> u32 list"
  gs_poisoned :: bool

definition group_service_new :: DwGroupService where
  "group_service_new = \<lparr>gs_counts = Map.empty, gs_session_groups = Map.empty, gs_poisoned = False\<rparr>"

definition get_group_counts :: "u32 list \<Rightarrow> (DwGroupService, bd_error, u64 list) sm" where
  "get_group_counts groups = (\<lambda>s.
    if gs_poisoned s then (Inl Panic, s)
    else (Inr (map (\<lambda>g. case gs_counts s g of None \<Rightarrow> 0 | Some n \<Rightarrow> n) groups), s))"

definition enter_group :: "u32 \<Rightarrow> (DwGroupService, bd_error, unit) sm" where
  "enter_group g = (\<lambda>s.
    case gs_counts s g of
      Some previous_value \<Rightarrow>
        (case checked_add previous_value 1 of
           Inl e \<Rightarrow> (Inl e, s\<lparr>gs_poisoned := True\<rparr>)
         | Inr n \<Rightarrow> (Inr (), s\<lparr>gs_counts := (gs_counts s)(g \<mapsto> n)\<rparr>))
    | None \<Rightarrow> (Inr (), s\<lparr>gs_counts := (gs_counts s)(g \<mapsto> 1)\<rparr>))"

definition leave_group :: "u32 \<Rightarrow> (DwGroupService, bd_error, unit) sm" where
  "leave_group g = (\<lambda>s.
    case gs_counts s g of
      Some previous_value \<Rightarrow>
        (Inr (), if previous_value > 0 then s\<lparr>gs_counts := (gs_counts s)(g \<mapsto> previous_value - 1)\<rparr> else s)
    | None \<Rightarrow> (Inr (), s))"

definition groups_of :: "DwGroupService \<Rightarrow> u64 \<Rightarrow> u32 list" where
  "groups_of s session_id = (case gs_session_groups s session_id of None \<Rightarrow> [] | Some gs \<Rightarrow> gs)"

definition set_groups ::
  "(u32 list \<Rightarrow> u32 list) \<Rightarrow> BdSession \<Rightarrow> u32 list \<Rightarrow> (DwGroupService, bd_error, unit) sm" where
  "set_groups order session groups = (\<lambda>s.
    let previous_groups = groups_of s (s_id session);
        s1 = s\<lparr>gs_session_groups := (gs_session_groups s)(s_id session \<mapsto> groups)\<rparr>;
        new_groups = order (filter (\<lambda>g. g \<notin> set previous_groups) groups);
        left_groups = filter (\<lambda>g. g \<notin> set new_groups) (order previous_groups)
    in if gs_poisoned s then (Inl Panic, s1)
       else thenE (foreachE enter_group new_groups) (foreachE leave_group left_groups) s1)"

definition remove_all_groups_for_session :: "u64 \<Rightarrow> (DwGroupService, bd_error, unit) sm" where
  "remove_all_groups_for_session session_id = (\<lambda>s.
    let s1 = s\<lparr>gs_session_groups := (gs_session_groups s)(session_id := None)\<rparr>
    in case gs_session_groups s session_id of
         None \<Rightarrow> (Inr (), s1)
       | Some groups \<Rightarrow>
           if gs_poisoned s then (Inl Panic, s1) else foreachE leave_group groups s1)"

section \<open>The handler\<close>

record GroupCountResult =
  gr_group_id :: u32
  gr_group_count :: u32

definition group_count_serialize :: "GroupCountResult \<Rightarrow> wr" where
  "group_count_serialize v = thenE (write_u32 (gr_group_id v)) (write_u32 (gr_group_count v))"

datatype GroupTaskId = SetGroups | SetGroupsForEntity | GetEntityGroups | GetGroupCounts

definition group_task_from_u8 :: "u8 \<Rightarrow> GroupTaskId option" where
  "group_task_from_u8 v =
    (if v = 1 then Some SetGroups else if v = 2 then Some SetGroupsForEntity
     else if v = 3 then Some GetEntityGroups else if v = 4 then Some GetGroupCounts else None)"

definition handle_set_groups ::
  "(BdSession \<Rightarrow> u32 list \<Rightarrow> ('s, bd_error, unit) sm) \<Rightarrow> reader \<Rightarrow> ('s, BdResponse) act" where
  "handle_set_groups set_op r =
    bindE (run_rd read_u32_array r) (\<lambda>(groups, _).
    bindE the_session (\<lambda>session.
    thenE (on_service (set_op session groups)) (reply_only NoError 1)))"

definition handle_get_group_counts ::
  "(u32 list \<Rightarrow> ('s, bd_error, u64 list) sm) \<Rightarrow> reader \<Rightarrow> ('s, BdResponse) act" where
  "handle_get_group_counts get_op r =
    bindE (run_rd read_u32_array r) (\<lambda>(groups, _).
    bindE (on_service (get_op groups)) (\<lambda>counts.
    thenE (ensureE (length groups = length counts) Panic)
    (reply_results 4 (map (\<lambda>(g, n). group_count_serialize
      \<lparr>gr_group_id = g, gr_group_count = ucast (min n 0xFFFFFFFF)\<rparr>) (zip groups counts)))))"

definition group_handle ::
  "(u32 list \<Rightarrow> ('s, bd_error, u64 list) sm) \<Rightarrow> (BdSession \<Rightarrow> u32 list \<Rightarrow> ('s, bd_error, unit) sm)
    \<Rightarrow> reader \<Rightarrow> ('s, BdResponse) act" where
  "group_handle get_op set_op r =
    bindE (run_rd read_u8 r) (\<lambda>(task_id_value, r1).
    case group_task_from_u8 task_id_value of
      None \<Rightarrow> reply_only NoError task_id_value
    | Some SetGroups \<Rightarrow> handle_set_groups set_op r1
    | Some GetGroupCounts \<Rightarrow> handle_get_group_counts get_op r1
    | Some SetGroupsForEntity \<Rightarrow> reply_only NoError 2
    | Some GetEntityGroups \<Rightarrow> reply_only NoError 3)"

section \<open>Counting\<close>

definition hash_order :: "('a list \<Rightarrow> 'a list) \<Rightarrow> bool" where
  "hash_order order \<longleftrightarrow> (\<forall>xs. distinct (order xs) \<and> set (order xs) = set xs)"

lemma hash_orderD [simp]:
  assumes "hash_order order"
  shows "distinct (order xs)" "set (order xs) = set xs"
  using assms by (simp_all add: hash_order_def)

definition group_count :: "DwGroupService \<Rightarrow> u32 \<Rightarrow> nat" where
  "group_count s g = (case gs_counts s g of None \<Rightarrow> 0 | Some n \<Rightarrow> unat n)"

text \<open>The session groups and the flag, which counting leaves alone.\<close>

definition membership :: "DwGroupService \<Rightarrow> (u64 \<rightharpoonup> u32 list) \<times> bool" where
  "membership s = (gs_session_groups s, gs_poisoned s)"

lemma enter_group_counts:
  assumes "enter_group g s = (Inr (), s')"
  shows "group_count s' h = group_count s h + (if h = g then 1 else 0)" "membership s' = membership s"
proof -
  have "group_count s' h = group_count s h + (if h = g then 1 else 0) \<and> membership s' = membership s"
  proof (cases "gs_counts s g")
    case None
    then show ?thesis using assms by (auto simp: enter_group_def group_count_def membership_def)
  next
    case (Some n)
    then have fits: "unat n + 1 < 2 ^ 64" and s': "s' = s\<lparr>gs_counts := (gs_counts s)(g \<mapsto> n + 1)\<rparr>"
      using assms by (auto simp: enter_group_def checked_add_def split: if_splits)
    have "unat (n + 1) = unat n + 1" using fits by (subst unat_add_lem [THEN iffD1]) simp_all
    then show ?thesis using Some by (simp add: s' group_count_def membership_def)
  qed
  then show "group_count s' h = group_count s h + (if h = g then 1 else 0)" "membership s' = membership s" by simp_all
qed

lemma leave_group_counts:
  obtains s' where "leave_group g s = (Inr (), s')" "membership s' = membership s"
    "\<And>h. group_count s' h = group_count s h - (if h = g then 1 else 0)"
proof (cases "gs_counts s g")
  case None
  then show thesis using that [of s] by (simp add: leave_group_def group_count_def)
next
  case (Some n)
  show thesis
  proof (cases "n > 0")
    case True
    then have "unat (n - 1) = unat n - 1" by (simp add: unat_minus_one word_greater_zero_iff)
    then show thesis using that [of "s\<lparr>gs_counts := (gs_counts s)(g \<mapsto> n - 1)\<rparr>"] True Some
      by (simp add: leave_group_def group_count_def membership_def)
  next
    case False
    then have "n = 0" by (simp add: word_greater_zero_iff)
    then show thesis using that [of s] Some by (simp add: leave_group_def group_count_def)
  qed
qed

lemma enter_groups_counts:
  assumes "foreachE enter_group gs s = (Inr (), s')" "distinct gs"
  shows "group_count s' h = group_count s h + (if h \<in> set gs then 1 else 0) \<and> membership s' = membership s"
  using assms
proof (induction gs arbitrary: s)
  case (Cons g gs)
  obtain s1 where 1: "enter_group g s = (Inr (), s1)" "foreachE enter_group gs s1 = (Inr (), s')"
    using Cons.prems(1) by (auto elim: thenE_Inr_E)
  show ?case using Cons.IH [OF 1(2)] enter_group_counts [OF 1(1)] Cons.prems(2) by auto
qed (simp add: monad_simps)

lemma leave_groups_counts:
  assumes "distinct gs"
  shows "\<exists>s'. foreachE leave_group gs s = (Inr (), s') \<and> membership s' = membership s
    \<and> (\<forall>h. group_count s' h = group_count s h - (if h \<in> set gs then 1 else 0))"
  using assms
proof (induction gs arbitrary: s)
  case (Cons g gs)
  obtain s1 where 1: "leave_group g s = (Inr (), s1)" "membership s1 = membership s"
    "\<And>h. group_count s1 h = group_count s h - (if h = g then 1 else 0)"
    using leave_group_counts [of g s] by metis
  obtain s' where "foreachE leave_group gs s1 = (Inr (), s')" "membership s' = membership s1"
    "\<forall>h. group_count s' h = group_count s1 h - (if h \<in> set gs then 1 else 0)"
    using Cons.IH [of s1] Cons.prems by auto
  then show ?case using 1 Cons.prems by (intro exI [of _ s']) (auto simp: thenE_ok)
qed (simp add: monad_simps)

text \<open>What setting the groups of a session does to the counts: a new group gains a session, and
  every previous group loses one, whether or not it is among the groups again.\<close>

lemma set_groups_counts:
  assumes "hash_order order" "set_groups order session gs s = (Inr (), s')"
  shows "group_count s' h = group_count s h
      + (if h \<in> set gs \<and> h \<notin> set (groups_of s (s_id session)) then 1 else 0)
      - (if h \<in> set (groups_of s (s_id session)) then 1 else 0)"
    and "membership s' = ((gs_session_groups s)(s_id session \<mapsto> gs), False)" and "\<not> gs_poisoned s"
proof -
  let ?prev = "groups_of s (s_id session)"
  let ?s1 = "s\<lparr>gs_session_groups := (gs_session_groups s)(s_id session \<mapsto> gs)\<rparr>"
  let ?new = "order (filter (\<lambda>g. g \<notin> set ?prev) gs)"
  let ?left = "filter (\<lambda>g. g \<notin> set ?new) (order ?prev)"
  show p: "\<not> gs_poisoned s" using assms(2) by (auto simp: set_groups_def Let_def)
  then have run: "thenE (foreachE enter_group ?new) (foreachE leave_group ?left) ?s1 = (Inr (), s')"
    using assms(2) by (simp add: set_groups_def Let_def)
  obtain s2 where 2: "foreachE enter_group ?new ?s1 = (Inr (), s2)" "foreachE leave_group ?left s2 = (Inr (), s')"
    using run by (rule thenE_Inr_E)
  have left: "set ?left = set ?prev" "distinct ?left" using assms(1) by auto
  have counts: "group_count ?s1 h = group_count s h" by (simp add: group_count_def)
  have leave: "membership s' = membership s2"
    "group_count s' h = group_count s2 h - (if h \<in> set ?left then 1 else 0)"
    using leave_groups_counts [OF left(2), of s2] 2(2) by auto
  have enter: "group_count s2 h = group_count ?s1 h + (if h \<in> set ?new then 1 else 0)"
    "membership s2 = membership ?s1"
    using enter_groups_counts [OF 2(1)] assms(1) by simp_all
  show "group_count s' h = group_count s h
      + (if h \<in> set gs \<and> h \<notin> set (groups_of s (s_id session)) then 1 else 0)
      - (if h \<in> set (groups_of s (s_id session)) then 1 else 0)"
    using leave(2) enter(1) assms(1) by (auto simp: left counts)
  show "membership s' = ((gs_session_groups s)(s_id session \<mapsto> gs), False)"
    using leave(1) enter(2) p by (simp add: membership_def)
qed

section \<open>Properties\<close>

definition members :: "DwGroupService \<Rightarrow> u32 \<Rightarrow> u64 set" where
  "members s g = {i. g \<in> set (groups_of s i)}"

text \<open>The states that requests and disconnects lead to, as long as no session lists a group twice
  or names one again that it is in.\<close>

inductive tidy_groups :: "(u32 list \<Rightarrow> u32 list) \<Rightarrow> DwGroupService \<Rightarrow> bool" for order where
  new: "tidy_groups order group_service_new"
| set: "tidy_groups order s \<Longrightarrow> distinct gs \<Longrightarrow> set gs \<inter> set (groups_of s (s_id session)) = {}
    \<Longrightarrow> set_groups order session gs s = (Inr (), s') \<Longrightarrow> tidy_groups order s'"
| leave: "tidy_groups order s \<Longrightarrow> remove_all_groups_for_session i s = (Inr (), s') \<Longrightarrow> tidy_groups order s'"

definition groups_counted :: "DwGroupService \<Rightarrow> bool" where
  "groups_counted s \<longleftrightarrow> finite (dom (gs_session_groups s)) \<and> (\<forall>i. distinct (groups_of s i))
    \<and> (\<forall>g. group_count s g = card (members s g))"

lemma finite_members: "finite (dom (gs_session_groups s)) \<Longrightarrow> finite (members s g)"
  by (rule finite_subset) (auto simp: members_def groups_of_def dom_def split: option.splits)

lemma members_update:
  assumes "gs_session_groups s' = (gs_session_groups s)(i := x)"
  shows "members s' g = (if g \<in> set (case x of None \<Rightarrow> [] | Some gs \<Rightarrow> gs) then insert i (members s g)
      else members s g - {i})"
  by (auto simp: members_def groups_of_def assms)

lemma set_groups_counted:
  assumes "groups_counted s" "hash_order order" "distinct gs" "set gs \<inter> set (groups_of s (s_id session)) = {}"
    and "set_groups order session gs s = (Inr (), s')"
  shows "groups_counted s'"
proof -
  let ?i = "s_id session"
  note effect = set_groups_counts [OF assms(2,5)]
  have upd: "gs_session_groups s' = (gs_session_groups s)(?i \<mapsto> gs)"
    using effect(2) by (simp add: membership_def)
  have fin: "finite (members s g)" for g using assms(1) finite_members by (auto simp: groups_counted_def)
  have mem: "?i \<in> members s g \<longleftrightarrow> g \<in> set (groups_of s ?i)" for g by (simp add: members_def)
  have "group_count s' g = card (members s' g)" for g
  proof (cases "g \<in> set gs")
    case True
    then have "g \<notin> set (groups_of s ?i)" using assms(4) by auto
    then show ?thesis using True effect(1) [of g] assms(1) fin [of g] mem [of g]
      by (simp add: members_update [OF upd] groups_counted_def)
  next
    case False
    then show ?thesis using effect(1) [of g] assms(1) fin [of g] mem [of g]
      by (auto simp: members_update [OF upd] groups_counted_def card_Diff_singleton_if)
  qed
  moreover have "groups_of s' j = (if j = ?i then gs else groups_of s j)" for j
    by (simp add: groups_of_def upd)
  ultimately show ?thesis using assms(1,3) upd by (simp add: groups_counted_def)
qed

lemma leave_counted:
  assumes "groups_counted s" "remove_all_groups_for_session i s = (Inr (), s')"
  shows "groups_counted s'"
proof -
  let ?s1 = "s\<lparr>gs_session_groups := (gs_session_groups s)(i := None)\<rparr>"
  have fin: "finite (members s g)" for g using assms(1) finite_members by (auto simp: groups_counted_def)
  have dist: "distinct (groups_of s i)" using assms(1) by (simp add: groups_counted_def)
  have counts: "group_count ?s1 g = group_count s g" for g by (simp add: group_count_def)
  have "membership s' = membership ?s1
      \<and> (\<forall>g. group_count s' g = group_count s g - (if g \<in> set (groups_of s i) then 1 else 0))"
  proof (cases "gs_session_groups s i")
    case None
    then show ?thesis using assms(2) by (auto simp: remove_all_groups_for_session_def groups_of_def counts)
  next
    case (Some gs)
    then have "foreachE leave_group (groups_of s i) ?s1 = (Inr (), s')"
      using assms(2) by (simp add: remove_all_groups_for_session_def groups_of_def Let_def split: if_splits)
    then show ?thesis using leave_groups_counts [OF dist, of ?s1] by (auto simp: counts)
  qed
  then have upd: "gs_session_groups s' = (gs_session_groups s)(i := None)"
    and count: "\<And>g. group_count s' g = group_count s g - (if g \<in> set (groups_of s i) then 1 else 0)"
    by (simp_all add: membership_def)
  have "i \<in> members s g \<longleftrightarrow> g \<in> set (groups_of s i)" for g by (simp add: members_def)
  then have "group_count s' g = card (members s' g)" for g
    using count [of g] assms(1) fin [of g]
    by (auto simp: members_update [OF upd] groups_counted_def card_Diff_singleton_if)
  moreover have "groups_of s' j = (if j = i then [] else groups_of s j)" for j
    by (simp add: groups_of_def upd)
  ultimately show ?thesis using assms(1) upd by (simp add: groups_counted_def)
qed

text \<open>
  The size of a group is the number of sessions in it, as long as sessions are tidy. After
  any requests and disconnects in which no session lists a group twice or sets a group again
  that it is in already, the sizes a client asks for are exactly the numbers of sessions
  whose last list has the group, for every order of the hash sets.
\<close>

theorem group_counts_members:
  assumes "hash_order order" "tidy_groups order s"
  shows "groups_counted s \<and> (\<not> gs_poisoned s \<longrightarrow> (\<exists>counts. get_group_counts gs s = (Inr counts, s)
    \<and> map unat counts = map (\<lambda>g. card (members s g)) gs))"
proof -
  have ok: "groups_counted s" using assms(2)
  proof induction
    case new
    then show ?case
      by (simp add: groups_counted_def group_service_new_def groups_of_def group_count_def members_def)
  next
    case (set s gs session s')
    then show ?case using set_groups_counted assms(1) by blast
  next
    case (leave s i s')
    then show ?case using leave_counted by blast
  qed
  moreover have "(case gs_counts s g of None \<Rightarrow> 0 | Some n \<Rightarrow> unat n) = card (members s g)" for g
    using ok by (simp add: groups_counted_def group_count_def)
  then have "unat (case gs_counts s g of None \<Rightarrow> 0 | Some n \<Rightarrow> n) = card (members s g)" for g
    by (cases "gs_counts s g") (metis option.simps(4,5) unat_0 unat_eq_zero)+
  ultimately show ?thesis by (simp add: get_group_counts_def comp_def)
qed

definition example_session :: "u64 \<Rightarrow> BdSession" where
  "example_session i = \<lparr>s_id = i, s_authentication = None\<rparr>"

definition one_in_groups :: DwGroupService where
  "one_in_groups = \<lparr>gs_counts = [7 \<mapsto> 1, 8 \<mapsto> 1], gs_session_groups = [4 \<mapsto> [7, 8]], gs_poisoned = False\<rparr>"

definition two_in_groups :: DwGroupService where
  "two_in_groups = \<lparr>gs_counts = [7 \<mapsto> 1, 8 \<mapsto> 2], gs_session_groups = [4 \<mapsto> [7, 8], 5 \<mapsto> [8]],
     gs_poisoned = False\<rparr>"

lemma hash_order_remdups: "hash_order remdups"
  by (simp add: hash_order_def)

lemma set_groups_example:
  "set_groups remdups (example_session 4) [7, 8] group_service_new = (Inr (), one_in_groups)"
  "set_groups remdups (example_session 5) [8] one_in_groups = (Inr (), two_in_groups)"
  by (simp_all add: set_groups_def group_service_new_def groups_of_def example_session_def one_in_groups_def
      two_in_groups_def enter_group_def thenE_def bindE_def monad_simps checked_add_def fun_upd_twist)

lemma two_in_groups_tidy: "tidy_groups remdups two_in_groups"
proof -
  have "tidy_groups remdups one_in_groups"
    by (rule tidy_groups.set [OF tidy_groups.new _ _ set_groups_example(1)])
      (simp_all add: groups_of_def group_service_new_def)
  then show ?thesis
    by (rule tidy_groups.set [OF _ _ _ set_groups_example(2)])
      (simp_all add: groups_of_def one_in_groups_def example_session_def)
qed

theorem group_counts_members_witness:
  "\<exists>counts. get_group_counts [7, 8, 9] two_in_groups = (Inr counts, two_in_groups)
    \<and> map unat counts = map (\<lambda>g. card (members two_in_groups g)) [7, 8, 9]"
  using group_counts_members [OF hash_order_remdups two_in_groups_tidy, of "[7, 8, 9]"]
  by (simp add: two_in_groups_def)

text \<open>
  A session that names a group again is no longer counted in it. Setting the groups of a
  session to a list that keeps a group takes one off the size of that group although the
  members of the group are the same as before.
\<close>

theorem kept_group_uncounted:
  assumes "hash_order order" "set_groups order session gs s = (Inr (), s')"
    and "g \<in> set gs" "g \<in> set (groups_of s (s_id session))"
  shows "group_count s' g = group_count s g - 1 \<and> members s' g = members s g"
proof -
  note effect = set_groups_counts [OF assms(1,2)]
  have upd: "gs_session_groups s' = (gs_session_groups s)(s_id session \<mapsto> gs)"
    using effect(2) by (simp add: membership_def)
  have "s_id session \<in> members s g" using assms(4) by (simp add: members_def)
  then show ?thesis using effect(1) [of g] assms(3,4) by (auto simp: members_update [OF upd])
qed

theorem kept_group_uncounted_witness:
  "\<exists>s. set_groups remdups (example_session 5) [8] two_in_groups = (Inr (), s)
    \<and> group_count s 8 = group_count two_in_groups 8 - 1 \<and> members s 8 = members two_in_groups 8"
proof -
  have "fst (set_groups remdups (example_session 5) [8] two_in_groups) = Inr ()"
    by (simp add: set_groups_def groups_of_def example_session_def two_in_groups_def leave_group_def
        thenE_def bindE_def monad_simps)
  then obtain s where s: "set_groups remdups (example_session 5) [8] two_in_groups = (Inr (), s)"
    by (metis prod.collapse)
  have "group_count s 8 = group_count two_in_groups 8 - 1 \<and> members s 8 = members two_in_groups 8"
    by (rule kept_group_uncounted [OF hash_order_remdups s])
      (simp_all add: groups_of_def two_in_groups_def example_session_def)
  then show ?thesis using s by blast
qed

section \<open>No list of groups ever arrives\<close>

text \<open>The handler reads its lists as arrays, which the reader only does in byte mode, and its
  framing is that of a bit stream: a request that sets groups or asks for sizes is an error.\<close>

lemma group_lists_rejected:
  assumes "ready BitMode True r" "rbits r = enc_u8 task @ rest" "task = 1 \<or> task = 4"
  shows "group_handle get_op set_op r conn = (Inl (ModeError ByteMode BitMode), conn)"
proof -
  obtain r1 where 1: "read_u8 r = (Inr task, r1)" "ready BitMode True r1"
    using reads_ready [OF reads_u8 assms(1,2)] .
  have "read_u32_array r1 = (Inl (ModeError ByteMode BitMode), r1)"
    using readyD [OF 1(2)] by (simp add: read_u32_array_def read_array_bit_mode)
  then show ?thesis using assms(3) 1(1)
    by (auto simp: group_handle_def bind_run_rd group_task_from_u8_def handle_set_groups_def
        handle_get_group_counts_def bind_run_rd_err)
qed

end
