(* ===== verification/Rich_Presence.thy ===== *)
theory Rich_Presence
  imports Service_Support
begin

text \<open>
  The rich presence service: libbitdemon/src/lobby/rich_presence reads what a user shows about
  itself and asks for what others show, dw-server/src/lobby/rich_presence/service.rs keeps it in
  memory, together with the session that set it, until that session ends.
\<close>

section \<open>The service\<close>

datatype RichPresenceServiceError = PermissionDeniedError | RichPresenceDataTooLargeError | TooManyUsersError

definition MAX_RICH_PRESENCE_SIZE :: nat where
  "MAX_RICH_PRESENCE_SIZE = 1024"

definition MAX_USER_RICH_PRESENCE_COUNT :: nat where
  "MAX_USER_RICH_PRESENCE_COUNT = 64"

record DwRichPresenceService =
  rp_presences :: "u64 \<rightharpoonup> u64 \<times> bytes"

definition rich_presence_service_new :: DwRichPresenceService where
  "rich_presence_service_new = \<lparr>rp_presences = Map.empty\<rparr>"

definition set_info ::
  "BdSession \<Rightarrow> u64 \<Rightarrow> bytes \<Rightarrow> (DwRichPresenceService, bd_error, RichPresenceServiceError + unit) sm" where
  "set_info session user_id data = (\<lambda>s.
    case s_authentication session of
      None \<Rightarrow> (Inl Panic, s)
    | Some auth \<Rightarrow>
        if a_user_id auth \<noteq> user_id then (Inr (Inl PermissionDeniedError), s)
        else if length data > MAX_RICH_PRESENCE_SIZE then (Inr (Inl RichPresenceDataTooLargeError), s)
        else (Inr (Inr ()), s\<lparr>rp_presences := (rp_presences s)(user_id \<mapsto> (s_id session, data))\<rparr>))"

definition get_info ::
  "u64 list \<Rightarrow> (DwRichPresenceService, bd_error, RichPresenceServiceError + bytes option list) sm" where
  "get_info users = (\<lambda>s.
    if length users > MAX_USER_RICH_PRESENCE_COUNT then (Inr (Inl TooManyUsersError), s)
    else (Inr (Inr (map (\<lambda>user. map_option snd (rp_presences s user)) users)), s))"

definition remove_rich_presence_for_disconnect :: "u64 \<Rightarrow> u64 \<Rightarrow> DwRichPresenceService \<Rightarrow> DwRichPresenceService" where
  "remove_rich_presence_for_disconnect user_id session_id s =
    (if map_option fst (rp_presences s user_id) = Some session_id
     then s\<lparr>rp_presences := (rp_presences s)(user_id := None)\<rparr> else s)"

text \<open>The callback for a session that ends.\<close>

definition presence_unregistered :: "BdSession \<Rightarrow> DwRichPresenceService \<Rightarrow> DwRichPresenceService" where
  "presence_unregistered session s =
    (case s_authentication session of
       None \<Rightarrow> s
     | Some auth \<Rightarrow> remove_rich_presence_for_disconnect (a_user_id auth) (s_id session) s)"

section \<open>The handler\<close>

record RichPresenceInfoResult =
  ri_is_online :: bool
  ri_rich_presence_data :: bytes

definition presence_info_serialize :: "RichPresenceInfoResult \<Rightarrow> wr" where
  "presence_info_serialize v = thenE (write_bool (ri_is_online v)) (write_blob (ri_rich_presence_data v))"

definition presence_info_from :: "bytes option \<Rightarrow> RichPresenceInfoResult" where
  "presence_info_from value =
    (case value of
       Some data \<Rightarrow> \<lparr>ri_is_online = True, ri_rich_presence_data = data\<rparr>
     | None \<Rightarrow> \<lparr>ri_is_online = False, ri_rich_presence_data = []\<rparr>)"

datatype RichPresenceTaskId = SetInfo | GetInfo

definition presence_task_from_u8 :: "u8 \<Rightarrow> RichPresenceTaskId option" where
  "presence_task_from_u8 v = (if v = 1 then Some SetInfo else if v = 2 then Some GetInfo else None)"

definition presence_error_code :: "RichPresenceServiceError \<Rightarrow> BdErrorCode" where
  "presence_error_code e =
    (case e of
       PermissionDeniedError \<Rightarrow> PermissionDenied
     | RichPresenceDataTooLargeError \<Rightarrow> RichPresenceDataTooLarge
     | TooManyUsersError \<Rightarrow> RichPresenceTooManyUsers)"

definition user_or_own :: "BdSession \<Rightarrow> u64 \<Rightarrow> bd_error + u64" where
  "user_or_own session user =
    (if user = 0
     then (case s_authentication session of None \<Rightarrow> Inl Panic | Some auth \<Rightarrow> Inr (a_user_id auth))
     else Inr user)"

definition handle_set_info ::
  "(BdSession \<Rightarrow> u64 \<Rightarrow> bytes \<Rightarrow> ('s, bd_error, RichPresenceServiceError + unit) sm)
    \<Rightarrow> reader \<Rightarrow> ('s, BdResponse) act" where
  "handle_set_info set_op r =
    bindE (run_rd read_u64 r) (\<lambda>(user, r1).
    bindE the_session (\<lambda>session.
    bindE (liftE (user_or_own session user)) (\<lambda>user_id.
    bindE (run_rd read_blob r1) (\<lambda>(data, _).
    bindE (on_service (set_op session user_id data)) (\<lambda>result.
    case result of
      Inr _ \<Rightarrow> reply_only NoError 1
    | Inl e \<Rightarrow> reply_only (presence_error_code e) 1)))))"

definition handle_get_info ::
  "(u64 list \<Rightarrow> ('s, bd_error, RichPresenceServiceError + bytes option list) sm)
    \<Rightarrow> reader \<Rightarrow> ('s, BdResponse) act" where
  "handle_get_info get_op r =
    bindE (run_rd read_u64_list r) (\<lambda>(user_ids, _).
    bindE (on_service (get_op user_ids)) (\<lambda>result.
    case result of
      Inr presences \<Rightarrow> reply_results 2 (map (\<lambda>p. presence_info_serialize (presence_info_from p)) presences)
    | Inl e \<Rightarrow> reply_only (presence_error_code e) 2))"

definition presence_handle ::
  "(BdSession \<Rightarrow> u64 \<Rightarrow> bytes \<Rightarrow> ('s, bd_error, RichPresenceServiceError + unit) sm)
    \<Rightarrow> (u64 list \<Rightarrow> ('s, bd_error, RichPresenceServiceError + bytes option list) sm)
    \<Rightarrow> reader \<Rightarrow> ('s, BdResponse) act" where
  "presence_handle set_op get_op r =
    bindE (run_rd read_u8 r) (\<lambda>(task_id_value, r1).
    case presence_task_from_u8 task_id_value of
      None \<Rightarrow> reply_only NoError task_id_value
    | Some SetInfo \<Rightarrow> handle_set_info set_op r1
    | Some GetInfo \<Rightarrow> handle_get_info get_op r1)"

section \<open>The contract of the service\<close>

text \<open>What happens to a presence service: a session offers data for a user, or a session ends. Data
  is accepted from a session that is authenticated as that user, up to 1024 bytes.\<close>

datatype presence_event = Published BdSession u64 bytes | Gone BdSession

definition is_user :: "BdSession \<Rightarrow> u64 \<Rightarrow> bool" where
  "is_user session u \<longleftrightarrow> map_option a_user_id (s_authentication session) = Some u"

fun accepts_for :: "u64 \<Rightarrow> presence_event \<Rightarrow> bool" where
  "accepts_for u (Published session v data) \<longleftrightarrow> v = u \<and> is_user session u \<and> length data \<le> 1024"
| "accepts_for u (Gone session) \<longleftrightarrow> False"

fun ends_session :: "u64 \<Rightarrow> u64 \<Rightarrow> presence_event \<Rightarrow> bool" where
  "ends_session u i (Published session v data) \<longleftrightarrow> False"
| "ends_session u i (Gone session) \<longleftrightarrow> s_id session = i \<and> is_user session u"

text \<open>A user shows the data it published last, unless the session that published it has ended.\<close>

definition shows_last :: "presence_event list \<Rightarrow> u64 \<Rightarrow> u64 \<Rightarrow> bytes \<Rightarrow> bool" where
  "shows_last events u i data \<longleftrightarrow> (\<exists>before session after.
     events = before @ Published session u data # after \<and> accepts_for u (Published session u data)
     \<and> s_id session = i \<and> (\<forall>e \<in> set after. \<not> accepts_for u e \<and> \<not> ends_session u i e))"

fun presence_step :: "presence_event \<Rightarrow> DwRichPresenceService \<Rightarrow> DwRichPresenceService" where
  "presence_step (Published session u data) s = snd (set_info session u data s)"
| "presence_step (Gone session) s = presence_unregistered session s"

lemma shows_last_step:
  "shows_last (events @ [e]) u i data \<longleftrightarrow>
     (\<exists>session. e = Published session u data \<and> accepts_for u e \<and> s_id session = i)
     \<or> shows_last events u i data \<and> \<not> accepts_for u e \<and> \<not> ends_session u i e"
  (is "?new \<longleftrightarrow> ?last \<or> ?old")
proof
  assume ?new
  then obtain before session after where split: "events @ [e] = before @ Published session u data # after"
      "accepts_for u (Published session u data)" "s_id session = i"
      "\<forall>e \<in> set after. \<not> accepts_for u e \<and> \<not> ends_session u i e"
    unfolding shows_last_def by blast
  show "?last \<or> ?old"
  proof (cases after rule: rev_cases)
    case Nil
    then show ?thesis using split by auto
  next
    case (snoc after' e')
    then have "events = before @ Published session u data # after'" "e' = e" using split(1) by auto
    moreover have "\<forall>x \<in> set after'. \<not> accepts_for u x \<and> \<not> ends_session u i x"
      "\<not> accepts_for u e' \<and> \<not> ends_session u i e'" using split(4) snoc by auto
    ultimately have "shows_last events u i data" unfolding shows_last_def using split(2,3) by blast
    then show ?thesis using \<open>\<not> accepts_for u e' \<and> _\<close> \<open>e' = e\<close> by simp
  qed
next
  assume "?last \<or> ?old"
  then show ?new
  proof
    assume ?last
    then obtain session where "e = Published session u data" "accepts_for u e" "s_id session = i" by blast
    then show ?new unfolding shows_last_def by (intro exI [of _ events] exI [of _ session] exI [of _ "[]"]) simp
  next
    assume old: ?old
    then obtain before session after where "events = before @ Published session u data # after"
        "accepts_for u (Published session u data)" "s_id session = i"
        "\<forall>e \<in> set after. \<not> accepts_for u e \<and> \<not> ends_session u i e"
      unfolding shows_last_def by blast
    with old show ?new unfolding shows_last_def
      by (intro exI [of _ before] exI [of _ session] exI [of _ "after @ [e]"]) auto
  qed
qed

lemma presence_step_shows:
  "rp_presences (presence_step e s) u = Some (i, data) \<longleftrightarrow>
     (\<exists>session. e = Published session u data \<and> accepts_for u e \<and> s_id session = i)
     \<or> rp_presences s u = Some (i, data) \<and> \<not> accepts_for u e \<and> \<not> ends_session u i e"
proof (cases e)
  case (Published session v data')
  then show ?thesis
    by (cases "s_authentication session")
      (auto simp: set_info_def is_user_def MAX_RICH_PRESENCE_SIZE_def)
next
  case (Gone session)
  then show ?thesis
    by (cases "s_authentication session")
      (auto simp: presence_unregistered_def remove_rich_presence_for_disconnect_def is_user_def)
qed

lemma presences_are_last:
  "rp_presences (fold presence_step events rich_presence_service_new) u = Some (i, data)
    \<longleftrightarrow> shows_last events u i data"
proof (induction events arbitrary: i data rule: rev_induct)
  case Nil
  then show ?case by (simp add: rich_presence_service_new_def shows_last_def)
next
  case (snoc e events)
  then show ?case by (simp add: shows_last_step presence_step_shows)
qed

section \<open>Requests\<close>

definition enc_presence :: "RichPresenceInfoResult \<Rightarrow> bool list" where
  "enc_presence v = enc_bool BitMode True (ri_is_online v) @ enc_blob BitMode True (ri_rich_presence_data v)"

definition read_presence :: "RichPresenceInfoResult rd" where
  "read_presence = bindE read_bool (\<lambda>is_online. bindE read_blob (\<lambda>data.
     returnE \<lparr>ri_is_online = is_online, ri_rich_presence_data = data\<rparr>))"

lemma presence_codec:
  assumes "length (ri_rich_presence_data v) < 2 ^ 32"
  shows "writes BitMode True (enc_presence v) (presence_info_serialize v)
    \<and> reads BitMode True (enc_presence v) read_presence v"
proof
  show "writes BitMode True (enc_presence v) (presence_info_serialize v)"
    unfolding enc_presence_def presence_info_serialize_def by (intro writes_then writes_bool writes_blob_val)
  have "reads BitMode True (enc_bool BitMode True (ri_is_online v)
      @ enc_blob BitMode True (ri_rich_presence_data v) @ []) read_presence v"
    unfolding read_presence_def
    by (intro reads_bind [OF reads_bool] reads_bind [OF reads_short_blob] assms) (cases v; simp add: reads_return)
  then show "reads BitMode True (enc_presence v) read_presence v" by (simp add: enc_presence_def)
qed

text \<open>A client that sets the data of a user, itself when it gives no id, and one that asks.\<close>

definition set_request :: "request \<Rightarrow> u64 \<Rightarrow> bytes \<Rightarrow> bool" where
  "set_request q u data \<longleftrightarrow> (case q of (session, tid, r) \<Rightarrow> tid < 2 ^ 64 - 1 \<and> ready BitMode True r
     \<and> s_authentication session \<noteq> None \<and> length data < 2 ^ 32
     \<and> (\<exists>user rest. rbits r = enc_u8 1 @ enc_u64 user @ enc_blob BitMode True data @ rest
         \<and> (if user = 0 then is_user session u else u = user)))"

definition get_request :: "request \<Rightarrow> u64 list \<Rightarrow> bool" where
  "get_request q users \<longleftrightarrow> (case q of (_, tid, r) \<Rightarrow> tid < 2 ^ 64 - 1 \<and> ready BitMode True r
     \<and> (\<exists>pad. rbits r = enc_u8 2 @ concat (map enc_u64 users) @ replicate pad False))"

lemma set_request_runs:
  assumes "set_request (session, tid, r) u data" "c_session conn = session"
  shows "presence_handle set_op get_op r conn = bindE (on_service (set_op session u data)) (\<lambda>result.
    case result of Inr _ \<Rightarrow> reply_only NoError 1 | Inl e \<Rightarrow> reply_only (presence_error_code e) 1) conn"
proof -
  obtain user rest where r: "ready BitMode True r"
      "rbits r = enc_u8 1 @ enc_u64 user @ enc_blob BitMode True data @ rest"
    and u: "if user = 0 then is_user session u else u = user" and len: "length data < 2 ^ 32"
    using assms(1) by (auto simp: set_request_def)
  obtain r1 where 1: "read_u8 r = (Inr 1, r1)" "ready BitMode True r1"
      "rbits r1 = enc_u64 user @ enc_blob BitMode True data @ rest" using reads_ready [OF reads_u8 r] .
  obtain r2 where 2: "read_u64 r1 = (Inr user, r2)" "ready BitMode True r2"
      "rbits r2 = enc_blob BitMode True data @ rest" using reads_ready [OF reads_u64 1(2,3)] .
  obtain r3 where 3: "read_blob r2 = (Inr data, r3)" using reads_ready [OF reads_short_blob [OF len] 2(2,3)] .
  have "user_or_own session user = Inr u"
    using u by (auto simp: user_or_own_def is_user_def split: if_splits)
  then show ?thesis using 1(1) 2(1) 3 assms(2)
    by (simp add: presence_handle_def bind_run_rd presence_task_from_u8_def handle_set_info_def bind_the_session
        monad_simps)
qed

lemma get_request_runs:
  assumes "get_request (session, tid, r) users"
  shows "presence_handle set_op get_op r conn = bindE (on_service (get_op users)) (\<lambda>result.
    case result of
      Inr presences \<Rightarrow> reply_results 2 (map (\<lambda>p. presence_info_serialize (presence_info_from p)) presences)
    | Inl e \<Rightarrow> reply_only (presence_error_code e) 2) conn"
proof -
  obtain pad where r: "ready BitMode True r" "rbits r = enc_u8 2 @ concat (map enc_u64 users) @ replicate pad False"
    using assms by (auto simp: get_request_def)
  obtain r1 where 1: "read_u8 r = (Inr 2, r1)" "ready BitMode True r1"
      "rbits r1 = concat (map enc_u64 users) @ replicate pad False" using reads_ready [OF reads_u8 r] .
  obtain r2 where "read_u64_list r1 = (Inr users, r2)" using read_u64_list_values [OF 1(2,3)] .
  then show ?thesis using 1(1)
    by (simp add: presence_handle_def bind_run_rd presence_task_from_u8_def handle_get_info_def)
qed

text \<open>Every request to set data is answered, and has the effect of the event it stands for.\<close>

lemma set_request_answered:
  assumes "set_request (session, tid, r) u data"
  shows "\<exists>d. answer (presence_handle set_info get_info) (session, tid, r) s
    = (Inr (encrypted_if_available d), presence_step (Published session u data) s)"
proof -
  let ?conn = "\<lparr>c_session = session, c_sent = [], c_transaction = tid, c_world = s\<rparr> :: DwRichPresenceService conn"
  obtain auth where auth: "s_authentication session = Some auth" using assms by (auto simp: set_request_def)
  have "\<exists>result. fst (set_info session u data s) = Inr result" by (simp add: set_info_def auth)
  then obtain result s' where set: "set_info session u data s = (Inr result, s')" by (metis prod.collapse)
  let ?code = "case result of Inr _ \<Rightarrow> NoError | Inl e \<Rightarrow> presence_error_code e"
  have tid: "c_transaction (?conn\<lparr>c_world := s'\<rparr>) < 2 ^ 64 - 1" using assms by (simp add: set_request_def)
  obtain d where "reply_only ?code 1 (?conn\<lparr>c_world := s'\<rparr>) = (Inr (encrypted_if_available d),
      ?conn\<lparr>c_world := s', c_transaction := tid + 1\<rparr>)" using reply_only_ok [OF tid, of ?code 1] by auto
  moreover have "presence_handle set_info get_info r ?conn = reply_only ?code 1 (?conn\<lparr>c_world := s'\<rparr>)"
    by (simp add: set_request_runs [OF assms] set bind_on_service split: sum.split)
  ultimately show ?thesis using set by (auto simp: answer_def)
qed

lemma get_request_answered:
  assumes "get_request (session, tid, r) users" "length users \<le> 64"
    and "\<And>u i data. rp_presences s u = Some (i, data) \<Longrightarrow> length data < 2 ^ 32"
  shows "\<exists>d. answer (presence_handle set_info get_info) (session, tid, r) s = (Inr (encrypted_if_available d), s)
    \<and> fst (client_read_results read_presence (reader_new d)) = Inr (1, tid, 0, 2,
        map (\<lambda>u. presence_info_from (map_option snd (rp_presences s u))) users)"
proof -
  let ?conn = "\<lparr>c_session = session, c_sent = [], c_transaction = tid, c_world = s\<rparr> :: DwRichPresenceService conn"
  let ?vs = "map (\<lambda>u. presence_info_from (map_option snd (rp_presences s u))) users"
  have tid: "c_transaction ?conn < 2 ^ 64 - 1" and len: "length ?vs < 2 ^ 32"
    using assms(1,2) by (simp_all add: get_request_def)
  have codec: "writes BitMode True (enc_presence v) (presence_info_serialize v)
      \<and> reads BitMode True (enc_presence v) read_presence v" if "v \<in> set ?vs" for v
    using that assms(3) by (intro presence_codec) (auto simp: presence_info_from_def split: option.split)
  obtain d where d: "reply_results 2 (map presence_info_serialize ?vs) ?conn = (Inr (encrypted_if_available d),
      ?conn\<lparr>c_transaction := c_transaction ?conn + 1\<rparr>)"
    "\<forall>extra. fst (client_read_results read_presence (reader_new (d @ extra))) = Inr (1, c_transaction ?conn, 0, 2, ?vs)"
    using reply_results_ok [of ?conn ?vs enc_presence presence_info_serialize read_presence 2, OF tid len codec] by blast
  have "on_service (get_info users) ?conn = (Inr (Inr (map (\<lambda>u. map_option snd (rp_presences s u)) users)), ?conn)"
    using assms(2) by (simp add: on_service_def get_info_def MAX_USER_RICH_PRESENCE_COUNT_def)
  then have "presence_handle set_info get_info r ?conn = reply_results 2 (map presence_info_serialize ?vs) ?conn"
    unfolding get_request_runs [OF assms(1)]
    by (subst bindE_ok) (assumption, simp only: sum.case map_map comp_def)
  then show ?thesis using d(1) d(2) [rule_format, of "[]"] by (auto simp: answer_def)
qed

section \<open>Properties\<close>

text \<open>A run of the service: requests that set data, and sessions that end.\<close>

fun stands_for :: "request + BdSession \<Rightarrow> presence_event \<Rightarrow> bool" where
  "stands_for (Inl q) (Published session u data) \<longleftrightarrow> fst q = session \<and> set_request q u data"
| "stands_for (Inr session) (Gone session') \<longleftrightarrow> session' = session"
| "stands_for _ _ \<longleftrightarrow> False"

fun presence_serve :: "request + BdSession \<Rightarrow> DwRichPresenceService \<Rightarrow> DwRichPresenceService" where
  "presence_serve (Inl q) s = snd (answer (presence_handle set_info get_info) q s)"
| "presence_serve (Inr session) s = presence_unregistered session s"

lemma presence_serve_step: "stands_for x e \<Longrightarrow> presence_serve x s = presence_step e s"
proof (cases rule: stands_for.cases [of "(x, e)"])
  case (1 q session u data)
  assume "stands_for x e"
  with 1 obtain tid r where "q = (session, tid, r)" "set_request (session, tid, r) u data"
    by (cases q) auto
  then show ?thesis using 1 set_request_answered [of session tid r u data s] by auto
qed auto

lemma presence_serve_steps:
  "list_all2 stands_for xs events \<Longrightarrow> fold presence_serve xs s = fold presence_step events s"
  by (induction arbitrary: s rule: list_all2_induct) (simp_all add: presence_serve_step)

text \<open>
  C32. A user shows what it published last. After any requests that set presence data, well-meant
  or not, and any ends of sessions, a client that asks for at most 64 users reads, for each
  and in its order, that the user is online with exactly the data that a session
  authenticated as this user - and no other - set last, at most 1024 bytes long, unless
  the very session that set it has ended since while logged in as that user; and otherwise that
  it is offline, with no data. A session that has logged in as another user before it ends takes
  only the other user's data away: what it set as the first user is still shown.
\<close>

theorem presence_shows_last:
  assumes "list_all2 stands_for xs events" "get_request (session, tid, r) users" "length users \<le> 64"
  shows "\<exists>s d vs. fold presence_serve xs rich_presence_service_new = s
    \<and> answer (presence_handle set_info get_info) (session, tid, r) s = (Inr (encrypted_if_available d), s)
    \<and> fst (client_read_results read_presence (reader_new d)) = Inr (1, tid, 0, 2, vs)
    \<and> list_all2 (\<lambda>u v. if ri_is_online v then \<exists>i. shows_last events u i (ri_rich_presence_data v)
        else ri_rich_presence_data v = [] \<and> \<not> (\<exists>i data. shows_last events u i data)) users vs"
proof -
  let ?s = "fold presence_serve xs rich_presence_service_new"
  have shown: "rp_presences ?s u = Some (i, data) \<longleftrightarrow> shows_last events u i data" for u i data
    using presence_serve_steps [OF assms(1), of rich_presence_service_new] presences_are_last by simp
  have short: "length data < 2 ^ 32" if "rp_presences ?s u = Some (i, data)" for u i data
    using that by (auto simp: shown shows_last_def)
  obtain d where d: "answer (presence_handle set_info get_info) (session, tid, r) ?s = (Inr (encrypted_if_available d), ?s)"
    "fst (client_read_results read_presence (reader_new d)) = Inr (1, tid, 0, 2,
        map (\<lambda>u. presence_info_from (map_option snd (rp_presences ?s u))) users)"
    using get_request_answered [OF assms(2,3), of ?s] short by blast
  have each: "if ri_is_online v then \<exists>i. shows_last events u i (ri_rich_presence_data v)
      else ri_rich_presence_data v = [] \<and> \<not> (\<exists>i data. shows_last events u i data)"
    if "v = presence_info_from (map_option snd (rp_presences ?s u))" for u v
    using that by (cases "rp_presences ?s u") (auto simp: presence_info_from_def shown [symmetric])
  have "list_all2 (\<lambda>u v. if ri_is_online v then \<exists>i. shows_last events u i (ri_rich_presence_data v)
      else ri_rich_presence_data v = [] \<and> \<not> (\<exists>i data. shows_last events u i data)) users
      (map (\<lambda>u. presence_info_from (map_option snd (rp_presences ?s u))) users)"
    unfolding list_all2_map2 list_all2_same using each by blast
  with d show ?thesis by blast
qed

definition shown_request :: request where
  "shown_request = (\<lparr>s_id = 4, s_authentication = Some \<lparr>a_user_id = 7, a_username = [0x61],
     a_session_key = [], a_title = Iw4\<rparr>\<rparr>, 0, message_reader (enc_u8 1 @ enc_u64 0 @ enc_blob BitMode True [1, 2]))"

definition shown_query :: request where
  "shown_query = (\<lparr>s_id = 5, s_authentication = None\<rparr>, 3, message_reader (enc_u8 2 @ concat (map enc_u64 [7, 8])))"

theorem presence_shows_last_witness:
  "\<exists>s d v w. fold presence_serve [Inl shown_request] rich_presence_service_new = s
    \<and> answer (presence_handle set_info get_info) shown_query s = (Inr (encrypted_if_available d), s)
    \<and> fst (client_read_results read_presence (reader_new d)) = Inr (1, 3, 0, 2, [v, w])
    \<and> ri_is_online v \<and> ri_rich_presence_data v = [1, 2] \<and> \<not> ri_is_online w"
proof -
  let ?e = "Published (fst shown_request) 7 [1, 2]"
  have "set_request shown_request 7 [1, 2]"
    by (simp add: shown_request_def set_request_def message_reader is_user_def)
      (rule exI [of _ 0], auto)
  then have run: "list_all2 stands_for [Inl shown_request] [?e]" by simp
  have q: "get_request shown_query [7, 8]" by (simp add: shown_query_def get_request_def message_reader)
  have last: "shows_last [?e] u i data \<longleftrightarrow> u = 7 \<and> data = [1, 2] \<and> i = 4" for u i data
    using shows_last_step [of "[]" ?e u i data]
    by (auto simp: shows_last_def shown_request_def is_user_def)
  obtain s d vs where "fold presence_serve [Inl shown_request] rich_presence_service_new = s"
    "answer (presence_handle set_info get_info) shown_query s = (Inr (encrypted_if_available d), s)"
    "fst (client_read_results read_presence (reader_new d)) = Inr (1, 3, 0, 2, vs)"
    "list_all2 (\<lambda>u v. if ri_is_online v then \<exists>i. shows_last [?e] u i (ri_rich_presence_data v)
        else ri_rich_presence_data v = [] \<and> \<not> (\<exists>i data. shows_last [?e] u i data)) [7, 8] vs"
    using presence_shows_last [OF run q [unfolded shown_query_def]] unfolding shown_query_def by auto
  then show ?thesis unfolding last by (auto simp: list_all2_Cons1 split: if_splits)
qed

end
