(* ===== verification/Small_Services.thy ===== *)
theory Small_Services
  imports Service_Support "HOL-Library.Signed_Division"
begin

text \<open>
  The lobby services that keep no state (libbitdemon/src/lobby/anti_cheat, dml, event_log,
  key_archive, league, performance, title_utilities, twitch, vote_rank and youtube): they read
  a request, log it, and answer with a constant or with the time. What they log is not
  modelled, nor the memory that is reserved for the tags of a video. That they can do no harm,
  whatever the client sends, is the property at the end.
\<close>

section \<open>Anti-cheat\<close>

datatype AntiCheatTaskId = AnswerChallenges | ReportConsoleId | ReportConsoleDetails

definition anti_cheat_task_from_u8 :: "u8 \<Rightarrow> AntiCheatTaskId option" where
  "anti_cheat_task_from_u8 v =
    (if v = 2 then Some AnswerChallenges else if v = 3 then Some ReportConsoleId
     else if v = 4 then Some ReportConsoleDetails else None)"

definition report_console_details :: "reader \<Rightarrow> ('w, BdResponse) act" where
  "report_console_details r =
    bindE (run_rd (bindE read_blob (\<lambda>blob1. bindE read_u32 (\<lambda>uint1. bindE read_u32 (\<lambda>changelist.
      bindE read_u64 (\<lambda>ulong1. bindE read_u64 (\<lambda>ulong2. bindE read_u64 (\<lambda>ulong3. read_blob)))))))
      r) (\<lambda>(blob2, _). reply_only NoError 4)"

definition anti_cheat_handle :: "reader \<Rightarrow> ('w, BdResponse) act" where
  "anti_cheat_handle r =
    bindE (run_rd read_u8 r) (\<lambda>(task_id_value, r1).
    case anti_cheat_task_from_u8 task_id_value of
      None \<Rightarrow> reply_only NoError task_id_value
    | Some task \<Rightarrow> (case task of
        ReportConsoleDetails \<Rightarrow> report_console_details r1
      | AnswerChallenges \<Rightarrow> reply_only NoError 2
      | ReportConsoleId \<Rightarrow> reply_only NoError 3))"

section \<open>Demographics\<close>

record DmlInfoResult =
  dml_country_code :: bytes
  dml_country :: bytes
  dml_region :: bytes
  dml_city :: bytes
  dml_latitude :: f32
  dml_longitude :: f32

record DmlHierarchicalInfoResult =
  dml_base :: DmlInfoResult
  dml_tier0 :: u32
  dml_tier1 :: u32
  dml_tier2 :: u32
  dml_tier3 :: u32

definition dml_info_serialize :: "DmlInfoResult \<Rightarrow> wr" where
  "dml_info_serialize v =
    thenE (write_str (dml_country_code v))
    (thenE (write_str (dml_country v))
    (thenE (write_str (dml_region v))
    (thenE (write_str (dml_city v))
    (thenE (write_f32 (dml_latitude v)) (write_f32 (dml_longitude v))))))"

definition dml_hierarchical_info_serialize :: "DmlHierarchicalInfoResult \<Rightarrow> wr" where
  "dml_hierarchical_info_serialize v =
    thenE (dml_info_serialize (dml_base v))
    (thenE (write_u32 (dml_tier0 v))
    (thenE (write_u32 (dml_tier1 v))
    (thenE (write_u32 (dml_tier2 v)) (write_u32 (dml_tier3 v)))))"

text \<open>34.0453 and -118.2413 as IEEE single precision.\<close>

definition create_mock_dml_info :: DmlInfoResult where
  "create_mock_dml_info = \<lparr>dml_country_code = str ''US'', dml_country = str ''United States'',
     dml_region = str ''California'', dml_city = str ''Los Angeles'', dml_latitude = 0x42082E63,
     dml_longitude = 0xC2EC7B8C\<rparr>"

datatype DmlTaskId = DmlRecordIp | GetUserData | GetUserHierarchicalData

definition dml_task_from_u8 :: "u8 \<Rightarrow> DmlTaskId option" where
  "dml_task_from_u8 v =
    (if v = 1 then Some DmlRecordIp else if v = 2 then Some GetUserData
     else if v = 3 then Some GetUserHierarchicalData else None)"

definition dml_record_ip :: "reader \<Rightarrow> ('w, BdResponse) act" where
  "dml_record_ip r = bindE (run_rd read_u32 r) (\<lambda>(ip, _). reply_only NoError 1)"

definition get_user_data :: "('w, BdResponse) act" where
  "get_user_data = reply_results 2 [dml_info_serialize create_mock_dml_info]"

definition get_user_hierarchical_data :: "('w, BdResponse) act" where
  "get_user_hierarchical_data = reply_results 2 [dml_hierarchical_info_serialize
     \<lparr>dml_base = create_mock_dml_info, dml_tier0 = 0, dml_tier1 = 0, dml_tier2 = 0, dml_tier3 = 0\<rparr>]"

definition dml_handle :: "reader \<Rightarrow> ('w, BdResponse) act" where
  "dml_handle r =
    bindE (run_rd read_u8 r) (\<lambda>(task_id_value, r1).
    case dml_task_from_u8 task_id_value of
      None \<Rightarrow> reply_only NoError task_id_value
    | Some task \<Rightarrow> (case task of
        DmlRecordIp \<Rightarrow> dml_record_ip r1
      | GetUserData \<Rightarrow> get_user_data
      | GetUserHierarchicalData \<Rightarrow> get_user_hierarchical_data))"

section \<open>Event log\<close>

record EventInfo =
  ei_category_id :: u32
  ei_binary_data :: "bytes option"
  ei_string_data :: "bytes option"

definition event_info_deserialize :: "EventInfo rd" where
  "event_info_deserialize =
    bindE read_u32 (\<lambda>category_id.
    bindE read_bool (\<lambda>is_binary.
    if is_binary
    then bindE read_blob (\<lambda>binary_data.
      returnE \<lparr>ei_category_id = category_id, ei_binary_data = Some binary_data, ei_string_data = None\<rparr>)
    else bindE read_str (\<lambda>string_data.
      returnE \<lparr>ei_category_id = category_id, ei_binary_data = None, ei_string_data = Some string_data\<rparr>)))"

datatype EventLogTaskId = RecordEvent | RecordEventBin | RecordEvents | RecordEventsMixed

definition event_log_task_from_u8 :: "u8 \<Rightarrow> EventLogTaskId option" where
  "event_log_task_from_u8 v =
    (if v = 1 then Some RecordEvent else if v = 2 then Some RecordEventBin
     else if v = 3 then Some RecordEvents else if v = 5 then Some RecordEventsMixed else None)"

definition record_event :: "reader \<Rightarrow> ('w, BdResponse) act" where
  "record_event r =
    bindE (run_rd (bindE read_str (\<lambda>string_event. read_u32)) r) (\<lambda>(category_id, _). reply_only NoError 1)"

definition record_event_bin :: "reader \<Rightarrow> ('w, BdResponse) act" where
  "record_event_bin r =
    bindE (run_rd (bindE read_blob (\<lambda>binary_data. read_u32)) r) (\<lambda>(category_id, _). reply_only NoError 2)"

definition record_events :: "reader \<Rightarrow> ('w, BdResponse) act" where
  "record_events r =
    bindE (run_rd (bindE read_u32 (\<lambda>category_id. bindE read_u32 (\<lambda>event_count.
      repeatE (unat event_count) read_str))) r) (\<lambda>(events, _). reply_only NoError 3)"

definition record_events_mixed :: "reader \<Rightarrow> ('w, BdResponse) act" where
  "record_events_mixed r =
    bindE (run_rd (bindE read_u32 (\<lambda>event_count. repeatE (unat event_count) event_info_deserialize)) r)
      (\<lambda>(events, _). reply_only NoError 3)"

definition event_log_handle :: "reader \<Rightarrow> ('w, BdResponse) act" where
  "event_log_handle r =
    bindE (run_rd read_u8 r) (\<lambda>(task_id_value, r1).
    case event_log_task_from_u8 task_id_value of
      None \<Rightarrow> reply_only NoError task_id_value
    | Some task \<Rightarrow> (case task of
        RecordEvent \<Rightarrow> record_event r1
      | RecordEventBin \<Rightarrow> record_event_bin r1
      | RecordEvents \<Rightarrow> record_events r1
      | RecordEventsMixed \<Rightarrow> record_events_mixed r1))"

section \<open>Key archive\<close>

datatype KeyArchiveUpdateType =
  UpdateReplace | UpdateAdd | UpdateMax | UpdateMin | UpdateAnd | UpdateOr | UpdateXor | UpdateSubSafe

definition update_type_from_u8 :: "u8 \<Rightarrow> KeyArchiveUpdateType option" where
  "update_type_from_u8 v =
    (let types = [UpdateReplace, UpdateAdd, UpdateMax, UpdateMin, UpdateAnd, UpdateOr, UpdateXor, UpdateSubSafe]
     in if unat v < length types then Some (types ! unat v) else None)"

record KeyValuePairWriteResult =
  kv_index :: u16
  kv_value :: i64
  kv_update_type :: KeyArchiveUpdateType

definition key_value_pair_deserialize :: "KeyValuePairWriteResult rd" where
  "key_value_pair_deserialize =
    bindE read_u16 (\<lambda>index.
    bindE read_i64 (\<lambda>value.
    bindE read_u8 (\<lambda>update_type_value.
    case update_type_from_u8 update_type_value of
      None \<Rightarrow> throwE (InvalidUpdateTypeError update_type_value)
    | Some update_type \<Rightarrow> returnE \<lparr>kv_index = index, kv_value = value, kv_update_type = update_type\<rparr>)))"

datatype KeyArchiveTaskId = ArchiveWrite | ArchiveRead | ArchiveReadAll | ArchiveReadMultipleEntityIds

definition key_archive_task_from_u8 :: "u8 \<Rightarrow> KeyArchiveTaskId option" where
  "key_archive_task_from_u8 v =
    (if v = 1 then Some ArchiveWrite else if v = 2 then Some ArchiveRead
     else if v = 3 then Some ArchiveReadAll else if v = 4 then Some ArchiveReadMultipleEntityIds else None)"

text \<open>The part of a request behind the entity, which is only there when a 16 bit number follows.\<close>

definition archive_write :: "reader \<Rightarrow> ('w, BdResponse) act" where
  "archive_write r =
    bindE (run_rd (bindE read_u64 (\<lambda>entity_id.
      bindE (okE (next_is UnsignedInteger16Type) False) (\<lambda>b.
      if b then bindE read_u16 (\<lambda>category_id. read_all_ok key_value_pair_deserialize)
      else returnE []))) r) (\<lambda>(kvps, _). reply_only NoError 1)"

definition archive_read :: "reader \<Rightarrow> ('w, BdResponse) act" where
  "archive_read r =
    bindE (run_rd (bindE read_u64 (\<lambda>entity_id.
      bindE (okE (next_is UnsignedInteger16Type) False) (\<lambda>b.
      if b then bindE read_u16 (\<lambda>category_id. bindE read_bool (\<lambda>read_dedicated.
        read_all (okE (next_is UnsignedInteger16Type) False) read_u16))
      else returnE []))) r) (\<lambda>(indices, _). reply_only NoError 2)"

definition key_archive_handle :: "reader \<Rightarrow> ('w, BdResponse) act" where
  "key_archive_handle r =
    bindE (run_rd read_u8 r) (\<lambda>(task_id_value, r1).
    case key_archive_task_from_u8 task_id_value of
      None \<Rightarrow> reply_only NoError task_id_value
    | Some task \<Rightarrow> (case task of
        ArchiveWrite \<Rightarrow> archive_write r1
      | ArchiveRead \<Rightarrow> archive_read r1
      | ArchiveReadAll \<Rightarrow> reply_only NoError 3
      | ArchiveReadMultipleEntityIds \<Rightarrow> reply_only NoError 3))"

section \<open>League\<close>

datatype OrderType = OrderByTeamId | OrderByRecentActivity

definition order_type_from_u8 :: "u8 \<Rightarrow> OrderType option" where
  "order_type_from_u8 v =
    (if v = 0 then Some OrderByTeamId else if v = 1 then Some OrderByRecentActivity else None)"

datatype LeagueTaskId =
    GetTeamId | GetTeamIDsForUser | GetTeamSubdivisions | SetTeamName | GetTeamInfos | GetTeamMemberInfos
  | GetTeamSubdivisionInfos | GetTeamSubdivisionHistory

definition league_task_from_u8 :: "u8 \<Rightarrow> LeagueTaskId option" where
  "league_task_from_u8 v =
    (if v = 1 then Some GetTeamId else if v = 2 then Some GetTeamIDsForUser
     else if v = 3 then Some GetTeamSubdivisions else if v = 4 then Some SetTeamName
     else if v = 6 then Some GetTeamInfos else if v = 8 then Some GetTeamMemberInfos
     else if v = 20 then Some GetTeamSubdivisionInfos else if v = 21 then Some GetTeamSubdivisionHistory
     else None)"

definition get_team_id :: "reader \<Rightarrow> ('w, BdResponse) act" where
  "get_team_id r = bindE (run_rd read_u64_array r) (\<lambda>(user_ids, _). reply_only NoError 1)"

definition get_team_ids_for_user :: "reader \<Rightarrow> ('w, BdResponse) act" where
  "get_team_ids_for_user r =
    bindE (run_rd (bindE read_u64 (\<lambda>user_id. bindE read_u8 (\<lambda>order_type_value.
      thenE (ensureE (order_type_from_u8 order_type_value \<noteq> None) (InvalidOrderTypeError order_type_value))
      (bindE read_u32 (\<lambda>offset. read_u32))))) r) (\<lambda>(max_results, _). reply_only NoError 2)"

definition get_team_subdivisions :: "reader \<Rightarrow> ('w, BdResponse) act" where
  "get_team_subdivisions r =
    bindE (run_rd (bindE read_u64 (\<lambda>team_id. read_u64_array)) r) (\<lambda>(league_ids, _). reply_only NoError 3)"

definition set_team_name :: "reader \<Rightarrow> ('w, BdResponse) act" where
  "set_team_name r =
    bindE (run_rd (bindE read_u64 (\<lambda>team_id. read_str)) r) (\<lambda>(name, _). reply_only NoError 4)"

definition get_team_infos :: "reader \<Rightarrow> ('w, BdResponse) act" where
  "get_team_infos r = bindE (run_rd read_u64_array r) (\<lambda>(team_ids, _). reply_only NoError 6)"

definition get_team_member_infos :: "reader \<Rightarrow> ('w, BdResponse) act" where
  "get_team_member_infos r = bindE (run_rd read_u64_array r) (\<lambda>(team_ids, _). reply_only NoError 8)"

definition get_team_subdivision_infos :: "reader \<Rightarrow> ('w, BdResponse) act" where
  "get_team_subdivision_infos r = bindE (run_rd read_u64_array r) (\<lambda>(subdivision_ids, _). reply_only NoError 20)"

definition get_team_subdivision_history :: "reader \<Rightarrow> ('w, BdResponse) act" where
  "get_team_subdivision_history r =
    bindE (run_rd (bindE read_u64 (\<lambda>team_id. bindE read_u64 (\<lambda>league_id. read_u64_array))) r)
      (\<lambda>(season_ids, _). reply_only NoError 21)"

definition league_handle :: "reader \<Rightarrow> ('w, BdResponse) act" where
  "league_handle r =
    bindE (run_rd read_u8 r) (\<lambda>(task_id_value, r1).
    case league_task_from_u8 task_id_value of
      None \<Rightarrow> reply_only NoError task_id_value
    | Some task \<Rightarrow> (case task of
        GetTeamId \<Rightarrow> get_team_id r1
      | GetTeamIDsForUser \<Rightarrow> get_team_ids_for_user r1
      | GetTeamSubdivisions \<Rightarrow> get_team_subdivisions r1
      | SetTeamName \<Rightarrow> set_team_name r1
      | GetTeamInfos \<Rightarrow> get_team_infos r1
      | GetTeamMemberInfos \<Rightarrow> get_team_member_infos r1
      | GetTeamSubdivisionInfos \<Rightarrow> get_team_subdivision_infos r1
      | GetTeamSubdivisionHistory \<Rightarrow> get_team_subdivision_history r1))"

section \<open>Performance\<close>

datatype PerformanceTaskId = ReportInfo | ReportPlayers

definition performance_task_from_u8 :: "u8 \<Rightarrow> PerformanceTaskId option" where
  "performance_task_from_u8 v = (if v = 1 then Some ReportInfo else if v = 2 then Some ReportPlayers else None)"

definition INFO_BITS :: nat where "INFO_BITS = 5 + 64 + 5 + 32"
definition PLAYER_BITS :: nat where "PLAYER_BITS = 5 + 64"

definition another_u64 :: "nat \<Rightarrow> bool rd" where
  "another_u64 bits = bindE remaining_bits (\<lambda>n.
     if bits \<le> n then next_is UnsignedInteger64Type else returnE False)"

definition performance_info :: "(u64 \<times> i32) rd" where
  "performance_info = bindE read_u64 (\<lambda>i. bindE read_i32 (\<lambda>value. returnE (i, value)))"

definition report_info :: "reader \<Rightarrow> ('w, BdResponse) act" where
  "report_info r =
    bindE (run_rd (bindE read_u32 (\<lambda>context_id. read_all (another_u64 INFO_BITS) performance_info)) r)
      (\<lambda>(entries, _). reply_only NoError 1)"

definition report_players :: "reader \<Rightarrow> ('w, BdResponse) act" where
  "report_players r =
    bindE (run_rd (bindE read_u32 (\<lambda>playlist_id. read_all (another_u64 PLAYER_BITS) read_u64)) r)
      (\<lambda>(player_ids, _). reply_results 2 [])"

definition performance_handle :: "reader \<Rightarrow> ('w, BdResponse) act" where
  "performance_handle r =
    bindE (run_rd read_u8 r) (\<lambda>(task_id_value, r1).
    case performance_task_from_u8 task_id_value of
      None \<Rightarrow> reply_only ServiceNotAvailable task_id_value
    | Some task \<Rightarrow> (case task of ReportInfo \<Rightarrow> report_info r1 | ReportPlayers \<Rightarrow> report_players r1))"

section \<open>Title utilities\<close>

datatype TitleUtilitiesTaskId =
    VerifyString | GetTitleStats | TitleRecordEvent | TitleRecordIp | TitleRecordEventBin | GetServerTime
  | AreUsersOnline | GetUserNames

definition title_utilities_task_from_u8 :: "u8 \<Rightarrow> TitleUtilitiesTaskId option" where
  "title_utilities_task_from_u8 v =
    (if v = 1 then Some VerifyString else if v = 2 then Some GetTitleStats
     else if v = 3 then Some TitleRecordEvent else if v = 4 then Some TitleRecordIp
     else if v = 5 then Some TitleRecordEventBin else if v = 6 then Some GetServerTime
     else if v = 7 then Some AreUsersOnline else if v = 9 then Some GetUserNames else None)"

definition timestamp_result :: "int \<Rightarrow> u32" where
  "timestamp_result now = word_of_int (now smod (2 ^ 32 - 1))"

definition get_server_time :: "env \<Rightarrow> ('w, BdResponse) act" where
  "get_server_time env = reply_results 6 [write_u32 (timestamp_result (e_now env))]"

text \<open>The tasks that are not implemented are answered with their own number.\<close>

definition title_utilities_handle :: "env \<Rightarrow> reader \<Rightarrow> ('w, BdResponse) act" where
  "title_utilities_handle env r =
    bindE (run_rd read_u8 r) (\<lambda>(task_id_value, r1).
    case title_utilities_task_from_u8 task_id_value of
      None \<Rightarrow> reply_only NoError task_id_value
    | Some task \<Rightarrow> (case task of
        GetServerTime \<Rightarrow> get_server_time env
      | _ \<Rightarrow> reply_only NoError task_id_value))"

section \<open>Twitch\<close>

datatype TwitchTaskId = LinkAccount | UnlinkAccount | IsLinked | GetUserInfo

definition twitch_task_from_u8 :: "u8 \<Rightarrow> TwitchTaskId option" where
  "twitch_task_from_u8 v =
    (if v = 1 then Some LinkAccount else if v = 2 then Some UnlinkAccount else if v = 3 then Some IsLinked
     else if v = 4 then Some GetUserInfo else None)"

definition link_account :: "reader \<Rightarrow> ('w, BdResponse) act" where
  "link_account r = bindE (run_rd read_str r) (\<lambda>(token, _). reply_only NoError 1)"

definition twitch_handle :: "reader \<Rightarrow> ('w, BdResponse) act" where
  "twitch_handle r =
    bindE (run_rd read_u8 r) (\<lambda>(task_id_value, r1).
    case twitch_task_from_u8 task_id_value of
      None \<Rightarrow> reply_only NoError task_id_value
    | Some task \<Rightarrow> (case task of
        LinkAccount \<Rightarrow> link_account r1
      | UnlinkAccount \<Rightarrow> reply_only NoError 1
      | IsLinked \<Rightarrow> reply_results 3 [write_bool False]
      | GetUserInfo \<Rightarrow> reply_only ServiceNotAvailable 4))"

section \<open>Votes\<close>

datatype Vote = Dislike | Like

definition vote_from_u8 :: "u8 \<Rightarrow> Vote option" where
  "vote_from_u8 v = (if v = 0 then Some Dislike else if v = 0xA then Some Like else None)"

record RatingInfo =
  ra_entity_id :: u64
  ra_rating :: Vote

record CategorizedRatingInfo =
  ca_rating_info :: RatingInfo
  ca_category :: u16

definition rating_info_deserialize :: "RatingInfo rd" where
  "rating_info_deserialize =
    bindE read_u64 (\<lambda>entity_id.
    bindE read_u8 (\<lambda>rating_value.
    case vote_from_u8 rating_value of
      None \<Rightarrow> throwE (InvalidVoteError rating_value)
    | Some rating \<Rightarrow> returnE \<lparr>ra_entity_id = entity_id, ra_rating = rating\<rparr>))"

definition categorized_rating_info_deserialize :: "CategorizedRatingInfo rd" where
  "categorized_rating_info_deserialize =
    bindE rating_info_deserialize (\<lambda>rating_info.
    bindE read_u16 (\<lambda>category. returnE \<lparr>ca_rating_info = rating_info, ca_category = category\<rparr>))"

datatype VoteRankTaskId = SubmitRating | SubmitCategorizedRating | GetVoteHistory

definition vote_rank_task_from_u8 :: "u8 \<Rightarrow> VoteRankTaskId option" where
  "vote_rank_task_from_u8 v =
    (if v = 1 then Some SubmitRating else if v = 2 then Some SubmitCategorizedRating
     else if v = 3 then Some GetVoteHistory else None)"

definition submit_rating :: "reader \<Rightarrow> ('w, BdResponse) act" where
  "submit_rating r = bindE (run_rd (read_all_ok rating_info_deserialize) r) (\<lambda>(votes, _). reply_only NoError 1)"

definition submit_categorized_rating :: "reader \<Rightarrow> ('w, BdResponse) act" where
  "submit_categorized_rating r =
    bindE (run_rd (read_all_ok categorized_rating_info_deserialize) r) (\<lambda>(votes, _). reply_only NoError 1)"

definition get_vote_history :: "reader \<Rightarrow> ('w, BdResponse) act" where
  "get_vote_history r =
    bindE (run_rd (bindE read_u16 (\<lambda>unknown. bindE read_u32 (\<lambda>item_offset. read_u32))) r) (\<lambda>(item_count, _).
    bindE (with_result_slice 3 (result_slice_new [] 0)) (\<lambda>t. liftE (task_to_response t)))"

definition vote_rank_handle :: "reader \<Rightarrow> ('w, BdResponse) act" where
  "vote_rank_handle r =
    bindE (run_rd read_u8 r) (\<lambda>(task_id_value, r1).
    case vote_rank_task_from_u8 task_id_value of
      None \<Rightarrow> reply_only NoError task_id_value
    | Some task \<Rightarrow> (case task of
        SubmitRating \<Rightarrow> submit_rating r1
      | SubmitCategorizedRating \<Rightarrow> submit_categorized_rating r1
      | GetVoteHistory \<Rightarrow> get_vote_history r1))"

section \<open>Youtube\<close>

datatype YoutubeTaskId = StartAccountRegistration | IsRegistered | Unregister | UploadVideo | GetUserToken

definition youtube_task_from_u8 :: "u8 \<Rightarrow> YoutubeTaskId option" where
  "youtube_task_from_u8 v =
    (if v = 1 then Some StartAccountRegistration else if v = 2 then Some IsRegistered
     else if v = 3 then Some Unregister else if v = 4 then Some UploadVideo
     else if v = 6 then Some GetUserToken else None)"

definition upload_video :: "reader \<Rightarrow> ('w, BdResponse) act" where
  "upload_video r =
    bindE (run_rd (bindE read_u64 (\<lambda>file_id. bindE read_bool (\<lambda>is_private. bindE read_u32 (\<lambda>developer_tag_count.
      repeatE (unat developer_tag_count) read_str)))) r) (\<lambda>(developer_tags, _). reply_only YoutubeServiceError 4)"

definition youtube_handle :: "reader \<Rightarrow> ('w, BdResponse) act" where
  "youtube_handle r =
    bindE (run_rd read_u8 r) (\<lambda>(task_id_value, r1).
    case youtube_task_from_u8 task_id_value of
      None \<Rightarrow> reply_only NoError task_id_value
    | Some task \<Rightarrow> (case task of
        StartAccountRegistration \<Rightarrow> reply_only YoutubeServiceError 1
      | IsRegistered \<Rightarrow> reply_results 2 [write_bool False]
      | Unregister \<Rightarrow> reply_only NoError 3
      | UploadVideo \<Rightarrow> upload_video r1
      | GetUserToken \<Rightarrow> reply_only YoutubeServiceError 6))"

section \<open>No harm\<close>

lemma writable_dml: "writable_result (dml_info_serialize v)" "writable_result (dml_hierarchical_info_serialize h)"
proof -
  have info: "writes BitMode True (enc_str BitMode True (dml_country_code v) @ enc_str BitMode True (dml_country v)
      @ enc_str BitMode True (dml_region v) @ enc_str BitMode True (dml_city v)
      @ enc_scalar Float32Type BitMode True (dml_latitude v) @ enc_scalar Float32Type BitMode True (dml_longitude v))
    (dml_info_serialize v)" for v
    unfolding dml_info_serialize_def
    by (intro writes_then writes_str_val f32_c.writes [OF any_value])
  then show "writable_result (dml_info_serialize v)" by (rule writable_resultI)
  show "writable_result (dml_hierarchical_info_serialize h)"
    unfolding dml_hierarchical_info_serialize_def
    by (rule writable_resultI, (rule writes_then info writes_u32)+)
qed

lemma writable_values: "writable_result (write_u32 x)" "writable_result (write_bool b)"
  by (auto intro: writable_resultI writes_u32 writes_bool)

lemma safe_event_info [safe_intros]: "safe event_info_deserialize"
  unfolding event_info_deserialize_def by (intro safe_intros)

lemma safe_key_value_pair [safe_intros]: "safe key_value_pair_deserialize"
proof -
  have "safe (case update_type_from_u8 v of None \<Rightarrow> throwE (InvalidUpdateTypeError v)
      | Some t \<Rightarrow> returnE \<lparr>kv_index = i, kv_value = x, kv_update_type = t\<rparr>)" for v i x
    by (cases "update_type_from_u8 v") (simp_all add: safe_intros)
  then show ?thesis unfolding key_value_pair_deserialize_def by (intro safe_intros)
qed

lemma safe_rating_info [safe_intros]: "safe rating_info_deserialize" "safe categorized_rating_info_deserialize"
proof -
  have "safe (case vote_from_u8 v of None \<Rightarrow> throwE (InvalidVoteError v)
      | Some t \<Rightarrow> returnE \<lparr>ra_entity_id = i, ra_rating = t\<rparr>)" for v i
    by (cases "vote_from_u8 v") (simp_all add: safe_intros)
  then show "safe rating_info_deserialize" unfolding rating_info_deserialize_def by (intro safe_intros)
  then show "safe categorized_rating_info_deserialize"
    unfolding categorized_rating_info_deserialize_def by (intro safe_intros)
qed

lemma consuming_key_value_pair [consuming_intros]: "consuming 1 key_value_pair_deserialize"
proof -
  have "consuming 0 (case update_type_from_u8 v of None \<Rightarrow> throwE (InvalidUpdateTypeError v)
      | Some t \<Rightarrow> returnE \<lparr>kv_index = i, kv_value = x, kv_update_type = t\<rparr>)" for v i x
    by (cases "update_type_from_u8 v") (simp_all add: consuming_intros)
  then show ?thesis unfolding key_value_pair_deserialize_def
    by (intro consuming_first consuming_small safe_intros
        consuming_0_bind [OF consuming_scalars(4)] consuming_0_bind [OF consuming_small(1)])
qed

lemma consuming_rating_info [consuming_intros]:
  "consuming 1 rating_info_deserialize" "consuming 1 categorized_rating_info_deserialize"
proof -
  have "consuming 0 (case vote_from_u8 v of None \<Rightarrow> throwE (InvalidVoteError v)
      | Some t \<Rightarrow> returnE \<lparr>ra_entity_id = i, ra_rating = t\<rparr>)" for v i
    by (cases "vote_from_u8 v") (simp_all add: consuming_intros)
  then show "consuming 1 rating_info_deserialize" unfolding rating_info_deserialize_def
    by (intro consuming_first consuming_scalars safe_intros consuming_0_bind [OF consuming_small(1)])
  then show "consuming 1 categorized_rating_info_deserialize"
    unfolding categorized_rating_info_deserialize_def
    by (intro consuming_first safe_intros consuming_0_bind [OF consuming_small(2)] consuming_return)
qed

lemma another_u64_intros [safe_intros]: "safe (another_u64 n)"
proof -
  have "safe (if b then next_is UnsignedInteger64Type else returnE False)" for b
    by (cases b) (simp_all add: safe_intros)
  then show ?thesis unfolding another_u64_def by (intro safe_intros)
qed

lemma passes_another_u64 [consuming_intros]: "passes (another_u64 n)"
  unfolding another_u64_def
proof (rule passes_consuming, rule consuming_0_bind)
  show "consuming 0 remaining_bits" unfolding remaining_bits_def by (intro consuming_intros)
  show "safe remaining_bits" by (rule safe_remaining(2))
  show "consuming 0 (if n \<le> k then next_is UnsignedInteger64Type else returnE False)" for k
    by (cases "n \<le> k") (simp_all add: consuming_intros)
qed

lemma performance_info_intros [safe_intros]: "safe performance_info"
  unfolding performance_info_def by (intro safe_intros)

lemma consuming_performance_info [consuming_intros]: "consuming 1 performance_info"
  unfolding performance_info_def
  by (intro consuming_first consuming_scalars safe_intros consuming_0_bind [OF consuming_scalars(3)] consuming_return)

lemma harmless_anti_cheat [harmless_intros]: "harmless anti_cheat_handle"
proof -
  have "harmless report_console_details"
    unfolding report_console_details_def by (intro harmless_intros safe_intros)
  then have "harmless (\<lambda>r. case t of ReportConsoleDetails \<Rightarrow> report_console_details r
      | AnswerChallenges \<Rightarrow> reply_only NoError 2 | ReportConsoleId \<Rightarrow> reply_only NoError 3)" for t
    by (cases t) (simp_all add: harmless_intros)
  then show ?thesis unfolding anti_cheat_handle_def by (intro harmless_intros safe_intros)
qed

lemma harmless_dml [harmless_intros]: "harmless dml_handle"
proof -
  have "harmless dml_record_ip" "harmless (\<lambda>r. get_user_data)" "harmless (\<lambda>r. get_user_hierarchical_data)"
    unfolding dml_record_ip_def get_user_data_def get_user_hierarchical_data_def
    by (intro harmless_intros safe_intros; simp add: writable_dml)+
  then have "harmless (\<lambda>r. case t of DmlRecordIp \<Rightarrow> dml_record_ip r | GetUserData \<Rightarrow> get_user_data
      | GetUserHierarchicalData \<Rightarrow> get_user_hierarchical_data)" for t
    by (cases t) simp_all
  then show ?thesis unfolding dml_handle_def by (intro harmless_intros safe_intros)
qed

lemma harmless_event_log [harmless_intros]: "harmless event_log_handle"
proof -
  have "harmless record_event" "harmless record_event_bin" "harmless record_events" "harmless record_events_mixed"
    unfolding record_event_def record_event_bin_def record_events_def record_events_mixed_def
    by (intro harmless_intros safe_intros)+
  then have "harmless (\<lambda>r. case t of RecordEvent \<Rightarrow> record_event r | RecordEventBin \<Rightarrow> record_event_bin r
      | RecordEvents \<Rightarrow> record_events r | RecordEventsMixed \<Rightarrow> record_events_mixed r)" for t
    by (cases t) simp_all
  then show ?thesis unfolding event_log_handle_def by (intro harmless_intros safe_intros)
qed

lemma harmless_key_archive [harmless_intros]: "harmless key_archive_handle"
proof -
  have pairs: "safe (if b then bindE read_u16 (\<lambda>category_id. read_all_ok key_value_pair_deserialize) else returnE [])" for b
    by (cases b) (simp_all, (intro safe_intros consuming_intros)+)
  have indices: "safe (if b then bindE read_u16 (\<lambda>category_id. bindE read_bool (\<lambda>read_dedicated.
      read_all (okE (next_is UnsignedInteger16Type) False) read_u16)) else returnE [])" for b
    by (cases b) (simp_all, (intro safe_intros consuming_intros)+)
  have "harmless archive_write" "harmless archive_read"
    unfolding archive_write_def archive_read_def by (intro harmless_intros safe_intros pairs indices)+
  then have "harmless (\<lambda>r. case t of ArchiveWrite \<Rightarrow> archive_write r | ArchiveRead \<Rightarrow> archive_read r
      | ArchiveReadAll \<Rightarrow> reply_only NoError 3 | ArchiveReadMultipleEntityIds \<Rightarrow> reply_only NoError 3)" for t
    by (cases t) (simp_all add: harmless_intros)
  then show ?thesis unfolding key_archive_handle_def by (intro harmless_intros safe_intros)
qed

lemma harmless_league [harmless_intros]: "harmless league_handle"
proof -
  have "harmless get_team_id" "harmless get_team_ids_for_user" "harmless get_team_subdivisions"
    "harmless set_team_name" "harmless get_team_infos" "harmless get_team_member_infos"
    "harmless get_team_subdivision_infos" "harmless get_team_subdivision_history"
    unfolding get_team_id_def get_team_ids_for_user_def get_team_subdivisions_def set_team_name_def
      get_team_infos_def get_team_member_infos_def get_team_subdivision_infos_def get_team_subdivision_history_def
    by (intro harmless_intros safe_intros; simp)+
  then have "harmless (\<lambda>r. case t of GetTeamId \<Rightarrow> get_team_id r | GetTeamIDsForUser \<Rightarrow> get_team_ids_for_user r
      | GetTeamSubdivisions \<Rightarrow> get_team_subdivisions r | SetTeamName \<Rightarrow> set_team_name r
      | GetTeamInfos \<Rightarrow> get_team_infos r | GetTeamMemberInfos \<Rightarrow> get_team_member_infos r
      | GetTeamSubdivisionInfos \<Rightarrow> get_team_subdivision_infos r
      | GetTeamSubdivisionHistory \<Rightarrow> get_team_subdivision_history r)" for t
    by (cases t) simp_all
  then show ?thesis unfolding league_handle_def by (intro harmless_intros safe_intros)
qed

lemma harmless_performance [harmless_intros]: "harmless performance_handle"
proof -
  have "harmless report_info" "harmless report_players"
    unfolding report_info_def report_players_def
    by (intro harmless_intros safe_intros consuming_intros; simp)+
  then have "harmless (\<lambda>r. case t of ReportInfo \<Rightarrow> report_info r | ReportPlayers \<Rightarrow> report_players r)" for t
    by (cases t) simp_all
  then show ?thesis unfolding performance_handle_def by (intro harmless_intros safe_intros)
qed

lemma harmless_title_utilities [harmless_intros]: "harmless (title_utilities_handle env)"
proof -
  have "harmless (\<lambda>r. get_server_time env)"
    unfolding get_server_time_def by (intro harmless_intros) (simp add: writable_values)
  then have "harmless (\<lambda>r. case t of GetServerTime \<Rightarrow> get_server_time env | _ \<Rightarrow> reply_only NoError v)" for t v
    by (cases t) (simp_all add: harmless_intros)
  then show ?thesis unfolding title_utilities_handle_def by (intro harmless_intros safe_intros)
qed

lemma harmless_twitch [harmless_intros]: "harmless twitch_handle"
proof -
  have "harmless link_account" "harmless (\<lambda>r. reply_results 3 [write_bool False])"
    unfolding link_account_def by (intro harmless_intros safe_intros; simp add: writable_values)+
  then have "harmless (\<lambda>r. case t of LinkAccount \<Rightarrow> link_account r | UnlinkAccount \<Rightarrow> reply_only NoError 1
      | IsLinked \<Rightarrow> reply_results 3 [write_bool False] | GetUserInfo \<Rightarrow> reply_only ServiceNotAvailable 4)" for t
    by (cases t) (simp_all add: harmless_intros)
  then show ?thesis unfolding twitch_handle_def by (intro harmless_intros safe_intros)
qed

lemma harmless_vote_rank [harmless_intros]: "harmless vote_rank_handle"
proof -
  have empty: "bindE (with_result_slice 3 (result_slice_new [] 0)) (\<lambda>t. liftE (task_to_response t)) = reply_results 3 []"
    by (simp add: reply_results_def with_results_def with_result_slice_def result_slice_new_def)
  have "harmless submit_rating" "harmless submit_categorized_rating" "harmless get_vote_history"
    unfolding submit_rating_def submit_categorized_rating_def get_vote_history_def empty
    by (intro harmless_intros safe_intros consuming_intros; simp)+
  then have "harmless (\<lambda>r. case t of SubmitRating \<Rightarrow> submit_rating r
      | SubmitCategorizedRating \<Rightarrow> submit_categorized_rating r | GetVoteHistory \<Rightarrow> get_vote_history r)" for t
    by (cases t) simp_all
  then show ?thesis unfolding vote_rank_handle_def by (intro harmless_intros safe_intros)
qed

lemma harmless_youtube [harmless_intros]: "harmless youtube_handle"
proof -
  have "harmless upload_video" "harmless (\<lambda>r. reply_results 2 [write_bool False])"
    unfolding upload_video_def by (intro harmless_intros safe_intros; simp add: writable_values)+
  then have "harmless (\<lambda>r. case t of StartAccountRegistration \<Rightarrow> reply_only YoutubeServiceError 1
      | IsRegistered \<Rightarrow> reply_results 2 [write_bool False] | Unregister \<Rightarrow> reply_only NoError 3
      | UploadVideo \<Rightarrow> upload_video r | GetUserToken \<Rightarrow> reply_only YoutubeServiceError 6)" for t
    by (cases t) (simp_all add: harmless_intros)
  then show ?thesis unfolding youtube_handle_def by (intro harmless_intros safe_intros)
qed

text \<open>
  The services without state can do no harm. Whatever message reaches the anti-cheat, dml,
  event log, key archive, league, performance, title utilities, Twitch, vote and Youtube
  handlers, with any contents, length and mode of the stream, the handler returns - the
  loops over lists of unknown length end - and either answers under the next transaction
  number or fails with an error that is no panic; it changes neither the session, nor what
  has been sent, nor anything that other connections see.
\<close>

theorem small_services_harmless:
  "harmless anti_cheat_handle \<and> harmless dml_handle \<and> harmless event_log_handle \<and> harmless key_archive_handle
    \<and> harmless league_handle \<and> harmless performance_handle \<and> harmless (title_utilities_handle env)
    \<and> harmless twitch_handle \<and> harmless vote_rank_handle \<and> harmless youtube_handle"
  by (intro conjI harmless_intros)

end
