(* ===== verification/Profile.thy ===== *)
theory Profile
  imports Service_Support Social_Store
begin

text \<open>
  The profile service: libbitdemon/src/lobby/profile reads requests for the profiles of users,
  dw-server/src/lobby/profile keeps a public and a private profile per user and title in a
  database. A statement whose error is unwrapped panics, and the database is used on after
  a panic (dw-server/src/db.rs). Whether the database takes the statement of \<open>delete_profile\<close>,
  which gives the table an alias without the keyword AS, is an argument.
\<close>

section \<open>The service\<close>

datatype ProfileType = PublicProfile | PrivateProfile

fun profile_type_to_u8 :: "ProfileType \<Rightarrow> u8" where
  "profile_type_to_u8 PrivateProfile = 0"
| "profile_type_to_u8 PublicProfile = 1"

record user_profile =
  up_id :: nat
  up_title :: u32
  up_owner_id :: u64
  up_profile_type :: u8
  up_created_at :: int
  up_modified_at :: int
  up_data :: bytes

type_synonym profile_db = "user_profile list"

datatype ProfileServiceError = ProfilePermissionDenied | NoProfileInfoFound

record ProfileInfo =
  pf_user_id :: u64
  pf_data :: bytes

definition own_profile :: "u32 \<Rightarrow> u64 \<Rightarrow> ProfileType \<Rightarrow> user_profile \<Rightarrow> bool" where
  "own_profile title user_id profile_type u \<longleftrightarrow>
    up_title u = title \<and> up_owner_id u = user_id \<and> up_profile_type u = profile_type_to_u8 profile_type"

text \<open>A query for one row: the first in the order of the table, or an error.\<close>

definition query_profile :: "u32 \<Rightarrow> u64 \<Rightarrow> ProfileType \<Rightarrow> profile_db \<Rightarrow> user_profile option" where
  "query_profile title user_id profile_type db =
    Option.bind (statement [user_id] (List.find (own_profile title user_id profile_type)) db) id"

definition get_public_profiles ::
  "BdSession \<Rightarrow> u64 list \<Rightarrow> (profile_db, bd_error, ProfileServiceError + ProfileInfo list) sm" where
  "get_public_profiles session user_ids = authenticated session (\<lambda>auth db.
    let res = List.map_filter (\<lambda>user_id.
          map_option (\<lambda>u. \<lparr>pf_user_id = user_id, pf_data = up_data u\<rparr>)
            (query_profile (title_to_u32 (a_title auth)) user_id PublicProfile db)) user_ids
    in (Inr (if res \<noteq> [] \<or> user_ids = [] then Inr res else Inl NoProfileInfoFound), db))"

definition get_private_profile :: "BdSession \<Rightarrow> (profile_db, bd_error, ProfileServiceError + ProfileInfo) sm" where
  "get_private_profile session = authenticated session (\<lambda>auth db.
    (Inr (case query_profile (title_to_u32 (a_title auth)) (a_user_id auth) PrivateProfile db of
       None \<Rightarrow> Inl NoProfileInfoFound
     | Some u \<Rightarrow> Inr \<lparr>pf_user_id = a_user_id auth, pf_data = up_data u\<rparr>), db))"

definition next_profile_id :: "profile_db \<Rightarrow> nat" where
  "next_profile_id db = Suc (fold max (map up_id db) 0)"

definition update_user_profile ::
  "int \<Rightarrow> SessionAuthentication \<Rightarrow> ProfileType \<Rightarrow> bytes \<Rightarrow> (profile_db, bd_error, unit) sm" where
  "update_user_profile now auth profile_type data = (\<lambda>db.
    let title_num = title_to_u32 (a_title auth); user_id = a_user_id auth
    in case query_profile title_num user_id profile_type db of
         Some existing \<Rightarrow>
           (Inr (), map (\<lambda>u. if up_id u = up_id existing then u\<lparr>up_modified_at := now, up_data := data\<rparr> else u) db)
       | None \<Rightarrow>
           (case statement [user_id] (\<lambda>db. db @ [\<lparr>up_id = next_profile_id db, up_title = title_num,
                up_owner_id = user_id, up_profile_type = profile_type_to_u8 profile_type,
                up_created_at = now, up_modified_at = now, up_data = data\<rparr>]) db of
              None \<Rightarrow> (Inl Panic, db)
            | Some db' \<Rightarrow> (Inr (), db')))"

definition set_profile ::
  "int \<Rightarrow> ProfileType \<Rightarrow> BdSession \<Rightarrow> bytes \<Rightarrow> (profile_db, bd_error, ProfileServiceError + unit) sm" where
  "set_profile now profile_type session data = authenticated session (\<lambda>auth.
    thenE (update_user_profile now auth profile_type data) (returnE (Inr ())))"

definition delete_profile :: "bool \<Rightarrow> BdSession \<Rightarrow> (profile_db, bd_error, ProfileServiceError + unit) sm" where
  "delete_profile alias_accepted session = authenticated session (\<lambda>auth db.
    case (if alias_accepted
          then statement [a_user_id auth] (filter (\<lambda>u. \<not> (up_title u = title_to_u32 (a_title auth)
                 \<and> up_owner_id u = a_user_id auth))) db
          else None) of
      None \<Rightarrow> (Inl Panic, db)
    | Some db' \<Rightarrow> (Inr (Inr ()), db'))"

section \<open>The handler\<close>

definition profile_info_serialize :: "ProfileInfo \<Rightarrow> wr" where
  "profile_info_serialize v = thenE (write_u64 (pf_user_id v)) (write_bytes (pf_data v))"

datatype ProfileTaskId = GetPublicInfos | GetPrivateInfo | SetPublicInfo | SetPrivateInfo | DeleteProfile

definition profile_task_from_u8 :: "u8 \<Rightarrow> ProfileTaskId option" where
  "profile_task_from_u8 v =
    (if v = 1 then Some GetPublicInfos else if v = 2 then Some GetPrivateInfo
     else if v = 3 then Some SetPublicInfo else if v = 4 then Some SetPrivateInfo
     else if v = 5 then Some DeleteProfile else None)"

definition profile_error_code :: "ProfileServiceError \<Rightarrow> BdErrorCode" where
  "profile_error_code e =
    (case e of ProfilePermissionDenied \<Rightarrow> PermissionDenied | NoProfileInfoFound \<Rightarrow> NoProfileInfoExists)"

definition get_public_infos :: "reader \<Rightarrow> (profile_db, BdResponse) act" where
  "get_public_infos r =
    bindE (run_rd (read_all (next_is UnsignedInteger64Type) read_u64) r) (\<lambda>(user_ids, _).
    bindE the_session (\<lambda>session.
    bindE (on_service (get_public_profiles session user_ids)) (\<lambda>result.
    case result of
      Inr profile_infos \<Rightarrow> reply_results 1 (map profile_info_serialize profile_infos)
    | Inl code \<Rightarrow> reply_only (profile_error_code code) 1)))"

definition get_private_infos :: "reader \<Rightarrow> (profile_db, BdResponse) act" where
  "get_private_infos r =
    bindE the_session (\<lambda>session.
    bindE (on_service (get_private_profile session)) (\<lambda>result.
    case result of
      Inr profile_info \<Rightarrow> reply_results 1 [profile_info_serialize profile_info]
    | Inl code \<Rightarrow> reply_only (profile_error_code code) 1))"

definition set_profile_info :: "int \<Rightarrow> ProfileType \<Rightarrow> u8 \<Rightarrow> reader \<Rightarrow> (profile_db, BdResponse) act" where
  "set_profile_info now profile_type task_id r =
    bindE (run_rd (bindE remaining_bytes read_bytes) r) (\<lambda>(profile_data, _).
    bindE the_session (\<lambda>session.
    bindE (on_service (set_profile now profile_type session profile_data)) (\<lambda>result.
    case result of
      Inr _ \<Rightarrow> reply_only NoError task_id
    | Inl code \<Rightarrow> reply_only (profile_error_code code) task_id)))"

definition delete_profile_info :: "bool \<Rightarrow> reader \<Rightarrow> (profile_db, BdResponse) act" where
  "delete_profile_info alias_accepted r =
    bindE the_session (\<lambda>session.
    bindE (on_service (delete_profile alias_accepted session)) (\<lambda>result.
    case result of
      Inr _ \<Rightarrow> reply_only NoError 5
    | Inl code \<Rightarrow> reply_only (profile_error_code code) 5))"

definition profile_handle :: "bool \<Rightarrow> env \<Rightarrow> reader \<Rightarrow> (profile_db, BdResponse) act" where
  "profile_handle alias_accepted env r =
    bindE (run_rd read_u8 r) (\<lambda>(task_id_value, r1).
    case profile_task_from_u8 task_id_value of
      None \<Rightarrow> reply_only NoError task_id_value
    | Some task \<Rightarrow> (case task of
        GetPublicInfos \<Rightarrow> get_public_infos r1
      | GetPrivateInfo \<Rightarrow> get_private_infos r1
      | SetPublicInfo \<Rightarrow> set_profile_info (e_now env) PublicProfile 3 r1
      | SetPrivateInfo \<Rightarrow> set_profile_info (e_now env) PrivateProfile 4 r1
      | DeleteProfile \<Rightarrow> delete_profile_info alias_accepted r1))"

section \<open>What the table stands for\<close>

definition profile_key :: "user_profile \<Rightarrow> u32 \<times> u64 \<times> u8" where
  "profile_key u = (up_title u, up_owner_id u, up_profile_type u)"

definition profiles_ok :: "profile_db \<Rightarrow> bool" where
  "profiles_ok db \<longleftrightarrow> distinct (map up_id db) \<and> distinct (map profile_key db)
    \<and> (\<forall>u \<in> set db. sql_fits (up_owner_id u))"

text \<open>The data of a user for a title, if there is any.\<close>

definition profile_of :: "profile_db \<Rightarrow> u32 \<Rightarrow> u64 \<Rightarrow> ProfileType \<Rightarrow> bytes option" where
  "profile_of db title user_id profile_type = map_option up_data (query_profile title user_id profile_type db)"

lemma profile_type_to_u8_inject [simp]: "profile_type_to_u8 p = profile_type_to_u8 q \<longleftrightarrow> p = q"
  by (cases p; cases q) simp_all

lemma own_profile_key: "own_profile t i p u \<longleftrightarrow> profile_key u = (t, i, profile_type_to_u8 p)"
  by (auto simp: own_profile_def profile_key_def)

lemma query_profile_fits: "sql_fits i \<Longrightarrow> query_profile t i p db = List.find (own_profile t i p) db"
  by (simp add: query_profile_def statement_def)

lemma query_profile_unfit: "\<not> sql_fits i \<Longrightarrow> query_profile t i p db = None"
  by (simp add: query_profile_def statement_def)

lemma next_profile_id_fresh: "u \<in> set db \<Longrightarrow> up_id u < next_profile_id db"
  unfolding next_profile_id_def by (metis fold_max_upper imageI less_Suc_eq_le list.set_map)

lemma find_distinct:
  assumes "distinct (map k xs)" "x \<in> set xs" "\<And>y. P y \<longleftrightarrow> k y = k x"
  shows "List.find P xs = Some x"
  using assms by (induction xs) (auto simp: image_iff)

lemma profile_of_row:
  assumes "profiles_ok db" "u \<in> set db" "profile_key u = (t, i, profile_type_to_u8 p)"
  shows "profile_of db t i p = Some (up_data u)"
proof -
  have "sql_fits i" using assms by (auto simp: profiles_ok_def profile_key_def)
  moreover have "List.find (own_profile t i p) db = Some u"
    using assms by (intro find_distinct [of profile_key]) (auto simp: profiles_ok_def own_profile_key)
  ultimately show ?thesis by (simp add: profile_of_def query_profile_fits)
qed

lemma profile_of_none:
  assumes "\<And>u. u \<in> set db \<Longrightarrow> profile_key u \<noteq> (t, i, profile_type_to_u8 p)"
  shows "profile_of db t i p = None"
proof (cases "sql_fits i")
  case True
  moreover have "List.find (own_profile t i p) db = None"
    using assms by (auto simp: find_None_iff own_profile_key)
  ultimately show ?thesis by (simp add: profile_of_def query_profile_fits)
qed (simp add: profile_of_def query_profile_unfit)

text \<open>The table is determined by its rows: two good tables with the same keys and data agree.\<close>

lemma profile_of_iff:
  assumes "profiles_ok db"
  shows "profile_of db t i p = Some d \<longleftrightarrow>
    (\<exists>u \<in> set db. profile_key u = (t, i, profile_type_to_u8 p) \<and> up_data u = d)"
  using profile_of_row [OF assms] profile_of_none [of db t i p] by (metis option.distinct(1) option.inject)

lemma option_agree: "(\<And>d. x = Some d \<longleftrightarrow> y = Some d) \<Longrightarrow> x = y"
  by (cases x; cases y) auto

lemma update_profile_map:
  assumes ok: "profiles_ok db" and fits: "sql_fits (a_user_id auth)"
  obtains db' where "update_user_profile now auth ty data db = (Inr (), db')" "profiles_ok db'"
    "\<And>t i p. profile_of db' t i p
      = (if t = title_to_u32 (a_title auth) \<and> i = a_user_id auth \<and> p = ty then Some data else profile_of db t i p)"
proof -
  let ?t = "title_to_u32 (a_title auth)" and ?i = "a_user_id auth"
  show thesis
  proof (cases "List.find (own_profile ?t ?i ty) db")
    case (Some e)
    let ?f = "\<lambda>u. if up_id u = up_id e then u\<lparr>up_modified_at := now, up_data := data\<rparr> else u"
    have e: "e \<in> set db" "profile_key e = (?t, ?i, profile_type_to_u8 ty)"
      using Some by (auto simp: find_Some_iff own_profile_key in_set_conv_nth)
    have same: "u = e" if "u \<in> set db" "up_id u = up_id e" for u
      using that e(1) ok by (metis profiles_ok_def distinct_map inj_on_def)
    have keys: "map up_id (map ?f db) = map up_id db" "map profile_key (map ?f db) = map profile_key db"
      by (auto simp: profile_key_def)
    have ok': "profiles_ok (map ?f db)"
      using ok unfolding profiles_ok_def keys by (auto simp: profile_key_def)
    have "profile_of (map ?f db) t i p = (if t = ?t \<and> i = ?i \<and> p = ty then Some data else profile_of db t i p)" for t i p
    proof (cases "t = ?t \<and> i = ?i \<and> p = ty")
      case True
      then have "\<exists>u \<in> set (map ?f db). profile_key u = (t, i, profile_type_to_u8 p) \<and> up_data u = data"
        using e by (intro bexI [of _ "?f e"]) (auto simp: profile_key_def)
      then show ?thesis using True profile_of_iff [OF ok'] by simp
    next
      case False
      then have fixed: "up_data (?f u) = up_data u" if "u \<in> set db" "profile_key u = (t, i, profile_type_to_u8 p)" for u
        using that same [of u] e(2) by auto
      have key: "profile_key (?f u) = profile_key u" for u by (simp add: profile_key_def)
      have each: "profile_key (?f u) = (t, i, profile_type_to_u8 p) \<and> up_data (?f u) = d
          \<longleftrightarrow> profile_key u = (t, i, profile_type_to_u8 p) \<and> up_data u = d" if "u \<in> set db" for u d
        unfolding key using fixed [OF that] by (cases "profile_key u = (t, i, profile_type_to_u8 p)") simp_all
      have "(\<exists>u \<in> set (map ?f db). profile_key u = (t, i, profile_type_to_u8 p) \<and> up_data u = d)
          \<longleftrightarrow> (\<exists>u \<in> set db. profile_key u = (t, i, profile_type_to_u8 p) \<and> up_data u = d)" for d
        unfolding set_map bex_simps(7) by (rule bex_cong [OF refl each])
      then have "profile_of (map ?f db) t i p = Some d \<longleftrightarrow> profile_of db t i p = Some d" for d
        unfolding profile_of_iff [OF ok'] profile_of_iff [OF ok] .
      then have "profile_of (map ?f db) t i p = profile_of db t i p" by (rule option_agree)
      then show ?thesis using False by auto
    qed
    with ok' show thesis
      by (intro that [of "map ?f db"]) (simp_all add: update_user_profile_def query_profile_fits [OF fits] Some)
  next
    case None
    let ?new = "\<lparr>up_id = next_profile_id db, up_title = ?t, up_owner_id = ?i,
      up_profile_type = profile_type_to_u8 ty, up_created_at = now, up_modified_at = now, up_data = data\<rparr>"
    have fresh: "profile_key u \<noteq> profile_key ?new" if "u \<in> set db" for u
      using None that by (auto simp: find_None_iff own_profile_key profile_key_def)
    have ok': "profiles_ok (db @ [?new])"
      using ok fits fresh next_profile_id_fresh [of _ db] by (fastforce simp: profiles_ok_def image_iff)
    have "profile_of (db @ [?new]) t i p = (if t = ?t \<and> i = ?i \<and> p = ty then Some data else profile_of db t i p)" for t i p
    proof -
      have "profile_of (db @ [?new]) t i p = Some d \<longleftrightarrow>
          (if t = ?t \<and> i = ?i \<and> p = ty then d = data else profile_of db t i p = Some d)" for d
        unfolding profile_of_iff [OF ok'] profile_of_iff [OF ok] using fresh by (auto simp: profile_key_def)
      then show ?thesis by (intro option_agree) auto
    qed
    with ok' show thesis
      by (intro that [of "db @ [?new]"])
        (simp_all add: update_user_profile_def query_profile_fits [OF fits] None statement_def fits)
  qed
qed

text \<open>A database that took the alias would delete the profiles of the user for the title.\<close>

lemma delete_profile_map:
  assumes ok: "profiles_ok db" and auth: "s_authentication session = Some auth" and fits: "sql_fits (a_user_id auth)"
  obtains db' where "delete_profile True session db = (Inr (Inr ()), db')" "profiles_ok db'"
    "\<And>t i p. profile_of db' t i p
      = (if t = title_to_u32 (a_title auth) \<and> i = a_user_id auth then None else profile_of db t i p)"
proof -
  let ?keep = "\<lambda>u. \<not> (up_title u = title_to_u32 (a_title auth) \<and> up_owner_id u = a_user_id auth)"
  have ok': "profiles_ok (filter ?keep db)"
    using ok by (auto simp: profiles_ok_def distinct_map_filter)
  have "profile_of (filter ?keep db) t i p = Some d \<longleftrightarrow>
      \<not> (t = title_to_u32 (a_title auth) \<and> i = a_user_id auth) \<and> profile_of db t i p = Some d" for t i p d
    unfolding profile_of_iff [OF ok'] profile_of_iff [OF ok] by (auto simp: profile_key_def)
  then have "profile_of (filter ?keep db) t i p
      = (if t = title_to_u32 (a_title auth) \<and> i = a_user_id auth then None else profile_of db t i p)" for t i p
    by (intro option_agree) auto
  with ok' show thesis
    by (intro that [of "filter ?keep db"]) (simp_all add: delete_profile_def authenticated_def auth statement_def fits)
qed

section \<open>Properties\<close>

text \<open>
  C33. The profile table is a map. When a user whose id fits the database sets its public or
  private profile, the data kept for a title, a user and a kind of profile changes exactly
  for the title and user of the session and that kind, and no row is ever doubled. The public
  profiles of a list of users are exactly those kept for the title of the session, in the order
  of the list, or the error that there are none; a user's private profile is the one kept for it.
  Deleting the profiles, whose statement gives the table an alias without AS, which SQLite
  refuses, panics and deletes nothing.
\<close>

theorem profiles_refine_map:
  assumes "profiles_ok db" "s_authentication session = Some auth" "sql_fits (a_user_id auth)"
  shows "\<exists>stored. set_profile now ty session data db = (Inr (Inr ()), stored) \<and> profiles_ok stored
    \<and> profile_of stored = (\<lambda>t i p. if t = title_to_u32 (a_title auth) \<and> i = a_user_id auth \<and> p = ty
        then Some data else profile_of db t i p)
    \<and> get_public_profiles session users db = (Inr (
        let found = filter (\<lambda>u. profile_of db (title_to_u32 (a_title auth)) u PublicProfile \<noteq> None) users
        in if found = [] \<and> users \<noteq> [] then Inl NoProfileInfoFound
           else Inr (map (\<lambda>u. \<lparr>pf_user_id = u,
             pf_data = the (profile_of db (title_to_u32 (a_title auth)) u PublicProfile)\<rparr>) found)), db)
    \<and> get_private_profile session db
        = (Inr (case profile_of db (title_to_u32 (a_title auth)) (a_user_id auth) PrivateProfile of
            None \<Rightarrow> Inl NoProfileInfoFound | Some d \<Rightarrow> Inr \<lparr>pf_user_id = a_user_id auth, pf_data = d\<rparr>), db)
    \<and> delete_profile False session db = (Inl Panic, db)"
proof -
  obtain stored where "set_profile now ty session data db = (Inr (Inr ()), stored)" "profiles_ok stored"
    "profile_of stored = (\<lambda>t i p. if t = title_to_u32 (a_title auth) \<and> i = a_user_id auth \<and> p = ty
        then Some data else profile_of db t i p)"
    using update_profile_map [OF assms(1,3), of now ty data]
    by (force simp: set_profile_def authenticated_def assms(2) thenE_ok monad_simps fun_eq_iff)
  moreover have "List.map_filter (\<lambda>u. map_option (\<lambda>r. \<lparr>pf_user_id = u, pf_data = up_data r\<rparr>)
        (query_profile t u PublicProfile db)) users
      = map (\<lambda>u. \<lparr>pf_user_id = u, pf_data = the (profile_of db t u PublicProfile)\<rparr>)
          (filter (\<lambda>u. profile_of db t u PublicProfile \<noteq> None) users)" for t
    by (induction users) (auto simp: List.map_filter_simps profile_of_def split: option.split)
  then have "get_public_profiles session users db = (Inr (
        let found = filter (\<lambda>u. profile_of db (title_to_u32 (a_title auth)) u PublicProfile \<noteq> None) users
        in if found = [] \<and> users \<noteq> [] then Inl NoProfileInfoFound
           else Inr (map (\<lambda>u. \<lparr>pf_user_id = u,
             pf_data = the (profile_of db (title_to_u32 (a_title auth)) u PublicProfile)\<rparr>) found)), db)"
    by (auto simp: get_public_profiles_def authenticated_def assms(2) Let_def)
  moreover have "get_private_profile session db
        = (Inr (case profile_of db (title_to_u32 (a_title auth)) (a_user_id auth) PrivateProfile of
            None \<Rightarrow> Inl NoProfileInfoFound | Some d \<Rightarrow> Inr \<lparr>pf_user_id = a_user_id auth, pf_data = d\<rparr>), db)"
    by (simp add: get_private_profile_def authenticated_def assms(2) profile_of_def split: option.split)
  moreover have "delete_profile False session db = (Inl Panic, db)"
    by (simp add: delete_profile_def authenticated_def assms(2))
  ultimately show ?thesis by blast
qed

definition profile_session :: BdSession where
  "profile_session = \<lparr>s_id = 4, s_authentication = Some \<lparr>a_user_id = 7, a_username = [0x61],
     a_session_key = [], a_title = Iw4\<rparr>\<rparr>"

theorem profiles_refine_map_witness:
  "\<exists>db. set_profile 1000 PublicProfile profile_session [1, 2] [] = (Inr (Inr ()), db)
    \<and> get_public_profiles profile_session [8, 7] db = (Inr (Inr [\<lparr>pf_user_id = 7, pf_data = [1, 2]\<rparr>]), db)"
proof -
  have auth: "s_authentication profile_session = Some \<lparr>a_user_id = 7, a_username = [0x61],
      a_session_key = [], a_title = Iw4\<rparr>" by (simp add: profile_session_def)
  have fits: "sql_fits (a_user_id \<lparr>a_user_id = 7, a_username = [0x61], a_session_key = [], a_title = Iw4\<rparr>)"
    by (simp add: sql_fits_def)
  have empty: "profiles_ok []" "profile_of [] = (\<lambda>t i p. None)"
    by (simp add: profiles_ok_def) (intro ext profile_of_none, simp)
  have none: "profile_of [] t i p = None" for t i p by (rule profile_of_none) simp
  obtain db where db: "set_profile 1000 PublicProfile profile_session [1, 2] [] = (Inr (Inr ()), db)" "profiles_ok db"
    "profile_of db = (\<lambda>t i p. if t = 2010 \<and> i = 7 \<and> p = PublicProfile then Some [1, 2] else None)"
    using profiles_refine_map [OF empty(1) auth fits, of 1000 PublicProfile "[1, 2]" "[]"] by (auto simp: none cong: if_cong)
  then show ?thesis
    using profiles_refine_map [OF db(2) auth fits, of 1000 PublicProfile "[]" "[8, 7]"] by (auto simp: db(3) Let_def)
qed

text \<open>But no client can set a profile: the handler asks for the number of bytes left, which the
  reader only tells in byte mode, and the framing of the handler is that of a bit stream.\<close>

theorem profiles_cannot_be_set:
  assumes "ready BitMode True r" "rbits r = enc_u8 task @ rest" "task = 3 \<or> task = 4"
  shows "profile_handle alias_accepted env r conn = (Inl (ModeError ByteMode BitMode), conn)"
proof -
  obtain r1 where 1: "read_u8 r = (Inr task, r1)" "ready BitMode True r1"
    using reads_ready [OF reads_u8 assms(1,2)] .
  have "bindE remaining_bytes read_bytes r1 = (Inl (ModeError ByteMode BitMode), r1)"
    using readyD [OF 1(2)] by (simp add: bindE_def remaining_bytes_def)
  then show ?thesis using assms(3) 1(1)
    by (auto simp: profile_handle_def bind_run_rd profile_task_from_u8_def set_profile_info_def bind_run_rd_err)
qed

end
