(* ===== verification/Handler_Logic.thy ===== *)
theory Handler_Logic
  imports Service_Support
begin

text \<open>
  Two logics for the handlers of services. \<open>confined\<close> says that a handler keeps an
  invariant of the world whatever message arrives, and never panics when its flag is set; \<open>alike\<close> compares two runs, and says that
  worlds that a relation cannot tell apart get the same answer and stay so. Both have a
  rule for each way in which handlers are put together. The replies with one result and their
  client are here too.
\<close>

section \<open>Keeping an invariant\<close>

definition keeps :: "bool \<Rightarrow> ('s \<Rightarrow> bool) \<Rightarrow> ('s, bd_error, 'a) sm \<Rightarrow> bool" where
  "keeps b I m \<longleftrightarrow> (\<forall>s. I s \<longrightarrow> (b \<longrightarrow> fst (m s) \<noteq> Inl Panic) \<and> I (snd (m s)))"

definition confined :: "bool \<Rightarrow> BdSession \<Rightarrow> ('w \<Rightarrow> bool) \<Rightarrow> ('w, 'a) act \<Rightarrow> bool" where
  "confined b session I m \<longleftrightarrow> (\<forall>conn. c_session conn = session \<and> c_transaction conn < 2 ^ 64 - 1 \<and> I (c_world conn)
     \<longrightarrow> (b \<longrightarrow> fst (m conn) \<noteq> Inl Panic) \<and> I (c_world (snd (m conn))))"

named_theorems confined_intros \<open>handlers that keep an invariant\<close>

lemma confinedI:
  assumes "\<And>conn. \<lbrakk>c_session conn = session; c_transaction conn < 2 ^ 64 - 1; I (c_world conn)\<rbrakk>
    \<Longrightarrow> (b \<longrightarrow> fst (m conn) \<noteq> Inl Panic) \<and> I (c_world (snd (m conn)))"
  shows "confined b session I m"
  using assms by (simp add: confined_def)

lemma confinedD:
  assumes "confined b session I m" "c_session conn = session" "c_transaction conn < 2 ^ 64 - 1" "I (c_world conn)"
  shows "b \<Longrightarrow> fst (m conn) \<noteq> Inl Panic" "I (c_world (snd (m conn)))"
  using assms by (simp_all add: confined_def)

lemma confined_read [confined_intros]:
  fixes f :: "'v \<Rightarrow> reader \<Rightarrow> ('a, 'b) act"
  assumes "safe m" "reader_inv r" "\<And>v r1. reader_inv r1 \<Longrightarrow> confined b session I (f v r1)"
  shows "confined b session I (bindE (run_rd m r) (\<lambda>(v, r1). f v r1))"
proof (rule confinedI)
  fix conn :: "'a conn" assume conn: "c_session conn = session" "c_transaction conn < 2 ^ 64 - 1" "I (c_world conn)"
  obtain x r1 where m: "m r = (x, r1)" by fastforce
  have s: "x \<noteq> Inl Panic" "reader_inv r1" using safeD [OF assms(1,2)] m by simp_all
  show "(b \<longrightarrow> fst (bindE (run_rd m r) (\<lambda>(v, r1). f v r1) conn) \<noteq> Inl Panic)
      \<and> I (c_world (snd (bindE (run_rd m r) (\<lambda>(v, r1). f v r1) conn)))"
    using m s conn confinedD [OF assms(3) [OF s(2)] conn] by (cases x) (simp_all add: bindE_def run_rd_def)
qed

lemma confined_session [confined_intros]:
  "confined b session I (f session) \<Longrightarrow> confined b session I (bindE the_session f)"
  by (simp add: confined_def bind_the_session)

lemma confined_service [confined_intros]:
  fixes f :: "'v \<Rightarrow> ('a, 'b) act"
  assumes "keeps b I m" "\<And>x. confined b session I (f x)"
  shows "confined b session I (bindE (on_service m) f)"
proof (rule confinedI)
  fix conn :: "'a conn" assume conn: "c_session conn = session" "c_transaction conn < 2 ^ 64 - 1" "I (c_world conn)"
  obtain x s where m: "m (c_world conn) = (x, s)" by fastforce
  then have s: "b \<Longrightarrow> x \<noteq> Inl Panic" "I s" using assms(1) conn(3) by (force simp: keeps_def)+
  show "(b \<longrightarrow> fst (bindE (on_service m) f conn) \<noteq> Inl Panic) \<and> I (c_world (snd (bindE (on_service m) f conn)))"
  proof (cases x)
    case (Inl e)
    then show ?thesis using s by (simp add: bind_on_service_err [of m, OF m [unfolded Inl]])
  next
    case (Inr v)
    then show ?thesis
      using confinedD [OF assms(2), of "conn\<lparr>c_world := s\<rparr>" v] conn s(2)
      by (simp add: bind_on_service [of m, OF m [unfolded Inr]])
  qed
qed

lemma confined_return_bind [confined_intros]:
  "confined b session I (f x) \<Longrightarrow> confined b session I (bindE (returnE x) f)"
  by (simp add: confined_def bindE_def monad_simps)

lemma confined_case_sum [confined_intros]:
  assumes "\<And>x. confined b session I (f x)" "\<And>y. confined b session I (g y)"
  shows "confined b session I (case s of Inl x \<Rightarrow> f x | Inr y \<Rightarrow> g y)"
  using assms by (cases s) simp_all

lemma confined_reply_only [confined_intros]: "confined b session I (reply_only code op)"
proof (rule confinedI)
  fix conn :: "'a conn" assume "c_transaction conn < 2 ^ 64 - 1" "I (c_world conn)"
  moreover obtain data where "reply_only code op conn
      = (Inr (encrypted_if_available data), conn\<lparr>c_transaction := c_transaction conn + 1\<rparr>)"
    using reply_only_ok calculation(1) by blast
  ultimately show "(b \<longrightarrow> fst (reply_only code op conn) \<noteq> Inl Panic) \<and> I (c_world (snd (reply_only code op conn)))" by simp
qed

lemma confined_reply_results [confined_intros]:
  assumes "\<And>w. w \<in> set ws \<Longrightarrow> writable_result w"
  shows "confined b session I (reply_results op ws)"
proof (rule confinedI)
  fix conn :: "'a conn" assume "c_transaction conn < 2 ^ 64 - 1" "I (c_world conn)"
  moreover obtain data where "reply_results op ws conn
      = (Inr (encrypted_if_available data), conn\<lparr>c_transaction := c_transaction conn + 1\<rparr>)"
    using reply_results_sent calculation(1) assms by blast
  ultimately show "(b \<longrightarrow> fst (reply_results op ws conn) \<noteq> Inl Panic) \<and> I (c_world (snd (reply_results op ws conn)))" by simp
qed

definition reply_single :: "u8 \<Rightarrow> wr \<Rightarrow> ('w, BdResponse) act" where
  "reply_single op result = bindE (with_single_result op result) (\<lambda>t. liftE (task_to_response t))"

text \<open>Without the flag, a reply may also fail.\<close>

lemma snd_lift_bind: "snd (bindE m (\<lambda>t. liftE (h t)) conn) = snd (m conn)"
  by (auto simp: bindE_def liftE_def split: prod.split sum.split)

lemma next_transaction_world: "c_world (snd (next_transaction_id conn)) = c_world conn"
  by (simp add: next_transaction_id_def split: sum.split)

lemma confined_any_reply [confined_intros]:
  "confined False session I (reply_results op ws)" "confined False session I (reply_single op w)"
proof -
  have world: "c_world (snd (bindE next_transaction_id (\<lambda>i. returnE (t i)) conn)) = c_world conn" for t and conn :: "'a conn"
    using next_transaction_world [of conn] by (auto simp: bindE_def monad_simps split: prod.split sum.split)
  show "confined False session I (reply_results op ws)" "confined False session I (reply_single op w)"
    by (simp_all add: confined_def reply_results_def reply_single_def snd_lift_bind with_results_def
        with_single_result_def world)
qed

text \<open>From the handler to the requests.\<close>

lemma answer_confined:
  assumes "confined b session I (handle r)" "tid < 2 ^ 64 - 1" "I w"
  obtains x w' where "answer handle (session, tid, r) w = (x, w')" "b \<Longrightarrow> x \<noteq> Inl Panic" "I w'"
proof -
  let ?conn = "\<lparr>c_session = session, c_sent = [], c_transaction = tid, c_world = w\<rparr> :: 'a conn"
  obtain x conn' where run: "handle r ?conn = (x, conn')" by fastforce
  have "b \<Longrightarrow> x \<noteq> Inl Panic" "I (c_world conn')"
    using confinedD [OF assms(1), of ?conn] assms(2,3) run by simp_all
  then show thesis using that run by (simp add: answer_def)
qed

lemma answer_safe:
  assumes "confined True session I (handle r)" "tid < 2 ^ 64 - 1" "I w"
  obtains x w' where "answer handle (session, tid, r) w = (x, w')" "x \<noteq> Inl Panic" "I w'"
  using answer_confined [where handle = handle, OF assms] by blast

section \<open>Two runs\<close>

definition alike :: "BdSession \<Rightarrow> ('w \<Rightarrow> 'w \<Rightarrow> bool) \<Rightarrow> ('w, 'a) act \<Rightarrow> bool" where
  "alike session A m \<longleftrightarrow> (\<forall>conn w1 w2. c_session conn = session \<and> A w1 w2 \<longrightarrow>
     (\<exists>x conn' w1' w2'. m (conn\<lparr>c_world := w1\<rparr>) = (x, conn'\<lparr>c_world := w1'\<rparr>)
        \<and> m (conn\<lparr>c_world := w2\<rparr>) = (x, conn'\<lparr>c_world := w2'\<rparr>) \<and> c_session conn' = session \<and> A w1' w2'))"

definition alike_service :: "('s \<Rightarrow> 's \<Rightarrow> bool) \<Rightarrow> ('s, bd_error, 'a) sm \<Rightarrow> bool" where
  "alike_service A m \<longleftrightarrow> (\<forall>s1 s2. A s1 s2 \<longrightarrow> fst (m s1) = fst (m s2) \<and> A (snd (m s1)) (snd (m s2)))"

named_theorems alike_intros \<open>handlers that a relation cannot tell apart\<close>

lemma alikeI:
  assumes "\<And>conn w1 w2. c_session conn = session \<Longrightarrow> A w1 w2 \<Longrightarrow>
     \<exists>x conn' w1' w2'. m (conn\<lparr>c_world := w1\<rparr>) = (x, conn'\<lparr>c_world := w1'\<rparr>)
        \<and> m (conn\<lparr>c_world := w2\<rparr>) = (x, conn'\<lparr>c_world := w2'\<rparr>) \<and> c_session conn' = session \<and> A w1' w2'"
  shows "alike session A m"
  using assms by (simp add: alike_def)

lemma alikeE:
  assumes "alike session A m" "c_session conn = session" "A w1 w2"
  obtains x conn' w1' w2' where "m (conn\<lparr>c_world := w1\<rparr>) = (x, conn'\<lparr>c_world := w1'\<rparr>)"
    "m (conn\<lparr>c_world := w2\<rparr>) = (x, conn'\<lparr>c_world := w2'\<rparr>)" "c_session conn' = session" "A w1' w2'"
  using assms unfolding alike_def by blast

lemma alike_pure:
  assumes "\<And>conn. m conn = (x, conn)"
  shows "alike session A m"
  unfolding alike_def assms by blast

lemma alike_return [alike_intros]: "alike session A (returnE x)"
  by (rule alike_pure) (simp add: monad_simps)

lemma alike_throw [alike_intros]: "alike session A (throwE e)"
  by (rule alike_pure) (simp add: monad_simps)

lemma alike_lift [alike_intros]: "alike session A (liftE x)"
  by (rule alike_pure [where x = x]) (simp add: liftE_def)

lemma alike_run_rd [alike_intros]: "alike session A (run_rd m r)"
  by (rule alike_pure [where x = "case m r of (Inl e, _) \<Rightarrow> Inl e | (Inr v, r') \<Rightarrow> Inr (v, r')"])
    (simp add: run_rd_def split: prod.split sum.split)

lemma alike_on_service [alike_intros]:
  assumes "alike_service A m"
  shows "alike session A (on_service m)"
proof (rule alikeI)
  fix conn :: "'a conn" and w1 w2 assume conn: "c_session conn = session" "A w1 w2"
  obtain x s1 s2 where "m w1 = (x, s1)" "m w2 = (x, s2)" "A s1 s2"
    using assms conn(2) unfolding alike_service_def by (metis prod.collapse)
  then show "\<exists>x conn' w1' w2'. on_service m (conn\<lparr>c_world := w1\<rparr>) = (x, conn'\<lparr>c_world := w1'\<rparr>)
      \<and> on_service m (conn\<lparr>c_world := w2\<rparr>) = (x, conn'\<lparr>c_world := w2'\<rparr>) \<and> c_session conn' = session \<and> A w1' w2'"
    using conn(1) by (intro exI [of _ x] exI [of _ conn] exI [of _ s1] exI [of _ s2]) (simp add: on_service_def)
qed

lemma alike_next_transaction [alike_intros]: "alike session A next_transaction_id"
proof (rule alikeI)
  fix conn :: "'a conn" and w1 w2 assume conn: "c_session conn = session" "A w1 w2"
  show "\<exists>x conn' w1' w2'. next_transaction_id (conn\<lparr>c_world := w1\<rparr>) = (x, conn'\<lparr>c_world := w1'\<rparr>)
      \<and> next_transaction_id (conn\<lparr>c_world := w2\<rparr>) = (x, conn'\<lparr>c_world := w2'\<rparr>) \<and> c_session conn' = session \<and> A w1' w2'"
  proof (cases "checked_add (c_transaction conn) 1")
    case (Inl e)
    then show ?thesis using conn by (auto simp: next_transaction_id_def)
  next
    case (Inr n)
    then show ?thesis using conn
      by (intro exI [of _ "Inr (c_transaction conn)"] exI [of _ "conn\<lparr>c_transaction := n\<rparr>"] exI [of _ w1] exI [of _ w2])
        (simp add: next_transaction_id_def)
  qed
qed

lemma alike_bind [alike_intros]:
  assumes "alike session A m" "\<And>x. alike session A (f x)"
  shows "alike session A (bindE m f)"
proof (rule alikeI)
  fix conn :: "'a conn" and w1 w2 assume "c_session conn = session" "A w1 w2"
  then obtain x conn' w1' w2' where m: "m (conn\<lparr>c_world := w1\<rparr>) = (x, conn'\<lparr>c_world := w1'\<rparr>)"
    "m (conn\<lparr>c_world := w2\<rparr>) = (x, conn'\<lparr>c_world := w2'\<rparr>)" "c_session conn' = session" "A w1' w2'"
    by (rule alikeE [OF assms(1)])
  show "\<exists>x conn' w1' w2'. bindE m f (conn\<lparr>c_world := w1\<rparr>) = (x, conn'\<lparr>c_world := w1'\<rparr>)
      \<and> bindE m f (conn\<lparr>c_world := w2\<rparr>) = (x, conn'\<lparr>c_world := w2'\<rparr>) \<and> c_session conn' = session \<and> A w1' w2'"
  proof (cases x)
    case (Inl e)
    then have "bindE m f (conn\<lparr>c_world := w1\<rparr>) = (Inl e, conn'\<lparr>c_world := w1'\<rparr>)"
      "bindE m f (conn\<lparr>c_world := w2\<rparr>) = (Inl e, conn'\<lparr>c_world := w2'\<rparr>)" using m by (simp_all add: bindE_def)
    then show ?thesis using m(3,4) by blast
  next
    case (Inr v)
    then have "bindE m f (conn\<lparr>c_world := w1\<rparr>) = f v (conn'\<lparr>c_world := w1'\<rparr>)"
      "bindE m f (conn\<lparr>c_world := w2\<rparr>) = f v (conn'\<lparr>c_world := w2'\<rparr>)" using m by (simp_all add: bindE_def)
    moreover obtain y c u1 u2 where "f v (conn'\<lparr>c_world := w1'\<rparr>) = (y, c\<lparr>c_world := u1\<rparr>)"
      "f v (conn'\<lparr>c_world := w2'\<rparr>) = (y, c\<lparr>c_world := u2\<rparr>)" "c_session c = session" "A u1 u2"
      by (rule alikeE [OF assms(2) m(3,4)])
    ultimately show ?thesis by metis
  qed
qed

lemma alike_split [alike_intros]: "(\<And>a b. alike session A (f a b)) \<Longrightarrow> alike session A (case p of (a, b) \<Rightarrow> f a b)"
  by (cases p) simp

lemma alike_case_sum [alike_intros]:
  assumes "\<And>x. alike session A (f x)" "\<And>y. alike session A (g y)"
  shows "alike session A (case s of Inl x \<Rightarrow> f x | Inr y \<Rightarrow> g y)"
  using assms by (cases s) simp_all

lemma alike_session_bind:
  assumes "alike session A (f session)"
  shows "alike session A (bindE the_session f)"
proof (rule alikeI)
  fix conn :: "'a conn" and w1 w2 assume conn: "c_session conn = session" "A w1 w2"
  obtain x conn' w1' w2' where "f session (conn\<lparr>c_world := w1\<rparr>) = (x, conn'\<lparr>c_world := w1'\<rparr>)"
    "f session (conn\<lparr>c_world := w2\<rparr>) = (x, conn'\<lparr>c_world := w2'\<rparr>)" "c_session conn' = session" "A w1' w2'"
    by (rule alikeE [OF assms conn])
  moreover have "bindE the_session f (conn\<lparr>c_world := w\<rparr>) = f session (conn\<lparr>c_world := w\<rparr>)" for w
    using conn(1) by (simp add: bind_the_session)
  ultimately show "\<exists>x conn' w1' w2'. bindE the_session f (conn\<lparr>c_world := w1\<rparr>) = (x, conn'\<lparr>c_world := w1'\<rparr>)
      \<and> bindE the_session f (conn\<lparr>c_world := w2\<rparr>) = (x, conn'\<lparr>c_world := w2'\<rparr>) \<and> c_session conn' = session \<and> A w1' w2'"
    by metis
qed

lemma alike_replies [alike_intros]:
  "alike session A (reply_only code op)" "alike session A (reply_results op ws)"
  unfolding reply_only_def reply_results_def with_only_error_code_def with_results_def by (intro alike_intros)+

lemma answer_alike:
  assumes "alike session A (handle r)" "A w1 w2"
  obtains x w1' w2' where "answer handle (session, tid, r) w1 = (x, w1')"
    "answer handle (session, tid, r) w2 = (x, w2')" "A w1' w2'"
proof -
  let ?conn = "\<lparr>c_session = session, c_sent = [], c_transaction = tid, c_world = w1\<rparr> :: 'a conn"
  have "c_session ?conn = session" by simp
  then obtain x conn' w1' w2' where "handle r (?conn\<lparr>c_world := w1\<rparr>) = (x, conn'\<lparr>c_world := w1'\<rparr>)"
    "handle r (?conn\<lparr>c_world := w2\<rparr>) = (x, conn'\<lparr>c_world := w2'\<rparr>)" "c_session conn' = session" "A w1' w2'"
    by (rule alikeE [OF assms(1) _ assms(2)])
  then show thesis using that by (simp add: answer_def)
qed

section \<open>Replies with one result\<close>

definition client_read_single :: "'a rd \<Rightarrow> (u8 \<times> u64 \<times> u32 \<times> u8 \<times> 'a) rd" where
  "client_read_single rd =
    bindE read_header (\<lambda>ty.
    bindE read_u64 (\<lambda>tid.
    bindE read_u32 (\<lambda>code.
    bindE read_u8 (\<lambda>op.
    bindE rd (\<lambda>result. returnE (ty, tid, code, op, result))))))"

lemma alike_reply_single [alike_intros]: "alike session A (reply_single op w)"
  unfolding reply_single_def with_single_result_def by (intro alike_intros)

lemma reply_single_sent:
  assumes "c_transaction conn < 2 ^ 64 - 1" "writable_result w"
  obtains data where "reply_single op w conn
    = (Inr (encrypted_if_available data), conn\<lparr>c_transaction := c_transaction conn + 1\<rparr>)"
proof -
  let ?t = "\<lparr>tr_transaction_id = c_transaction conn, tr_error_code = NoError,
      tr_operation_id = op, tr_results = [w], tr_counted = False\<rparr>"
  obtain data where "task_to_response ?t = Inr (encrypted_if_available data)"
    using task_reply_sent [of ?t] assms(2) by auto
  then show thesis using that
    by (simp add: reply_single_def with_single_result_def bindE_def transaction_taken [OF assms(1)] monad_simps)
qed

lemma confined_reply_single [confined_intros]:
  assumes "writable_result w"
  shows "confined b session I (reply_single op w)"
proof (rule confinedI)
  fix conn :: "'a conn" assume "c_transaction conn < 2 ^ 64 - 1" "I (c_world conn)"
  moreover obtain data where "reply_single op w conn
      = (Inr (encrypted_if_available data), conn\<lparr>c_transaction := c_transaction conn + 1\<rparr>)"
    using reply_single_sent [OF calculation(1) assms] by blast
  ultimately show "(b \<longrightarrow> fst (reply_single op w conn) \<noteq> Inl Panic) \<and> I (c_world (snd (reply_single op w conn)))" by simp
qed

text \<open>The client reads the result that was written.\<close>

lemma reply_single_ok:
  assumes "c_transaction conn < 2 ^ 64 - 1" "writes BitMode True bs w" "reads BitMode True bs rd v"
  obtains data where
    "reply_single op w conn = (Inr (encrypted_if_available data), conn\<lparr>c_transaction := c_transaction conn + 1\<rparr>)"
    "\<forall>extra. fst (client_read_single rd (reader_new (data @ extra))) = Inr (1, c_transaction conn, 0, op, v)"
proof -
  let ?tid = "c_transaction conn"
  let ?bits = "task_reply_bits ?tid 0 op @ bs"
  let ?m = "thenE (write_header 1) (thenE (write_u64 ?tid) (thenE (write_u32 0) (thenE (write_u8 op) w)))"
  have emits: "emits ByteMode False ?bits ?m BitMode True"
    unfolding task_reply_bits_def append_assoc
    by (rule emits_then emits_header emits_value emits_writes [OF assms(2)])+
  have "consumes ByteMode False (header_bits 1 @ enc_scalar UnsignedInteger64Type BitMode True ?tid
    @ enc_scalar UnsignedInteger32Type BitMode True (0 :: u32) @ enc_scalar UnsignedChar8Type BitMode True op @ bs @ [])
    (client_read_single rd) (1, ?tid, 0, op, v) BitMode True"
    unfolding client_read_single_def
    by (rule consumes_bind consumes_header consumes_value consumes_return consumes_reads [OF assms(3)])+
  then have consumes: "consumes ByteMode False ?bits (client_read_single rd) (1, ?tid, 0, op, v) BitMode True"
    by (simp add: task_reply_bits_def)
  have unit: "thenE (returnE ()) m = m" "thenE m (returnE ()) = m" for m :: wr
    by (auto simp: fun_eq_iff thenE_def bindE_def monad_simps split: prod.splits sum.splits)
  have writer: "task_reply_writer \<lparr>tr_transaction_id = ?tid, tr_error_code = NoError, tr_operation_id = op,
      tr_results = [w], tr_counted = False\<rparr> = thenE ?m flush"
    by (simp add: task_reply_writer_def thenE_assoc unit)
  obtain data where data: "run_writer (thenE ?m flush) = Inr data"
      "\<forall>extra. fst (client_read_single rd (reader_new (data @ extra))) = Inr (1, ?tid, 0, op, v)"
    using response_readable [OF emits consumes] .
  show thesis
    by (rule that [OF _ data(2)])
      (simp add: reply_single_def with_single_result_def bindE_def transaction_taken [OF assms(1)] monad_simps
        task_to_response_def writer data(1))
qed

end
