(* ===== verification/Storage_Files.thy ===== *)
theory Storage_Files
  imports Service_Support Social_Text "HOL-Library.Signed_Division"
begin

text \<open>
  The stores behind the storage service (dw-server/src/lobby/storage): the files of users in a
  table, and the files of the publisher, one directory per title, which the server only
  reads. The directories are data of the model. Statements on the table are functions as
  in Social_Store; whether the database takes the statement of \<open>remove_storage_file\<close>, which
  gives the table an alias without the keyword AS, is an argument.
\<close>

section \<open>Files\<close>

datatype FileVisibility = VisiblePrivate | VisiblePublic

fun from_file_visibility :: "FileVisibility \<Rightarrow> u8" where
  "from_file_visibility VisiblePrivate = 0"
| "from_file_visibility VisiblePublic = 1"

definition to_file_visibility :: "u8 \<Rightarrow> bd_error + FileVisibility" where
  "to_file_visibility v = (if v = 0 then Inr VisiblePrivate else if v = 1 then Inr VisiblePublic else Inl Panic)"

record StorageFileInfo =
  fi_id :: u64
  fi_filename :: bytes
  fi_title :: Title
  fi_file_size :: u64
  fi_created :: int
  fi_modified :: int
  fi_visibility :: FileVisibility
  fi_owner_id :: u64

record StorageFile =
  sf_info :: StorageFileInfo
  sf_data :: bytes

datatype StorageServiceError =
  PermissionDeniedError | FilenameTooLongError | StorageFileTooLargeError | StorageFileNotFoundError

record user_file =
  uf_id :: nat
  uf_filename :: bytes
  uf_title :: u32
  uf_created_at :: int
  uf_modified_at :: int
  uf_visibility :: u8
  uf_owner_id :: u64
  uf_data :: bytes

text \<open>An entry of a directory that could be read: its name when it is Unicode, and its size and
  the times of its creation and last change when the file system tells them.\<close>

record dir_entry =
  de_name :: "bytes option"
  de_metadata :: "(nat \<times> int \<times> int) option"
  de_data :: "bytes option"

record StorageWorld =
  st_files :: "user_file list"
  st_publisher :: "u32 \<Rightarrow> dir_entry option list option"

type_synonym 'a storage = "(StorageWorld, bd_error, StorageServiceError + 'a) sm"

definition refuse :: "StorageServiceError \<Rightarrow> 'a storage" where
  "refuse e = returnE (Inl e)"

section \<open>Files of users\<close>

definition MAX_FILENAME_LENGTH :: nat where "MAX_FILENAME_LENGTH = 260"
definition MAX_USER_FILE_SIZE :: nat where "MAX_USER_FILE_SIZE = 50000"

definition find_file :: "u64 list \<Rightarrow> (user_file \<Rightarrow> bool) \<Rightarrow> StorageWorld \<Rightarrow> user_file option" where
  "find_file params P w = Option.bind (statement params (\<lambda>w. List.find P (st_files w)) w) id"

definition get_storage_file_data_by_id :: "BdSession \<Rightarrow> u64 \<Rightarrow> u64 \<Rightarrow> StorageFile storage" where
  "get_storage_file_data_by_id session owner_id file_id = authenticated session (\<lambda>auth.
    if a_user_id auth \<noteq> owner_id then refuse PermissionDeniedError
    else (\<lambda>w. case find_file [file_id, owner_id] (\<lambda>u. uf_id u = unat file_id \<and> uf_owner_id u = owner_id) w of
      None \<Rightarrow> (Inr (Inl StorageFileNotFoundError), w)
    | Some u \<Rightarrow>
        (case to_file_visibility (uf_visibility u) of
           Inl e \<Rightarrow> (Inl e, w)
         | Inr visibility \<Rightarrow>
             (Inr (Inr \<lparr>sf_info = \<lparr>fi_id = file_id, fi_filename = uf_filename u, fi_title = a_title auth,
                fi_file_size = of_nat (length (uf_data u)), fi_created = uf_created_at u,
                fi_modified = uf_modified_at u, fi_visibility = visibility, fi_owner_id = owner_id\<rparr>,
                sf_data = uf_data u\<rparr>), w))))"

definition get_storage_file_data_by_name :: "BdSession \<Rightarrow> u64 \<Rightarrow> bytes \<Rightarrow> bytes storage" where
  "get_storage_file_data_by_name session owner_id filename = authenticated session (\<lambda>auth.
    if length filename > MAX_FILENAME_LENGTH then refuse StorageFileNotFoundError
    else (\<lambda>w. case find_file [owner_id] (\<lambda>u. uf_filename u = filename \<and> uf_owner_id u = owner_id) w of
      None \<Rightarrow> (Inr (Inl StorageFileNotFoundError), w)
    | Some u \<Rightarrow>
        (case to_file_visibility (uf_visibility u) of
           Inl e \<Rightarrow> (Inl e, w)
         | Inr visibility \<Rightarrow>
             (Inr (if visibility = VisiblePrivate \<and> a_user_id auth \<noteq> owner_id then Inl PermissionDeniedError
                   else Inr (uf_data u)), w))))"

definition next_file_id :: "user_file list \<Rightarrow> nat" where
  "next_file_id files = Suc (fold max (map uf_id files) 0)"

definition write_file :: "nat \<Rightarrow> bytes \<Rightarrow> int \<Rightarrow> user_file list \<Rightarrow> user_file list" where
  "write_file file_id data now = map (\<lambda>u. if uf_id u = file_id then u\<lparr>uf_data := data, uf_modified_at := now\<rparr> else u)"

definition create_storage_file ::
  "int \<Rightarrow> BdSession \<Rightarrow> u64 \<Rightarrow> bytes \<Rightarrow> FileVisibility \<Rightarrow> bytes \<Rightarrow> StorageFileInfo storage" where
  "create_storage_file now session owner_id filename visibility file_data = authenticated session (\<lambda>auth.
    if a_user_id auth \<noteq> owner_id then refuse PermissionDeniedError
    else if length filename > MAX_FILENAME_LENGTH then refuse FilenameTooLongError
    else if length file_data > MAX_USER_FILE_SIZE then refuse StorageFileTooLargeError
    else (\<lambda>w.
      let title_num = title_to_u32 (a_title auth);
          info = (\<lambda>file_id. \<lparr>fi_id = of_nat file_id, fi_filename = filename, fi_title = a_title auth,
            fi_file_size = of_nat (length file_data), fi_created = now, fi_modified = now,
            fi_visibility = visibility, fi_owner_id = owner_id\<rparr>)
      in case find_file [owner_id] (\<lambda>u. uf_filename u = filename \<and> uf_title u = title_num
                \<and> uf_owner_id u = owner_id) w of
           Some existing \<Rightarrow>
             (Inr (Inr (info (uf_id existing))), w\<lparr>st_files := write_file (uf_id existing) file_data now (st_files w)\<rparr>)
         | None \<Rightarrow>
             (case statement [owner_id] (\<lambda>files. files @ [\<lparr>uf_id = next_file_id files, uf_filename = filename,
                  uf_title = title_num, uf_created_at = now, uf_modified_at = now,
                  uf_visibility = from_file_visibility visibility, uf_owner_id = owner_id,
                  uf_data = file_data\<rparr>]) (st_files w) of
                None \<Rightarrow> (Inl Panic, w)
              | Some files \<Rightarrow> (Inr (Inr (info (next_file_id (st_files w)))), w\<lparr>st_files := files\<rparr>))))"

definition update_storage_file_data :: "int \<Rightarrow> BdSession \<Rightarrow> u64 \<Rightarrow> u64 \<Rightarrow> bytes \<Rightarrow> unit storage" where
  "update_storage_file_data now session owner_id file_id file_data = authenticated session (\<lambda>auth.
    if a_user_id auth \<noteq> owner_id then refuse PermissionDeniedError
    else if length file_data > MAX_USER_FILE_SIZE then refuse StorageFileTooLargeError
    else (\<lambda>w.
      case find_file [file_id] (\<lambda>u. uf_id u = unat file_id \<and> uf_title u = title_to_u32 (a_title auth)) w of
        None \<Rightarrow> (Inr (Inl StorageFileNotFoundError), w)
      | Some u \<Rightarrow>
          if uf_owner_id u \<noteq> owner_id then (Inr (Inl PermissionDeniedError), w)
          else (Inr (Inr ()), w\<lparr>st_files := write_file (unat file_id) file_data now (st_files w)\<rparr>)))"

definition remove_storage_file :: "bool \<Rightarrow> BdSession \<Rightarrow> u64 \<Rightarrow> bytes \<Rightarrow> unit storage" where
  "remove_storage_file alias_accepted session owner_id filename = authenticated session (\<lambda>auth.
    if a_user_id auth \<noteq> owner_id then refuse PermissionDeniedError
    else if length filename > MAX_FILENAME_LENGTH then refuse FilenameTooLongError
    else (\<lambda>w.
      if \<not> alias_accepted then (Inr (Inl StorageFileNotFoundError), w)
      else if list_ex (\<lambda>u. uf_filename u = filename) (st_files w)
      then (Inr (Inr ()), w\<lparr>st_files := filter (\<lambda>u. uf_filename u \<noteq> filename) (st_files w)\<rparr>)
      else (Inr (Inl StorageFileNotFoundError), w)))"

text \<open>LIKE without an escape character: a percent sign matches any characters, an underscore one.\<close>

declare conj_cong [fundef_cong]

function like_plain :: "bytes \<Rightarrow> bytes \<Rightarrow> bool" where
  "like_plain [] s = (s = [])"
| "like_plain (p # ps) s =
    (if p = 0x25 then like_plain ps s \<or> (s \<noteq> [] \<and> like_plain (p # ps) (drop (max 1 (utf8_char_len s)) s))
     else if p = 0x5F then s \<noteq> [] \<and> like_plain ps (drop (max 1 (utf8_char_len s)) s)
     else s \<noteq> [] \<and> fold_case p = fold_case (hd s) \<and> like_plain ps (tl s))"
  by pat_completeness auto
termination
  by (relation "measure (\<lambda>(p, s). length p + length s)") (auto simp: max_def)

fun infos_of :: "Title \<Rightarrow> u64 \<Rightarrow> user_file list \<Rightarrow> bd_error + StorageFileInfo list" where
  "infos_of title owner_id [] = Inr []"
| "infos_of title owner_id (u # us) =
    (case to_file_visibility (uf_visibility u) of
       Inl e \<Rightarrow> Inl e
     | Inr visibility \<Rightarrow>
         (case infos_of title owner_id us of
            Inl e \<Rightarrow> Inl e
          | Inr infos \<Rightarrow> Inr (\<lparr>fi_id = of_nat (uf_id u), fi_filename = uf_filename u, fi_title = title,
              fi_file_size = of_nat (length (uf_data u)), fi_created = uf_created_at u,
              fi_modified = uf_modified_at u, fi_visibility = visibility, fi_owner_id = owner_id\<rparr> # infos)))"

text \<open>
  The columns of a row are compared in the order of the condition, so the name of a row meets the
  pattern only when its owner, title and age are those wanted; LIKE refuses a pattern that is
  too long, but only when it is evaluated, and a limit of no rows evaluates nothing.
\<close>

definition list_files ::
  "BdSession \<Rightarrow> u64 \<Rightarrow> int \<Rightarrow> nat \<Rightarrow> nat \<Rightarrow> bytes option \<Rightarrow> StorageFileInfo ResultSlice storage" where
  "list_files session owner_id min_date_time item_offset item_count name_filter = authenticated session (\<lambda>auth w.
    let visible = (if a_user_id auth = owner_id then 255 else from_file_visibility VisiblePublic);
        prefix_pattern = (case name_filter of Some f \<Rightarrow> f @ [0x25] | None \<Rightarrow> [0x25]);
        candidate = (\<lambda>u. uf_owner_id u = owner_id \<and> uf_title u = title_to_u32 (a_title auth)
          \<and> uf_created_at u \<ge> min_date_time)
    in case (if length prefix_pattern > LIKE_LIMIT \<and> item_count > 0 \<and> list_ex candidate (st_files w) then None
             else statement [owner_id] (\<lambda>files. take item_count (drop item_offset (sort_key uf_id
               (filter (\<lambda>u. candidate u \<and> like_plain prefix_pattern (uf_filename u)
                  \<and> (uf_visibility u = visible \<or> visible = 255)) files)))) (st_files w)) of
         None \<Rightarrow> (Inr (Inl StorageFileNotFoundError), w)
       | Some files \<Rightarrow>
           (case infos_of (a_title auth) owner_id files of
              Inl e \<Rightarrow> (Inl e, w)
            | Inr infos \<Rightarrow> (Inr (Inr (result_slice_new infos item_offset)), w)))"

definition list_storage_files where
  "list_storage_files session owner_id min_date_time item_offset item_count =
    list_files session owner_id min_date_time item_offset item_count None"

definition filter_storage_files where
  "filter_storage_files session owner_id min_date_time item_offset item_count name_filter =
    list_files session owner_id min_date_time item_offset item_count (Some name_filter)"

section \<open>Files of the publisher\<close>

definition publisher_file_id :: "bytes \<Rightarrow> u64" where
  "publisher_file_id filename =
    fold (\<lambda>b hash. (hash XOR ucast b) * 0x00000100000001B3) filename 0xCBF29CE484222325 OR 0x8000000000000000"

definition has_parent_dir :: "bytes \<Rightarrow> bool" where
  "has_parent_dir filename \<longleftrightarrow> str ''..'' \<in> set (split_on 0x2F filename)"

text \<open>The path of a file relative to the directory of the server; \<open>read_file\<close> stands for the file system.\<close>

definition publisher_path :: "Title \<Rightarrow> bytes \<Rightarrow> bytes" where
  "publisher_path title filename = str ''storage/publisher/'' @ show_nat (unat (title_to_u32 title)) @ str ''/'' @ filename"

definition get_publisher_file_data :: "(bytes \<Rightarrow> bytes option) \<Rightarrow> BdSession \<Rightarrow> bytes \<Rightarrow> bytes storage" where
  "get_publisher_file_data read_file session filename =
    (if has_parent_dir filename then refuse StorageFileNotFoundError
     else authenticated session (\<lambda>auth.
       case read_file (publisher_path (a_title auth) filename) of
         None \<Rightarrow> refuse StorageFileNotFoundError
       | Some data \<Rightarrow> returnE (Inr data)))"

definition map_info_info :: "Title \<Rightarrow> dir_entry \<Rightarrow> bd_error + StorageFileInfo" where
  "map_info_info title entry =
    (case (de_metadata entry, de_name entry) of
       (Some (file_size, created, modified), Some name) \<Rightarrow>
         Inr \<lparr>fi_id = publisher_file_id name, fi_filename = name, fi_title = title,
           fi_file_size = of_nat file_size, fi_created = created, fi_modified = modified,
           fi_visibility = VisiblePublic, fi_owner_id = 0\<rparr>
     | _ \<Rightarrow> Inl Panic)"

definition get_publisher_file_data_by_id :: "BdSession \<Rightarrow> u64 \<Rightarrow> StorageFile storage" where
  "get_publisher_file_data_by_id session file_id = authenticated session (\<lambda>auth w.
    case st_publisher w (title_to_u32 (a_title auth)) of
      None \<Rightarrow> (Inr (Inl StorageFileNotFoundError), w)
    | Some entries \<Rightarrow>
        (case List.find (\<lambda>entry. \<exists>name \<in> Option.set_option (de_name entry). publisher_file_id name = file_id)
            (List.map_filter id entries) of
           None \<Rightarrow> (Inr (Inl StorageFileNotFoundError), w)
         | Some entry \<Rightarrow>
             (case de_data entry of
                None \<Rightarrow> (Inr (Inl StorageFileNotFoundError), w)
              | Some data \<Rightarrow>
                  (case map_info_info (a_title auth) entry of
                     Inl e \<Rightarrow> (Inl e, w)
                   | Inr info \<Rightarrow> (Inr (Inr \<lparr>sf_info = info, sf_data = data\<rparr>), w)))))"

text \<open>The chain of iterators over a directory, which stops when it has the files it wants: entries
  that cannot be read are dropped, those whose name lacks the prefix are dropped, the first
  ones are skipped, and of the rest those that are new enough are taken.\<close>

fun publisher_infos ::
  "Title \<Rightarrow> bytes option \<Rightarrow> int \<Rightarrow> nat \<Rightarrow> nat \<Rightarrow> dir_entry option list \<Rightarrow> bd_error + StorageFileInfo list" where
  "publisher_infos title name_filter min_date_time offset count [] = Inr []"
| "publisher_infos title name_filter min_date_time offset count (e # es) =
    (if count = 0 then Inr []
     else case e of
       None \<Rightarrow> publisher_infos title name_filter min_date_time offset count es
     | Some entry \<Rightarrow>
         (case (case name_filter of
                  None \<Rightarrow> Inr True
                | Some f \<Rightarrow> (case de_name entry of None \<Rightarrow> Inl Panic | Some name \<Rightarrow> Inr (take (length f) name = f))) of
            Inl err \<Rightarrow> Inl err
          | Inr False \<Rightarrow> publisher_infos title name_filter min_date_time offset count es
          | Inr True \<Rightarrow>
              if offset > 0 then publisher_infos title name_filter min_date_time (offset - 1) count es
              else (case map_info_info title entry of
                Inl err \<Rightarrow> Inl err
              | Inr info \<Rightarrow>
                  if fi_created info \<ge> min_date_time
                  then (case publisher_infos title name_filter min_date_time 0 (count - 1) es of
                    Inl err \<Rightarrow> Inl err
                  | Inr infos \<Rightarrow> Inr (info # infos))
                  else publisher_infos title name_filter min_date_time 0 count es)))"

definition publisher_files ::
  "BdSession \<Rightarrow> bytes option \<Rightarrow> int \<Rightarrow> nat \<Rightarrow> nat \<Rightarrow> StorageFileInfo ResultSlice storage" where
  "publisher_files session name_filter min_date_time item_offset item_count = authenticated session (\<lambda>auth w.
    case st_publisher w (title_to_u32 (a_title auth)) of
      None \<Rightarrow> (Inr (Inr (result_slice_new [] item_offset)), w)
    | Some entries \<Rightarrow>
        (case publisher_infos (a_title auth) name_filter min_date_time item_offset item_count entries of
           Inl e \<Rightarrow> (Inl e, w)
         | Inr file_info \<Rightarrow>
             (Inr (if file_info \<noteq> [] then Inr (result_slice_new file_info item_offset)
                   else Inl StorageFileNotFoundError), w)))"

definition list_publisher_files where
  "list_publisher_files session = publisher_files session None"

definition filter_publisher_files where
  "filter_publisher_files session min_date_time item_offset item_count name_filter =
    publisher_files session (Some name_filter) min_date_time item_offset item_count"

end
