(* ===== verification/Storage_Handler.thy ===== *)
theory Storage_Handler
  imports Handler_Logic Storage_Files
begin

text \<open>
  The storage service on the wire (libbitdemon/src/lobby/storage/handler.rs and result.rs) over
  the stores of Storage_Files. Every message the handler may get leaves the files of other users
  as they are and keeps the table in order; what a user uploads is what it downloads; and
  what a user can read does not depend on the private files of others.
\<close>

section \<open>Results\<close>

definition u32_max :: int where "u32_max = 0xFFFFFFFF"

definition file_info_serialize :: "StorageFileInfo \<Rightarrow> wr" where
  "file_info_serialize v =
    thenE (write_u32 (ucast (fi_file_size v)))
    (thenE (write_u64 (fi_id v))
    (thenE (write_u32 (word_of_int (fi_created v smod u32_max)))
    (thenE (write_u32 (word_of_int (fi_modified v smod u32_max)))
    (thenE (write_bool (fi_visibility v = VisiblePrivate))
    (thenE (write_bool False)
    (thenE (write_u64 (fi_owner_id v))
    (write_str (fi_filename v))))))))"

definition file_data_serialize :: "StorageFile \<Rightarrow> wr" where
  "file_data_serialize file = thenE (file_info_serialize (sf_info file)) (write_blob (sf_data file))"

definition file_id_serialize :: "u64 \<Rightarrow> wr" where
  "file_id_serialize i = write_u64 i"

definition storage_error_code :: "StorageServiceError \<Rightarrow> BdErrorCode" where
  "storage_error_code e =
    (case e of
       PermissionDeniedError \<Rightarrow> PermissionDenied
     | FilenameTooLongError \<Rightarrow> FilenameMaxLengthExceeded
     | StorageFileTooLargeError \<Rightarrow> FileSizeLimitExceeded
     | StorageFileNotFoundError \<Rightarrow> NoFile)"

section \<open>The handler\<close>

datatype StorageTaskId = CreateFile | UpdateFileById | GetFileById | ListFilesByOwner | ListPublisherFiles

definition storage_task_from_u8 :: "u8 \<Rightarrow> StorageTaskId option" where
  "storage_task_from_u8 v =
    (if v = 1 then Some CreateFile else if v = 2 then Some UpdateFileById
     else if v = 5 then Some GetFileById else if v = 7 then Some ListFilesByOwner
     else if v = 8 then Some ListPublisherFiles else None)"

definition own_user_id :: "('w, u64) act" where
  "own_user_id = bindE the_session (\<lambda>session.
    case s_authentication session of None \<Rightarrow> throwE Panic | Some auth \<Rightarrow> returnE (a_user_id auth))"

definition create_file :: "int \<Rightarrow> reader \<Rightarrow> (StorageWorld, BdResponse) act" where
  "create_file now r =
    bindE (run_rd read_bool r) (\<lambda>(first_flag, r1).
    bindE (run_rd read_str r1) (\<lambda>(filename, r2).
    bindE (run_rd read_bool r2) (\<lambda>(second_flag, r3).
    bindE (run_rd read_blob r3) (\<lambda>(file_data, _).
    bindE own_user_id (\<lambda>owner_id.
    bindE the_session (\<lambda>session.
    bindE (on_service (create_storage_file now session owner_id filename VisiblePrivate file_data)) (\<lambda>result.
    case result of
      Inr info \<Rightarrow> reply_single 1 (file_id_serialize (fi_id info))
    | Inl e \<Rightarrow> reply_only (storage_error_code e) 1)))))))"

definition update_file_by_id :: "int \<Rightarrow> reader \<Rightarrow> (StorageWorld, BdResponse) act" where
  "update_file_by_id now r =
    bindE (run_rd read_u64 r) (\<lambda>(file_id, r1).
    bindE (run_rd read_blob r1) (\<lambda>(file_data, _).
    bindE own_user_id (\<lambda>owner_id.
    bindE the_session (\<lambda>session.
    bindE (on_service (update_storage_file_data now session owner_id file_id file_data)) (\<lambda>result.
    case result of
      Inr _ \<Rightarrow> reply_only NoError 2
    | Inl e \<Rightarrow> reply_only (storage_error_code e) 2)))))"

definition get_file_by_id :: "reader \<Rightarrow> (StorageWorld, BdResponse) act" where
  "get_file_by_id r =
    bindE (run_rd read_u64 r) (\<lambda>(file_id, _).
    bindE own_user_id (\<lambda>owner_id.
    bindE the_session (\<lambda>session.
    bindE (on_service (get_storage_file_data_by_id session owner_id file_id)) (\<lambda>own.
    bindE (case own of
        Inr file \<Rightarrow> returnE (Inr file)
      | Inl _ \<Rightarrow> on_service (get_publisher_file_data_by_id session file_id)) (\<lambda>result.
    case result of
      Inr file \<Rightarrow> reply_single 5 (file_data_serialize file)
    | Inl e \<Rightarrow> reply_only (storage_error_code e) 5)))))"

definition answer_for_file_info_slice ::
  "u8 \<Rightarrow> StorageServiceError + StorageFileInfo ResultSlice \<Rightarrow> (StorageWorld, BdResponse) act" where
  "answer_for_file_info_slice task_id result =
    (case result of
       Inr info \<Rightarrow> bindE (with_result_slice task_id
           \<lparr>rs_data = map file_info_serialize (rs_data info), rs_offset = rs_offset info,
            rs_total_count = rs_total_count info\<rparr>) (\<lambda>t. liftE (task_to_response t))
     | Inl e \<Rightarrow> reply_only (storage_error_code e) task_id)"

text \<open>The optional name at the end of a request for a list.\<close>

definition read_filter :: "bytes option rd" where
  "read_filter = bindE (okE (next_is SignedChar8StringType) False) (\<lambda>is_str.
    if is_str then bindE read_str (\<lambda>f. returnE (Some f)) else returnE None)"

definition list_files_by_owner :: "reader \<Rightarrow> (StorageWorld, BdResponse) act" where
  "list_files_by_owner r =
    bindE (run_rd read_u64 r) (\<lambda>(owner_id, r1).
    bindE (run_rd read_u32 r1) (\<lambda>(min_date_time, r2).
    bindE (run_rd read_u16 r2) (\<lambda>(max_num_results, r3).
    bindE (run_rd read_filter r3) (\<lambda>(name_filter, _).
    bindE the_session (\<lambda>session.
    bindE (on_service (case name_filter of
        Some f \<Rightarrow> filter_storage_files session owner_id (uint min_date_time) 0 (unat max_num_results) f
      | None \<Rightarrow> list_storage_files session owner_id (uint min_date_time) 0 (unat max_num_results))) (\<lambda>result.
    answer_for_file_info_slice 7 result))))))"

definition handle_list_publisher_files :: "reader \<Rightarrow> (StorageWorld, BdResponse) act" where
  "handle_list_publisher_files r =
    bindE (run_rd read_u32 r) (\<lambda>(min_date_time, r1).
    bindE (run_rd read_u16 r1) (\<lambda>(max_num_results, r2).
    bindE (run_rd read_filter r2) (\<lambda>(name_filter, _).
    bindE the_session (\<lambda>session.
    bindE (on_service (case name_filter of
        Some f \<Rightarrow> filter_publisher_files session (uint min_date_time) 0 (unat max_num_results) f
      | None \<Rightarrow> list_publisher_files session (uint min_date_time) 0 (unat max_num_results))) (\<lambda>result.
    answer_for_file_info_slice 8 result)))))"

definition storage_handle :: "env \<Rightarrow> reader \<Rightarrow> (StorageWorld, BdResponse) act" where
  "storage_handle env r =
    bindE (run_rd read_u8 r) (\<lambda>(task_id_value, r1).
    bindE (run_rd read_u8 r1) (\<lambda>(unrecovered, r2).
    case storage_task_from_u8 task_id_value of
      None \<Rightarrow> reply_only ServiceNotAvailable task_id_value
    | Some task \<Rightarrow> (case task of
        CreateFile \<Rightarrow> create_file (e_now env) r2
      | UpdateFileById \<Rightarrow> update_file_by_id (e_now env) r2
      | GetFileById \<Rightarrow> get_file_by_id r2
      | ListFilesByOwner \<Rightarrow> list_files_by_owner r2
      | ListPublisherFiles \<Rightarrow> handle_list_publisher_files r2)))"

section \<open>The order of the table\<close>

definition file_key :: "user_file \<Rightarrow> u64 \<times> u32 \<times> bytes" where
  "file_key u = (uf_owner_id u, uf_title u, uf_filename u)"

definition file_ok :: "user_file \<Rightarrow> bool" where
  "file_ok u \<longleftrightarrow> sql_fits (uf_owner_id u) \<and> uf_visibility u \<in> {0, 1}
     \<and> length (uf_data u) \<le> MAX_USER_FILE_SIZE \<and> length (uf_filename u) \<le> MAX_FILENAME_LENGTH"

definition files_ok :: "user_file list \<Rightarrow> bool" where
  "files_ok files \<longleftrightarrow> distinct (map uf_id files) \<and> distinct (map file_key files) \<and> (\<forall>u \<in> set files. file_ok u)"

text \<open>Every entry of a directory of the publisher that can be read has a name and metadata.\<close>

definition publisher_ok :: "StorageWorld \<Rightarrow> bool" where
  "publisher_ok w \<longleftrightarrow> (\<forall>t entries e. st_publisher w t = Some entries \<and> Some e \<in> set entries
     \<longrightarrow> de_name e \<noteq> None \<and> de_metadata e \<noteq> None)"

definition others :: "u64 \<Rightarrow> user_file list \<Rightarrow> user_file list" where
  "others me = filter (\<lambda>u. uf_owner_id u \<noteq> me)"

text \<open>A file may get other data and another time of its last change, but stays what it is.\<close>

definition same_file :: "user_file \<Rightarrow> user_file \<Rightarrow> bool" where
  "same_file u v \<longleftrightarrow> v = u\<lparr>uf_data := uf_data v, uf_modified_at := uf_modified_at v\<rparr>"

definition owner_step :: "u64 \<Rightarrow> StorageWorld \<Rightarrow> StorageWorld \<Rightarrow> bool" where
  "owner_step me w0 w \<longleftrightarrow> files_ok (st_files w) \<and> publisher_ok w \<and> st_publisher w = st_publisher w0
     \<and> others me (st_files w) = others me (st_files w0)
     \<and> (\<forall>u \<in> set (st_files w0). \<exists>v \<in> set (st_files w). same_file u v)"

lemma same_file_refl [simp]: "same_file u u"
  by (simp add: same_file_def)

lemma same_file_trans: "same_file u v \<Longrightarrow> same_file v x \<Longrightarrow> same_file u x"
  unfolding same_file_def by (metis user_file.surjective user_file.update_convs(5,8) user_file.select_convs(5,8))

lemma next_file_id_fresh: "u \<in> set files \<Longrightarrow> uf_id u < next_file_id files"
  unfolding next_file_id_def by (metis fold_max_upper imageI less_Suc_eq_le list.set_map)

lemma find_file_Some:
  assumes "find_file params P w = Some u"
  shows "u \<in> set (st_files w)" "P u" "list_all sql_fits params"
  using assms
  by (auto simp: find_file_def statement_def find_Some_iff in_set_conv_nth split: bind_splits if_splits)

lemma write_file_ok:
  assumes ok: "files_ok files" and e: "e \<in> set files" "uf_owner_id e = me"
    and len: "length data \<le> MAX_USER_FILE_SIZE"
  shows "files_ok (write_file (uf_id e) data now files)" "others me (write_file (uf_id e) data now files) = others me files"
    "\<forall>u \<in> set files. \<exists>v \<in> set (write_file (uf_id e) data now files). same_file u v"
proof -
  let ?f = "\<lambda>u. if uf_id u = uf_id e then u\<lparr>uf_data := data, uf_modified_at := now\<rparr> else u"
  have written: "write_file (uf_id e) data now files = map ?f files" by (simp add: write_file_def)
  have keys: "map uf_id (map ?f files) = map uf_id files" "map file_key (map ?f files) = map file_key files"
    by (auto simp: file_key_def)
  show "files_ok (write_file (uf_id e) data now files)"
    using ok len unfolding written files_ok_def keys by (auto simp: file_ok_def)
  have "u = e" if "u \<in> set files" "uf_id u = uf_id e" for u
    using that e(1) ok unfolding files_ok_def distinct_map by (meson inj_onD)
  then have "uf_owner_id u \<noteq> me \<Longrightarrow> ?f u = u" if "u \<in> set files" for u using that e(2) by auto
  moreover have "filter ((\<lambda>u. uf_owner_id u \<noteq> me) \<circ> ?f) files = filter (\<lambda>u. uf_owner_id u \<noteq> me) files"
    by (rule filter_cong) auto
  ultimately show "others me (write_file (uf_id e) data now files) = others me files"
    unfolding written others_def filter_map by (simp only:) (rule map_idI, auto)
  show "\<forall>u \<in> set files. \<exists>v \<in> set (write_file (uf_id e) data now files). same_file u v"
  proof
    fix u assume "u \<in> set files"
    then show "\<exists>v \<in> set (write_file (uf_id e) data now files). same_file u v"
      by (intro bexI [of _ "?f u"]) (simp_all add: written same_file_def)
  qed
qed

lemma owner_step_write:
  assumes "owner_step me w0 w" "e \<in> set (st_files w)" "uf_owner_id e = me" "length data \<le> MAX_USER_FILE_SIZE"
  shows "owner_step me w0 (w\<lparr>st_files := write_file (uf_id e) data now (st_files w)\<rparr>)"
  using assms write_file_ok [of "st_files w" e me data now] unfolding owner_step_def publisher_ok_def
  by simp (meson same_file_trans)

lemma owner_step_insert:
  assumes "owner_step me w0 w" "uf_owner_id u = me" "file_ok u" "uf_id u = next_file_id (st_files w)"
    and "\<And>v. v \<in> set (st_files w) \<Longrightarrow> file_key v \<noteq> file_key u"
  shows "owner_step me w0 (w\<lparr>st_files := st_files w @ [u]\<rparr>)"
proof -
  have "uf_id v \<noteq> uf_id u" if "v \<in> set (st_files w)" for v using next_file_id_fresh [OF that] assms(4) by simp
  then show ?thesis using assms unfolding owner_step_def publisher_ok_def files_ok_def others_def
    by (force simp: image_iff)
qed

section \<open>Every operation keeps the order\<close>

lemma to_visibility_ok: "v \<in> {0, 1} \<Longrightarrow> \<exists>x. to_file_visibility v = Inr x"
  by (auto simp: to_file_visibility_def)

lemma keepsI: "(\<And>s. I s \<Longrightarrow> (b \<longrightarrow> fst (m s) \<noteq> Inl Panic) \<and> I (snd (m s))) \<Longrightarrow> keeps b I m"
  by (simp add: keeps_def)

lemma keeps_mono: "keeps True I m \<Longrightarrow> keeps b I m"
  by (simp add: keeps_def)

text \<open>An id that the database cannot hold makes the insertion panic, which changes nothing.\<close>

lemma keeps_create:
  assumes auth: "s_authentication session = Some auth"
  shows "keeps (sql_fits (a_user_id auth)) (owner_step (a_user_id auth) w0) (create_storage_file now session (a_user_id auth) filename VisiblePrivate data)"
proof (rule keepsI)
  fix w assume w: "owner_step (a_user_id auth) w0 w"
  let ?key = "\<lambda>u. uf_filename u = filename \<and> uf_title u = title_to_u32 (a_title auth) \<and> uf_owner_id u = a_user_id auth"
  let ?run = "create_storage_file now session (a_user_id auth) filename VisiblePrivate data w"
  show "(sql_fits (a_user_id auth) \<longrightarrow> fst ?run \<noteq> Inl Panic) \<and> owner_step (a_user_id auth) w0 (snd ?run)"
  proof (cases "length filename > MAX_FILENAME_LENGTH \<or> length data > MAX_USER_FILE_SIZE")
    case True
    then show ?thesis using w by (auto simp: create_storage_file_def authenticated_def auth refuse_def monad_simps)
  next
    case len: False
    show ?thesis
    proof (cases "find_file [a_user_id auth] ?key w")
      case (Some e)
      have "uf_owner_id e = a_user_id auth" "e \<in> set (st_files w)" using find_file_Some [OF Some] by simp_all
      then show ?thesis using len Some owner_step_write [OF w, of e data now]
        by (simp add: create_storage_file_def authenticated_def auth Let_def)
    next
      case None
      show ?thesis
      proof (cases "sql_fits (a_user_id auth)")
      case fits: True
      from None have "List.find ?key (st_files w) = None"
        using fits by (simp add: find_file_def statement_def split: bind_splits)
      then have new: "file_key v \<noteq> (a_user_id auth, title_to_u32 (a_title auth), filename)" if "v \<in> set (st_files w)" for v
        using that by (auto simp: find_None_iff file_key_def)
      let ?u = "\<lparr>uf_id = next_file_id (st_files w), uf_filename = filename,
                  uf_title = title_to_u32 (a_title auth), uf_created_at = now, uf_modified_at = now,
                  uf_visibility = 0, uf_owner_id = a_user_id auth, uf_data = data\<rparr>"
      have "owner_step (a_user_id auth) w0 (w\<lparr>st_files := st_files w @ [?u]\<rparr>)"
        using new len by (intro owner_step_insert [OF w]) (simp_all add: file_ok_def fits file_key_def)
      then show ?thesis using len None fits
        by (simp add: create_storage_file_def authenticated_def auth Let_def statement_def)
      qed (use len None w in \<open>simp add: create_storage_file_def authenticated_def auth Let_def statement_def\<close>)
    qed
  qed
qed

lemma keeps_update:
  assumes auth: "s_authentication session = Some auth"
  shows "keeps True (owner_step (a_user_id auth) w0) (update_storage_file_data now session (a_user_id auth) file_id data)"
proof (rule keepsI)
  fix w assume w: "owner_step (a_user_id auth) w0 w"
  let ?run = "update_storage_file_data now session (a_user_id auth) file_id data w"
  let ?find = "find_file [file_id] (\<lambda>u. uf_id u = unat file_id \<and> uf_title u = title_to_u32 (a_title auth)) w"
  show "(True \<longrightarrow> fst ?run \<noteq> Inl Panic) \<and> owner_step (a_user_id auth) w0 (snd ?run)"
  proof (cases "length data > MAX_USER_FILE_SIZE \<or> ?find = None")
    case True
    then show ?thesis using w
      by (auto simp: update_storage_file_data_def authenticated_def auth refuse_def monad_simps)
  next
    case False
    then obtain u where u: "?find = Some u" "length data \<le> MAX_USER_FILE_SIZE" by auto
    then have "u \<in> set (st_files w)" "uf_id u = unat file_id" using find_file_Some [OF u(1)] by simp_all
    then show ?thesis using u w owner_step_write [OF w, of u data now]
      by (simp add: update_storage_file_data_def authenticated_def auth)
  qed
qed

lemma keeps_reading: "(\<And>s. I s \<Longrightarrow> \<exists>x. m s = (x, s) \<and> x \<noteq> Inl Panic) \<Longrightarrow> keeps True I m"
  unfolding keeps_def by fastforce

lemma infos_of_ok: "(\<forall>u \<in> set us. file_ok u) \<Longrightarrow> \<exists>infos. infos_of title owner_id us = Inr infos"
proof (induction us)
  case (Cons u us)
  obtain v where "to_file_visibility (uf_visibility u) = Inr v"
    using Cons.prems to_visibility_ok by (auto simp: file_ok_def)
  then show ?case using Cons by auto
qed simp

lemma map_info_ok: "de_name e \<noteq> None \<Longrightarrow> de_metadata e \<noteq> None \<Longrightarrow> \<exists>info. map_info_info title e = Inr info"
  by (auto simp: map_info_info_def)

lemma publisher_infos_ok:
  assumes "\<And>e. Some e \<in> set es \<Longrightarrow> de_name e \<noteq> None \<and> de_metadata e \<noteq> None"
  shows "\<exists>infos. publisher_infos title name_filter since offset count es = Inr infos"
  using assms
proof (induction es arbitrary: offset count)
  case (Cons x es)
  have IH: "\<exists>infos. publisher_infos title name_filter since offset count es = Inr infos" for offset count
    using Cons by simp
  show ?case
  proof (cases x)
    case None
    then show ?thesis using IH by simp
  next
    case (Some e)
    then obtain name info where e: "de_name e = Some name" "map_info_info title e = Inr info"
      using Cons.prems [of e] map_info_ok [of e title] by auto
    obtain infos where "publisher_infos title name_filter since 0 (count - 1) es = Inr infos" using IH by blast
    then show ?thesis using Some e IH
      by (cases name_filter) (auto split: bool.split)
  qed
qed simp

lemma keeps_get:
  assumes auth: "s_authentication session = Some auth"
  shows "keeps True (owner_step me w0) (get_storage_file_data_by_id session owner_id file_id)"
proof (rule keeps_reading)
  fix w assume "owner_step me w0 w"
  then have ok: "\<forall>u \<in> set (st_files w). file_ok u" by (simp add: owner_step_def files_ok_def)
  let ?find = "find_file [file_id, owner_id] (\<lambda>u. uf_id u = unat file_id \<and> uf_owner_id u = owner_id) w"
  have "\<exists>v. to_file_visibility (uf_visibility u) = Inr v" if "?find = Some u" for u
    using ok find_file_Some(1) [OF that] to_visibility_ok by (auto simp: file_ok_def)
  then show "\<exists>x. get_storage_file_data_by_id session owner_id file_id w = (x, w) \<and> x \<noteq> Inl Panic"
    by (cases ?find) (auto simp: get_storage_file_data_by_id_def authenticated_def auth refuse_def monad_simps)
qed

lemma keeps_get_publisher:
  assumes auth: "s_authentication session = Some auth"
  shows "keeps True (owner_step me w0) (get_publisher_file_data_by_id session file_id)"
proof (rule keeps_reading)
  fix w assume "owner_step me w0 w"
  then have ok: "publisher_ok w" by (simp add: owner_step_def)
  let ?P = "\<lambda>entry. \<exists>name \<in> Option.set_option (de_name entry). publisher_file_id name = file_id"
  have info: "\<exists>info. map_info_info title e = Inr info"
    if "st_publisher w t = Some entries" "List.find ?P (List.map_filter id entries) = Some e" for t title entries e
  proof (rule map_info_ok)
    have "e \<in> set (List.map_filter id entries)" using that(2) by (auto simp: find_Some_iff in_set_conv_nth)
    then have "Some e \<in> set entries" by (induction entries) (auto simp: List.map_filter_simps split: option.splits)
    then show "de_name e \<noteq> None" "de_metadata e \<noteq> None" using ok that(1) unfolding publisher_ok_def by blast+
  qed
  show "\<exists>x. get_publisher_file_data_by_id session file_id w = (x, w) \<and> x \<noteq> Inl Panic"
  proof (cases "st_publisher w (title_to_u32 (a_title auth))")
    case (Some entries)
    show ?thesis
    proof (cases "List.find ?P (List.map_filter id entries)")
      case (Some e)
      obtain i where "map_info_info (a_title auth) e = Inr i" using info [OF \<open>st_publisher w _ = _\<close> Some] by blast
      then show ?thesis using Some \<open>st_publisher w _ = _\<close>
        by (cases "de_data e") (simp_all add: get_publisher_file_data_by_id_def authenticated_def auth)
    qed (simp add: get_publisher_file_data_by_id_def authenticated_def auth Some)
  qed (simp add: get_publisher_file_data_by_id_def authenticated_def auth)
qed

lemma keeps_list:
  assumes auth: "s_authentication session = Some auth"
  shows "keeps True (owner_step me w0) (list_files session owner_id since offset count name_filter)"
proof (rule keeps_reading)
  fix w assume "owner_step me w0 w"
  then have ok: "\<forall>u \<in> set (st_files w). file_ok u" by (simp add: owner_step_def files_ok_def)
  have infos: "\<exists>infos. infos_of title owner_id (take count (drop offset (sort_key uf_id (filter P (st_files w))))) = Inr infos"
    for title P
    using ok by (intro infos_of_ok) (auto dest!: in_set_takeD in_set_dropD)
  define pattern where "pattern = (case name_filter of Some f \<Rightarrow> f @ [0x25] | None \<Rightarrow> [0x25])"
  define visible where "visible = (if a_user_id auth = owner_id then 255 else from_file_visibility VisiblePublic)"
  define P where "P = (\<lambda>u :: user_file. uf_owner_id u = owner_id \<and> uf_title u = title_to_u32 (a_title auth)
    \<and> uf_created_at u \<ge> since \<and> like_plain pattern (uf_filename u) \<and> (uf_visibility u = visible \<or> visible = 255))"
  obtain found where "infos_of (a_title auth) owner_id (take count (drop offset (sort_key uf_id (filter P (st_files w))))) = Inr found"
    using infos by blast
  then show "\<exists>x. list_files session owner_id since offset count name_filter w = (x, w) \<and> x \<noteq> Inl Panic"
    by (simp add: list_files_def authenticated_def auth Let_def statement_def flip: pattern_def visible_def P_def)
qed

lemma keeps_publisher_files:
  assumes auth: "s_authentication session = Some auth"
  shows "keeps True (owner_step me w0) (publisher_files session name_filter since offset count)"
proof (rule keeps_reading)
  fix w assume "owner_step me w0 w"
  then have ok: "publisher_ok w" by (simp add: owner_step_def)
  have infos: "\<exists>infos. publisher_infos title name_filter since offset count entries = Inr infos"
    if "st_publisher w t = Some entries" for t title entries
    using ok that by (intro publisher_infos_ok) (simp add: publisher_ok_def)
  show "\<exists>x. publisher_files session name_filter since offset count w = (x, w) \<and> x \<noteq> Inl Panic"
  proof (cases "st_publisher w (title_to_u32 (a_title auth))")
    case (Some entries)
    obtain infos where "publisher_infos (a_title auth) name_filter since offset count entries = Inr infos"
      using infos [OF Some] by blast
    then show ?thesis using Some by (simp add: publisher_files_def authenticated_def auth)
  qed (simp add: publisher_files_def authenticated_def auth)
qed

section \<open>Every message\<close>

lemma safe_filter [safe_intros]: "safe read_filter"
  unfolding read_filter_def by (intro safe_intros)

definition enc_file_info :: "StorageFileInfo \<Rightarrow> bool list" where
  "enc_file_info v = enc_u32 (ucast (fi_file_size v)) @ enc_u64 (fi_id v)
    @ enc_u32 (word_of_int (fi_created v smod u32_max)) @ enc_u32 (word_of_int (fi_modified v smod u32_max))
    @ enc_bool BitMode True (fi_visibility v = VisiblePrivate) @ enc_bool BitMode True False
    @ enc_u64 (fi_owner_id v) @ enc_str BitMode True (fi_filename v)"

lemma writes_file_info: "writes BitMode True (enc_file_info v) (file_info_serialize v)"
  unfolding enc_file_info_def file_info_serialize_def
  by (intro writes_then writes_u32 writes_u64 writes_bool writes_str_val)

lemma writes_file_data: "writes BitMode True (enc_file_info (sf_info f) @ enc_blob BitMode True (sf_data f)) (file_data_serialize f)"
  unfolding file_data_serialize_def by (intro writes_then writes_file_info writes_blob_val)

lemma result_slice_reply:
  "bindE (with_result_slice op s) (\<lambda>t. liftE (task_to_response t)) = reply_results op (rs_data s)"
  by (simp add: reply_results_def with_results_def with_result_slice_def)

lemma confined_answer_slice [confined_intros]: "confined b session I (answer_for_file_info_slice op result)"
  unfolding answer_for_file_info_slice_def result_slice_reply
  by (intro confined_intros) (auto intro: writable_resultI writes_file_info)

lemma own_user_id_bind:
  "s_authentication session = Some auth \<Longrightarrow> confined b session I (f (a_user_id auth))
    \<Longrightarrow> confined b session I (bindE own_user_id f)"
  by (auto simp: confined_def own_user_id_def bind_the_session bindE_def the_session_def monad_simps)

lemma storage_confined:
  assumes auth: "s_authentication session = Some auth" and r: "reader_inv r"
  shows "confined (sql_fits (a_user_id auth)) session (owner_step (a_user_id auth) w0) (storage_handle env r)"
proof -
  let ?I = "owner_step (a_user_id auth) w0" and ?fits = "sql_fits (a_user_id auth)"
  note ops = keeps_create [OF auth] keeps_update [OF auth, THEN keeps_mono] keeps_get [OF auth, THEN keeps_mono]
    keeps_get_publisher [OF auth, THEN keeps_mono] keeps_list [OF auth, THEN keeps_mono] keeps_publisher_files [OF auth, THEN keeps_mono]
  have create: "confined ?fits session ?I (create_file now r)" if "reader_inv r" for now r
    unfolding create_file_def
    by (intro confined_intros own_user_id_bind [OF auth] ops safe_intros that)
      (auto intro: writable_resultI writes_u64 simp: file_id_serialize_def)
  have update: "confined ?fits session ?I (update_file_by_id now r)" if "reader_inv r" for now r
    unfolding update_file_by_id_def
    by (intro confined_intros own_user_id_bind [OF auth] ops safe_intros that)
  have get: "confined ?fits session ?I (get_file_by_id r)" if "reader_inv r" for r
  proof -
    have "confined ?fits session ?I (case result of Inr file \<Rightarrow> reply_single 5 (file_data_serialize file)
        | Inl e \<Rightarrow> reply_only (storage_error_code e) 5)" for result
      by (intro confined_intros writable_resultI [OF writes_file_data])
    then have "confined ?fits session ?I (bindE (case own of Inr file \<Rightarrow> returnE (Inr file)
        | Inl (_ :: StorageServiceError) \<Rightarrow> on_service (get_publisher_file_data_by_id session file_id))
        (\<lambda>result. case result of Inr file \<Rightarrow> reply_single 5 (file_data_serialize file)
        | Inl e \<Rightarrow> reply_only (storage_error_code e) 5))" for own file_id
      using ops by (cases own) (auto intro: confined_return_bind confined_service)
    then show ?thesis unfolding get_file_by_id_def
      by (intro confined_intros own_user_id_bind [OF auth] ops safe_intros that)
  qed
  have lists: "confined ?fits session ?I (list_files_by_owner r)" "confined ?fits session ?I (handle_list_publisher_files r)"
    if "reader_inv r" for r
    unfolding list_files_by_owner_def handle_list_publisher_files_def list_storage_files_def
      filter_storage_files_def list_publisher_files_def filter_publisher_files_def
    by ((intro confined_intros safe_intros that); simp split: option.split add: ops)+
  show ?thesis unfolding storage_handle_def
    by (intro confined_intros safe_intros r) (auto split: option.split StorageTaskId.split
        intro: create update get lists confined_reply_only)
qed

section \<open>What requests do\<close>

lemma owner_step_refl: "files_ok (st_files w) \<Longrightarrow> publisher_ok w \<Longrightarrow> owner_step me w w"
  unfolding owner_step_def using same_file_refl by blast

lemma storage_answer:
  assumes "files_ok (st_files w)" "publisher_ok w" "s_authentication session = Some auth" "reader_inv r" "tid < 2 ^ 64 - 1"
  obtains x w' where "answer (storage_handle env) (session, tid, r) w = (x, w')"
    "sql_fits (a_user_id auth) \<longrightarrow> x \<noteq> Inl Panic" "owner_step (a_user_id auth) w w'"
proof (rule answer_confined [where I = "owner_step (a_user_id auth) w" and handle = "storage_handle env"
      and session = session and r = r and tid = tid and w = w,
      OF storage_confined [OF assms(3,4)] assms(5) owner_step_refl [OF assms(1,2)]])
  fix x w' assume "answer (storage_handle env) (session, tid, r) w = (x, w')"
    "sql_fits (a_user_id auth) \<Longrightarrow> x \<noteq> Inl Panic" "owner_step (a_user_id auth) w w'"
  then show thesis by (intro that) blast+
qed

text \<open>Requests of users other than \<open>me\<close>, whatever their messages say.\<close>

definition foreign :: "u64 \<Rightarrow> request \<Rightarrow> bool" where
  "foreign me q \<longleftrightarrow> (case q of (session, tid, r) \<Rightarrow> tid < 2 ^ 64 - 1 \<and> reader_inv r
     \<and> (\<exists>auth. s_authentication session = Some auth \<and> sql_fits (a_user_id auth) \<and> a_user_id auth \<noteq> me))"

definition files_of :: "u64 \<Rightarrow> user_file list \<Rightarrow> user_file list" where
  "files_of me = filter (\<lambda>u. uf_owner_id u = me)"

lemma files_of_others: "me \<noteq> you \<Longrightarrow> files_of me (others you files) = files_of me files"
  unfolding files_of_def others_def filter_filter by (rule filter_cong) auto

lemma foreign_requests:
  assumes "list_all (foreign me) qs" "files_ok (st_files w)" "publisher_ok w"
  obtains xs w' where "answers (storage_handle env) qs w = (xs, w')" "Inl Panic \<notin> set xs"
    "files_ok (st_files w')" "publisher_ok w'" "files_of me (st_files w') = files_of me (st_files w)"
proof -
  have "\<exists>xs w'. answers (storage_handle env) qs w = (xs, w') \<and> Inl Panic \<notin> set xs
    \<and> files_ok (st_files w') \<and> publisher_ok w' \<and> files_of me (st_files w') = files_of me (st_files w)"
    using assms
  proof (induction qs arbitrary: w)
    case (Cons q qs)
    obtain session tid r auth where q: "q = (session, tid, r)" "tid < 2 ^ 64 - 1" "reader_inv r"
        "s_authentication session = Some auth" "sql_fits (a_user_id auth)" "a_user_id auth \<noteq> me"
      using Cons.prems(1) by (cases q) (auto simp: foreign_def)
    obtain x w1 where 1: "answer (storage_handle env) (session, tid, r) w = (x, w1)" "x \<noteq> Inl Panic"
        "owner_step (a_user_id auth) w w1"
      using storage_answer [OF Cons.prems(2,3) q(4,3,2)] q(5) by metis
    have w1: "files_ok (st_files w1)" "publisher_ok w1" "files_of me (st_files w1) = files_of me (st_files w)"
      using 1(3) files_of_others [of me "a_user_id auth"] q(6) by (auto simp: owner_step_def) metis
    have "list_all (foreign me) qs" using Cons.prems(1) by simp
    from Cons.IH [OF this w1(1,2)] obtain xs w2 where "answers (storage_handle env) qs w1 = (xs, w2)"
      "Inl Panic \<notin> set xs" "files_ok (st_files w2)" "publisher_ok w2" "files_of me (st_files w2) = files_of me (st_files w1)"
      by blast
    then show ?case using 1(1,2) w1(3) q(1) by auto
  qed simp
  then show thesis using that by blast
qed

text \<open>Uploads and downloads, and what a client reads of a file.\<close>

definition upload :: "BdSession \<Rightarrow> u64 \<Rightarrow> bytes \<Rightarrow> bytes \<Rightarrow> request" where
  "upload session tid name data = (session, tid, message_reader (enc_u8 1 @ enc_u8 0 @ enc_bool BitMode True False
     @ enc_str BitMode True name @ enc_bool BitMode True False @ enc_blob BitMode True data))"

definition download :: "BdSession \<Rightarrow> u64 \<Rightarrow> u64 \<Rightarrow> request" where
  "download session tid file_id = (session, tid, message_reader (enc_u8 5 @ enc_u8 0 @ enc_u64 file_id))"

definition client_read_file :: "(u32 \<times> u64 \<times> u32 \<times> u32 \<times> bool \<times> bool \<times> u64 \<times> bytes \<times> bytes) rd" where
  "client_read_file =
    bindE read_u32 (\<lambda>file_size. bindE read_u64 (\<lambda>file_id. bindE read_u32 (\<lambda>created.
    bindE read_u32 (\<lambda>modified. bindE read_bool (\<lambda>private. bindE read_bool (\<lambda>flag.
    bindE read_u64 (\<lambda>owner_id. bindE read_str (\<lambda>filename. bindE read_blob (\<lambda>data.
    returnE (file_size, file_id, created, modified, private, flag, owner_id, filename, data))))))))))"

lemma reads_file:
  assumes "str_ok BitMode (fi_filename v)" "length data < 2 ^ 32"
  shows "reads BitMode True (enc_file_info v @ enc_blob BitMode True data) client_read_file
    (ucast (fi_file_size v), fi_id v, word_of_int (fi_created v smod u32_max), word_of_int (fi_modified v smod u32_max),
     fi_visibility v = VisiblePrivate, False, fi_owner_id v, fi_filename v, data)"
proof -
  have "reads BitMode True (enc_u32 (ucast (fi_file_size v)) @ enc_u64 (fi_id v)
    @ enc_u32 (word_of_int (fi_created v smod u32_max)) @ enc_u32 (word_of_int (fi_modified v smod u32_max))
    @ enc_bool BitMode True (fi_visibility v = VisiblePrivate) @ enc_bool BitMode True False
    @ enc_u64 (fi_owner_id v) @ enc_str BitMode True (fi_filename v) @ enc_blob BitMode True data @ []) client_read_file
    (ucast (fi_file_size v), fi_id v, word_of_int (fi_created v smod u32_max), word_of_int (fi_modified v smod u32_max),
     fi_visibility v = VisiblePrivate, False, fi_owner_id v, fi_filename v, data)"
    unfolding client_read_file_def
    by (intro reads_bind [OF reads_u32] reads_bind [OF reads_u64] reads_bind [OF reads_bool]
        reads_bind [OF reads_str_val [OF assms(1)]] reads_bind [OF reads_short_blob [OF assms(2)]] reads_return)
  then show ?thesis by (simp add: enc_file_info_def)
qed

lemma upload_runs:
  assumes "str_ok BitMode name" "length data < 2 ^ 32" "s_authentication session = Some auth" "c_session conn = session"
    "upload session tid name data = (session, tid, r)"
  shows "storage_handle env r conn = bindE (on_service (create_storage_file (e_now env) session (a_user_id auth) name
      VisiblePrivate data)) (\<lambda>result. case result of
      Inr info \<Rightarrow> reply_single 1 (file_id_serialize (fi_id info))
    | Inl e \<Rightarrow> reply_only (storage_error_code e) 1) conn"
proof -
  have r: "r = message_reader (enc_u8 1 @ enc_u8 0 @ enc_bool BitMode True False
     @ enc_str BitMode True name @ enc_bool BitMode True False @ enc_blob BitMode True data)"
    using assms(5) by (simp add: upload_def)
  define pad where "pad = replicate (padding (length (enc_u8 1 @ enc_u8 0 @ enc_bool BitMode True False
     @ enc_str BitMode True name @ enc_bool BitMode True False @ enc_blob BitMode True data))) False"
  have 0: "ready BitMode True r" "rbits r = enc_u8 1 @ enc_u8 0 @ enc_bool BitMode True False
     @ enc_str BitMode True name @ enc_bool BitMode True False @ enc_blob BitMode True data @ pad"
    unfolding r pad_def by (simp_all add: message_reader)
  obtain r1 where 1: "read_u8 r = (Inr 1, r1)" "ready BitMode True r1" "rbits r1 = enc_u8 0 @ enc_bool BitMode True False
     @ enc_str BitMode True name @ enc_bool BitMode True False @ enc_blob BitMode True data @ pad"
    using reads_ready [OF reads_u8 0] .
  obtain r2 where 2: "read_u8 r1 = (Inr 0, r2)" "ready BitMode True r2" "rbits r2 = enc_bool BitMode True False
     @ enc_str BitMode True name @ enc_bool BitMode True False @ enc_blob BitMode True data @ pad"
    using reads_ready [OF reads_u8 1(2,3)] .
  obtain r3 where 3: "read_bool r2 = (Inr False, r3)" "ready BitMode True r3"
      "rbits r3 = enc_str BitMode True name @ enc_bool BitMode True False @ enc_blob BitMode True data @ pad"
    using reads_ready [OF reads_bool 2(2,3)] .
  obtain r4 where 4: "read_str r3 = (Inr name, r4)" "ready BitMode True r4"
      "rbits r4 = enc_bool BitMode True False @ enc_blob BitMode True data @ pad"
    using reads_ready [OF reads_str_val [OF assms(1)] 3(2,3)] .
  obtain r5 where 5: "read_bool r4 = (Inr False, r5)" "ready BitMode True r5" "rbits r5 = enc_blob BitMode True data @ pad"
    using reads_ready [OF reads_bool 4(2,3)] .
  obtain r6 where 6: "read_blob r5 = (Inr data, r6)" using reads_ready [OF reads_short_blob [OF assms(2)] 5(2,3)] .
  have own: "bindE own_user_id f conn = f (a_user_id auth) conn" for f :: "u64 \<Rightarrow> (StorageWorld, BdResponse) act"
    using assms(3,4) by (simp add: own_user_id_def bindE_def the_session_def monad_simps)
  show ?thesis using 1(1) 2(1) 3(1) 4(1) 5(1) 6 assms(4)
    by (simp add: storage_handle_def bind_run_rd storage_task_from_u8_def create_file_def own bind_the_session
        bind_run_rd [where m = read_bool, OF 3(1)] bind_run_rd [where m = read_bool, OF 5(1)])
qed

lemma download_runs:
  assumes "s_authentication session = Some auth" "c_session conn = session"
    "download session tid file_id = (session, tid, r)"
    "get_storage_file_data_by_id session (a_user_id auth) file_id (c_world conn) = (Inr (Inr file), c_world conn)"
  shows "storage_handle env r conn = reply_single 5 (file_data_serialize file) conn"
proof -
  have r: "r = message_reader (enc_u8 5 @ enc_u8 0 @ enc_u64 file_id)"
    using assms(3) by (simp add: download_def)
  define pad where "pad = replicate (padding (length (enc_u8 5 @ enc_u8 0 @ enc_u64 file_id))) False"
  have 0: "ready BitMode True r" "rbits r = enc_u8 5 @ enc_u8 0 @ enc_u64 file_id @ pad"
    unfolding r pad_def by (simp_all add: message_reader)
  obtain r1 where 1: "read_u8 r = (Inr 5, r1)" "ready BitMode True r1" "rbits r1 = enc_u8 0 @ enc_u64 file_id @ pad"
    using reads_ready [OF reads_u8 0] .
  obtain r2 where 2: "read_u8 r1 = (Inr 0, r2)" "ready BitMode True r2" "rbits r2 = enc_u64 file_id @ pad"
    using reads_ready [OF reads_u8 1(2,3)] .
  obtain r3 where 3: "read_u64 r2 = (Inr file_id, r3)" using reads_ready [OF reads_u64 2(2,3)] .
  have own: "bindE own_user_id f conn = f (a_user_id auth) conn" for f :: "u64 \<Rightarrow> (StorageWorld, BdResponse) act"
    using assms(1,2) by (simp add: own_user_id_def bindE_def the_session_def monad_simps)
  have ret: "bindE (returnE x) f conn = f x conn" for x and f :: "_ \<Rightarrow> (StorageWorld, BdResponse) act"
    by (simp add: bindE_def monad_simps)
  show ?thesis using 1(1) 2(1) 3 assms(2,4)
    by (simp add: storage_handle_def bind_run_rd storage_task_from_u8_def get_file_by_id_def own bind_the_session
        bind_on_service ret)
qed

lemma upload_stores:
  assumes ok: "files_ok (st_files w)" and auth: "s_authentication session = Some auth" and fits: "sql_fits (a_user_id auth)"
    and len: "length name \<le> MAX_FILENAME_LENGTH" "length data \<le> MAX_USER_FILE_SIZE"
  obtains info w1 u where "create_storage_file now session (a_user_id auth) name VisiblePrivate data w = (Inr (Inr info), w1)"
    "u \<in> set (st_files w1)" "uf_id u < Suc (next_file_id (st_files w))" "fi_id info = of_nat (uf_id u)"
    "uf_owner_id u = a_user_id auth" "uf_filename u = name" "uf_data u = data"
proof -
  let ?key = "\<lambda>u. uf_filename u = name \<and> uf_title u = title_to_u32 (a_title auth) \<and> uf_owner_id u = a_user_id auth"
  show thesis
  proof (cases "find_file [a_user_id auth] ?key w")
    case (Some e)
    have e: "e \<in> set (st_files w)" "?key e" using find_file_Some [OF Some] by simp_all
    show thesis
      by (rule that [of _ _ "e\<lparr>uf_data := data, uf_modified_at := now\<rparr>"])
        (use e len Some next_file_id_fresh [OF e(1)] in
          \<open>auto simp: create_storage_file_def authenticated_def auth Let_def write_file_def image_iff\<close>)
  next
    case None
    let ?u = "\<lparr>uf_id = next_file_id (st_files w), uf_filename = name,
                  uf_title = title_to_u32 (a_title auth), uf_created_at = now, uf_modified_at = now,
                  uf_visibility = 0, uf_owner_id = a_user_id auth, uf_data = data\<rparr>"
    show thesis
      by (rule that [of _ _ ?u])
        (use None len fits in \<open>auto simp: create_storage_file_def authenticated_def auth Let_def statement_def\<close>)
  qed
qed

lemma stored_file_found:
  assumes ok: "files_ok (st_files w)" and u: "u \<in> set (st_files w)" "uf_owner_id u = a_user_id auth" "uf_id u < 2 ^ 63"
    and auth: "s_authentication session = Some auth" and fits: "sql_fits (a_user_id auth)"
  obtains visibility where "get_storage_file_data_by_id session (a_user_id auth) (of_nat (uf_id u)) w
    = (Inr (Inr \<lparr>sf_info = \<lparr>fi_id = of_nat (uf_id u), fi_filename = uf_filename u, fi_title = a_title auth,
        fi_file_size = of_nat (length (uf_data u)), fi_created = uf_created_at u, fi_modified = uf_modified_at u,
        fi_visibility = visibility, fi_owner_id = a_user_id auth\<rparr>, sf_data = uf_data u\<rparr>), w)"
proof -
  let ?i = "of_nat (uf_id u) :: u64"
  have i: "unat ?i = uf_id u" using u(3) by (simp add: unat_of_nat)
  have "v = u" if "v \<in> set (st_files w)" "uf_id v = uf_id u" for v
    using that u(1) ok unfolding files_ok_def distinct_map by (meson inj_onD)
  then have "List.find (\<lambda>v. uf_id v = uf_id u \<and> uf_owner_id v = a_user_id auth) (st_files w) = Some u"
    using u(1,2) by (intro find_only) auto
  then have find: "find_file [?i, a_user_id auth] (\<lambda>v. uf_id v = unat ?i \<and> uf_owner_id v = a_user_id auth) w = Some u"
    using u(3) fits i by (simp add: find_file_def statement_def sql_fits_def)
  obtain visibility where "to_file_visibility (uf_visibility u) = Inr visibility"
    using ok u(1) to_visibility_ok by (auto simp: files_ok_def file_ok_def)
  then show thesis using find that
    by (simp add: get_storage_file_data_by_id_def authenticated_def auth)
qed

lemma alike_read_known:
  assumes "\<And>v r'. m r = (Inr v, r') \<Longrightarrow> alike session A (f v r')"
  shows "alike session A (bindE (run_rd m r) (\<lambda>(v, r'). f v r'))"
proof (cases "m r")
  case (Pair x r')
  show ?thesis
  proof (cases x)
    case (Inl e)
    then show ?thesis using Pair
      by (intro alike_pure [where x = "Inl e"]) (simp add: bindE_def run_rd_def)
  next
    case (Inr v)
    then have "bindE (run_rd m r) (\<lambda>(v, r'). f v r') = f v r'"
      using Pair by (simp add: fun_eq_iff bindE_def run_rd_def)
    then show ?thesis using assms Pair Inr by simp
  qed
qed

section \<open>A filter is no longer than its message\<close>

text \<open>No read changes the bytes of the message.\<close>

definition same_message :: "'a rd \<Rightarrow> bool" where
  "same_message m \<longleftrightarrow> (\<forall>r. r_buf (snd (m r)) = r_buf r)"

named_theorems message_intros \<open>reads that leave the message as it is\<close>

lemma same_messageD: "same_message m \<Longrightarrow> m r = (x, r') \<Longrightarrow> r_buf r' = r_buf r"
  unfolding same_message_def by (metis snd_conv)

lemma same_message_bind [message_intros]:
  assumes "same_message m" "\<And>x. same_message (f x)"
  shows "same_message (bindE m f)"
  unfolding same_message_def
proof
  fix r show "r_buf (snd (bindE m f r)) = r_buf r"
  proof (cases rule: bindE_cases [of m r f])
    case (err e r')
    then show ?thesis using same_messageD [OF assms(1) err(1)] by simp
  next
    case (ok x r')
    then show ?thesis using same_messageD [OF assms(1) ok(1)] assms(2) by (simp add: same_message_def)
  qed
qed

lemma same_message_then [message_intros]: "same_message m \<Longrightarrow> same_message n \<Longrightarrow> same_message (thenE m n)"
  unfolding thenE_def by (intro same_message_bind)

lemma same_message_if [message_intros]:
  "same_message m \<Longrightarrow> same_message n \<Longrightarrow> same_message (\<lambda>r. if b r then m r else n r)"
  by (simp add: same_message_def)

lemma same_message_basic [message_intros]:
  "same_message (returnE x)" "same_message (throwE e)" "same_message (ensureE b e)"
  "same_message (\<lambda>r. (v r, r))" "same_message (cursor_read_exact n)" "same_message (lift_data_type t)"
  by (auto simp: same_message_def monad_simps cursor_read_exact_def lift_data_type_def split: sum.split)

lemma same_message_step: "read_bits_step n r = (x, r') \<Longrightarrow> r_buf r' = r_buf r"
  by (auto simp: read_bits_step_def read_bits_fetch_def bindE_def Let_def cursor_read_u8_def cursor_read_exact_def
      monad_simps split: if_splits prod.splits sum.splits)

lemma read_bits_loop_message:
  "read_bits_loop n i buf r = (x, r') \<Longrightarrow> r_buf r' = r_buf r \<and> (\<forall>bs. x = Inr bs \<longrightarrow> length bs = length buf)"
proof (induction n i buf r rule: read_bits_loop.induct)
  case (1 n i buf r)
  show ?case
  proof (cases "n = 0")
    case True
    then show ?thesis using "1.prems" by (auto simp: read_bits_loop.simps)
  next
    case False
    obtain y r1 where step: "read_bits_step n r = (y, r1)" by fastforce
    show ?thesis
      using "1.prems" "1.IH" [OF False step [symmetric]] False same_message_step [OF step] step
      by (subst (asm) read_bits_loop.simps) (auto split: sum.splits prod.splits if_splits)
  qed
qed

lemma read_bits_message:
  shows "same_message (read_bits buf n)" "read_bits buf n r = (Inr bs, r') \<Longrightarrow> length bs = length buf"
proof -
  have "r_buf (snd (read_bits_loop n 0 buf r)) = r_buf r" for r
    using read_bits_loop_message [of n 0 buf r] by (metis prod.collapse)
  then show "same_message (read_bits buf n)" by (simp add: same_message_def read_bits_def monad_simps)
  show "read_bits buf n r = (Inr bs, r') \<Longrightarrow> length bs = length buf"
    using read_bits_loop_message [of n 0 buf r] by (auto simp: read_bits_def monad_simps split: if_splits)
qed

lemma same_message_data_type [message_intros]: "same_message read_data_type" "same_message next_data_type"
proof -
  have set: "same_message (\<lambda>r. (Inr (v r), r\<lparr>r_has_data_type_cached := False\<rparr>))"
      "same_message (\<lambda>r. (Inr t, r\<lparr>r_cached_data_type := t, r_has_data_type_cached := True\<rparr>))" for v :: "reader \<Rightarrow> BufferDataType" and t
    by (simp_all add: same_message_def)
  show "same_message read_data_type"
    unfolding read_data_type_def cursor_read_u8_def by (intro message_intros set read_bits_message)
  then show "same_message next_data_type"
    unfolding next_data_type_def by (intro message_intros set)
qed

lemma same_message_values [message_intros]:
  "same_message (expect_type t)" "same_message read_u8" "same_message read_u16" "same_message read_u32" "same_message read_u64"
proof -
  show expect: "same_message (expect_type t)" for t
    unfolding expect_type_def by (intro message_intros)
  show "same_message read_u8" "same_message read_u16" "same_message read_u32" "same_message read_u64"
    unfolding read_u8_def read_u16_def read_u32_def read_u64_def read_scalar_def
    by (intro message_intros expect read_bits_message)+
qed

lemma until_inclusive_length: "length (until_inclusive d bs) \<le> length bs"
  using length_takeWhile_le [of "\<lambda>b. b \<noteq> d" bs] by (simp add: until_inclusive_def Let_def)

lemma read_str_loop_length:
  "read_str_loop fuel acc r = (Inr v, r') \<Longrightarrow> length v < length acc + fuel"
proof (induction fuel arbitrary: acc r)
  case (Suc fuel)
  then obtain byte r1 where 1: "read_bits [0] 8 r = (Inr byte, r1)"
      "(if hd byte = 0 then returnE acc else read_str_loop fuel (acc @ byte)) r1 = (Inr v, r')"
    by (auto elim: bindE_Inr_E)
  then have "length byte = 1" using read_bits_message(2) by fastforce
  then show ?case using 1(2) Suc.IH [of "acc @ byte" r1] by (auto simp: monad_simps split: if_splits)
qed (simp add: monad_simps)

lemma read_str_length:
  assumes "read_str r = (Inr v, r')"
  shows "length v \<le> Suc (length (r_buf r))"
proof -
  obtain r1 where 1: "expect_type SignedChar8StringType r = (Inr (), r1)"
      "(if r_mode r1 = BitMode then bindE (read_str_loop (Suc (length (r_buf r1) + 1)) []) from_utf8 r1
        else cursor_read_c_string r1) = (Inr v, r')"
    using assms unfolding read_str_def by (auto elim: thenE_Inr_E)
  have buf: "r_buf r1 = r_buf r" using same_messageD [OF same_message_values(1) 1(1)] .
  show ?thesis
  proof (cases "r_mode r1 = BitMode")
    case True
    then obtain bs r2 where 2: "read_str_loop (Suc (length (r_buf r1) + 1)) [] r1 = (Inr bs, r2)" "from_utf8 bs r2 = (Inr v, r')"
      using 1(2) by (auto elim: bindE_Inr_E simp del: read_str_loop.simps)
    then have "v = bs" by (simp add: from_utf8_def monad_simps split: if_splits)
    then show ?thesis using read_str_loop_length [OF 2(1)] buf by simp
  next
    case False
    then have "length v \<le> length (until_inclusive 0 (cursor_rest r1))"
      using 1(2) by (auto simp: cursor_read_c_string_def cursor_read_until_def bindE_def from_utf8_def Let_def monad_simps
          split: if_splits)
    then show ?thesis using until_inclusive_length [of 0 "cursor_rest r1"] buf by (simp add: cursor_rest_def)
  qed
qed

lemma read_filter_length:
  assumes "read_filter r = (Inr (Some f), r')"
  shows "length f \<le> Suc (length (r_buf r))"
proof -
  obtain b r1 where 1: "okE (next_is SignedChar8StringType) False r = (Inr b, r1)"
      "(if b then bindE read_str (\<lambda>f. returnE (Some f)) else returnE None) r1 = (Inr (Some f), r')"
    using assms unfolding read_filter_def by (rule bindE_Inr_E)
  have "same_message (next_is SignedChar8StringType)" unfolding next_is_def by (intro message_intros)
  then have "r_buf r1 = r_buf r"
    using 1(1) by (auto simp: okE_def same_message_def split: prod.splits sum.splits) (metis snd_conv)+
  moreover obtain r2 where "read_str r1 = (Inr f, r2)"
    using 1(2) by (auto simp: monad_simps split: if_splits elim!: bindE_Inr_E)
  ultimately show ?thesis using read_str_length by metis
qed

section \<open>Reading is blind for the private files of others\<close>

definition visible_to :: "u64 \<Rightarrow> user_file \<Rightarrow> bool" where
  "visible_to me u \<longleftrightarrow> uf_owner_id u = me \<or> uf_visibility u = 1"

definition same_view :: "u64 \<Rightarrow> StorageWorld \<Rightarrow> StorageWorld \<Rightarrow> bool" where
  "same_view me w1 w2 \<longleftrightarrow> filter (visible_to me) (st_files w1) = filter (visible_to me) (st_files w2)
     \<and> st_publisher w1 = st_publisher w2"

lemma find_view: "(\<And>x. P x \<Longrightarrow> Q x) \<Longrightarrow> List.find P xs = List.find P (filter Q xs)"
  by (induction xs) auto

lemma filter_view: "(\<And>x. P x \<Longrightarrow> Q x) \<Longrightarrow> filter P xs = filter P (filter Q xs)"
  unfolding filter_filter by (rule filter_cong) auto

text \<open>A service operation that reads two worlds: the same result, and no change.\<close>

definition reads_alike :: "StorageWorld \<Rightarrow> StorageWorld \<Rightarrow> 'a storage \<Rightarrow> bool" where
  "reads_alike w1 w2 m \<longleftrightarrow> (\<exists>x. m w1 = (x, w1) \<and> m w2 = (x, w2))"

lemma reads_alike_service: "reads_alike w1 w2 m \<Longrightarrow> alike_service (\<lambda>u1 u2. u1 = w1 \<and> u2 = w2) m"
  by (auto simp: reads_alike_def alike_service_def)

lemma get_alike:
  assumes "same_view (a_user_id auth) w1 w2" "s_authentication session = Some auth"
  shows "reads_alike w1 w2 (get_storage_file_data_by_id session owner_id file_id)"
proof (cases "a_user_id auth = owner_id")
  case True
  let ?P = "\<lambda>u. uf_id u = unat file_id \<and> uf_owner_id u = owner_id"
  have "List.find ?P (st_files w1) = List.find ?P (st_files w2)"
    using assms(1) find_view [of ?P "visible_to (a_user_id auth)"] True
    by (metis (no_types, lifting) same_view_def visible_to_def)
  then have "find_file [file_id, owner_id] ?P w1 = find_file [file_id, owner_id] ?P w2"
    by (simp add: find_file_def statement_def)
  then show ?thesis using True
    by (simp add: reads_alike_def get_storage_file_data_by_id_def authenticated_def assms(2) split: option.split sum.split)
qed (simp add: reads_alike_def get_storage_file_data_by_id_def authenticated_def assms(2) refuse_def monad_simps)

text \<open>A list shows the same, unless its filter is so long that LIKE refuses it: then the answer tells
  whether there is a row to refuse it for.\<close>

lemma list_alike:
  assumes view: "same_view (a_user_id auth) w1 w2" and auth: "s_authentication session = Some auth"
    and short: "\<And>f. name_filter = Some f \<Longrightarrow> length f < LIKE_LIMIT"
  shows "reads_alike w1 w2 (list_files session owner_id since offset count name_filter)"
proof -
  define pattern where "pattern = (case name_filter of Some f \<Rightarrow> f @ [0x25] | None \<Rightarrow> [0x25])"
  define visible where "visible = (if a_user_id auth = owner_id then 255 else from_file_visibility VisiblePublic)"
  define P where "P = (\<lambda>u :: user_file. uf_owner_id u = owner_id \<and> uf_title u = title_to_u32 (a_title auth)
    \<and> uf_created_at u \<ge> since \<and> like_plain pattern (uf_filename u) \<and> (uf_visibility u = visible \<or> visible = 255))"
  have len: "length pattern \<le> LIKE_LIMIT" using short by (cases name_filter) (simp_all add: pattern_def LIKE_LIMIT_def less_eq_Suc_le)
  have "P u \<Longrightarrow> visible_to (a_user_id auth) u" for u
    by (auto simp: P_def visible_def visible_to_def split: if_splits)
  then have shown: "filter P (st_files w) = filter P (filter (visible_to (a_user_id auth)) (st_files w))" for w
    by (rule filter_view)
  have "filter (visible_to (a_user_id auth)) (st_files w1) = filter (visible_to (a_user_id auth)) (st_files w2)"
    using view by (simp add: same_view_def)
  then have "filter P (st_files w1) = filter P (st_files w2)"
    by (simp only: shown [of w1] shown [of w2])
  moreover define result where "result = (\<lambda>files.
    if \<not> sql_fits owner_id then Inr (Inl StorageFileNotFoundError)
    else case infos_of (a_title auth) owner_id (take count (drop offset (sort_key uf_id files))) of
      Inl e \<Rightarrow> Inl e | Inr infos \<Rightarrow> Inr (Inr (result_slice_new infos offset)))"
  have "list_files session owner_id since offset count name_filter w = (result (filter P (st_files w)), w)" for w
    using len by (cases "sql_fits owner_id") (simp_all add: result_def list_files_def authenticated_def auth Let_def statement_def
        not_less flip: pattern_def visible_def P_def split: sum.split)
  ultimately show ?thesis by (simp add: reads_alike_def)
qed

lemma publisher_alike:
  assumes "same_view me w1 w2" "s_authentication session = Some auth"
  shows "reads_alike w1 w2 (publisher_files session name_filter since offset count)"
    "reads_alike w1 w2 (get_publisher_file_data_by_id session file_id)"
proof -
  have "st_publisher w1 = st_publisher w2" using assms(1) by (simp add: same_view_def)
  then show "reads_alike w1 w2 (publisher_files session name_filter since offset count)"
    "reads_alike w1 w2 (get_publisher_file_data_by_id session file_id)"
    by (simp_all add: reads_alike_def publisher_files_def get_publisher_file_data_by_id_def authenticated_def assms(2)
        split: option.split sum.split)
qed

lemma storage_alike:
  assumes view: "same_view (a_user_id auth) w1 w2" and auth: "s_authentication session = Some auth"
    and task: "fst (read_u8 r) \<notin> {Inr 1, Inr 2}" and short: "Suc (Suc (length (r_buf r))) \<le> LIKE_LIMIT"
  shows "alike session (\<lambda>u1 u2. u1 = w1 \<and> u2 = w2) (storage_handle env r)"
proof -
  let ?A = "\<lambda>u1 u2. u1 = w1 \<and> u2 = w2"
  note ops = get_alike [OF view auth] publisher_alike [OF view auth]
  have slice: "alike session ?A (answer_for_file_info_slice op result)" for op result
    unfolding answer_for_file_info_slice_def result_slice_reply by (intro alike_intros)
  have own: "alike session ?A (bindE own_user_id f)" if "\<And>x. alike session ?A (f x)" for f :: "u64 \<Rightarrow> (StorageWorld, BdResponse) act"
    unfolding own_user_id_def
    by (rule alike_bind [OF alike_session_bind that]) (simp add: auth alike_return)
  have get: "alike session ?A (get_file_by_id r)" for r
    unfolding get_file_by_id_def
    by (intro alike_bind alike_split alike_run_rd own alike_session_bind alike_on_service reads_alike_service ops
        alike_case_sum alike_return alike_replies alike_reply_single)
  have publisher: "alike session ?A (handle_list_publisher_files r)" for r
    unfolding handle_list_publisher_files_def list_publisher_files_def filter_publisher_files_def
    by ((rule alike_session_bind alike_bind alike_split alike_run_rd alike_on_service reads_alike_service slice)+;
        auto split: option.split intro: ops slice)
  have list: "alike session ?A (list_files_by_owner r2)" if "r_buf r2 = r_buf r" for r2
    unfolding list_files_by_owner_def list_storage_files_def filter_storage_files_def
  proof (rule alike_read_known, rule alike_read_known, rule alike_read_known, rule alike_read_known)
    fix owner_id r3 since r4 count r5 name_filter r6
    assume reads: "read_u64 r2 = (Inr owner_id, r3)" "read_u32 r3 = (Inr since, r4)" "read_u16 r4 = (Inr count, r5)"
        "read_filter r5 = (Inr name_filter, r6)"
    have "r_buf r5 = r_buf r"
      using same_messageD [where m = read_u64, OF _ reads(1)] same_messageD [where m = read_u32, OF _ reads(2)]
        same_messageD [where m = read_u16, OF _ reads(3)] that same_message_values by metis
    then have "length f < LIKE_LIMIT" if "name_filter = Some f" for f
      using read_filter_length [of r5 f r6] reads(4) short that by simp
    note shown = list_alike [OF view auth this]
    show "alike session ?A (bindE the_session (\<lambda>session. bindE (on_service (case name_filter of
        None \<Rightarrow> list_files session owner_id (uint since) 0 (unat count) None
      | Some f \<Rightarrow> list_files session owner_id (uint since) 0 (unat count) (Some f))) (answer_for_file_info_slice 7)))"
      by (cases name_filter) (auto intro!: alike_bind alike_session_bind alike_on_service reads_alike_service slice shown)
  qed
  show ?thesis unfolding storage_handle_def
  proof (rule alike_read_known, rule alike_read_known)
    fix v r1 u r2 assume read: "read_u8 r = (Inr v, r1)" "read_u8 r1 = (Inr u, r2)"
    then have "v \<noteq> 1" "v \<noteq> 2" using task by auto
    moreover have "r_buf r2 = r_buf r" 
      using same_messageD [where m = read_u8, OF _ read(1)] same_messageD [where m = read_u8, OF _ read(2)] same_message_values(2) by metis
    ultimately show "alike session ?A (case storage_task_from_u8 v of
        None \<Rightarrow> reply_only ServiceNotAvailable v
      | Some task \<Rightarrow> (case task of
          CreateFile \<Rightarrow> create_file (e_now env) r2
        | UpdateFileById \<Rightarrow> update_file_by_id (e_now env) r2
        | GetFileById \<Rightarrow> get_file_by_id r2
        | ListFilesByOwner \<Rightarrow> list_files_by_owner r2
        | ListPublisherFiles \<Rightarrow> handle_list_publisher_files r2))"
      by (simp add: storage_task_from_u8_def get list publisher alike_replies)
  qed
qed

section \<open>Properties\<close>

text \<open>
  C28. Only the owner changes a file. As long as the entries of the publisher's directories have
  readable names and metadata and the session's transaction numbers are not used up: whatever a
  user sends to the storage service - any bytes, whole or broken - the table of files stays in
  order (ids and names are unique, sizes and names within their limits), the files of all other
  users are exactly what they were, and every file of the user is still there with its id, name
  and visibility. If the user's id is below two to the 63rd, as the database wants it, the
  handler does not panic either; with a greater one an upload does (\<open>huge_id_upload_panics\<close>).
\<close>

theorem storage_owner_only:
  assumes "files_ok (st_files w)" "publisher_ok w" "s_authentication session = Some auth"
    and "reader_inv r" "tid < 2 ^ 64 - 1"
  shows "\<exists>x w'. answer (storage_handle env) (session, tid, r) w = (x, w')
    \<and> (sql_fits (a_user_id auth) \<longrightarrow> x \<noteq> Inl Panic)
    \<and> files_ok (st_files w') \<and> st_publisher w' = st_publisher w
    \<and> others (a_user_id auth) (st_files w') = others (a_user_id auth) (st_files w)
    \<and> (\<forall>u \<in> set (st_files w). \<exists>v \<in> set (st_files w'). same_file u v)"
proof -
  obtain x w' where "answer (storage_handle env) (session, tid, r) w = (x, w')"
      "sql_fits (a_user_id auth) \<longrightarrow> x \<noteq> Inl Panic" "owner_step (a_user_id auth) w w'"
    by (rule storage_answer [OF assms])
  then show ?thesis unfolding owner_step_def by blast
qed

text \<open>
  A user id that the database cannot hold, from two to the 63rd on, makes an upload panic: the
  statements that name it fail, and the insertion expects to succeed. The Steam login takes
  such an id from the client.
\<close>

theorem huge_id_upload_panics:
  assumes "s_authentication session = Some auth" "\<not> sql_fits (a_user_id auth)"
    and "str_ok BitMode name" "length name \<le> MAX_FILENAME_LENGTH" "length data \<le> MAX_USER_FILE_SIZE"
  shows "answer (storage_handle env) (upload session tid name data) w = (Inl Panic, w)"
proof -
  have len: "length data < 2 ^ 32" using assms(5) by (simp add: MAX_USER_FILE_SIZE_def)
  obtain r where r: "upload session tid name data = (session, tid, r)" by (simp add: upload_def)
  have create: "create_storage_file now session (a_user_id auth) name VisiblePrivate data w = (Inl Panic, w)" for now
    using assms(2,4,5) by (simp add: create_storage_file_def authenticated_def assms(1) Let_def find_file_def statement_def)
  show ?thesis
    by (simp add: answer_def r upload_runs [OF assms(3) len assms(1) _ r] bind_on_service_err create)
qed

definition storage_user :: "u64 \<Rightarrow> BdSession" where
  "storage_user i = \<lparr>s_id = 4, s_authentication = Some \<lparr>a_user_id = i, a_username = [0x61],
     a_session_key = [], a_title = Iw4\<rparr>\<rparr>"

lemma storage_user: "s_authentication (storage_user i) = Some \<lparr>a_user_id = i, a_username = [0x61],
    a_session_key = [], a_title = Iw4\<rparr>"
  by (simp add: storage_user_def)

definition stored :: "nat \<Rightarrow> u64 \<Rightarrow> bytes \<Rightarrow> user_file" where
  "stored i owner data = \<lparr>uf_id = i, uf_filename = [0x66], uf_title = 2010, uf_created_at = 5,
     uf_modified_at = 5, uf_visibility = 0, uf_owner_id = owner, uf_data = data\<rparr>"

definition storage_of :: "user_file list \<Rightarrow> StorageWorld" where
  "storage_of files = \<lparr>st_files = files, st_publisher = \<lambda>_. None\<rparr>"

definition storage_env :: env where
  "storage_env = \<lparr>e_now = 9, e_fresh_key = [], e_fresh_iv = [], e_seeds = \<lambda>_. 0\<rparr>"

lemma storage_of_ok:
  "publisher_ok (storage_of files)"
  "files_ok (st_files (storage_of []))"
  "length data \<le> 100 \<Longrightarrow> sql_fits owner \<Longrightarrow> files_ok (st_files (storage_of [stored i owner data]))"
  by (simp_all add: publisher_ok_def storage_of_def files_ok_def file_ok_def stored_def
      MAX_USER_FILE_SIZE_def MAX_FILENAME_LENGTH_def)

theorem storage_owner_only_witness:
  "\<exists>x w'. answer (storage_handle storage_env)
      (upload (storage_user 7) 3 [0x66] [1, 2]) (storage_of [stored 1 8 [3]]) = (x, w')
    \<and> x \<noteq> Inl Panic \<and> others 7 (st_files w') = [stored 1 8 [3]]"
proof -
  have fits: "sql_fits (a_user_id \<lparr>a_user_id = 7, a_username = [0x61], a_session_key = [], a_title = Iw4\<rparr>)"
    by (simp add: sql_fits_def)
  have inv: "reader_inv (message_reader bits)" for bits using message_reader(1) readyD(1) by blast
  have files: "files_ok (st_files (storage_of [stored 1 8 [3]]))" by (rule storage_of_ok(3)) (simp_all add: sql_fits_def)
  have mine: "others 7 (st_files (storage_of [stored 1 8 [3]])) = [stored 1 8 [3]]"
    by (simp add: others_def storage_of_def stored_def)
  have tid: "(3 :: u64) < 2 ^ 64 - 1" by simp
  let ?bits = "enc_u8 1 @ enc_u8 0 @ enc_bool BitMode True False
     @ enc_str BitMode True [0x66] @ enc_bool BitMode True False @ enc_blob BitMode True [1, 2]"
  have sent: "upload (storage_user 7) 3 [0x66] [1, 2] = (storage_user 7, 3, message_reader ?bits)" by (simp only: upload_def)
  obtain x w' where "answer (storage_handle storage_env) (storage_user 7, 3, message_reader ?bits) (storage_of [stored 1 8 [3]]) = (x, w')"
      "sql_fits 7 \<longrightarrow> x \<noteq> Inl Panic" "others 7 (st_files w') = others 7 (st_files (storage_of [stored 1 8 [3]]))"
    using storage_owner_only [where env = storage_env, OF files storage_of_ok(1) storage_user [of 7] inv [of ?bits] tid]
    unfolding SessionAuthentication.select_convs(1) by (elim exE conjE) (rule that)
  then show ?thesis using mine fits unfolding sent SessionAuthentication.select_convs(1) by auto
qed

theorem huge_id_upload_panics_witness:
  "answer (storage_handle storage_env) (upload (storage_user (2 ^ 63)) 3 [0x66] [1, 2]) (storage_of []) = (Inl Panic, storage_of [])"
  by (rule huge_id_upload_panics [OF storage_user])
    (simp_all add: sql_fits_def str_ok_def utf8_valid.simps utf8_char_len_def word_less_nat_alt MAX_FILENAME_LENGTH_def MAX_USER_FILE_SIZE_def)

text \<open>
  C29. The private files of others cannot be read. If two states of the store differ only in
  private files of other users, then every message of a user of at most 49998 bytes that is no
  upload (its first value is neither 1 nor 2) gets the same answer in both, byte for byte, and
  changes nothing - so what downloads and lists tell a user does not depend on files that are
  not its own and not public. A longer message can carry a filter that LIKE refuses.
\<close>

theorem private_files_unread:
  assumes "same_view (a_user_id auth) w1 w2" "s_authentication session = Some auth"
    and "fst (read_u8 r) \<notin> {Inr 1, Inr 2}" "length (r_buf r) \<le> 49998"
  shows "\<exists>x. answer (storage_handle env) (session, tid, r) w1 = (x, w1)
    \<and> answer (storage_handle env) (session, tid, r) w2 = (x, w2)"
proof -
  have "Suc (Suc (length (r_buf r))) \<le> LIKE_LIMIT" using assms(4) by (simp add: LIKE_LIMIT_def)
  then show ?thesis
    by (rule answer_alike [where handle = "storage_handle env" and session = session and r = r and tid = tid
          and ?w1.0 = w1 and ?w2.0 = w2, OF storage_alike [OF assms(1-3)]]) auto
qed

text \<open>
  A filter of 50000 bytes tells a stranger whether a user has any files at all, the private ones
  included: with one the list fails, without one it is empty.
\<close>

theorem long_filter_reveals:
  assumes auth: "s_authentication session = Some auth" and other: "a_user_id auth \<noteq> owner" "sql_fits owner"
    and long: "LIKE_LIMIT \<le> length f" "0 < count"
    and row: "uf_owner_id u = owner" "uf_title u = title_to_u32 (a_title auth)" "since \<le> uf_created_at u" "uf_visibility u = 0"
  shows "filter_storage_files session owner since 0 count f (w\<lparr>st_files := [u]\<rparr>)
      = (Inr (Inl StorageFileNotFoundError), w\<lparr>st_files := [u]\<rparr>)
    \<and> filter_storage_files session owner since 0 count f (w\<lparr>st_files := []\<rparr>)
      = (Inr (Inr (result_slice_new [] 0)), w\<lparr>st_files := []\<rparr>)"
  using assms by (simp add: filter_storage_files_def list_files_def authenticated_def auth Let_def statement_def)

theorem long_filter_reveals_witness:
  "fst (filter_storage_files (storage_user 7) 8 0 0 10 (replicate 50000 0x61) (storage_of [stored 1 8 [3]]))
      = Inr (Inl StorageFileNotFoundError)
    \<and> fst (filter_storage_files (storage_user 7) 8 0 0 10 (replicate 50000 0x61) (storage_of []))
      = Inr (Inr (result_slice_new [] 0))"
  using long_filter_reveals [OF storage_user, of 7 8 "replicate 50000 0x61" 10 "stored 1 8 [3]" 0 "storage_of []"]
  by (simp add: stored_def storage_of_def sql_fits_def LIKE_LIMIT_def)

theorem private_files_unread_witness:
  "\<exists>x. answer (storage_handle storage_env)
      (download (storage_user 7) 3 1) (storage_of [stored 1 8 [3]]) = (x, storage_of [stored 1 8 [3]])
    \<and> answer (storage_handle storage_env)
      (download (storage_user 7) 3 1) (storage_of []) = (x, storage_of [])"
proof -
  let ?auth = "\<lparr>a_user_id = 7, a_username = [0x61], a_session_key = [], a_title = Iw4\<rparr>"
  have view: "same_view (a_user_id ?auth) (storage_of [stored 1 8 [3]]) (storage_of [])"
    by (simp add: same_view_def storage_of_def stored_def visible_to_def)
  have task: "fst (read_u8 (message_reader (enc_u8 5 @ bits))) \<notin> {Inr 1, Inr 2}" for bits
  proof -
    have "rbits (message_reader (enc_u8 5 @ bits)) = enc_u8 5 @ (bits @ replicate (padding (length (enc_u8 5 @ bits))) False)"
      by (simp add: message_reader)
    then obtain r' where "read_u8 (message_reader (enc_u8 5 @ bits)) = (Inr 5, r')"
      by (rule reads_ready [OF reads_u8 message_reader(1)])
    then show ?thesis by simp
  qed
  show ?thesis unfolding download_def
    by (rule private_files_unread [OF view storage_user task])
      (simp add: message_reader_def reader_in_def reader_new_def length_pack padding_def enc_scalar_def tagged_def tag_bits_def)
qed

text \<open>
  C30. What a user uploads it downloads. An upload of a file with an admissible name and size
  is answered with an id, and whatever messages other users send after it, a download of
  that id is answered with the owner, the name, the size and the bytes of the upload.
\<close>

theorem stored_file_read_back:
  assumes ok: "files_ok (st_files w)" "publisher_ok w" "next_file_id (st_files w) < 2 ^ 63 - 1"
    and user: "s_authentication session = Some auth" "sql_fits (a_user_id auth)"
    and named: "str_ok BitMode name" "length name \<le> MAX_FILENAME_LENGTH" "length data \<le> MAX_USER_FILE_SIZE"
    and tids: "tid < 2 ^ 64 - 1" "tid' < 2 ^ 64 - 1"
    and qs: "list_all (foreign (a_user_id auth)) qs"
  shows "\<exists>reply w1 i xs w2 answered created modified private.
    answer (storage_handle env) (upload session tid name data) w = (Inr (encrypted_if_available reply), w1)
    \<and> fst (client_read_single read_u64 (reader_new reply)) = Inr (1, tid, 0, 1, i)
    \<and> answers (storage_handle env') qs w1 = (xs, w2)
    \<and> answer (storage_handle env'') (download session tid' i) w2 = (Inr (encrypted_if_available answered), w2)
    \<and> fst (client_read_single client_read_file (reader_new answered)) = Inr (1, tid', 0, 5,
        (of_nat (length data), i, created, modified, private, False, a_user_id auth, name, data))"
proof -
  have len: "length data < 2 ^ 32" using named(3) by (simp add: MAX_USER_FILE_SIZE_def)
  obtain info w1 u where u: "create_storage_file (e_now env) session (a_user_id auth) name VisiblePrivate data w = (Inr (Inr info), w1)"
    "u \<in> set (st_files w1)" "uf_id u < Suc (next_file_id (st_files w))" "fi_id info = of_nat (uf_id u)"
    "uf_owner_id u = a_user_id auth" "uf_filename u = name" "uf_data u = data"
    by (rule upload_stores [OF ok(1) user named(2,3)])
  have "owner_step (a_user_id auth) w w1"
    using keeps_create [OF user(1), of w "e_now env" name data] owner_step_refl [OF ok(1,2)] u(1)
    by (metis keeps_def snd_conv)
  then have ok1: "files_ok (st_files w1)" "publisher_ok w1" by (simp_all add: owner_step_def)
  obtain r where r: "upload session tid name data = (session, tid, r)" by (simp add: upload_def)
  let ?conn = "\<lparr>c_session = session, c_sent = [], c_transaction = tid, c_world = w\<rparr> :: StorageWorld conn"
  have single: "c_transaction (?conn\<lparr>c_world := w1\<rparr>) < 2 ^ 64 - 1" using tids(1) by simp
  obtain reply where reply: "reply_single 1 (file_id_serialize (fi_id info)) (?conn\<lparr>c_world := w1\<rparr>)
      = (Inr (encrypted_if_available reply), ?conn\<lparr>c_world := w1, c_transaction := tid + 1\<rparr>)"
    "\<forall>extra. fst (client_read_single read_u64 (reader_new (reply @ extra))) = Inr (1, tid, 0, 1, of_nat (uf_id u))"
    using reply_single_ok [where op = 1 and v = "fi_id info", OF single writes_u64 reads_u64] u(4)
    by (auto simp: file_id_serialize_def)
  have uploaded: "answer (storage_handle env) (upload session tid name data) w = (Inr (encrypted_if_available reply), w1)"
    using u(1) reply(1)
    by (simp add: answer_def r upload_runs [OF named(1) len user(1) _ r] bind_on_service)
  obtain xs w2 where w2: "answers (storage_handle env') qs w1 = (xs, w2)" "files_ok (st_files w2)"
    "files_of (a_user_id auth) (st_files w2) = files_of (a_user_id auth) (st_files w1)"
    using foreign_requests [OF qs ok1] by blast
  have "u \<in> set (files_of (a_user_id auth) (st_files w1))" using u(2,5) by (simp add: files_of_def)
  then have u2: "u \<in> set (st_files w2)" using w2(3) by (metis files_of_def filter_is_subset subsetD)
  have fits: "uf_id u < 2 ^ 63" using u(3) ok(3) by simp
  obtain v where found: "get_storage_file_data_by_id session (a_user_id auth) (of_nat (uf_id u)) w2
    = (Inr (Inr \<lparr>sf_info = \<lparr>fi_id = of_nat (uf_id u), fi_filename = uf_filename u, fi_title = a_title auth,
        fi_file_size = of_nat (length (uf_data u)), fi_created = uf_created_at u, fi_modified = uf_modified_at u,
        fi_visibility = v, fi_owner_id = a_user_id auth\<rparr>, sf_data = uf_data u\<rparr>), w2)"
    (is "_ = (Inr (Inr ?file), w2)")
    by (rule stored_file_found [OF w2(2) u2 u(5) fits user])
  obtain r' where r': "download session tid' (of_nat (uf_id u)) = (session, tid', r')" by (simp add: download_def)
  have size: "ucast (of_nat (length data) :: u64) = (of_nat (length data) :: u32)"
    using len by (simp add: unsigned_of_nat take_bit_nat_eq_self)
  let ?conn' = "\<lparr>c_session = session, c_sent = [], c_transaction = tid', c_world = w2\<rparr> :: StorageWorld conn"
  have single': "c_transaction ?conn' < 2 ^ 64 - 1" using tids(2) by simp
  obtain answered where answered: "reply_single 5 (file_data_serialize ?file) ?conn'
      = (Inr (encrypted_if_available answered), ?conn'\<lparr>c_transaction := tid' + 1\<rparr>)"
    "\<forall>extra. fst (client_read_single client_read_file (reader_new (answered @ extra))) = Inr (1, tid', 0, 5,
       (of_nat (length data), of_nat (uf_id u), word_of_int (uf_created_at u smod u32_max),
        word_of_int (uf_modified_at u smod u32_max), v = VisiblePrivate, False, a_user_id auth, name, data))"
    using reply_single_ok [where op = 5, OF single' writes_file_data [of ?file] reads_file [of "sf_info ?file" "sf_data ?file"]]
      named(1) len u(6,7) by (auto simp: size)
  have "answer (storage_handle env'') (download session tid' (of_nat (uf_id u))) w2 = (Inr (encrypted_if_available answered), w2)"
    using answered(1) by (simp add: answer_def r' download_runs [OF user(1) _ r'] found)
  then show ?thesis using uploaded reply(2) [rule_format, of "[]"] w2(1) answered(2) [rule_format, of "[]"]
    unfolding append_Nil2 by blast
qed

theorem stored_file_read_back_witness:
  "\<exists>reply w1 i xs w2 answered created modified private.
    answer (storage_handle storage_env) (upload (storage_user 7) 3 [0x66] [1, 2]) (storage_of []) = (Inr (encrypted_if_available reply), w1)
    \<and> fst (client_read_single read_u64 (reader_new reply)) = Inr (1, 3, 0, 1, i)
    \<and> answers (storage_handle storage_env) [upload (storage_user 8) 0 [0x66] [3]] w1 = (xs, w2)
    \<and> answer (storage_handle storage_env) (download (storage_user 7) 4 i) w2 = (Inr (encrypted_if_available answered), w2)
    \<and> fst (client_read_single client_read_file (reader_new answered)) = Inr (1, 4, 0, 5,
        (2, i, created, modified, private, False, 7, [0x66], [1, 2]))"
proof -
  let ?auth = "\<lambda>i. \<lparr>a_user_id = i, a_username = [0x61], a_session_key = [], a_title = Iw4\<rparr>"
  have fits: "sql_fits (a_user_id (?auth 7))" "sql_fits (a_user_id (?auth 8))" by (simp_all add: sql_fits_def)
  have inv: "reader_inv (message_reader bits)" for bits using message_reader(1) readyD(1) by blast
  have foreign: "list_all (foreign (a_user_id (?auth 7))) [upload (storage_user 8) 0 [0x66] [3]]"
    using fits(2) by (simp add: foreign_def upload_def inv storage_user)
  have name: "str_ok BitMode [0x66]" "length [0x66 :: u8] \<le> MAX_FILENAME_LENGTH" "length [1, 2 :: u8] \<le> MAX_USER_FILE_SIZE"
    by (simp_all add: str_ok_def utf8_valid.simps utf8_char_len_def word_less_nat_alt MAX_FILENAME_LENGTH_def MAX_USER_FILE_SIZE_def)
  have ids: "next_file_id (st_files (storage_of [])) < 2 ^ 63 - 1" by (simp add: storage_of_def next_file_id_def)
  show ?thesis
    using stored_file_read_back [OF storage_of_ok(2,1) ids storage_user fits(1) name _ _ foreign,
        of 3 4 storage_env storage_env storage_env] by simp
qed

end
