(* ===== verification/Stream_Store.thy ===== *)
theory Stream_Store
  imports Handler_Logic Storage_Files "HOL-Library.Signed_Division"
begin

text \<open>
  The content streaming services (dw-server/src/lobby/content_streaming): streams of users, which
  are announced over the lobby and then uploaded, downloaded and deleted over HTTP under
  tokens that the lobby hands out, and streams of the publisher, which the server lists from
  a directory that it rereads every minute. The signed tokens are those of a library: how
  claims are encoded and when a token is accepted is an argument. So is the order of the rows
  of a statement that asks for none.
\<close>

section \<open>Streams\<close>

record StreamTag =
  tag_primary :: u64
  tag_secondary :: u64

record StreamInfo =
  si_id :: u64
  si_filename :: bytes
  si_title :: Title
  si_stream_size :: u64
  si_summary_file_size :: u64
  si_created :: int
  si_modified :: int
  si_owner_id :: u64
  si_owner_name :: bytes
  si_url :: bytes
  si_metadata :: bytes
  si_category :: u16
  si_slot :: u16
  si_tags :: "StreamTag list"
  si_num_copies_made :: u32
  si_origin_id :: u64

record StreamCreationRequest =
  scr_filename :: bytes
  scr_slot :: u16
  scr_file_size :: u64
  scr_category :: u16
  scr_checksum :: bytes
  scr_client_locale :: bytes

record StreamUrl =
  su_stream_id :: u64
  su_url :: bytes
  su_server_type :: u16
  su_server_index :: bytes

record UploadedStream =
  ups_filename :: bytes
  ups_slot :: u16
  ups_server_type :: u16
  ups_server_index :: bytes
  ups_file_size :: u64
  ups_category :: u16
  ups_metadata :: bytes
  ups_tags :: "StreamTag list"
  ups_client_locale :: bytes

datatype ContentStreamingServiceError =
  StreamPermissionDenied | StorageSpaceExceeded | StreamCountExceeded | StreamFilenameTooLong | MetaDataTooLarge | NoStreamFound

section \<open>The tables\<close>

record user_stream =
  ur_id :: nat
  ur_filename :: bytes
  ur_title :: u32
  ur_created_at :: int
  ur_modified_at :: int
  ur_owner_id :: u64
  ur_metadata :: "bytes option"
  ur_category :: u16
  ur_slot :: u16
  ur_data :: "bytes option"

record StreamDb =
  db_streams :: "user_stream list"
  db_tags :: "(nat \<times> StreamTag) list"
  db_names :: "u64 \<rightharpoonup> bytes"

type_synonym 'a stream_op = "(StreamDb, bd_error, 'a) sm"

record PersistedStreamInfo =
  ps_id :: u64
  ps_filename :: bytes
  ps_title :: Title
  ps_stream_size :: u64
  ps_created :: int
  ps_modified :: int
  ps_owner_id :: u64
  ps_owner_name :: bytes
  ps_metadata :: bytes
  ps_category :: u16
  ps_slot :: u16
  ps_tags :: "StreamTag list"

text \<open>The columns of a row; the size of a stream without data is an error of the mapping.\<close>

definition map_persisted_stream_info :: "StreamDb \<Rightarrow> Title \<Rightarrow> nat option \<Rightarrow> user_stream \<Rightarrow> bd_error + PersistedStreamInfo" where
  "map_persisted_stream_info db title stream_size u =
    (case stream_size of
       None \<Rightarrow> Inl Panic
     | Some n \<Rightarrow> Inr \<lparr>ps_id = of_nat (ur_id u), ps_filename = ur_filename u, ps_title = title,
         ps_stream_size = of_nat n, ps_created = ur_created_at u, ps_modified = ur_modified_at u,
         ps_owner_id = ur_owner_id u,
         ps_owner_name = (case db_names db (ur_owner_id u) of None \<Rightarrow> [] | Some name \<Rightarrow> name),
         ps_metadata = (case ur_metadata u of None \<Rightarrow> [] | Some m \<Rightarrow> m), ps_category = ur_category u,
         ps_slot = ur_slot u, ps_tags = map snd (filter (\<lambda>(i, _). i = ur_id u) (db_tags db))\<rparr>)"

fun get_streams_by_ids :: "Title \<Rightarrow> u64 list \<Rightarrow> StreamDb \<Rightarrow> bd_error + PersistedStreamInfo list" where
  "get_streams_by_ids title [] db = Inr []"
| "get_streams_by_ids title (file_id # file_ids) db =
    (case (if sql_fits file_id
           then List.find (\<lambda>u. ur_id u = unat file_id \<and> ur_title u = title_to_u32 title) (db_streams db)
           else None) of
       None \<Rightarrow> get_streams_by_ids title file_ids db
     | Some u \<Rightarrow>
         (case map_persisted_stream_info db title (map_option length (ur_data u)) u of
            Inl e \<Rightarrow> Inl e
          | Inr info \<Rightarrow>
              (case get_streams_by_ids title file_ids db of Inl e \<Rightarrow> Inl e | Inr infos \<Rightarrow> Inr (info # infos))))"

fun mapped_rows :: "StreamDb \<Rightarrow> Title \<Rightarrow> user_stream list \<Rightarrow> bd_error + PersistedStreamInfo list" where
  "mapped_rows db title [] = Inr []"
| "mapped_rows db title (u # us) =
    (case map_persisted_stream_info db title (Some (case ur_data u of None \<Rightarrow> 0 | Some d \<Rightarrow> length d)) u of
       Inl e \<Rightarrow> Inl e
     | Inr info \<Rightarrow> (case mapped_rows db title us of Inl e \<Rightarrow> Inl e | Inr infos \<Rightarrow> Inr (info # infos)))"

definition get_streams_by_owners ::
  "(user_stream list \<Rightarrow> user_stream list) \<Rightarrow> Title \<Rightarrow> u64 list \<Rightarrow> int \<Rightarrow> u16 \<Rightarrow> nat \<Rightarrow> nat \<Rightarrow> StreamDb
    \<Rightarrow> bd_error + (PersistedStreamInfo list \<times> nat)" where
  "get_streams_by_owners order title owner_ids min_date_time category item_offset item_count db =
    (let rows = filter (\<lambda>u. ur_owner_id u \<in> set owner_ids \<and> ur_title u = title_to_u32 title
                  \<and> ur_modified_at u \<ge> min_date_time \<and> ur_category u = category) (db_streams db)
     in if length rows = 0 then Inr ([], 0)
        else (case mapped_rows db title (take item_count (drop item_offset (order rows))) of
          Inl e \<Rightarrow> Inl e
        | Inr infos \<Rightarrow> Inr (infos, length rows)))"

definition slot_key :: "user_stream \<Rightarrow> u32 \<times> u64 \<times> u16" where
  "slot_key u = (ur_title u, ur_owner_id u, ur_slot u)"

definition get_slot_count_for_upload :: "Title \<Rightarrow> u64 \<Rightarrow> u16 \<Rightarrow> (nat \<times> bool) stream_op" where
  "get_slot_count_for_upload title owner_id slot = (\<lambda>db.
    if \<not> sql_fits owner_id then (Inl Panic, db)
    else let mine = filter (\<lambda>u. ur_owner_id u = owner_id \<and> ur_title u = title_to_u32 title) (db_streams db)
      in (Inr (length mine, mine \<noteq> [] \<and> list_ex (\<lambda>u. ur_slot u = slot) mine), db))"

definition next_stream_id :: "user_stream list \<Rightarrow> nat" where
  "next_stream_id streams = Suc (fold max (map ur_id streams) 0)"

text \<open>An insertion that replaces what another row with the same slot holds, but not its tags.\<close>

definition create_empty_stream :: "int \<Rightarrow> Title \<Rightarrow> u64 \<Rightarrow> bytes \<Rightarrow> u16 \<Rightarrow> u16 \<Rightarrow> nat stream_op" where
  "create_empty_stream now title owner_id filename slot category = (\<lambda>db.
    if \<not> sql_fits owner_id then (Inl Panic, db)
    else let key = (title_to_u32 title, owner_id, slot) in
      case List.find (\<lambda>u. slot_key u = key) (db_streams db) of
        Some e \<Rightarrow> (Inr (ur_id e), db\<lparr>db_streams := map (\<lambda>u. if slot_key u = key
            then u\<lparr>ur_filename := filename, ur_modified_at := now, ur_metadata := None,
                   ur_category := category, ur_data := None\<rparr> else u) (db_streams db)\<rparr>)
      | None \<Rightarrow> (Inr (next_stream_id (db_streams db)), db\<lparr>db_streams := db_streams db @
            [\<lparr>ur_id = next_stream_id (db_streams db), ur_filename = filename, ur_title = title_to_u32 title,
              ur_created_at = now, ur_modified_at = now, ur_owner_id = owner_id, ur_metadata = None,
              ur_category = category, ur_slot = slot, ur_data = None\<rparr>]\<rparr>))"

definition is_stream :: "Title \<Rightarrow> u64 \<Rightarrow> user_stream \<Rightarrow> bool" where
  "is_stream title stream_id u \<longleftrightarrow> ur_title u = title_to_u32 title \<and> ur_id u = unat stream_id"

definition get_stream_data :: "Title \<Rightarrow> u64 \<Rightarrow> StreamDb \<Rightarrow> bytes option" where
  "get_stream_data title stream_id db =
    (if sql_fits stream_id
     then Option.bind (List.find (is_stream title stream_id) (db_streams db)) ur_data else None)"

definition set_stream_data :: "Title \<Rightarrow> u64 \<Rightarrow> bytes \<Rightarrow> bool stream_op" where
  "set_stream_data title stream_id data = (\<lambda>db.
    if \<not> sql_fits stream_id then (Inl Panic, db)
    else if \<not> list_ex (\<lambda>u. is_stream title stream_id u \<and> ur_data u = None) (db_streams db) then (Inr False, db)
    else (Inr True, db\<lparr>db_streams := map (\<lambda>u. if is_stream title stream_id u
        then u\<lparr>ur_data := Some data\<rparr> else u) (db_streams db)\<rparr>))"

fun add_tags :: "nat \<Rightarrow> StreamTag list \<Rightarrow> unit stream_op" where
  "add_tags stream_id [] db = (Inr (), db)"
| "add_tags stream_id (tag # tags) db =
    (if sql_fits (tag_primary tag) \<and> sql_fits (tag_secondary tag)
     then add_tags stream_id tags (db\<lparr>db_tags := db_tags db @ [(stream_id, tag)]\<rparr>)
     else (Inl Panic, db))"

definition set_stream_metadata :: "Title \<Rightarrow> u64 \<Rightarrow> u16 \<Rightarrow> bytes \<Rightarrow> StreamTag list \<Rightarrow> (unit + nat) stream_op" where
  "set_stream_metadata title owner_id slot metadata tags = (\<lambda>db.
    case (if sql_fits owner_id
          then List.find (\<lambda>u. slot_key u = (title_to_u32 title, owner_id, slot) \<and> ur_metadata u = None) (db_streams db)
          else None) of
      None \<Rightarrow> (Inr (Inl ()), db)
    | Some e \<Rightarrow>
        thenE (add_tags (ur_id e) tags) (returnE (Inr (ur_id e)))
          (db\<lparr>db_streams := map (\<lambda>u. if ur_title u = title_to_u32 title \<and> ur_id u = ur_id e \<and> ur_owner_id u = owner_id
             then u\<lparr>ur_metadata := Some metadata\<rparr> else u) (db_streams db)\<rparr>))"

definition get_stream_id_for_slot :: "Title \<Rightarrow> u64 \<Rightarrow> u16 \<Rightarrow> StreamDb \<Rightarrow> nat option" where
  "get_stream_id_for_slot title owner_id slot db =
    (if sql_fits owner_id
     then map_option ur_id (List.find (\<lambda>u. slot_key u = (title_to_u32 title, owner_id, slot)) (db_streams db))
     else None)"

definition delete_db_stream :: "bool \<Rightarrow> Title \<Rightarrow> u64 \<Rightarrow> bool stream_op" where
  "delete_db_stream alias_accepted title stream_id = (\<lambda>db.
    if alias_accepted \<and> sql_fits stream_id
    then (Inr True, db\<lparr>db_streams := filter (\<lambda>u. \<not> is_stream title stream_id u) (db_streams db),
        db_tags := filter (\<lambda>(i, _). \<not> list_ex (\<lambda>u. is_stream title stream_id u \<and> ur_id u = i) (db_streams db)) (db_tags db)\<rparr>)
    else (Inr False, db))"

definition record_user_name :: "u64 \<Rightarrow> bytes \<Rightarrow> unit stream_op" where
  "record_user_name user_id name = (\<lambda>db.
    if sql_fits user_id then (Inr (), db\<lparr>db_names := (db_names db)(user_id \<mapsto> name)\<rparr>) else (Inl Panic, db))"

section \<open>The service for users\<close>

datatype UserFileClaimOperation = OpStream | OpCreate | OpDelete

record UserFileClaims =
  cl_exp :: int
  cl_iat :: int
  cl_sub :: bytes
  cl_stream_title :: u32
  cl_stream_id :: u64
  cl_stream_operation :: UserFileClaimOperation

text \<open>The library of signed tokens under the key of the service; acceptance depends on the time.\<close>

record jwt =
  jwt_encode :: "UserFileClaims \<Rightarrow> bytes"
  jwt_decode :: "int \<Rightarrow> bytes \<Rightarrow> UserFileClaims option"

record DwUserContentStreamingService =
  content_server_hostname :: bytes
  content_server_port :: u16
  content_keys :: jwt

definition CLAIM_LIFETIME_IN_SECONDS :: int where "CLAIM_LIFETIME_IN_SECONDS = 5 * 60"
definition MAX_STREAM_FILENAME_LENGTH :: nat where "MAX_STREAM_FILENAME_LENGTH = 260"
definition MAX_USER_STREAM_SIZE :: nat where "MAX_USER_STREAM_SIZE = 50000"
definition MAX_METADATA_SIZE :: nat where "MAX_METADATA_SIZE = 50000"
definition MAX_SLOT_COUNT :: nat where "MAX_SLOT_COUNT = 128"

definition stream_claims :: "int \<Rightarrow> u64 \<Rightarrow> Title \<Rightarrow> u64 \<Rightarrow> UserFileClaimOperation \<Rightarrow> UserFileClaims" where
  "stream_claims now user_id title stream_id op = \<lparr>cl_exp = now + CLAIM_LIFETIME_IN_SECONDS, cl_iat = now,
     cl_sub = show_nat (unat user_id), cl_stream_title = title_to_u32 title, cl_stream_id = stream_id,
     cl_stream_operation = op\<rparr>"

definition create_jwt ::
  "DwUserContentStreamingService \<Rightarrow> int \<Rightarrow> u64 \<Rightarrow> Title \<Rightarrow> u64 \<Rightarrow> UserFileClaimOperation \<Rightarrow> bytes" where
  "create_jwt service now user_id title stream_id op =
    jwt_encode (content_keys service) (stream_claims now user_id title stream_id op)"

definition user_url :: "DwUserContentStreamingService \<Rightarrow> Title \<Rightarrow> u64 \<Rightarrow> bytes \<Rightarrow> bytes" where
  "user_url service title stream_id token =
    str ''http://'' @ content_server_hostname service @ str '':'' @ show_nat (unat (content_server_port service))
    @ str ''/content/user/'' @ show_nat (unat (title_to_u32 title)) @ str ''/'' @ show_nat (unat stream_id)
    @ str ''?authorization='' @ token"

definition build_get_url :: "DwUserContentStreamingService \<Rightarrow> int \<Rightarrow> u64 \<Rightarrow> PersistedStreamInfo \<Rightarrow> StreamInfo" where
  "build_get_url service now user_id p =
    \<lparr>si_id = ps_id p, si_filename = ps_filename p, si_title = ps_title p, si_stream_size = ps_stream_size p,
     si_summary_file_size = 0, si_created = ps_created p, si_modified = ps_modified p,
     si_owner_id = ps_owner_id p, si_owner_name = ps_owner_name p,
     si_url = user_url service (ps_title p) (ps_id p) (create_jwt service now user_id (ps_title p) (ps_id p) OpStream),
     si_metadata = ps_metadata p, si_category = ps_category p, si_slot = ps_slot p, si_tags = ps_tags p,
     si_num_copies_made = 0, si_origin_id = 0\<rparr>"

definition build_stream_url ::
  "DwUserContentStreamingService \<Rightarrow> int \<Rightarrow> u64 \<Rightarrow> Title \<Rightarrow> u64 \<Rightarrow> UserFileClaimOperation \<Rightarrow> StreamUrl" where
  "build_stream_url service now user_id title stream_id op =
    \<lparr>su_stream_id = stream_id, su_url = user_url service title stream_id (create_jwt service now user_id title stream_id op),
     su_server_type = 1, su_server_index = []\<rparr>"

definition get_user_streams_by_id ::
  "DwUserContentStreamingService \<Rightarrow> int \<Rightarrow> BdSession \<Rightarrow> u64 list \<Rightarrow> (ContentStreamingServiceError + StreamInfo list) stream_op" where
  "get_user_streams_by_id service now session file_ids = authenticated session (\<lambda>auth db.
    case get_streams_by_ids (a_title auth) file_ids db of
      Inl e \<Rightarrow> (Inl e, db)
    | Inr streams \<Rightarrow>
        (let res = map (build_get_url service now (a_user_id auth)) streams
         in (Inr (if res \<noteq> [] then Inr res else Inl NoStreamFound), db)))"

definition list_streams_of_users ::
  "DwUserContentStreamingService \<Rightarrow> (user_stream list \<Rightarrow> user_stream list) \<Rightarrow> int \<Rightarrow> BdSession \<Rightarrow> u64 list \<Rightarrow> int \<Rightarrow> u16 \<Rightarrow> nat \<Rightarrow> nat
    \<Rightarrow> (ContentStreamingServiceError + StreamInfo ResultSlice) stream_op" where
  "list_streams_of_users service order now session owner_ids min_date_time category item_offset item_count =
    authenticated session (\<lambda>auth db.
    case get_streams_by_owners order (a_title auth) owner_ids min_date_time category item_offset item_count db of
      Inl e \<Rightarrow> (Inl e, db)
    | Inr (res, count) \<Rightarrow>
        (Inr (Inr (result_slice_with_total_count (map (build_get_url service now (a_user_id auth)) res) item_offset count)), db))"

definition request_stream_upload ::
  "DwUserContentStreamingService \<Rightarrow> int \<Rightarrow> BdSession \<Rightarrow> StreamCreationRequest \<Rightarrow> (ContentStreamingServiceError + StreamUrl) stream_op" where
  "request_stream_upload service now session request_data =
    (if unat (scr_file_size request_data) > MAX_USER_STREAM_SIZE then returnE (Inl StorageSpaceExceeded)
     else if length (scr_filename request_data) > MAX_STREAM_FILENAME_LENGTH then returnE (Inl StorageSpaceExceeded)
     else authenticated session (\<lambda>auth.
       bindE (get_slot_count_for_upload (a_title auth) (a_user_id auth) (scr_slot request_data))
         (\<lambda>(used_slots, given_slot_is_taken).
       if \<not> given_slot_is_taken \<and> used_slots \<ge> MAX_SLOT_COUNT then returnE (Inl StreamCountExceeded)
       else bindE (create_empty_stream now (a_title auth) (a_user_id auth) (scr_filename request_data)
                     (scr_slot request_data) (scr_category request_data)) (\<lambda>stream_id.
         thenE (record_user_name (a_user_id auth) (a_username auth))
         (returnE (Inr (build_stream_url service now (a_user_id auth) (a_title auth) (of_nat stream_id) OpCreate)))))))"

definition finish_stream_upload :: "BdSession \<Rightarrow> UploadedStream \<Rightarrow> (ContentStreamingServiceError + u64) stream_op" where
  "finish_stream_upload session uploaded_file = authenticated session (\<lambda>auth.
    if length (ups_metadata uploaded_file) > MAX_METADATA_SIZE then returnE (Inl MetaDataTooLarge)
    else bindE (set_stream_metadata (a_title auth) (a_user_id auth) (ups_slot uploaded_file)
                  (ups_metadata uploaded_file) (ups_tags uploaded_file)) (\<lambda>result.
      returnE (case result of Inl _ \<Rightarrow> Inl NoStreamFound | Inr stream_id \<Rightarrow> Inr (of_nat stream_id))))"

definition request_stream_deletion ::
  "DwUserContentStreamingService \<Rightarrow> int \<Rightarrow> BdSession \<Rightarrow> u16 \<Rightarrow> (ContentStreamingServiceError + StreamUrl) stream_op" where
  "request_stream_deletion service now session slot_id = authenticated session (\<lambda>auth db.
    (Inr (case get_stream_id_for_slot (a_title auth) (a_user_id auth) slot_id db of
       None \<Rightarrow> Inl NoStreamFound
     | Some stream_id \<Rightarrow>
         Inr (build_stream_url service now (a_user_id auth) (a_title auth) (of_nat stream_id) OpDelete)), db))"

section \<open>The service of the publisher\<close>

record PublisherStreamState =
  pss_last_refresh :: int
  pss_title :: Title
  pss_next_id :: u64
  pss_streams :: "StreamInfo list"

record DwPublisherContentStreamingService =
  publisher_hostname :: bytes
  publisher_port :: u16
  publisher_streams :: "Title \<rightharpoonup> PublisherStreamState"
  publisher_poisoned :: bool

definition STATE_REFRESH_SECONDS :: int where "STATE_REFRESH_SECONDS = 60"

text \<open>Times are in nanoseconds here; a difference is rounded to whole seconds.\<close>

definition refresh_necessary :: "int \<Rightarrow> PublisherStreamState \<Rightarrow> bool" where
  "refresh_necessary now state \<longleftrightarrow> (now - pss_last_refresh state) sdiv 1000000000 > STATE_REFRESH_SECONDS"

definition publisher_url :: "DwPublisherContentStreamingService \<Rightarrow> Title \<Rightarrow> u64 \<Rightarrow> bytes" where
  "publisher_url service title stream_id =
    str ''http://'' @ publisher_hostname service @ str '':'' @ show_nat (unat (publisher_port service))
    @ str ''/content/publisher/'' @ show_nat (unat (title_to_u32 title)) @ str ''/'' @ show_nat (unat stream_id)"

text \<open>The first stream with the name of an entry gets its size and its time.\<close>

fun update_stream :: "bytes \<Rightarrow> u64 \<Rightarrow> int \<Rightarrow> StreamInfo list \<Rightarrow> StreamInfo list" where
  "update_stream filename stream_size modified [] = []"
| "update_stream filename stream_size modified (s # ss) =
    (if si_filename s = filename then s\<lparr>si_stream_size := stream_size, si_modified := modified\<rparr> # ss
     else s # update_stream filename stream_size modified ss)"

definition handle_entry ::
  "DwPublisherContentStreamingService \<Rightarrow> dir_entry \<Rightarrow> PublisherStreamState \<Rightarrow> bd_error + PublisherStreamState" where
  "handle_entry service entry state =
    (case (de_metadata entry, de_name entry) of
       (Some (stream_size, created, modified), Some filename) \<Rightarrow>
         (if list_ex (\<lambda>s. si_filename s = filename) (pss_streams state)
          then Inr (state\<lparr>pss_streams := update_stream filename (of_nat stream_size) modified (pss_streams state)\<rparr>)
          else (case checked_add (pss_next_id state) 1 of
             Inl e \<Rightarrow> Inl e
           | Inr n \<Rightarrow> Inr (state\<lparr>pss_next_id := n, pss_streams := pss_streams state @
               [\<lparr>si_id = pss_next_id state, si_filename = filename, si_title = pss_title state,
                 si_stream_size = of_nat stream_size, si_summary_file_size = 0, si_created = created,
                 si_modified = modified, si_owner_id = 0, si_owner_name = [],
                 si_url = publisher_url service (pss_title state) (pss_next_id state), si_metadata = [],
                 si_category = 0, si_slot = 0, si_tags = [], si_num_copies_made = 0, si_origin_id = 0\<rparr>]\<rparr>)))
     | _ \<Rightarrow> Inl Panic)"

fun handle_entries ::
  "DwPublisherContentStreamingService \<Rightarrow> dir_entry option list \<Rightarrow> (PublisherStreamState, bd_error, unit) sm" where
  "handle_entries service [] state = (Inr (), state)"
| "handle_entries service (None # es) state = handle_entries service es state"
| "handle_entries service (Some e # es) state =
    (case handle_entry service e state of
       Inl err \<Rightarrow> (Inl err, state)
     | Inr state' \<Rightarrow> handle_entries service es state')"

definition stream_state_refresh ::
  "DwPublisherContentStreamingService \<Rightarrow> dir_entry option list option \<Rightarrow> (PublisherStreamState, bd_error, unit) sm" where
  "stream_state_refresh service dir state =
    (case dir of None \<Rightarrow> (Inr (), state) | Some entries \<Rightarrow> handle_entries service entries state)"

text \<open>The state of a title, read or made anew when it is older than a minute. A panic while the
  lock is held for writing poisons it.\<close>

definition read_publisher_streams ::
  "int \<Rightarrow> dir_entry option list option \<Rightarrow> Title \<Rightarrow> (DwPublisherContentStreamingService, bd_error, PublisherStreamState) sm" where
  "read_publisher_streams now dir title = (\<lambda>service.
    if publisher_poisoned service then (Inl Panic, service)
    else
      let keep = (\<lambda>state. service\<lparr>publisher_streams := (publisher_streams service)(title \<mapsto> state)\<rparr>)
      in case publisher_streams service title of
           Some state \<Rightarrow>
             if \<not> refresh_necessary now state then (Inr state, service)
             else (case stream_state_refresh service dir state of
                 (Inl e, state') \<Rightarrow> (Inl e, (keep state')\<lparr>publisher_poisoned := True\<rparr>)
               | (Inr _, state') \<Rightarrow> (Inr state', keep state'))
         | None \<Rightarrow>
             (case stream_state_refresh service dir
                 \<lparr>pss_last_refresh = now, pss_title = title, pss_next_id = 1, pss_streams = []\<rparr> of
                 (Inl e, state') \<Rightarrow> (Inl e, service\<lparr>publisher_poisoned := True\<rparr>)
               | (Inr _, state') \<Rightarrow> (Inr state', keep state')))"

definition publisher_stream_by_id ::
  "int \<Rightarrow> dir_entry option list option \<Rightarrow> Title \<Rightarrow> u64 \<Rightarrow> (DwPublisherContentStreamingService, bd_error, StreamInfo option) sm" where
  "publisher_stream_by_id now dir title file_id = bindE (read_publisher_streams now dir title) (\<lambda>state.
    returnE (List.find (\<lambda>info. si_id info = file_id) (pss_streams state)))"

definition get_publisher_stream_by_id ::
  "int \<Rightarrow> dir_entry option list option \<Rightarrow> BdSession \<Rightarrow> u64
    \<Rightarrow> (DwPublisherContentStreamingService, bd_error, ContentStreamingServiceError + StreamInfo) sm" where
  "get_publisher_stream_by_id now dir session file_id = authenticated session (\<lambda>auth.
    bindE (publisher_stream_by_id now dir (a_title auth) file_id) (\<lambda>found.
    returnE (case found of None \<Rightarrow> Inl NoStreamFound | Some info \<Rightarrow> Inr info)))"

definition select_publisher_streams ::
  "(StreamInfo \<Rightarrow> bool) \<Rightarrow> int \<Rightarrow> dir_entry option list option \<Rightarrow> BdSession \<Rightarrow> nat \<Rightarrow> nat
    \<Rightarrow> (DwPublisherContentStreamingService, bd_error, ContentStreamingServiceError + StreamInfo ResultSlice) sm" where
  "select_publisher_streams wanted now dir session item_offset item_count = authenticated session (\<lambda>auth.
    bindE (read_publisher_streams now dir (a_title auth)) (\<lambda>state.
    let stream_info = take item_count (drop item_offset (filter wanted (pss_streams state)))
    in returnE (if stream_info \<noteq> [] then Inr (result_slice_new stream_info item_offset) else Inl NoStreamFound)))"

definition list_publisher_streams where
  "list_publisher_streams now dir session min_date_time (category :: u16) item_offset item_count =
    select_publisher_streams (\<lambda>info. si_modified info \<ge> min_date_time) now dir session item_offset item_count"

definition filter_publisher_streams where
  "filter_publisher_streams now dir session min_date_time (category :: u16) item_offset item_count name_filter =
    select_publisher_streams (\<lambda>info. si_modified info \<ge> min_date_time
      \<and> take (length name_filter) (si_filename info) = name_filter) now dir session item_offset item_count"

end
