(* ===== verification/Stream_Handler.thy ===== *)
theory Stream_Handler
  imports Stream_Store
begin

text \<open>
  Content streaming on the wire: the handler of the lobby service
  (libbitdemon/src/lobby/content_streaming/handler.rs and result.rs) and the HTTP routes under
  which the streams are moved (dw-server/src/lobby/content_streaming/http.rs).
\<close>

section \<open>Results\<close>

definition tag_words :: "StreamTag list \<Rightarrow> u64 list" where
  "tag_words tags = concat (map (\<lambda>t. [tag_primary t, tag_secondary t]) tags)"

definition stream_info_serialize :: "StreamInfo \<Rightarrow> wr" where
  "stream_info_serialize v =
    thenE (write_u64 (si_id v))
    (thenE (write_u32 (word_of_int (si_created v smod 0xFFFFFFFF)))
    (thenE (write_u32 (word_of_int (si_modified v smod 0xFFFFFFFF)))
    (thenE (write_u32 (ucast (si_stream_size v mod 0xFFFFFFFF)))
    (thenE (write_u64 (si_owner_id v))
    (thenE (write_str (si_owner_name v))
    (thenE (write_u16 (si_slot v))
    (thenE (write_str (si_filename v))
    (thenE (write_str (si_url v))
    (thenE (write_u16 (si_category v))
    (thenE (write_blob (si_metadata v))
    (thenE (write_u32 (ucast (si_summary_file_size v mod 0xFFFFFFFF)))
    (thenE (write_u64_array (tag_words (si_tags v)))
    (thenE (write_u32 (si_num_copies_made v))
    (write_u64 (si_origin_id v)))))))))))))))"

definition stream_url_serialize :: "StreamUrl \<Rightarrow> wr" where
  "stream_url_serialize v =
    thenE (write_str (su_url v))
    (thenE (write_u16 (su_server_type v))
    (thenE (write_str (su_server_index v))
    (write_u64 (su_stream_id v))))"

definition stream_id_serialize :: "u64 \<Rightarrow> wr" where
  "stream_id_serialize i = write_u64 i"

definition stream_error_code :: "ContentStreamingServiceError \<Rightarrow> BdErrorCode" where
  "stream_error_code e =
    (case e of
       StreamPermissionDenied \<Rightarrow> PermissionDenied
     | StreamFilenameTooLong \<Rightarrow> ContentStreamingFilenameMaxLengthExceeded
     | StorageSpaceExceeded \<Rightarrow> ContentStreamingStorageSpaceExceeded
     | StreamCountExceeded \<Rightarrow> ContentStreamingNumFilesExceeded
     | MetaDataTooLarge \<Rightarrow> ContentStreamingMaxThumbDataSizeExceeded
     | NoStreamFound \<Rightarrow> ContentStreamingFileNotAvailable)"

section \<open>The handler\<close>

datatype ContentStreamingTaskId =
    GetFileMetadataById | ListStreamsByOwner | ListAllPublisherFiles | PreUploadFile | PostUploadFile
  | PreDownloadFileBySlot | PreDeleteFile | PreDownloadByFileId | PreDownloadPublisherFile
  | ListFilesByOwners | PreCopyFromPooledStorage | PostCopy | PreUploadSummary | PostUploadSummary
  | PreDownloadSummary | PreCopyFromUserStorage

definition stream_task_from_u8 :: "u8 \<Rightarrow> ContentStreamingTaskId option" where
  "stream_task_from_u8 = map_of
    [(1, GetFileMetadataById), (2, ListStreamsByOwner), (3, ListAllPublisherFiles), (5, PreUploadFile),
     (6, PostUploadFile), (7, PreDownloadFileBySlot), (8, PreDeleteFile), (9, PreDownloadByFileId),
     (10, PreDownloadPublisherFile), (14, ListFilesByOwners), (15, PreCopyFromPooledStorage),
     (16, PostCopy), (17, PreUploadSummary), (18, PostUploadSummary), (19, PreDownloadSummary),
     (20, PreCopyFromUserStorage)]"

text \<open>The state behind the handler: the database, the streams of the publisher and their directory.\<close>

record StreamWorld =
  cw_db :: StreamDb
  cw_publisher :: DwPublisherContentStreamingService
  cw_dir :: "u32 \<Rightarrow> dir_entry option list option"

definition on_streams :: "'a stream_op \<Rightarrow> (StreamWorld, bd_error, 'a) sm" where
  "on_streams m = (\<lambda>w. case m (cw_db w) of (x, db) \<Rightarrow> (x, w\<lparr>cw_db := db\<rparr>))"

definition on_publisher ::
  "((Title \<Rightarrow> dir_entry option list option) \<Rightarrow> (DwPublisherContentStreamingService, bd_error, 'a) sm)
    \<Rightarrow> (StreamWorld, bd_error, 'a) sm" where
  "on_publisher m = (\<lambda>w. case m (\<lambda>t. cw_dir w (title_to_u32 t)) (cw_publisher w) of
     (x, p) \<Rightarrow> (x, w\<lparr>cw_publisher := p\<rparr>))"

text \<open>What the handler gets from outside: the service for users, the order of rows, and the clock in
  seconds and in nanoseconds.\<close>

record stream_env =
  se_service :: DwUserContentStreamingService
  se_order :: "user_stream list \<Rightarrow> user_stream list"
  se_now :: int
  se_clock :: int

definition for_title :: "BdSession \<Rightarrow> (Title \<Rightarrow> 'd) \<Rightarrow> 'd" where
  "for_title session dirs = dirs (case s_authentication session of None \<Rightarrow> Iw4 | Some auth \<Rightarrow> a_title auth)"

definition get_file_metadata_by_id :: "stream_env \<Rightarrow> reader \<Rightarrow> (StreamWorld, BdResponse) act" where
  "get_file_metadata_by_id e r =
    bindE (run_rd (bindE read_u32 (\<lambda>num_ids. repeatE (unat num_ids) read_u64)) r) (\<lambda>(file_ids, _).
    bindE the_session (\<lambda>session.
    bindE (on_service (on_streams (get_user_streams_by_id (se_service e) (se_now e) session file_ids))) (\<lambda>result.
    case result of
      Inr streams \<Rightarrow> reply_results 1 (map stream_info_serialize streams)
    | Inl err \<Rightarrow> reply_only (stream_error_code err) 1)))"

definition answer_for_stream_info_slice ::
  "u8 \<Rightarrow> ContentStreamingServiceError + StreamInfo ResultSlice \<Rightarrow> (StreamWorld, BdResponse) act" where
  "answer_for_stream_info_slice task_id result =
    (case result of
       Inr info \<Rightarrow> bindE (with_result_slice task_id
           \<lparr>rs_data = map stream_info_serialize (rs_data info), rs_offset = rs_offset info,
            rs_total_count = rs_total_count info\<rparr>) (\<lambda>t. liftE (task_to_response t))
     | Inl e \<Rightarrow> reply_only (stream_error_code e) task_id)"

definition answer_for_stream_url ::
  "u8 \<Rightarrow> ContentStreamingServiceError + StreamUrl \<Rightarrow> (StreamWorld, BdResponse) act" where
  "answer_for_stream_url task_id result =
    (case result of
       Inr url \<Rightarrow> reply_results task_id [stream_url_serialize url]
     | Inl e \<Rightarrow> reply_only (stream_error_code e) task_id)"

text \<open>The four numbers at the end of a request for a list: how new, how many, where to start, which category.\<close>

definition read_page :: "(u32 \<times> u16 \<times> u16 \<times> u16) rd" where
  "read_page = bindE read_u32 (\<lambda>min_date_time. bindE read_u16 (\<lambda>item_count. bindE read_u16 (\<lambda>item_offset.
    bindE read_u16 (\<lambda>category_id. returnE (min_date_time, item_count, item_offset, category_id)))))"

definition list_streams :: "u8 \<Rightarrow> u64 list rd \<Rightarrow> stream_env \<Rightarrow> reader \<Rightarrow> (StreamWorld, BdResponse) act" where
  "list_streams task_id read_owners e r =
    bindE (run_rd read_owners r) (\<lambda>(owner_ids, r1).
    bindE (run_rd read_page r1) (\<lambda>((min_date_time, item_count, item_offset, category_id), _).
    bindE the_session (\<lambda>session.
    bindE (on_service (on_streams (list_streams_of_users (se_service e) (se_order e) (se_now e) session owner_ids
        (uint min_date_time) category_id (unat item_offset) (unat item_count)))) (\<lambda>result.
    answer_for_stream_info_slice task_id result))))"

definition list_streams_by_owner :: "stream_env \<Rightarrow> reader \<Rightarrow> (StreamWorld, BdResponse) act" where
  "list_streams_by_owner = list_streams 2 (bindE read_u64 (\<lambda>owner_id. returnE [owner_id]))"

definition list_files_by_owners :: "stream_env \<Rightarrow> reader \<Rightarrow> (StreamWorld, BdResponse) act" where
  "list_files_by_owners = list_streams 14 read_u64_array"

definition list_all_publisher_files :: "stream_env \<Rightarrow> reader \<Rightarrow> (StreamWorld, BdResponse) act" where
  "list_all_publisher_files e r =
    bindE (run_rd read_page r) (\<lambda>((min_date_time, item_count, item_offset, category_id), r1).
    bindE (run_rd (bindE (okE (next_is SignedChar8StringType) False) (\<lambda>is_str.
        if is_str then bindE read_str (\<lambda>f. returnE (Some f)) else returnE None)) r1) (\<lambda>(name_filter, _).
    bindE the_session (\<lambda>session.
    bindE (on_service (on_publisher (\<lambda>dirs. case name_filter of
        Some f \<Rightarrow> filter_publisher_streams (se_clock e) (for_title session dirs) session (uint min_date_time)
          category_id (unat item_offset) (unat item_count) f
      | None \<Rightarrow> list_publisher_streams (se_clock e) (for_title session dirs) session (uint min_date_time)
          category_id (unat item_offset) (unat item_count)))) (\<lambda>result.
    answer_for_stream_info_slice 3 result))))"

definition read_creation_request :: "StreamCreationRequest rd" where
  "read_creation_request =
    bindE read_str (\<lambda>filename. bindE read_u16 (\<lambda>slot. bindE read_u32 (\<lambda>file_size. bindE read_u16 (\<lambda>category.
    bindE read_blob (\<lambda>checksum. bindE read_str (\<lambda>client_locale.
    returnE \<lparr>scr_filename = filename, scr_slot = slot, scr_file_size = ucast file_size, scr_category = category,
      scr_checksum = checksum, scr_client_locale = client_locale\<rparr>))))))"

definition pre_upload_file :: "stream_env \<Rightarrow> reader \<Rightarrow> (StreamWorld, BdResponse) act" where
  "pre_upload_file e r =
    bindE (run_rd read_creation_request r) (\<lambda>(request_data, _).
    bindE the_session (\<lambda>session.
    bindE (on_service (on_streams (request_stream_upload (se_service e) (se_now e) session request_data))) (\<lambda>result.
    answer_for_stream_url 5 result)))"

fun pair_tags :: "u64 list \<Rightarrow> StreamTag list" where
  "pair_tags (a # b # ws) = \<lparr>tag_primary = a, tag_secondary = b\<rparr> # pair_tags ws"
| "pair_tags _ = []"

definition read_uploaded_stream :: "UploadedStream rd" where
  "read_uploaded_stream =
    bindE read_str (\<lambda>filename. bindE read_u16 (\<lambda>slot. bindE read_u16 (\<lambda>server_type. bindE read_str (\<lambda>server_index.
    bindE read_u32 (\<lambda>file_size. bindE read_u16 (\<lambda>category. bindE read_blob (\<lambda>metadata.
    bindE read_u64_array (\<lambda>tags_data. bindE read_str (\<lambda>client_locale.
    returnE \<lparr>ups_filename = filename, ups_slot = slot, ups_server_type = server_type,
      ups_server_index = server_index, ups_file_size = ucast file_size, ups_category = category,
      ups_metadata = metadata, ups_tags = pair_tags tags_data, ups_client_locale = client_locale\<rparr>)))))))))"

definition post_upload_file :: "stream_env \<Rightarrow> reader \<Rightarrow> (StreamWorld, BdResponse) act" where
  "post_upload_file e r =
    bindE (run_rd read_uploaded_stream r) (\<lambda>(uploaded_stream, _).
    bindE the_session (\<lambda>session.
    bindE (on_service (on_streams (finish_stream_upload session uploaded_stream))) (\<lambda>result.
    case result of
      Inr file_id \<Rightarrow> reply_results 6 [stream_id_serialize file_id]
    | Inl err \<Rightarrow> reply_only (stream_error_code err) 6)))"

definition pre_delete_file :: "stream_env \<Rightarrow> reader \<Rightarrow> (StreamWorld, BdResponse) act" where
  "pre_delete_file e r =
    bindE (run_rd read_u16 r) (\<lambda>(slot, _).
    bindE the_session (\<lambda>session.
    bindE (on_service (on_streams (request_stream_deletion (se_service e) (se_now e) session slot))) (\<lambda>result.
    answer_for_stream_url 8 result)))"

definition pre_download_by_file_id :: "stream_env \<Rightarrow> reader \<Rightarrow> (StreamWorld, BdResponse) act" where
  "pre_download_by_file_id e r =
    bindE (run_rd (bindE read_u64 (\<lambda>file_id. bindE read_u32 (\<lambda>file_size. returnE file_id))) r) (\<lambda>(file_id, _).
    bindE the_session (\<lambda>session.
    bindE (on_service (on_streams (get_user_streams_by_id (se_service e) (se_now e) session [file_id]))) (\<lambda>result.
    case result of
      Inr info \<Rightarrow> (if info = [] then reply_only ContentStreamingFileNotAvailable 9
                   else reply_results 9 [stream_info_serialize (last info)])
    | Inl err \<Rightarrow> reply_only (stream_error_code err) 9)))"

definition pre_download_publisher_file :: "stream_env \<Rightarrow> reader \<Rightarrow> (StreamWorld, BdResponse) act" where
  "pre_download_publisher_file e r =
    bindE (run_rd (bindE read_u64 (\<lambda>file_id. bindE read_u32 (\<lambda>file_size. returnE file_id))) r) (\<lambda>(file_id, _).
    bindE the_session (\<lambda>session.
    bindE (on_service (on_publisher (\<lambda>dirs.
        get_publisher_stream_by_id (se_clock e) (for_title session dirs) session file_id))) (\<lambda>result.
    case result of
      Inr stream \<Rightarrow> reply_results 10 [stream_info_serialize stream]
    | Inl err \<Rightarrow> reply_only (stream_error_code err) 10)))"

definition content_streaming_handle :: "stream_env \<Rightarrow> reader \<Rightarrow> (StreamWorld, BdResponse) act" where
  "content_streaming_handle e r =
    bindE (run_rd read_u8 r) (\<lambda>(task_id_value, r1).
    case stream_task_from_u8 task_id_value of
      None \<Rightarrow> reply_only NoError task_id_value
    | Some task \<Rightarrow> (case task of
        GetFileMetadataById \<Rightarrow> get_file_metadata_by_id e r1
      | ListStreamsByOwner \<Rightarrow> list_streams_by_owner e r1
      | ListAllPublisherFiles \<Rightarrow> list_all_publisher_files e r1
      | PreUploadFile \<Rightarrow> pre_upload_file e r1
      | PostUploadFile \<Rightarrow> post_upload_file e r1
      | PreDeleteFile \<Rightarrow> pre_delete_file e r1
      | PreDownloadByFileId \<Rightarrow> pre_download_by_file_id e r1
      | PreDownloadPublisherFile \<Rightarrow> pre_download_publisher_file e r1
      | ListFilesByOwners \<Rightarrow> list_files_by_owners e r1
      | _ \<Rightarrow> reply_only NoError task_id_value))"

section \<open>The HTTP routes\<close>

datatype StatusCode = BadRequest | Unauthorized | Forbidden | NotFound

definition validate_jwt ::
  "DwUserContentStreamingService \<Rightarrow> int \<Rightarrow> bytes \<Rightarrow> u32 \<Rightarrow> u64 \<Rightarrow> UserFileClaimOperation \<Rightarrow> StatusCode + unit" where
  "validate_jwt service now token title_num stream_id op =
    (case jwt_decode (content_keys service) now token of
       None \<Rightarrow> Inl Unauthorized
     | Some claims \<Rightarrow>
         if cl_stream_title claims \<noteq> title_num \<or> cl_stream_id claims \<noteq> stream_id \<or> cl_stream_operation claims \<noteq> op
         then Inl Forbidden else Inr ())"

definition retrieve_user_file ::
  "DwUserContentStreamingService \<Rightarrow> int \<Rightarrow> bytes \<Rightarrow> u32 \<Rightarrow> u64 \<Rightarrow> StreamDb \<Rightarrow> StatusCode + bytes" where
  "retrieve_user_file service now token title_num stream_id db =
    (case validate_jwt service now token title_num stream_id OpStream of
       Inl s \<Rightarrow> Inl s
     | Inr _ \<Rightarrow>
         (case title_from_u32 title_num of
            None \<Rightarrow> Inl BadRequest
          | Some title \<Rightarrow>
              (case get_stream_data title stream_id db of None \<Rightarrow> Inl NotFound | Some data \<Rightarrow> Inr data)))"

definition upload_user_file ::
  "DwUserContentStreamingService \<Rightarrow> int \<Rightarrow> bytes \<Rightarrow> u32 \<Rightarrow> u64 \<Rightarrow> bytes \<Rightarrow> (StatusCode + unit) stream_op" where
  "upload_user_file service now token title_num stream_id body =
    (case validate_jwt service now token title_num stream_id OpCreate of
       Inl s \<Rightarrow> returnE (Inl s)
     | Inr _ \<Rightarrow>
         (case title_from_u32 title_num of
            None \<Rightarrow> returnE (Inl BadRequest)
          | Some title \<Rightarrow> bindE (set_stream_data title stream_id body) (\<lambda>done.
              returnE (if done then Inr () else Inl BadRequest))))"

definition delete_user_file ::
  "bool \<Rightarrow> DwUserContentStreamingService \<Rightarrow> int \<Rightarrow> bytes \<Rightarrow> u32 \<Rightarrow> u64 \<Rightarrow> (StatusCode + unit) stream_op" where
  "delete_user_file alias_accepted service now token title_num stream_id =
    (case validate_jwt service now token title_num stream_id OpDelete of
       Inl s \<Rightarrow> returnE (Inl s)
     | Inr _ \<Rightarrow>
         (case title_from_u32 title_num of
            None \<Rightarrow> returnE (Inl BadRequest)
          | Some title \<Rightarrow> bindE (delete_db_stream alias_accepted title stream_id) (\<lambda>done.
              returnE (if done then Inr () else Inl BadRequest))))"

definition publisher_file_path :: "u32 \<Rightarrow> bytes \<Rightarrow> bytes" where
  "publisher_file_path title_num filename =
    str ''stream/publisher/'' @ show_nat (unat title_num) @ str ''/'' @ filename"

text \<open>The file system is the argument \<open>read_file\<close>.\<close>

definition retrieve_publisher_file ::
  "(bytes \<Rightarrow> bytes option) \<Rightarrow> int \<Rightarrow> (Title \<Rightarrow> dir_entry option list option) \<Rightarrow> u32 \<Rightarrow> u64
    \<Rightarrow> (DwPublisherContentStreamingService, bd_error, StatusCode + bytes) sm" where
  "retrieve_publisher_file read_file now dirs title_num stream_id =
    (case title_from_u32 title_num of
       None \<Rightarrow> returnE (Inl BadRequest)
     | Some title \<Rightarrow> bindE (publisher_stream_by_id now (dirs title) title stream_id) (\<lambda>found.
         returnE (case found of
           None \<Rightarrow> Inl NotFound
         | Some stream \<Rightarrow>
             (case read_file (publisher_file_path title_num (si_filename stream)) of
                None \<Rightarrow> Inl NotFound | Some data \<Rightarrow> Inr data))))"

end
