(* ===== verification/Stream_Laws.thy ===== *)
theory Stream_Laws
  imports Stream_Handler
begin

text \<open>
  What content streaming promises: over the lobby only the owner of a stream touches it and
  nobody has more than 128; over HTTP only the user to whom the lobby gave a token for a
  stream moves its bytes, once per announcement; and what was uploaded is downloaded.
\<close>

section \<open>The order of the table\<close>

definition stream_ok :: "user_stream \<Rightarrow> bool" where
  "stream_ok u \<longleftrightarrow> sql_fits (ur_owner_id u) \<and> length (ur_filename u) \<le> MAX_STREAM_FILENAME_LENGTH
     \<and> (\<forall>m. ur_metadata u = Some m \<longrightarrow> length m \<le> MAX_METADATA_SIZE)"

definition streams_of :: "u32 \<Rightarrow> u64 \<Rightarrow> user_stream list \<Rightarrow> user_stream list" where
  "streams_of title owner_id = filter (\<lambda>u. ur_title u = title \<and> ur_owner_id u = owner_id)"

definition streams_ok :: "user_stream list \<Rightarrow> bool" where
  "streams_ok streams \<longleftrightarrow> distinct (map ur_id streams) \<and> distinct (map slot_key streams)
     \<and> (\<forall>u \<in> set streams. stream_ok u) \<and> (\<forall>title owner_id. length (streams_of title owner_id streams) \<le> MAX_SLOT_COUNT)"

definition other_streams :: "u64 \<Rightarrow> user_stream list \<Rightarrow> user_stream list" where
  "other_streams me = filter (\<lambda>u. ur_owner_id u \<noteq> me)"

text \<open>What identifies a stream.\<close>

definition stream_identity :: "user_stream \<Rightarrow> nat \<times> u32 \<times> u64 \<times> u16 \<times> int" where
  "stream_identity u = (ur_id u, ur_title u, ur_owner_id u, ur_slot u, ur_created_at u)"

definition streams_step :: "u64 \<Rightarrow> user_stream list \<Rightarrow> user_stream list \<Rightarrow> bool" where
  "streams_step me streams0 streams \<longleftrightarrow> streams_ok streams
     \<and> other_streams me streams = other_streams me streams0
     \<and> stream_identity ` set streams0 \<subseteq> stream_identity ` set streams"

lemma slot_key_identity: "stream_identity u = stream_identity v \<Longrightarrow> slot_key u = slot_key v"
  by (simp add: stream_identity_def slot_key_def)

text \<open>Rows are rewritten in place and keep what identifies them.\<close>

lemma rewritten_rows:
  assumes same: "\<And>u. stream_identity (f u) = stream_identity u" and "streams_ok streams"
    and ok: "\<And>u. u \<in> set streams \<Longrightarrow> stream_ok u \<Longrightarrow> stream_ok (f u)"
  shows "streams_ok (map f streams)" "stream_identity ` set (map f streams) = stream_identity ` set streams"
proof -
  have f: "ur_id (f u) = ur_id u" "slot_key (f u) = slot_key u" "ur_title (f u) = ur_title u"
      "ur_owner_id (f u) = ur_owner_id u" for u
    using same [of u] by (simp_all add: stream_identity_def slot_key_def)
  have "length (streams_of t i (map f streams)) = length (streams_of t i streams)" for t i
    by (simp add: streams_of_def filter_map comp_def f)
  then show "streams_ok (map f streams)"
    using assms(2) ok by (simp add: streams_ok_def comp_def f)
  show "stream_identity ` set (map f streams) = stream_identity ` set streams"
    by (auto simp: same image_image)
qed

lemma streams_step_map:
  assumes step: "streams_step me streams0 streams"
    and same: "\<And>u. stream_identity (f u) = stream_identity u"
    and other: "\<And>u. u \<in> set streams \<Longrightarrow> ur_owner_id u \<noteq> me \<Longrightarrow> f u = u"
    and ok: "\<And>u. u \<in> set streams \<Longrightarrow> stream_ok u \<Longrightarrow> stream_ok (f u)"
  shows "streams_step me streams0 (map f streams)"
proof -
  have owner: "ur_owner_id (f u) = ur_owner_id u" for u
    using same [of u] by (simp add: stream_identity_def)
  have "other_streams me (map f streams) = other_streams me streams"
    unfolding other_streams_def filter_map comp_def owner by (rule map_idI) (use other in auto)
  then show ?thesis using step rewritten_rows [OF same _ ok] by (simp add: streams_step_def)
qed

lemma next_stream_id_fresh: "u \<in> set streams \<Longrightarrow> ur_id u < next_stream_id streams"
  unfolding next_stream_id_def by (metis fold_max_upper imageI less_Suc_eq_le list.set_map)

lemma streams_step_insert:
  assumes step: "streams_step me streams0 streams" and u: "ur_owner_id u = me" "stream_ok u"
      "ur_id u = next_stream_id streams" and new: "\<And>v. v \<in> set streams \<Longrightarrow> slot_key v \<noteq> slot_key u"
    and few: "length (streams_of (ur_title u) me streams) < MAX_SLOT_COUNT"
  shows "streams_step me streams0 (streams @ [u])"
proof -
  have "ur_id u \<notin> ur_id ` set streams" using next_stream_id_fresh u(3) by (metis imageE less_irrefl)
  moreover have "slot_key u \<notin> slot_key ` set streams" using new by auto metis
  moreover have "length (streams_of t i (streams @ [u])) \<le> MAX_SLOT_COUNT" for t i
    using step few u(1) by (auto simp: streams_step_def streams_ok_def streams_of_def)
  ultimately show ?thesis using assms unfolding streams_step_def streams_ok_def
    by (auto simp: other_streams_def)
qed

text \<open>On the database.\<close>

definition db_step :: "u64 \<Rightarrow> StreamDb \<Rightarrow> StreamDb \<Rightarrow> bool" where
  "db_step me db0 db \<longleftrightarrow> streams_step me (db_streams db0) (db_streams db)"

lemma db_step_same_rows: "db_streams db' = db_streams db \<Longrightarrow> db_step me db0 db' = db_step me db0 db"
  by (simp add: db_step_def)

lemma keeps_stepI: "(\<And>s. I s \<Longrightarrow> I (snd (m s))) \<Longrightarrow> keeps False I m"
  by (simp add: keeps_def)

lemma keepsD: "keeps b I m \<Longrightarrow> I s \<Longrightarrow> I (snd (m s))"
  by (simp add: keeps_def)

lemma keeps_bind: "keeps False I m \<Longrightarrow> (\<And>x. keeps False I (f x)) \<Longrightarrow> keeps False I (bindE m f)"
  unfolding keeps_def bindE_def by (force split: prod.splits sum.splits)

lemma keeps_then: "keeps False I m \<Longrightarrow> keeps False I n \<Longrightarrow> keeps False I (thenE m n)"
  unfolding thenE_def by (rule keeps_bind)

lemma keeps_return: "keeps False I (returnE x)" "keeps False I (throwE e)"
  by (simp_all add: keeps_def monad_simps)

lemma keeps_authenticated:
  assumes "\<And>auth. s_authentication session = Some auth \<Longrightarrow> keeps False I (m auth)"
  shows "keeps False I (authenticated session m)"
  using assms by (auto simp: authenticated_def intro: keeps_return split: option.split)

lemma add_tags_rows: "db_streams (snd (add_tags i tags db)) = db_streams db"
  by (induction tags arbitrary: db) auto

lemma record_name_rows: "db_streams (snd (record_user_name i name db)) = db_streams db"
  by (simp add: record_user_name_def)

lemma keeps_add_tags: "keeps False (db_step me db0) (thenE (add_tags i tags) (returnE x))"
  by (rule keeps_then [OF _ keeps_return(1)]) (simp add: keeps_def db_step_same_rows [OF add_tags_rows])

lemma keeps_record_name: "keeps False (db_step me db0) (thenE (record_user_name i name) (returnE x))"
  by (rule keeps_then [OF _ keeps_return(1)]) (simp add: keeps_def db_step_same_rows [OF record_name_rows])

section \<open>The lobby\<close>

lemma create_empty_stream_step:
  assumes step: "db_step me db0 db" and name: "length filename \<le> MAX_STREAM_FILENAME_LENGTH"
    and few: "length (streams_of (title_to_u32 title) me (db_streams db)) < MAX_SLOT_COUNT
      \<or> (\<exists>u \<in> set (db_streams db). slot_key u = (title_to_u32 title, me, slot))"
  shows "db_step me db0 (snd (create_empty_stream now title me filename slot category db))"
proof (cases "sql_fits me")
  case False
  then show ?thesis using step by (simp add: create_empty_stream_def)
next
  case fits: True
  let ?key = "(title_to_u32 title, me, slot)"
  show ?thesis
  proof (cases "List.find (\<lambda>u. slot_key u = ?key) (db_streams db)")
    case (Some e)
    let ?f = "\<lambda>u. if slot_key u = ?key then u\<lparr>ur_filename := filename, ur_modified_at := now, ur_metadata := None,
        ur_category := category, ur_data := None\<rparr> else u"
    have "streams_step me (db_streams db0) (map ?f (db_streams db))"
      by (rule streams_step_map) (use step name in \<open>auto simp: db_step_def stream_identity_def slot_key_def stream_ok_def\<close>)
    then show ?thesis using Some fits by (simp add: create_empty_stream_def db_step_def)
  next
    case None
    then have new: "slot_key v \<noteq> ?key" if "v \<in> set (db_streams db)" for v
      using that by (auto simp: find_None_iff)
    let ?u = "\<lparr>ur_id = next_stream_id (db_streams db), ur_filename = filename, ur_title = title_to_u32 title,
      ur_created_at = now, ur_modified_at = now, ur_owner_id = me, ur_metadata = None, ur_category = category,
      ur_slot = slot, ur_data = None\<rparr>"
    have "streams_step me (db_streams db0) (db_streams db @ [?u])"
      by (rule streams_step_insert) (use step name few new fits in \<open>auto simp: db_step_def stream_ok_def slot_key_def\<close>)
    then show ?thesis using None fits by (simp add: create_empty_stream_def db_step_def Let_def)
  qed
qed

lemma keeps_upload_request:
  assumes auth: "s_authentication session = Some auth"
  shows "keeps False (db_step (a_user_id auth) db0) (request_stream_upload service now session request_data)"
proof (rule keeps_stepI)
  fix db assume step: "db_step (a_user_id auth) db0 db"
  let ?me = "a_user_id auth" and ?slot = "scr_slot request_data" and ?name = "scr_filename request_data"
  let ?mine = "filter (\<lambda>u. ur_owner_id u = ?me \<and> ur_title u = title_to_u32 (a_title auth)) (db_streams db)"
  let ?taken = "?mine \<noteq> [] \<and> list_ex (\<lambda>u. ur_slot u = ?slot) ?mine"
  let ?create = "create_empty_stream now (a_title auth) ?me ?name ?slot (scr_category request_data)"
  have mine: "?mine = streams_of (title_to_u32 (a_title auth)) ?me (db_streams db)"
    unfolding streams_of_def by (rule filter_cong) auto
  show "db_step ?me db0 (snd (request_stream_upload service now session request_data db))"
  proof (cases "unat (scr_file_size request_data) > MAX_USER_STREAM_SIZE \<or> length ?name > MAX_STREAM_FILENAME_LENGTH
      \<or> \<not> sql_fits ?me \<or> \<not> ?taken \<and> length ?mine \<ge> MAX_SLOT_COUNT")
    case True
    then show ?thesis using step
      by (auto simp: request_stream_upload_def authenticated_def auth bindE_def get_slot_count_for_upload_def
          Let_def monad_simps)
  next
    case False
    have "db_step ?me db0 (snd (?create db))"
    proof (rule create_empty_stream_step [OF step])
      show "length (streams_of (title_to_u32 (a_title auth)) ?me (db_streams db)) < MAX_SLOT_COUNT
          \<or> (\<exists>u \<in> set (db_streams db). slot_key u = (title_to_u32 (a_title auth), ?me, ?slot))"
        using False unfolding mine [symmetric] by (auto simp: list_ex_iff slot_key_def)
    qed (use False in simp)
    moreover have "request_stream_upload service now session request_data db
        = bindE ?create (\<lambda>stream_id. thenE (record_user_name ?me (a_username auth))
            (returnE (Inr (build_stream_url service now ?me (a_title auth) (of_nat stream_id) OpCreate)))) db"
      using False by (auto simp: request_stream_upload_def authenticated_def auth bindE_def
          get_slot_count_for_upload_def Let_def)
    ultimately show ?thesis
      using keepsD [OF keeps_record_name] by (fastforce simp: bindE_def split: prod.split sum.split)
  qed
qed

lemma keeps_finish_upload:
  assumes auth: "s_authentication session = Some auth"
  shows "keeps False (db_step (a_user_id auth) db0) (finish_stream_upload session uploaded)"
proof (rule keeps_stepI)
  fix db assume step: "db_step (a_user_id auth) db0 db"
  let ?me = "a_user_id auth" and ?m = "ups_metadata uploaded"
  have "db_step ?me db0 (snd (set_stream_metadata (a_title auth) ?me (ups_slot uploaded) ?m (ups_tags uploaded) db))"
    if len: "length ?m \<le> MAX_METADATA_SIZE"
  proof -
    have "db_step ?me db0 (db\<lparr>db_streams := map (\<lambda>u. if ur_title u = t \<and> ur_id u = i \<and> ur_owner_id u = ?me
        then u\<lparr>ur_metadata := Some ?m\<rparr> else u) (db_streams db)\<rparr>)" (is "db_step ?me db0 (?db i t)") for i t
      unfolding db_step_def by (simp, rule streams_step_map)
        (use step len in \<open>auto simp: db_step_def stream_identity_def stream_ok_def\<close>)
    then show ?thesis
      using step by (auto simp: set_stream_metadata_def intro!: keepsD [OF keeps_add_tags] split: option.split)
  qed
  then show "db_step ?me db0 (snd (finish_stream_upload session uploaded db))"
    using step by (auto simp: finish_stream_upload_def authenticated_def auth bindE_def monad_simps
        split: prod.splits sum.splits)
qed

lemma keeps_reading_streams:
  "keeps False I (get_user_streams_by_id service now session ids)"
  "keeps False I (list_streams_of_users service order now session owners since category offset count)"
  "keeps False I (request_stream_deletion service now session slot)"
  unfolding get_user_streams_by_id_def list_streams_of_users_def request_stream_deletion_def
  by (intro keeps_authenticated keeps_stepI; simp split: sum.split prod.split add: Let_def)+

text \<open>In the world of the handler.\<close>

definition lobby_step :: "u64 \<Rightarrow> StreamWorld \<Rightarrow> StreamWorld \<Rightarrow> bool" where
  "lobby_step me w0 w \<longleftrightarrow> db_step me (cw_db w0) (cw_db w) \<and> cw_dir w = cw_dir w0"

lemma keeps_on_streams:
  assumes "keeps False (db_step me (cw_db w0)) m"
  shows "keeps False (lobby_step me w0) (on_streams m)"
  using assms by (auto simp: keeps_def lobby_step_def on_streams_def split: prod.split)

lemma keeps_on_publisher: "keeps False (lobby_step me w0) (on_publisher m)"
  by (simp add: keeps_def lobby_step_def on_publisher_def split: prod.split)

lemma safe_page [safe_intros]: "safe read_page"
  unfolding read_page_def by (intro safe_intros)

lemma safe_creation_request [safe_intros]: "safe read_creation_request"
  unfolding read_creation_request_def by (intro safe_intros)

lemma safe_uploaded_stream [safe_intros]: "safe read_uploaded_stream"
  unfolding read_uploaded_stream_def by (intro safe_intros)

lemma stream_slice_reply:
  "bindE (with_result_slice op s) (\<lambda>t. liftE (task_to_response t)) = reply_results op (rs_data s)"
  by (simp add: reply_results_def with_results_def with_result_slice_def)

lemma confined_stream_answers [confined_intros]:
  "confined False session I (answer_for_stream_info_slice op result)"
  "confined False session I (answer_for_stream_url op url)"
  unfolding answer_for_stream_info_slice_def answer_for_stream_url_def stream_slice_reply
  by (intro confined_intros)+

lemma streams_confined:
  assumes auth: "s_authentication session = Some auth" and r: "reader_inv r"
  shows "confined False session (lobby_step (a_user_id auth) w0) (content_streaming_handle e r)"
proof -
  let ?I = "lobby_step (a_user_id auth) w0"
  note ops = keeps_on_streams [OF keeps_upload_request [OF auth]] keeps_on_streams [OF keeps_finish_upload [OF auth]]
    keeps_on_streams [OF keeps_reading_streams(1)] keeps_on_streams [OF keeps_reading_streams(2)]
    keeps_on_streams [OF keeps_reading_streams(3)] keeps_on_publisher
  have page: "confined False session ?I (bindE (run_rd read_page r) (\<lambda>((a, b, c, d), r1). f a b c d r1))"
    if "reader_inv r" "\<And>a b c d r1. reader_inv r1 \<Longrightarrow> confined False session ?I (f a b c d r1)"
    for r and f :: "u32 \<Rightarrow> u16 \<Rightarrow> u16 \<Rightarrow> u16 \<Rightarrow> reader \<Rightarrow> (StreamWorld, BdResponse) act"
  proof -
    have paged: "(\<lambda>((a, b, c, d), r1). f a b c d r1) = (\<lambda>(v, r1). case v of (a, b, c, d) \<Rightarrow> f a b c d r1)"
      by (auto simp: fun_eq_iff)
    show ?thesis unfolding paged
      by (rule confined_read [OF safe_page that(1)]) (simp add: that(2) split: prod.split)
  qed
  have metadata: "confined False session ?I (get_file_metadata_by_id e r)" if "reader_inv r" for r
    unfolding get_file_metadata_by_id_def by (intro confined_intros ops safe_intros that)
  have list: "confined False session ?I (list_streams op m e r)" if "reader_inv r" "safe m" for op m r
    unfolding list_streams_def by (intro page confined_intros ops that)
  have lists: "confined False session ?I (list_streams_by_owner e r)" "confined False session ?I (list_files_by_owners e r)"
    if "reader_inv r" for r
    unfolding list_streams_by_owner_def list_files_by_owners_def by (intro list that safe_intros)+
  have publisher: "confined False session ?I (list_all_publisher_files e r)" if "reader_inv r" for r
    unfolding list_all_publisher_files_def by (intro page confined_intros ops safe_intros that)
  have publisher': "confined False session ?I (pre_download_publisher_file e r)" if "reader_inv r" for r
    unfolding pre_download_publisher_file_def by (intro confined_intros ops safe_intros that)
  have upload: "confined False session ?I (pre_upload_file e r)" "confined False session ?I (post_upload_file e r)"
      "confined False session ?I (pre_delete_file e r)" if "reader_inv r" for r
    unfolding pre_upload_file_def post_upload_file_def pre_delete_file_def
    by (intro confined_intros ops safe_intros that)+
  have choose: "confined False session ?I (if b then reply_only c i else reply_results i ws)" for b c i ws
    by (auto intro: confined_intros)
  have download: "confined False session ?I (pre_download_by_file_id e r)" if "reader_inv r" for r
    unfolding pre_download_by_file_id_def by (intro confined_intros ops safe_intros that choose)
  show ?thesis unfolding content_streaming_handle_def
    by (intro confined_intros safe_intros r) (auto split: option.split ContentStreamingTaskId.split
        intro: metadata lists publisher publisher' upload download confined_reply_only)
qed

end
