(* ===== verification/Stream_Properties.thy ===== *)
theory Stream_Properties
  imports Stream_Laws
begin

text \<open>
  The properties of content streaming: the slots of a user over the lobby, the tokens over HTTP,
  the way of a stream from its announcement to its download, and what never arrives.
\<close>

section \<open>Over the lobby\<close>

lemma lobby_step_refl: "streams_ok (db_streams (cw_db w)) \<Longrightarrow> lobby_step me w w"
  by (simp add: lobby_step_def db_step_def streams_step_def)

text \<open>
  C34. Only the owner touches a stream over the lobby. Whatever bytes a user sends to the content
  streaming service, and whether the request is answered or fails, the table stays in order
  (ids and slots unique, names and metadata within their limits, nobody with more than 128
  streams of a title), the streams of all other users are exactly what they were, and no
  stream loses its id, title, owner, slot or time of creation.
\<close>

theorem streams_owned:
  assumes "s_authentication session = Some auth" "streams_ok (db_streams (cw_db w))"
    and "reader_inv r" "tid < 2 ^ 64 - 1"
  shows "\<exists>x w'. answer (content_streaming_handle e) (session, tid, r) w = (x, w')
    \<and> streams_ok (db_streams (cw_db w'))
    \<and> other_streams (a_user_id auth) (db_streams (cw_db w')) = other_streams (a_user_id auth) (db_streams (cw_db w))
    \<and> stream_identity ` set (db_streams (cw_db w)) \<subseteq> stream_identity ` set (db_streams (cw_db w'))"
proof -
  obtain x w' where "answer (content_streaming_handle e) (session, tid, r) w = (x, w')"
      "lobby_step (a_user_id auth) w w'"
    by (rule answer_confined [where b = False and I = "lobby_step (a_user_id auth) w" and handle = "content_streaming_handle e"
        and session = session and r = r and tid = tid and w = w,
        OF streams_confined [OF assms(1,3)] assms(4) lobby_step_refl [OF assms(2)]])
  then show ?thesis unfolding lobby_step_def db_step_def streams_step_def by blast
qed

definition stream_user :: "u64 \<Rightarrow> BdSession" where
  "stream_user i = \<lparr>s_id = 4, s_authentication = Some \<lparr>a_user_id = i, a_username = [0x61],
     a_session_key = [], a_title = Iw4\<rparr>\<rparr>"

lemma stream_user: "s_authentication (stream_user i) = Some \<lparr>a_user_id = i, a_username = [0x61],
    a_session_key = [], a_title = Iw4\<rparr>"
  by (simp add: stream_user_def)

definition streamed :: "nat \<Rightarrow> u64 \<Rightarrow> bytes option \<Rightarrow> user_stream" where
  "streamed i owner data = \<lparr>ur_id = i, ur_filename = [0x66], ur_title = 2010, ur_created_at = 5, ur_modified_at = 5,
     ur_owner_id = owner, ur_metadata = None, ur_category = 0, ur_slot = 1, ur_data = data\<rparr>"

definition streams_world :: "user_stream list \<Rightarrow> StreamWorld" where
  "streams_world streams = \<lparr>cw_db = \<lparr>db_streams = streams, db_tags = [], db_names = \<lambda>_. None\<rparr>,
     cw_publisher = \<lparr>publisher_hostname = [], publisher_port = 80, publisher_streams = \<lambda>_. None,
       publisher_poisoned = False\<rparr>, cw_dir = \<lambda>_. None\<rparr>"

lemma db_streams_world [simp]: "db_streams (cw_db (streams_world streams)) = streams"
  by (simp add: streams_world_def)

text \<open>Tokens that are their claims, their numbers written as rows of ones.\<close>

definition unary :: "nat \<Rightarrow> bytes" where
  "unary n = replicate n 1 @ [0]"

definition take_unary :: "bytes \<Rightarrow> nat \<times> bytes" where
  "take_unary bs = (length (takeWhile (\<lambda>b. b = 1) bs), tl (dropWhile (\<lambda>b. b = 1) bs))"

lemma take_unary [simp]: "take_unary (unary n @ bs) = (n, bs)"
proof -
  have "takeWhile (\<lambda>b. b = 1) (unary n @ bs) = replicate n 1" "dropWhile (\<lambda>b. b = 1) (unary n @ bs) = 0 # bs"
    by (induction n) (simp_all add: unary_def)
  then show ?thesis by (simp add: take_unary_def)
qed

definition open_jwt :: jwt where
  "open_jwt = \<lparr>
     jwt_encode = (\<lambda>c. (case cl_stream_operation c of OpStream \<Rightarrow> 0 | OpCreate \<Rightarrow> 1 | OpDelete \<Rightarrow> 2)
       # (if cl_exp c < 0 then 1 else 0) # (if cl_iat c < 0 then 1 else 0)
       # unary (nat \<bar>cl_exp c\<bar>) @ unary (nat \<bar>cl_iat c\<bar>) @ unary (unat (cl_stream_title c))
       @ unary (unat (cl_stream_id c)) @ cl_sub c),
     jwt_decode = (\<lambda>now token. case token of
         op # s1 # s2 # bs \<Rightarrow>
           (case take_unary bs of (a, bs1) \<Rightarrow> case take_unary bs1 of (b, bs2) \<Rightarrow>
            case take_unary bs2 of (t, bs3) \<Rightarrow> case take_unary bs3 of (i, sub) \<Rightarrow>
            let expires = (if s1 = 1 then - int a else int a)
            in if now \<le> expires + 60
               then Some \<lparr>cl_exp = expires, cl_iat = (if s2 = 1 then - int b else int b), cl_sub = sub,
                 cl_stream_title = of_nat t, cl_stream_id = of_nat i,
                 cl_stream_operation = (if op = 0 then OpStream else if op = 1 then OpCreate else OpDelete)\<rparr>
               else None)
       | _ \<Rightarrow> None)\<rparr>"

lemma open_jwt: "jwt_decode open_jwt now (jwt_encode open_jwt c) = (if now \<le> cl_exp c + 60 then Some c else None)"
  by (cases c; cases "cl_stream_operation c") (simp_all add: open_jwt_def Let_def)

definition stream_service :: DwUserContentStreamingService where
  "stream_service = \<lparr>content_server_hostname = [0x68], content_server_port = 80, content_keys = open_jwt\<rparr>"

definition stream_example :: stream_env where
  "stream_example = \<lparr>se_service = stream_service, se_order = (\<lambda>rows. rows), se_now = 10, se_clock = 10\<rparr>"

lemma streamed_ok: "sql_fits owner \<Longrightarrow> streams_ok [streamed i owner data]"
  by (simp add: streams_ok_def stream_ok_def streamed_def streams_of_def MAX_STREAM_FILENAME_LENGTH_def MAX_SLOT_COUNT_def)

theorem streams_owned_witness:
  "\<exists>x w'. answer (content_streaming_handle stream_example) (stream_user 7, 3, message_reader (enc_u8 8))
      (streams_world [streamed 1 8 None]) = (x, w')
    \<and> streams_ok (db_streams (cw_db w')) \<and> other_streams 7 (db_streams (cw_db w')) = [streamed 1 8 None]"
proof -
  let ?w = "streams_world [streamed 1 8 None]"
  have inv: "reader_inv (message_reader bits)" for bits using message_reader(1) readyD(1) by blast
  have ok: "streams_ok (db_streams (cw_db ?w))" using streamed_ok by (simp add: sql_fits_def)
  have "other_streams 7 (db_streams (cw_db ?w)) = [streamed 1 8 None]" by (simp add: other_streams_def streamed_def)
  then show ?thesis using streams_owned [where tid = 3 and e = stream_example,
        OF stream_user [of 7] ok inv [of "enc_u8 8"]] by auto
qed

section \<open>What never arrives\<close>

text \<open>A reply fails when its first result does.\<close>

definition breaks :: "bd_error \<Rightarrow> wr \<Rightarrow> bool" where
  "breaks err m \<longleftrightarrow> (\<forall>w. writer_inv w \<and> w_mode w = BitMode \<and> w_type_checked w \<longrightarrow> fst (m w) = Inl err)"

lemma breaks_later: "writes BitMode True bs m \<Longrightarrow> breaks err n \<Longrightarrow> breaks err (thenE m n)"
  unfolding breaks_def
proof (intro allI impI)
  fix w assume "writes BitMode True bs m" and n: "\<forall>w. writer_inv w \<and> w_mode w = BitMode \<and> w_type_checked w \<longrightarrow> fst (n w) = Inl err"
    and w: "writer_inv w \<and> w_mode w = BitMode \<and> w_type_checked w"
  then obtain w' where "m w = (Inr (), w')" "adds bs w w'" by (auto elim: writesE [where w = w])
  then show "fst (thenE m n w) = Inl err" using n w by (simp add: thenE_def bindE_def adds_def)
qed

lemma breaks_now: "breaks err m \<Longrightarrow> breaks err (thenE m n)"
  unfolding breaks_def thenE_def bindE_def by (auto split: prod.split sum.split)

lemma broken_reply:
  assumes "c_transaction conn < 2 ^ 64 - 1" "breaks err m"
  shows "fst (reply_results op (m # ms) conn) = Inl err"
proof -
  let ?rest = "\<lambda>t. thenE (write_u64 (tr_transaction_id t)) (thenE (write_u32 (error_code_to_u32 (tr_error_code t)))
    (thenE (write_u8 (tr_operation_id t)) (thenE (if tr_counted t then write_u32 (of_nat (length (tr_results t))) else returnE ())
    (thenE (foreachE id (tr_results t)) flush))))"
  let ?t = "\<lparr>tr_transaction_id = c_transaction conn, tr_error_code = NoError, tr_operation_id = op,
    tr_results = m # ms, tr_counted = True\<rparr>"
  have "breaks err (thenE (?rest ?t) flush)"
    by (simp add: thenE_assoc) (intro breaks_later [OF writes_u64] breaks_later [OF writes_u32]
        breaks_later [OF u8_c.writes [OF any_value]] breaks_now assms(2))
  moreover obtain w where "write_header 1 writer_new = (Inr (), w)" "writer_inv w" "w_mode w = BitMode" "w_type_checked w"
    using emits_header [of 1] unfolding emits_def using writer_inv_new by (force simp: writer_new_def)
  ultimately have "fst (thenE (task_reply_writer ?t) flush writer_new) = Inl err"
    by (simp add: task_reply_writer_def thenE_assoc breaks_def) (simp add: thenE_def [of "write_header 1"] bindE_def)
  then have "run_writer (task_reply_writer ?t) = Inl err"
    by (auto simp: run_writer_def split: prod.splits sum.splits)
  then show ?thesis
    by (simp add: reply_results_def with_results_def bindE_def transaction_taken [OF assms(1)] monad_simps
        task_to_response_def liftE_def)
qed

lemma stream_info_breaks: "breaks (ModeError ByteMode BitMode) (stream_info_serialize v)"
proof -
  have "breaks (ModeError ByteMode BitMode) (write_u64_array ws)" for ws
    by (simp add: breaks_def write_u64_array_def write_array_def)
  then show ?thesis unfolding stream_info_serialize_def
    by (intro breaks_later [OF writes_u64] breaks_later [OF writes_u32] breaks_later [OF u16_c.writes [OF any_value]]
        breaks_later [OF writes_str_val] breaks_later [OF writes_blob_val] breaks_now)
qed

text \<open>Reads stay in the mode of bits.\<close>

definition in_bits :: "'a rd \<Rightarrow> bool" where
  "in_bits m \<longleftrightarrow> (\<forall>r. r_mode r = BitMode \<longrightarrow> r_mode (snd (m r)) = BitMode)"

named_theorems in_bits_intros \<open>reads that stay in bit mode\<close>

lemma in_bitsI: "(\<And>r. r_mode r = BitMode \<Longrightarrow> r_mode (snd (m r)) = BitMode) \<Longrightarrow> in_bits m"
  by (simp add: in_bits_def)

lemma in_bits_bind [in_bits_intros]: "in_bits m \<Longrightarrow> (\<And>x. in_bits (f x)) \<Longrightarrow> in_bits (bindE m f)"
  unfolding in_bits_def bindE_def by (force split: prod.splits sum.splits)

lemma in_bits_then [in_bits_intros]: "in_bits m \<Longrightarrow> in_bits n \<Longrightarrow> in_bits (thenE m n)"
  unfolding thenE_def by (rule in_bits_bind)

lemma in_bits_return [in_bits_intros]: "in_bits (returnE x)" "in_bits (throwE e)" "in_bits (ensureE b e)"
  by (auto simp: in_bits_def monad_simps ensureE_def)

lemma in_bits_read_bits [in_bits_intros]: "in_bits (read_bits buf n)"
proof -
  have exact: "r_mode (snd (cursor_read_exact k r)) = r_mode r" for k r by (simp add: cursor_read_exact_def)
  have u8: "r_mode (snd (cursor_read_u8 r)) = r_mode r" for r
    using exact [of 1 r] by (auto simp: cursor_read_u8_def bindE_def monad_simps split: prod.split sum.split)
  have fetch: "r_mode (snd (read_bits_fetch k r)) = r_mode r" for k r
    using u8 [of r] by (auto simp: read_bits_fetch_def Let_def bindE_def split: prod.split sum.split)
  have step: "r_mode (snd (read_bits_step k r)) = r_mode r" for k r
    using fetch [of k r] by (auto simp: read_bits_step_def Let_def bindE_def split: prod.split sum.split)
  have "r_mode (snd (read_bits_loop k off b r)) = r_mode r" for k off b r
  proof (induction k off b r rule: read_bits_loop.induct)
    case (1 k off b r)
    then show ?case using step [of k r]
      by (subst read_bits_loop.simps) (auto split: prod.split sum.split)
  qed
  then have loop: "in_bits (\<lambda>r. if r_mode r \<noteq> BitMode then (Inl (ModeError BitMode (r_mode r)), r)
      else read_bits_loop n 0 buf r)"
    by (simp add: in_bits_def)
  show ?thesis unfolding read_bits_def by (intro in_bits_intros loop)
qed

lemma in_bits_data_type: "in_bits (lift_data_type x)" "in_bits read_data_type"
proof -
  show lift: "in_bits (lift_data_type x)" for x
    by (auto simp: lift_data_type_def in_bits_intros split: sum.split)
  have "in_bits (bindE (read_bits [0] 5) (\<lambda>buf. lift_data_type (from_value (hd buf))))" by (intro in_bits_intros lift)
  then show "in_bits read_data_type" by (simp add: read_data_type_def in_bits_def)
qed

lemma in_bits_expect [in_bits_intros]: "in_bits (expect_type t)"
proof -
  have "in_bits (bindE read_data_type (\<lambda>actual. ensureE (eq_non_array actual t) (UnexpectedDataType (no_array t) actual)))"
    by (intro in_bits_intros in_bits_data_type)
  then show ?thesis by (simp add: expect_type_def in_bits_def)
qed

lemma in_bits_state: "(\<And>r. r_mode r = BitMode \<Longrightarrow> m r = n r r) \<Longrightarrow> (\<And>s. in_bits (n s)) \<Longrightarrow> in_bits m"
  by (simp add: in_bits_def)

lemma in_bits_scalar [in_bits_intros]: "in_bits (read_scalar t n)"
  unfolding read_scalar_def
  by (rule in_bits_then [OF in_bits_expect in_bits_state [of _ "\<lambda>_. read_bits (replicate n 0) (n * 8)"]])
    (auto intro: in_bits_read_bits)

lemma in_bits_values [in_bits_intros]: "in_bits read_u16" "in_bits read_u32" "in_bits read_u64"
  unfolding read_u16_def read_u32_def read_u64_def by (intro in_bits_intros)+

lemma in_bits_str [in_bits_intros]: "in_bits read_str"
proof -
  have loop: "in_bits (read_str_loop fuel acc)" for fuel acc
  proof (induction fuel arbitrary: acc)
    case (Suc fuel)
    have "in_bits (if b then returnE acc else read_str_loop fuel (acc @ byte))" for b byte
      using Suc in_bits_return(1) by auto
    then show ?case unfolding read_str_loop.simps by (intro in_bits_bind in_bits_read_bits)
  qed (simp add: in_bits_return)
  have "in_bits (bindE (read_str_loop fuel []) from_utf8)" for fuel
    unfolding from_utf8_def by (intro in_bits_intros loop)
  from in_bits_state [OF _ this] show ?thesis unfolding read_str_def
    by (rule in_bits_then [OF in_bits_expect]) (simp only: if_True refl)
qed

lemma in_bits_blob [in_bits_intros]: "in_bits read_blob"
  unfolding read_blob_def
  by (intro in_bits_intros in_bits_state [where n = "\<lambda>r. read_bits (replicate (unat k) 0) (unat k * 8)" for k])
    (simp_all add: Let_def in_bits_read_bits)

text \<open>A read that fails in bit mode, and one that comes to it.\<close>

definition denied :: "'a rd \<Rightarrow> bool" where
  "denied m \<longleftrightarrow> (\<forall>r. r_mode r = BitMode \<longrightarrow> (\<exists>e. fst (m r) = Inl e))"

lemma denied_later: "in_bits m \<Longrightarrow> (\<And>x. denied (f x)) \<Longrightarrow> denied (bindE m f)"
  unfolding in_bits_def denied_def bindE_def by (force split: prod.splits sum.splits)

lemma denied_now: "denied m \<Longrightarrow> denied (bindE m f)"
  unfolding denied_def bindE_def by (force split: prod.splits sum.splits)

lemma denied_array: "denied read_u64_array"
  by (simp add: denied_def read_u64_array_def read_array_bit_mode)

lemma denied_request: "denied m \<Longrightarrow> r_mode r = BitMode \<Longrightarrow> \<exists>e. bindE (run_rd m r) f conn = (Inl e, conn)"
  unfolding denied_def run_rd_def bindE_def by (force split: prod.splits sum.splits)

text \<open>
  C37. What the array operations deny. The reader and the writer know arrays only in byte mode,
  and requests and replies of services are bit streams. So no upload is ever finished and no
  list of the streams of several users is ever asked for: a message with one of these tasks is
  rejected whatever bytes follow. And no description of a stream ever leaves the server: when
  streams are found for the id of a download, the reply cannot be written and the request fails
  although nothing else is wrong.
\<close>

theorem streams_never_listed:
  assumes "ready BitMode True r" "rbits r = enc_u8 task @ rest"
  shows "(task = 6 \<or> task = 14 \<longrightarrow> (\<exists>err. answer (content_streaming_handle e) (session, tid, r) w = (Inl err, w)))
    \<and> (task = 9 \<and> rest = enc_u64 i @ enc_u32 n @ rest' \<and> tid < 2 ^ 64 - 1
      \<and> get_user_streams_by_id (se_service e) (se_now e) session [i] (cw_db w) = (Inr (Inr (info # infos)), cw_db w)
      \<longrightarrow> fst (answer (content_streaming_handle e) (session, tid, r) w) = Inl (ModeError ByteMode BitMode))"
    (is "?rejected \<and> ?undescribed")
proof
  obtain r1 where 1: "read_u8 r = (Inr task, r1)" "ready BitMode True r1" "rbits r1 = rest"
    using reads_ready [OF reads_u8 assms] .
  let ?conn = "\<lparr>c_session = session, c_sent = [], c_transaction = tid, c_world = w\<rparr> :: StreamWorld conn"
  have "denied read_uploaded_stream" unfolding read_uploaded_stream_def
    by (intro denied_later in_bits_intros denied_now denied_array)
  then have upload: "\<exists>err. post_upload_file e r1 ?conn = (Inl err, ?conn)"
    unfolding post_upload_file_def by (rule denied_request) (use readyD [OF 1(2)] in simp)
  have "\<exists>err. list_files_by_owners e r1 ?conn = (Inl err, ?conn)"
    unfolding list_files_by_owners_def list_streams_def
    by (rule denied_request [OF denied_array]) (use readyD [OF 1(2)] in simp)
  then show ?rejected using upload
    by (auto simp: answer_def content_streaming_handle_def bind_run_rd [of read_u8, OF 1(1)] stream_task_from_u8_def)
next
  show ?undescribed
  proof
    let ?conn = "\<lparr>c_session = session, c_sent = [], c_transaction = tid, c_world = w\<rparr> :: StreamWorld conn"
    assume asm: "task = 9 \<and> rest = enc_u64 i @ enc_u32 n @ rest' \<and> tid < 2 ^ 64 - 1
      \<and> get_user_streams_by_id (se_service e) (se_now e) session [i] (cw_db w) = (Inr (Inr (info # infos)), cw_db w)"
    obtain r1 where r1: "read_u8 r = (Inr task, r1)" "ready BitMode True r1" "rbits r1 = rest"
      using reads_ready [OF reads_u8 assms] .
    then obtain r2 where r2: "read_u64 r1 = (Inr i, r2)" "ready BitMode True r2" "rbits r2 = enc_u32 n @ rest'"
      using reads_ready [OF reads_u64 r1(2)] asm by metis
    obtain r3 where r3: "read_u32 r2 = (Inr n, r3)" using reads_ready [OF reads_u32 r2(2,3)] .
    have ids: "bindE read_u64 (\<lambda>file_id. bindE read_u32 (\<lambda>file_size. returnE file_id)) r1 = (Inr i, r3)"
      using r2(1) r3 by (simp add: bindE_def monad_simps)
    have "on_streams (get_user_streams_by_id (se_service e) (se_now e) session [i]) w = (Inr (Inr (info # infos)), w)"
      using asm by (simp add: on_streams_def)
    then have "pre_download_by_file_id e r1 ?conn = reply_results 9 [stream_info_serialize (last (info # infos))] ?conn"
      by (simp add: pre_download_by_file_id_def bind_run_rd [of "bindE read_u64 (\<lambda>file_id. bindE read_u32 (\<lambda>file_size. returnE file_id))", OF ids] bind_the_session bind_on_service)
    moreover have "fst (reply_results 9 [stream_info_serialize (last (info # infos))] ?conn) = Inl (ModeError ByteMode BitMode)"
      by (rule broken_reply [OF _ stream_info_breaks]) (use asm in simp)
    ultimately show "fst (answer (content_streaming_handle e) (session, tid, r) w) = Inl (ModeError ByteMode BitMode)"
      using asm by (auto simp: answer_def content_streaming_handle_def bind_run_rd [of read_u8, OF r1(1)]
          stream_task_from_u8_def split: prod.split)
  qed
qed

theorem streams_never_listed_witness:
  "(\<exists>err. answer (content_streaming_handle stream_example) (stream_user 7, 3, message_reader (enc_u8 6 @ [True]))
      (streams_world []) = (Inl err, streams_world []))
    \<and> fst (answer (content_streaming_handle stream_example)
        (stream_user 7, 3, message_reader (enc_u8 9 @ enc_u64 1 @ enc_u32 2)) (streams_world [streamed 1 8 (Some [0x61])]))
      = Inl (ModeError ByteMode BitMode)"
proof
  show "\<exists>err. answer (content_streaming_handle stream_example) (stream_user 7, 3, message_reader (enc_u8 6 @ [True]))
      (streams_world []) = (Inl err, streams_world [])"
    by (rule streams_never_listed [where task = 6, THEN conjunct1, rule_format, OF message_reader(1)])
      (simp_all add: message_reader(2))
  let ?bits = "enc_u8 9 @ enc_u64 1 @ enc_u32 2" and ?w = "streams_world [streamed 1 8 (Some [0x61])]"
  have bits: "rbits (message_reader ?bits) = enc_u8 9 @ enc_u64 1 @ enc_u32 2 @ replicate (padding (length ?bits)) False"
    by (simp add: message_reader(2))
  obtain info where "get_user_streams_by_id (se_service stream_example) (se_now stream_example) (stream_user 7) [1] (cw_db ?w)
      = (Inr (Inr (info # [])), cw_db ?w)"
    by (simp add: get_user_streams_by_id_def authenticated_def stream_user streams_world_def streamed_def sql_fits_def
        map_persisted_stream_info_def Let_def)
  then show "fst (answer (content_streaming_handle stream_example) (stream_user 7, 3, message_reader ?bits) ?w)
      = Inl (ModeError ByteMode BitMode)"
    by (intro streams_never_listed [where i = 1 and n = 2 and info = info and infos = "[]",
        OF message_reader(1) bits, THEN conjunct2, rule_format]) simp
qed

end
