(* ===== verification/Stream_Tokens.thy ===== *)
theory Stream_Tokens
  imports Stream_Properties
begin

text \<open>
  The tokens of content streaming. The lobby answers with URLs that carry signed claims and the HTTP
  routes move bytes for whoever presents them; \<open>stream_traffic\<close> is the runs of both over one
  database, with the URLs in the lobby's answers so far and the users who got them. What the
  library of signed tokens promises is a hypothesis: a token that is accepted was handed out
  by this server, whose keys are drawn at its start, and the claims it carries are those that
  were signed, at most a minute after they expire (the leeway of its default validation).
\<close>

section \<open>Runs of the lobby and of the routes\<close>

text \<open>The URLs in an answer.\<close>

fun answered_url :: "bd_error + (ContentStreamingServiceError + StreamUrl) \<Rightarrow> bytes set" where
  "answered_url (Inr (Inr url)) = {su_url url}"
| "answered_url _ = {}"

fun answered_infos :: "bd_error + (ContentStreamingServiceError + StreamInfo list) \<Rightarrow> bytes set" where
  "answered_infos (Inr (Inr infos)) = si_url ` set infos"
| "answered_infos _ = {}"

fun answered_slice :: "bd_error + (ContentStreamingServiceError + StreamInfo ResultSlice) \<Rightarrow> bytes set" where
  "answered_slice (Inr (Inr streams)) = si_url ` set (rs_data streams)"
| "answered_slice _ = {}"

text \<open>The database outlives the server, so a run starts from any table in order, but the keys do not: no URL has
  been handed out. The routes may be called with any token.\<close>

inductive stream_traffic :: "DwUserContentStreamingService \<Rightarrow> StreamDb \<Rightarrow> (u64 \<times> bytes) set \<Rightarrow> bool"
  for service where
  start: "streams_ok (db_streams db) \<Longrightarrow> stream_traffic service db {}"
| announced: "\<lbrakk>stream_traffic service db handed; s_authentication session = Some auth;
    request_stream_upload service now session request_data db = (x, db')\<rbrakk>
    \<Longrightarrow> stream_traffic service db' (Pair (a_user_id auth) ` answered_url x \<union> handed)"
| finished: "\<lbrakk>stream_traffic service db handed; s_authentication session = Some auth;
    finish_stream_upload session uploaded_file db = (y, db')\<rbrakk> \<Longrightarrow> stream_traffic service db' handed"
| deletable: "\<lbrakk>stream_traffic service db handed; s_authentication session = Some auth;
    request_stream_deletion service now session slot db = (x, db')\<rbrakk>
    \<Longrightarrow> stream_traffic service db' (Pair (a_user_id auth) ` answered_url x \<union> handed)"
| found: "\<lbrakk>stream_traffic service db handed; s_authentication session = Some auth;
    get_user_streams_by_id service now session file_ids db = (infos, db')\<rbrakk>
    \<Longrightarrow> stream_traffic service db' (Pair (a_user_id auth) ` answered_infos infos \<union> handed)"
| listed: "\<lbrakk>stream_traffic service db handed; s_authentication session = Some auth;
    list_streams_of_users service order now session owner_ids since category item_offset item_count db = (streams, db')\<rbrakk>
    \<Longrightarrow> stream_traffic service db' (Pair (a_user_id auth) ` answered_slice streams \<union> handed)"
| uploaded: "\<lbrakk>stream_traffic service db handed; upload_user_file service now token title_num stream_id body db = (z, db')\<rbrakk>
    \<Longrightarrow> stream_traffic service db' handed"
| deleted: "\<lbrakk>stream_traffic service db handed; delete_user_file False service now token title_num stream_id db = (z, db')\<rbrakk>
    \<Longrightarrow> stream_traffic service db' handed"

section \<open>The token in a URL\<close>

definition handed_token :: "DwUserContentStreamingService \<Rightarrow> (u64 \<times> bytes) set \<Rightarrow> u64 \<Rightarrow> bytes \<Rightarrow> bool" where
  "handed_token service handed i token \<longleftrightarrow> (\<exists>title k. (i, user_url service title k token) \<in> handed)"

text \<open>What the library promises of a token at a time.\<close>

definition token_sound :: "DwUserContentStreamingService \<Rightarrow> (u64 \<times> bytes) set \<Rightarrow> int \<Rightarrow> bytes \<Rightarrow> bool" where
  "token_sound service handed now token \<longleftrightarrow>
    (jwt_decode (content_keys service) now token \<noteq> None \<longrightarrow> (\<exists>i. handed_token service handed i token))
    \<and> (\<forall>c c'. token = jwt_encode (content_keys service) c \<and> jwt_decode (content_keys service) now token = Some c'
        \<longrightarrow> c' = c \<and> now \<le> cl_exp c + 60)"

lemma takeWhile_digits: "takeWhile (\<lambda>b. b \<noteq> 0x2F) (show_nat n @ 0x2F # xs) = show_nat n"
  and takeWhile_digits': "takeWhile (\<lambda>b. b \<noteq> 0x3F) (show_nat n @ 0x3F # xs) = show_nat n"
proof -
  have digit: "b \<noteq> 0x2F \<and> b \<noteq> 0x3F" if digits: "b \<in> set (show_nat n)" for b
  proof -
    obtain d :: nat where "d < 10" "b = 0x30 + of_nat d" using show_nat_digits(1) [of n] digits by blast
    moreover from \<open>d < 10\<close> have "d = 0 \<or> d = 1 \<or> d = 2 \<or> d = 3 \<or> d = 4 \<or> d = 5 \<or> d = 6 \<or> d = 7 \<or> d = 8 \<or> d = 9"
      by presburger
    ultimately show ?thesis by (elim disjE) simp_all
  qed
  show "takeWhile (\<lambda>b. b \<noteq> 0x2F) (show_nat n @ 0x2F # xs) = show_nat n"
    by (subst takeWhile_append2) (use digit in auto)
  show "takeWhile (\<lambda>b. b \<noteq> 0x3F) (show_nat n @ 0x3F # xs) = show_nat n"
    by (subst takeWhile_append2) (use digit in auto)
qed

lemma user_url_token:
  assumes "user_url service title k token = user_url service title' k' token'"
  shows "token = token'"
proof -
  let ?a = "show_nat (unat (title_to_u32 title))" and ?a' = "show_nat (unat (title_to_u32 title'))"
  let ?b = "show_nat (unat k)" and ?b' = "show_nat (unat k')"
  have slash: "str ''/'' = [0x2F]" by (simp add: str_def)
  obtain auth where auth: "str ''?authorization='' = 0x3F # auth" by (simp add: str_def)
  have whole: "?a @ 0x2F # ?b @ 0x3F # auth @ token = ?a' @ 0x2F # ?b' @ 0x3F # auth @ token'"
    using assms by (simp add: user_url_def slash auth)
  then have "?a = ?a'" using arg_cong [OF whole, of "takeWhile (\<lambda>b. b \<noteq> 0x2F)"] unfolding takeWhile_digits by blast
  then have rest: "?b @ 0x3F # auth @ token = ?b' @ 0x3F # auth @ token'" using whole by simp
  then have "?b = ?b'" using arg_cong [OF rest, of "takeWhile (\<lambda>b. b \<noteq> 0x3F)"] unfolding takeWhile_digits' by blast
  then show ?thesis using rest by simp
qed

text \<open>Every URL carries a token for the user who got it, and one to upload names a stream of that user.\<close>

definition url_ok :: "DwUserContentStreamingService \<Rightarrow> user_stream list \<Rightarrow> u64 \<Rightarrow> bytes \<Rightarrow> bool" where
  "url_ok service streams i url \<longleftrightarrow> (\<exists>now title k op. url = user_url service title k (create_jwt service now i title k op)
     \<and> (op = OpCreate \<longrightarrow> (\<exists>u \<in> set streams. of_nat (ur_id u) = k \<and> ur_title u = title_to_u32 title \<and> ur_owner_id u = i)))"

definition handed_ok :: "DwUserContentStreamingService \<Rightarrow> user_stream list \<Rightarrow> (u64 \<times> bytes) set \<Rightarrow> bool" where
  "handed_ok service streams handed \<longleftrightarrow> (\<forall>(i, url) \<in> handed. url_ok service streams i url)"

lemma url_ok_grow:
  assumes "url_ok service streams0 i url" "stream_identity ` set streams0 \<subseteq> stream_identity ` set streams"
  shows "url_ok service streams i url"
proof -
  obtain now title k op where url: "url = user_url service title k (create_jwt service now i title k op)"
    and row: "op = OpCreate \<longrightarrow> (\<exists>u \<in> set streams0. of_nat (ur_id u) = k \<and> ur_title u = title_to_u32 title \<and> ur_owner_id u = i)"
    using assms(1) unfolding url_ok_def by blast
  have grown: "\<exists>v \<in> set streams. of_nat (ur_id v) = k \<and> ur_title v = title_to_u32 title \<and> ur_owner_id v = i" if op: "op = OpCreate"
  proof -
    obtain u where u: "u \<in> set streams0" "of_nat (ur_id u) = k" "ur_title u = title_to_u32 title" "ur_owner_id u = i"
      using row op by blast
    obtain v where "v \<in> set streams" "stream_identity u = stream_identity v" using assms(2) u(1) by (auto simp: image_subset_iff)
    then show ?thesis using u(2-4) by (auto simp: stream_identity_def)
  qed
  show ?thesis unfolding url_ok_def
    by (rule exI [of _ now], rule exI [of _ title], rule exI [of _ k], rule exI [of _ op], rule conjI [OF url impI], rule grown)
qed

lemma handed_ok_grow:
  assumes "handed_ok service streams0 handed" "stream_identity ` set streams0 \<subseteq> stream_identity ` set streams"
  shows "handed_ok service streams handed"
  unfolding handed_ok_def
proof (clarify)
  fix i url assume "(i, url) \<in> handed"
  then have "url_ok service streams0 i url" using assms(1) by (auto simp: handed_ok_def)
  then show "url_ok service streams i url" by (rule url_ok_grow [OF _ assms(2)])
qed

lemma handed_ok_more:
  "handed_ok service streams handed \<Longrightarrow> (\<And>url. url \<in> urls \<Longrightarrow> url_ok service streams i url)
    \<Longrightarrow> handed_ok service streams (Pair i ` urls \<union> handed)"
  by (auto simp: handed_ok_def)

lemma url_ok_reading: "op \<noteq> OpCreate \<Longrightarrow> url_ok service streams i (user_url service title k (create_jwt service now i title k op))"
  unfolding url_ok_def by blast

lemma stream_claims_fields [simp]:
  "cl_stream_operation (stream_claims now i t k op) = op" "cl_stream_title (stream_claims now i t k op) = title_to_u32 t"
  "cl_stream_id (stream_claims now i t k op) = k" "cl_sub (stream_claims now i t k op) = show_nat (unat i)"
  "cl_iat (stream_claims now i t k op) = now" "cl_exp (stream_claims now i t k op) = now + CLAIM_LIFETIME_IN_SECONDS"
  by (simp_all add: stream_claims_def)

section \<open>An announcement\<close>

text \<open>The row that a successful announcement leaves.\<close>

lemma created_row:
  assumes "create_empty_stream now title owner_id filename slot category db = (Inr i, db')"
  obtains u where "u \<in> set (db_streams db')" "ur_id u = i" "ur_title u = title_to_u32 title"
    "ur_owner_id u = owner_id" "ur_slot u = slot" "ur_filename u = filename" "ur_data u = None"
proof -
  let ?key = "(title_to_u32 title, owner_id, slot)"
  have fits: "sql_fits owner_id" using assms by (auto simp: create_empty_stream_def split: if_splits)
  show thesis
  proof (cases "List.find (\<lambda>u. slot_key u = ?key) (db_streams db)")
    case (Some e)
    then have e: "e \<in> set (db_streams db)" "slot_key e = ?key" by (auto simp: find_Some_iff)
    let ?e = "e\<lparr>ur_filename := filename, ur_modified_at := now, ur_metadata := None, ur_category := category, ur_data := None\<rparr>"
    have "?e \<in> set (db_streams db')" "i = ur_id e"
      using assms fits Some e by (auto simp: create_empty_stream_def intro!: rev_image_eqI)
    then show thesis using that [of ?e] e(2) by (simp add: slot_key_def)
  next
    case None
    show thesis
      by (rule that [of "last (db_streams db')"]) (use assms fits None in \<open>auto simp: create_empty_stream_def Let_def\<close>)
  qed
qed

lemma announced_upload:
  assumes auth: "s_authentication session = Some auth"
    and run: "request_stream_upload service now session request_data db = (Inr (Inr url), db')"
  obtains u where "u \<in> set (db_streams db')" "of_nat (ur_id u) = su_stream_id url"
    "ur_title u = title_to_u32 (a_title auth)" "ur_owner_id u = a_user_id auth" "ur_data u = None"
    "url = build_stream_url service now (a_user_id auth) (a_title auth) (of_nat (ur_id u)) OpCreate"
proof -
  obtain i db1 where i: "create_empty_stream now (a_title auth) (a_user_id auth) (scr_filename request_data)
      (scr_slot request_data) (scr_category request_data) db = (Inr i, db1)"
    and rest: "thenE (record_user_name (a_user_id auth) (a_username auth)) (returnE (Inr (build_stream_url service now
      (a_user_id auth) (a_title auth) (of_nat i) OpCreate))) db1 = (Inr (Inr url :: ContentStreamingServiceError + StreamUrl), db')"
    using run by (auto simp: request_stream_upload_def authenticated_def auth bindE_def get_slot_count_for_upload_def
        Let_def monad_simps split: if_splits prod.splits sum.splits)
  have "db_streams db' = db_streams db1" "url = build_stream_url service now (a_user_id auth) (a_title auth) (of_nat i) OpCreate"
    using rest by (auto simp: thenE_def bindE_def record_user_name_def monad_simps split: if_splits)
  then show thesis using created_row [OF i] that by (metis StreamUrl.select_convs(1) build_stream_url_def)
qed

section \<open>An upload\<close>

definition with_data :: "Title \<Rightarrow> u64 \<Rightarrow> bytes \<Rightarrow> user_stream \<Rightarrow> user_stream" where
  "with_data title stream_id body u = (if is_stream title stream_id u then u\<lparr>ur_data := Some body\<rparr> else u)"

lemma with_data_identity: "stream_identity (with_data title stream_id body u) = stream_identity u"
  by (simp add: with_data_def stream_identity_def)

lemma upload_cases:
  assumes "upload_user_file service now token title_num stream_id body db = (x, db')"
  shows "db' = db \<and> x \<noteq> Inr (Inr ())
    \<or> (\<exists>c title. jwt_decode (content_keys service) now token = Some c \<and> cl_stream_title c = title_num
        \<and> cl_stream_id c = stream_id \<and> cl_stream_operation c = OpCreate \<and> title_to_u32 title = title_num
        \<and> list_ex (\<lambda>u. is_stream title stream_id u \<and> ur_data u = None) (db_streams db)
        \<and> db' = db\<lparr>db_streams := map (with_data title stream_id body) (db_streams db)\<rparr>)"
  using assms
  by (auto simp: upload_user_file_def validate_jwt_def set_stream_data_def with_data_def [abs_def] bindE_def monad_simps
      dest: title_to_from_u32 split: option.splits if_splits)

lemma only_row:
  assumes "streams_ok (db_streams db)" "u \<in> set (db_streams db)" "ur_id u = unat stream_id" "ur_title u = title_to_u32 title"
    and "w \<in> set (db_streams db)"
  shows "is_stream title stream_id w \<longleftrightarrow> w = u"
proof -
  have "w = u" if "ur_id w = ur_id u"
    using assms(1,2,5) that by (auto simp: streams_ok_def distinct_map dest: inj_onD)
  then show ?thesis using assms(3,4) unfolding is_stream_def by metis
qed

text \<open>Streams stay in order and URLs to upload keep naming streams of their users.\<close>

lemma reading_urls:
  assumes "s_authentication session = Some auth"
  shows "url \<in> answered_infos (fst (get_user_streams_by_id service now session ids db)) \<Longrightarrow> url_ok service streams (a_user_id auth) url"
    "url \<in> answered_slice (fst (list_streams_of_users service order now session owners since category offset count db))
      \<Longrightarrow> url_ok service streams (a_user_id auth) url"
    "url \<in> answered_url (fst (request_stream_deletion service now session slot db)) \<Longrightarrow> url_ok service streams (a_user_id auth) url"
  using assms
  by (auto simp: get_user_streams_by_id_def list_streams_of_users_def request_stream_deletion_def authenticated_def
      build_get_url_def build_stream_url_def result_slice_with_total_count_def Let_def url_ok_reading
      split: sum.splits prod.splits option.splits if_splits)

lemma traffic_invariant:
  assumes "stream_traffic service db handed"
  shows "streams_ok (db_streams db) \<and> handed_ok service (db_streams db) handed"
  using assms
proof (induction rule: stream_traffic.induct)
  case (start db)
  then show ?case by (simp add: handed_ok_def)
next
  case (announced db handed session auth now request_data x db')
  have step: "db_step (a_user_id auth) db db'"
    using keepsD [OF keeps_upload_request [OF announced.hyps(2)], of db db service now request_data] announced
    by (simp add: db_step_def streams_step_def)
  then have old: "handed_ok service (db_streams db') handed"
    using announced.IH handed_ok_grow [of service "db_streams db" handed "db_streams db'"]
    by (simp add: db_step_def streams_step_def)
  have "url_ok service (db_streams db') (a_user_id auth) (su_url url)" if "x = Inr (Inr url)" for url
    using announced_upload [OF announced.hyps(2) announced.hyps(3) [unfolded that]]
    unfolding url_ok_def build_stream_url_def by (metis StreamUrl.select_convs(2))
  then have "url_ok service (db_streams db') (a_user_id auth) url" if "url \<in> answered_url x" for url
    using that by (cases x rule: answered_url.cases) auto
  then show ?case using step handed_ok_more [OF old] by (simp add: db_step_def streams_step_def)
next
  case (finished db handed session auth uploaded_file y db')
  then show ?case using keepsD [OF keeps_finish_upload [OF finished.hyps(2)], of db db uploaded_file] handed_ok_grow
    by (auto simp: db_step_def streams_step_def)
next
  case (deletable db handed session auth now slot x db')
  then show ?case using keepsD [OF keeps_reading_streams(3) [where I = "(=) db"], of db service now session slot]
    reading_urls(3) [OF deletable.hyps(2), of _ service now slot db "db_streams db"]
    by (auto intro!: handed_ok_more)
next
  case (found db handed session auth now file_ids infos db')
  then show ?case using keepsD [OF keeps_reading_streams(1) [where I = "(=) db"], of db service now session file_ids]
    reading_urls(1) [OF found.hyps(2), of _ service now file_ids db "db_streams db"]
    by (auto intro!: handed_ok_more)
next
  case (listed db handed session auth order now owner_ids since category item_offset item_count streams db')
  then show ?case using keepsD [OF keeps_reading_streams(2) [where I = "(=) db"],
      of db service order now session owner_ids since category item_offset item_count]
    reading_urls(2) [OF listed.hyps(2), of _ service order now owner_ids since category item_offset item_count db "db_streams db"]
    by (auto intro!: handed_ok_more)
next
  case (uploaded db handed now token title_num stream_id body z db')
  have "streams_ok (map (with_data t i b) (db_streams db))" "handed_ok service (map (with_data t i b) (db_streams db)) handed" for t i b
    using rewritten_rows [of "with_data t i b" "db_streams db"] uploaded.IH with_data_identity handed_ok_grow
    by (auto simp: stream_ok_def with_data_def)
  then show ?case using upload_cases [OF uploaded.hyps(2)] uploaded.IH by auto
next
  case (deleted db handed now token title_num stream_id z db')
  then show ?case
    by (auto simp: delete_user_file_def delete_db_stream_def bindE_def monad_simps split: sum.splits option.splits)
qed

text \<open>
  C35. Who may upload. In every run of the lobby and the routes from a table in order, a body is stored only
  under a token that was in a URL of an answer of the lobby to the owner of the stream, and
  in no answer to anybody else: the lobby signed it for an upload of that stream by its owner
  at most six minutes before. The stream had no data yet, and exactly that row changes. The
  URLs are those that the answers carry; of the library of tokens it is assumed that it accepts
  no token that the server did not hand out and reads back the claims that were signed, and of
  the database that its ids have 64 bits.
\<close>

theorem only_owner_uploads:
  assumes "stream_traffic service db handed" "token_sound service handed now token"
    and "\<forall>u \<in> set (db_streams db). ur_id u < 2 ^ 64"
    and "upload_user_file service now token title_num stream_id body db = (Inr (Inr ()), db')"
  shows "\<exists>u title signed. u \<in> set (db_streams db) \<and> ur_id u = unat stream_id \<and> ur_title u = title_num \<and> ur_data u = None
    \<and> handed_token service handed (ur_owner_id u) token
    \<and> (\<forall>i. handed_token service handed i token \<longrightarrow> i = ur_owner_id u)
    \<and> token = create_jwt service signed (ur_owner_id u) title stream_id OpCreate
    \<and> title_to_u32 title = title_num \<and> now \<le> signed + 360
    \<and> db' = db\<lparr>db_streams := map (\<lambda>v. if v = u then v\<lparr>ur_data := Some body\<rparr> else v) (db_streams db)\<rparr>"
proof -
  have inv: "streams_ok (db_streams db)" "handed_ok service (db_streams db) handed"
    using traffic_invariant [OF assms(1)] by simp_all
  obtain c title where c: "jwt_decode (content_keys service) now token = Some c" "cl_stream_title c = title_num"
      "cl_stream_id c = stream_id" "cl_stream_operation c = OpCreate" and title: "title_to_u32 title = title_num"
      and empty: "list_ex (\<lambda>u. is_stream title stream_id u \<and> ur_data u = None) (db_streams db)"
      and db': "db' = db\<lparr>db_streams := map (with_data title stream_id body) (db_streams db)\<rparr>"
    using upload_cases [OF assms(4)] by blast
  obtain u where u: "u \<in> set (db_streams db)" "ur_id u = unat stream_id" "ur_title u = title_num" "ur_data u = None"
    using empty title by (auto simp: list_ex_iff is_stream_def)
  have only: "is_stream title stream_id w \<longleftrightarrow> w = u" if "w \<in> set (db_streams db)" for w
    using only_row [OF inv(1) u(1,2)] u(3) title that by simp
  have owner: "i = ur_owner_id u \<and> (\<exists>signed title. title_to_u32 title = title_num \<and> now \<le> signed + 360
      \<and> token = create_jwt service signed i title stream_id OpCreate)" if "handed_token service handed i token" for i
  proof -
    obtain title1 k1 where "(i, user_url service title1 k1 token) \<in> handed" using \<open>handed_token service handed i token\<close> by (auto simp: handed_token_def)
    then have "url_ok service (db_streams db) i (user_url service title1 k1 token)" using inv(2) by (auto simp: handed_ok_def)
    then obtain signed title2 k op where url: "user_url service title1 k1 token
          = user_url service title2 k (create_jwt service signed i title2 k op)"
        and row: "op = OpCreate \<longrightarrow> (\<exists>v \<in> set (db_streams db). of_nat (ur_id v) = k
          \<and> ur_title v = title_to_u32 title2 \<and> ur_owner_id v = i)"
      unfolding url_ok_def by blast
    have token: "token = create_jwt service signed i title2 k op" using user_url_token [OF url] .
    then have claims: "c = stream_claims signed i title2 k op" "now \<le> cl_exp (stream_claims signed i title2 k op) + 60"
      using assms(2) c(1) unfolding token_sound_def create_jwt_def by blast+
    then have fields: "title_to_u32 title2 = title_num" "k = stream_id" "op = OpCreate" "now \<le> signed + 360"
      using c(2-4) by (simp_all add: stream_claims_def CLAIM_LIFETIME_IN_SECONDS_def)
    then obtain v where v: "v \<in> set (db_streams db)" "of_nat (ur_id v) = stream_id" "ur_title v = title_num" "ur_owner_id v = i"
      using row by auto
    have "ur_id v < 2 ^ 64" using assms(3) v(1) by blast
    then have "unat stream_id = ur_id v" using v(2) by (auto simp: unsigned_of_nat take_bit_nat_eq_self)
    then have "v = u" using only [OF v(1)] v(3) title by (simp add: is_stream_def)
    then show ?thesis using v(4) fields token by blast
  qed
  obtain i where i: "handed_token service handed i token" using assms(2) c(1) by (auto simp: token_sound_def)
  obtain signed title' where signed: "token = create_jwt service signed (ur_owner_id u) title' stream_id OpCreate"
      "title_to_u32 title' = title_num" "now \<le> signed + 360" and mine: "handed_token service handed (ur_owner_id u) token"
    using owner [OF i] i by blast
  have "map (with_data title stream_id body) (db_streams db)
      = map (\<lambda>v. if v = u then v\<lparr>ur_data := Some body\<rparr> else v) (db_streams db)"
    by (rule map_cong [OF refl]) (simp only: with_data_def only)
  then have changed: "db' = db\<lparr>db_streams := map (\<lambda>v. if v = u then v\<lparr>ur_data := Some body\<rparr> else v) (db_streams db)\<rparr>"
    by (simp only: db')
  show ?thesis
    by (intro exI [of _ u] exI [of _ title'] exI [of _ signed] conjI u signed changed mine) (use owner in blast)
qed

text \<open>The user 7 announces a stream at time 10 and has ten bytes stored at time 20.\<close>

definition announcement :: StreamCreationRequest where
  "announcement = \<lparr>scr_filename = [0x66], scr_slot = 1, scr_file_size = 10, scr_category = 0,
     scr_checksum = [], scr_client_locale = []\<rparr>"

definition announced_db :: StreamDb where
  "announced_db = \<lparr>db_streams = [\<lparr>ur_id = 1, ur_filename = [0x66], ur_title = 2010, ur_created_at = 10,
     ur_modified_at = 10, ur_owner_id = 7, ur_metadata = None, ur_category = 0, ur_slot = 1, ur_data = None\<rparr>],
     db_tags = [], db_names = [7 \<mapsto> [0x61]]\<rparr>"

definition announced_token :: bytes where
  "announced_token = create_jwt stream_service 10 7 Iw4 1 OpCreate"

lemma announcement_runs: "request_stream_upload stream_service 10 (stream_user 7) announcement
    \<lparr>db_streams = [], db_tags = [], db_names = \<lambda>_. None\<rparr>
  = (Inr (Inr (build_stream_url stream_service 10 7 Iw4 1 OpCreate)), announced_db)"
  by (simp add: request_stream_upload_def announcement_def authenticated_def stream_user bindE_def thenE_def
      get_slot_count_for_upload_def create_empty_stream_def record_user_name_def next_stream_id_def announced_db_def
      sql_fits_def Let_def monad_simps MAX_USER_STREAM_SIZE_def MAX_STREAM_FILENAME_LENGTH_def MAX_SLOT_COUNT_def)

lemma announced_traffic:
  "stream_traffic stream_service announced_db {(7, user_url stream_service Iw4 1 announced_token)}"
proof -
  have "streams_ok (db_streams \<lparr>db_streams = [], db_tags = [], db_names = \<lambda>_. None\<rparr>)"
    by (simp add: streams_ok_def streams_of_def)
  from stream_traffic.announced [OF stream_traffic.start [OF this] stream_user announcement_runs] show ?thesis
    by (simp add: announced_token_def build_stream_url_def)
qed

lemma announced_decodes: "jwt_decode (content_keys stream_service) 20 announced_token = Some (stream_claims 10 7 Iw4 1 OpCreate)"
  by (simp add: announced_token_def create_jwt_def stream_service_def open_jwt stream_claims_def CLAIM_LIFETIME_IN_SECONDS_def)

lemma announced_upload_runs:
  "upload_user_file stream_service 20 announced_token 2010 1 [1, 2] announced_db
    = (Inr (Inr ()), announced_db\<lparr>db_streams := map (with_data Iw4 1 [1, 2]) (db_streams announced_db)\<rparr>)"
  by (simp add: upload_user_file_def validate_jwt_def announced_decodes stream_claims_def
      title_from_u32_def set_stream_data_def announced_db_def is_stream_def sql_fits_def
      with_data_def bindE_def monad_simps)

theorem only_owner_uploads_witness:
  "\<exists>u. u \<in> set (db_streams announced_db) \<and> ur_id u = unat (1 :: u64) \<and> ur_data u = None
    \<and> handed_token stream_service {(7, user_url stream_service Iw4 1 announced_token)} (ur_owner_id u) announced_token"
proof -
  let ?handed = "{(7 :: u64, user_url stream_service Iw4 1 announced_token)}"
  have "handed_token stream_service ?handed 7 announced_token" by (auto simp: handed_token_def)
  moreover have "c' = c \<and> 20 \<le> cl_exp c + 60" if "announced_token = jwt_encode (content_keys stream_service) c"
      "jwt_decode (content_keys stream_service) 20 announced_token = Some c'" for c c'
    using that(2) unfolding that(1) by (simp add: stream_service_def open_jwt split: if_splits)
  ultimately have tokens: "token_sound stream_service ?handed 20 announced_token" unfolding token_sound_def by blast
  have ids: "\<forall>u \<in> set (db_streams announced_db). ur_id u < 2 ^ 64" by (simp add: announced_db_def)
  obtain u where "u \<in> set (db_streams announced_db)" "ur_id u = unat (1 :: u64)" "ur_data u = None"
      "handed_token stream_service ?handed (ur_owner_id u) announced_token"
    using only_owner_uploads [OF announced_traffic tokens ids announced_upload_runs] by (elim exE conjE) (rule that)
  then show ?thesis by blast
qed

section \<open>From the announcement to the download\<close>

lemma fold_max_less: "\<forall>x \<in> set xs. x < n \<Longrightarrow> a < n \<Longrightarrow> fold max xs a < (n :: nat)"
  by (induction xs arbitrary: a) auto

lemma creation_succeeds:
  assumes "sql_fits owner_id" "\<forall>u \<in> set (db_streams db). ur_id u < n" "0 < n"
  obtains i db' where "create_empty_stream now title owner_id filename slot category db = (Inr i, db')" "i \<le> n"
proof (cases "List.find (\<lambda>u. slot_key u = (title_to_u32 title, owner_id, slot)) (db_streams db)")
  case None
  have "next_stream_id (db_streams db) \<le> n"
    using fold_max_less [of "map ur_id (db_streams db)" n 0] assms(2,3) by (simp add: next_stream_id_def)
  then show thesis using None assms(1) that by (auto simp: create_empty_stream_def Let_def)
next
  case (Some e)
  then have "e \<in> set (db_streams db)" by (auto simp: find_Some_iff)
  then have "ur_id e < n" using assms(2) by blast
  then show thesis using Some assms(1) that by (auto simp: create_empty_stream_def)
qed

text \<open>
  C36. What is uploaded is downloaded. The announcement of a stream within the limits, by a user with
  a slot left, is answered with a URL whose token the upload route accepts for the next five
  minutes; after the upload, any user who holds a token to stream it gets exactly the bytes,
  and a second upload under the same token is refused and changes nothing.
\<close>

theorem announced_stream_downloads:
  assumes "streams_ok (db_streams db)" "s_authentication session = Some auth" "sql_fits (a_user_id auth)"
    and "unat (scr_file_size request_data) \<le> MAX_USER_STREAM_SIZE"
      "length (scr_filename request_data) \<le> MAX_STREAM_FILENAME_LENGTH"
      "length (streams_of (title_to_u32 (a_title auth)) (a_user_id auth) (db_streams db)) < MAX_SLOT_COUNT"
      "\<forall>u \<in> set (db_streams db). ur_id u < 2 ^ 63 - 1"
    and jwt: "\<And>c t. t \<le> cl_exp c \<Longrightarrow> jwt_decode (content_keys service) t (jwt_encode (content_keys service) c) = Some c"
    and "t1 \<le> now + 300" "t2 \<le> now2 + 300"
  shows "\<exists>url db1 db2. request_stream_upload service now session request_data db = (Inr (Inr url), db1)
    \<and> (let i = su_stream_id url; title = a_title auth; t = title_to_u32 title;
           put = create_jwt service now (a_user_id auth) title i OpCreate;
           get = create_jwt service now2 reader_id title i OpStream
       in su_url url = user_url service title i put
         \<and> upload_user_file service t1 put t i body db1 = (Inr (Inr ()), db2)
         \<and> retrieve_user_file service t2 get t i db2 = Inr body
         \<and> upload_user_file service t1 put t i body' db2 = (Inr (Inl BadRequest), db2))"
proof -
  let ?me = "a_user_id auth" and ?title = "a_title auth"
  let ?mine = "filter (\<lambda>u. ur_owner_id u = ?me \<and> ur_title u = title_to_u32 ?title) (db_streams db)"
  have mine: "?mine = streams_of (title_to_u32 ?title) ?me (db_streams db)"
    unfolding streams_of_def by (rule filter_cong) auto
  obtain i db0 where i: "create_empty_stream now ?title ?me (scr_filename request_data) (scr_slot request_data)
      (scr_category request_data) db = (Inr i, db0)" "i \<le> 2 ^ 63 - 1"
    by (rule creation_succeeds [OF assms(3,7)]) simp
  define db1 where "db1 = db0\<lparr>db_names := (db_names db0)(?me \<mapsto> a_username auth)\<rparr>"
  let ?url = "build_stream_url service now ?me ?title (of_nat i) OpCreate"
  have run: "request_stream_upload service now session request_data db = (Inr (Inr ?url), db1)"
    using assms(3-6) mine i(1) by (simp add: request_stream_upload_def authenticated_def assms(2) bindE_def thenE_def
        get_slot_count_for_upload_def record_user_name_def db1_def Let_def monad_simps)
  have ok: "streams_ok (db_streams db1)"
    using keepsD [OF keeps_upload_request [OF assms(2)], of db db service now request_data] assms(1) run
    by (simp add: db_step_def streams_step_def)
  obtain u where u: "u \<in> set (db_streams db1)" "ur_id u = i" "ur_title u = title_to_u32 ?title" "ur_data u = None"
    using created_row [OF i(1)] by (auto simp: db1_def)
  let ?i = "of_nat i :: u64" and ?num = "title_to_u32 ?title"
  let ?put = "create_jwt service now ?me ?title ?i OpCreate" and ?get = "create_jwt service now2 reader_id ?title ?i OpStream"
  have id: "unat ?i = i" "sql_fits ?i" using i(2) by (simp_all add: unsigned_of_nat take_bit_nat_eq_self sql_fits_def)
  have only: "is_stream ?title ?i w \<longleftrightarrow> w = u" if "w \<in> set (db_streams db1)" for w
    using only_row [OF ok u(1)] u(2,3) id(1) that by simp
  define db2 where "db2 = db1\<lparr>db_streams := map (with_data ?title ?i body) (db_streams db1)\<rparr>"
  have put: "validate_jwt service t1 ?put ?num ?i OpCreate = Inr ()"
    using jwt assms(9) by (simp add: validate_jwt_def create_jwt_def CLAIM_LIFETIME_IN_SECONDS_def)
  have get: "validate_jwt service t2 ?get ?num ?i OpStream = Inr ()"
    using jwt assms(10) by (simp add: validate_jwt_def create_jwt_def CLAIM_LIFETIME_IN_SECONDS_def)
  have "list_ex (\<lambda>u. is_stream ?title ?i u \<and> ur_data u = None) (db_streams db1)"
    using u(1,4) only by (auto simp: list_ex_iff)
  then have 1: "upload_user_file service t1 ?put ?num ?i body db1 = (Inr (Inr ()), db2)"
    using id(2) by (simp add: upload_user_file_def put set_stream_data_def bindE_def monad_simps db2_def with_data_def [abs_def])
  have same: "is_stream ?title ?i (with_data ?title ?i body w) = is_stream ?title ?i w" for w
    by (simp add: with_data_def is_stream_def)
  have "List.find (is_stream ?title ?i) (db_streams db2) = Some (with_data ?title ?i body u)"
    by (rule find_only) (use u(1) only same in \<open>auto simp: db2_def\<close>)
  then have 2: "retrieve_user_file service t2 ?get ?num ?i db2 = Inr body"
    using id(2) only [OF u(1)] by (simp add: retrieve_user_file_def get get_stream_data_def with_data_def)
  have "\<not> list_ex (\<lambda>u. is_stream ?title ?i u \<and> ur_data u = None) (db_streams db2)"
    by (auto simp: list_ex_iff db2_def same) (simp add: with_data_def)
  then have 3: "upload_user_file service t1 ?put ?num ?i body' db2 = (Inr (Inl BadRequest), db2)"
    using id(2) by (simp add: upload_user_file_def put set_stream_data_def bindE_def monad_simps)
  have url: "su_stream_id ?url = ?i" "su_url ?url = user_url service ?title ?i ?put" by (simp_all add: build_stream_url_def)
  show ?thesis
    by (rule exI [of _ ?url], rule exI [of _ db1], rule exI [of _ db2]) (simp only: Let_def url run 1 2 3 simp_thms)
qed

theorem announced_stream_downloads_witness:
  "\<exists>url db1 db2. request_stream_upload stream_service 10 (stream_user 7) announcement
      \<lparr>db_streams = [streamed 1 8 None], db_tags = [], db_names = \<lambda>_. None\<rparr> = (Inr (Inr url), db1)
    \<and> (let i = su_stream_id url;
           put = create_jwt stream_service 10 7 Iw4 i OpCreate; get = create_jwt stream_service 15 8 Iw4 i OpStream
       in upload_user_file stream_service 20 put 2010 i [1, 2] db1 = (Inr (Inr ()), db2)
         \<and> retrieve_user_file stream_service 30 get 2010 i db2 = Inr [1, 2]
         \<and> upload_user_file stream_service 20 put 2010 i [3] db2 = (Inr (Inl BadRequest), db2))"
proof -
  let ?db = "\<lparr>db_streams = [streamed 1 8 None], db_tags = [], db_names = \<lambda>_. None\<rparr> :: StreamDb"
  let ?auth = "\<lparr>a_user_id = 7, a_username = [0x61], a_session_key = [], a_title = Iw4\<rparr>"
  have ok: "streams_ok (db_streams ?db)" "sql_fits (a_user_id ?auth)" using streamed_ok [of 8] by (simp_all add: sql_fits_def)
  have limits: "unat (scr_file_size announcement) \<le> MAX_USER_STREAM_SIZE"
      "length (scr_filename announcement) \<le> MAX_STREAM_FILENAME_LENGTH"
      "length (streams_of (title_to_u32 (a_title ?auth)) (a_user_id ?auth) (db_streams ?db)) < MAX_SLOT_COUNT"
      "\<forall>u \<in> set (db_streams ?db). ur_id u < 2 ^ 63 - 1"
    by (simp_all add: announcement_def MAX_USER_STREAM_SIZE_def MAX_STREAM_FILENAME_LENGTH_def MAX_SLOT_COUNT_def
        streams_of_def streamed_def)
  have jwt: "jwt_decode (content_keys stream_service) t (jwt_encode (content_keys stream_service) c) = Some c"
    if "t \<le> cl_exp c" for c t
    using that by (simp add: stream_service_def open_jwt)
  show ?thesis
    using announced_stream_downloads [where now = 10 and ?t1.0 = 20 and ?t2.0 = 30 and ?now2.0 = 15 and reader_id = 8
        and body = "[1, 2]" and body' = "[3]" and service = stream_service, OF ok(1) stream_user ok(2) limits jwt]
    by (simp add: Let_def) blast
qed

end
