(* ===== verification/Bandwidth.thy ===== *)
theory Bandwidth
  imports Service_Support
begin

text \<open>
  The bandwidth test (libbitdemon/src/lobby/bandwidth): a client asks for a test over the lobby,
  sends datagrams to a UDP endpoint that counts them for each address, and ends the test. The
  requests are framed as bytes, not as bits, and the start is answered with a reply of the
  login service's shape. The address of the peer of a session and the token are arguments;
  binding the socket is not modelled, what a datagram does is.
\<close>

section \<open>The endpoint\<close>

datatype IpAddr = V4 u8 u8 u8 u8 | V6 bytes

record Measurement =
  ms_packets :: u64
  ms_bytes :: u64

definition no_measurement :: Measurement where
  "no_measurement = \<lparr>ms_packets = 0, ms_bytes = 0\<rparr>"

record BandwidthTestServer =
  bs_port :: u16
  bs_seen :: "IpAddr \<rightharpoonup> Measurement"
  bs_poisoned :: bool

text \<open>A turn of the loop of \<open>run\<close>: the buffer holds 2048 bytes of a datagram. The sums are checked,
  under the lock.\<close>

definition receive_datagram :: "IpAddr \<Rightarrow> bytes \<Rightarrow> (BandwidthTestServer, bd_error, unit) sm" where
  "receive_datagram from_ip datagram = (\<lambda>s.
    if bs_poisoned s then (Inl Panic, s)
    else
      let n = of_nat (min 2048 (length datagram));
          m = (case bs_seen s from_ip of None \<Rightarrow> no_measurement | Some m \<Rightarrow> m);
          keep = (\<lambda>m. s\<lparr>bs_seen := (bs_seen s)(from_ip \<mapsto> m)\<rparr>)
      in case checked_add (ms_packets m) 1 of
           Inl e \<Rightarrow> (Inl e, (keep m)\<lparr>bs_poisoned := True\<rparr>)
         | Inr packets \<Rightarrow>
             (case checked_add (ms_bytes m) n of
                Inl e \<Rightarrow> (Inl e, (keep (m\<lparr>ms_packets := packets\<rparr>))\<lparr>bs_poisoned := True\<rparr>)
              | Inr total_bytes \<Rightarrow> (Inr (), keep \<lparr>ms_packets = packets, ms_bytes = total_bytes\<rparr>)))"

definition take_measurement :: "IpAddr \<Rightarrow> (BandwidthTestServer, bd_error, Measurement) sm" where
  "take_measurement who = (\<lambda>s.
    if bs_poisoned s then (Inl Panic, s)
    else (Inr (case bs_seen s who of None \<Rightarrow> no_measurement | Some m \<Rightarrow> m),
          s\<lparr>bs_seen := (bs_seen s)(who := None)\<rparr>))"

section \<open>The handler\<close>

definition PACKET_SIZE :: u32 where "PACKET_SIZE = 1024"
definition PACKET_COUNT :: u32 where "PACKET_COUNT = 400"
definition DURATION_MS :: u32 where "DURATION_MS = 2000"

datatype BandwidthOperation = Start | Finalize

definition bandwidth_operation_from_u8 :: "u8 \<Rightarrow> BandwidthOperation option" where
  "bandwidth_operation_from_u8 = map_of [(0, Start), (1, Finalize)]"

definition BANDWIDTH_TASK :: u8 where "BANDWIDTH_TASK = 1"

text \<open>A reply of the login service: no type checks, bytes, and the transaction 0.\<close>

definition lsg_task_reply :: "wr \<Rightarrow> bd_error + BdResponse" where
  "lsg_task_reply write_task_reply_data =
    (case thenE (writer_set_type_checked False) (thenE (writer_set_mode ByteMode)
       (thenE (write_u8 (message_type_to_u8 LsgServiceTaskReply)) (thenE (write_u64 0) write_task_reply_data))) writer_new of
       (Inl e, _) \<Rightarrow> Inl e
     | (Inr _, w) \<Rightarrow> Inr (encrypted_if_available (w_out w)))"

definition bandwidth_test_rejected :: "BdErrorCode \<Rightarrow> wr" where
  "bandwidth_test_rejected reason =
    thenE (write_bool True) (write_u16 (ucast (error_code_to_u32 reason)))"

record BandwidthTestAccepted =
  ba_packet_size :: u32
  ba_packet_count :: u32
  ba_duration_ms :: u32
  ba_port :: u16
  ba_address :: u32
  ba_token :: bytes

definition bandwidth_test_accepted :: "BandwidthTestAccepted \<Rightarrow> wr" where
  "bandwidth_test_accepted a =
    thenE (write_bool False)
    (thenE (write_u32 (ba_packet_size a))
    (thenE (write_u32 (ba_packet_count a))
    (thenE (write_u32 0)
    (thenE (write_u32 (ba_duration_ms a))
    (thenE (write_u32 0)
    (thenE (write_u32 0)
    (thenE (write_u32 0)
    (thenE (write_u16 (ba_port a))
    (thenE (write_u32 (ba_address a))
    (foreachE write_u8 (ba_token a)))))))))))"

definition handle_bandwidth_task ::
  "(u64 \<Rightarrow> IpAddr option) \<Rightarrow> bytes \<Rightarrow> reader \<Rightarrow> (BandwidthTestServer, BdResponse) act" where
  "handle_bandwidth_task peer token r =
    bindE (run_rd read_u8 r) (\<lambda>(operation, r1).
    case bandwidth_operation_from_u8 operation of
      Some Start \<Rightarrow>
        bindE (run_rd read_u8 r1) (\<lambda>(test_type_value, _).
        bindE the_session (\<lambda>session.
        case peer (s_id session) of
          Some (V4 a b c d) \<Rightarrow> (\<lambda>conn. (lsg_task_reply (bandwidth_test_accepted
            \<lparr>ba_packet_size = PACKET_SIZE, ba_packet_count = PACKET_COUNT, ba_duration_ms = DURATION_MS,
             ba_port = bs_port (c_world conn), ba_address = from_le [a, b, c, d], ba_token = token\<rparr>), conn))
        | _ \<Rightarrow> liftE (lsg_task_reply (bandwidth_test_rejected ServiceNotAvailable))))
    | Some Finalize \<Rightarrow>
        bindE the_session (\<lambda>session.
        bindE (on_service (case peer (s_id session) of
            Some who \<Rightarrow> take_measurement who | None \<Rightarrow> returnE no_measurement)) (\<lambda>measured.
        reply_only NoError BANDWIDTH_TASK))
    | None \<Rightarrow> reply_only ServiceNotAvailable operation)"

definition bandwidth_handle ::
  "(u64 \<Rightarrow> IpAddr option) \<Rightarrow> bytes \<Rightarrow> reader \<Rightarrow> (BandwidthTestServer, BdResponse) act" where
  "bandwidth_handle peer token r =
    bindE (run_rd read_u8 (reader_set_type_checked False r)) (\<lambda>(task_id_value, r1).
    if task_id_value = BANDWIDTH_TASK then handle_bandwidth_task peer token r1
    else reply_only NoError task_id_value)"

definition bandwidth_lobby_handler ::
  "(reader \<Rightarrow> ('w, BdResponse) act) \<Rightarrow> 'w lobby_handler" where
  "bandwidth_lobby_handler handle = (default_handler handle)\<lparr>lh_framing := Bytes\<rparr>"

section \<open>Counting\<close>

definition from_address :: "IpAddr \<Rightarrow> (IpAddr \<times> bytes) list \<Rightarrow> bytes list" where
  "from_address who = (\<lambda>ds. map snd (filter (\<lambda>(a, _). a = who) ds))"

definition counted_bytes :: "bytes list \<Rightarrow> nat" where
  "counted_bytes ds = sum_list (map (\<lambda>d. min 2048 (length d)) ds)"

lemma counted_bytes_bound: "counted_bytes ds \<le> 2048 * length ds"
  by (induction ds) (auto simp: counted_bytes_def)

fun receive_all :: "(IpAddr \<times> bytes) list \<Rightarrow> (BandwidthTestServer, bd_error, unit) sm" where
  "receive_all [] s = (Inr (), s)"
| "receive_all ((a, d) # ds) s = thenE (receive_datagram a d) (receive_all ds) s"

definition seen_by :: "IpAddr \<Rightarrow> BandwidthTestServer \<Rightarrow> Measurement" where
  "seen_by a s = (case bs_seen s a of None \<Rightarrow> no_measurement | Some m \<Rightarrow> m)"

lemma receive_one:
  assumes "\<not> bs_poisoned s" "unat (ms_packets (seen_by a s)) < 2 ^ 64 - 1" "unat (ms_bytes (seen_by a s)) + 2048 < 2 ^ 64"
  obtains s' where "receive_datagram a d s = (Inr (), s')" "\<not> bs_poisoned s'" "bs_port s' = bs_port s"
    "unat (ms_packets (seen_by a s')) = unat (ms_packets (seen_by a s)) + 1"
    "unat (ms_bytes (seen_by a s')) = unat (ms_bytes (seen_by a s)) + min 2048 (length d)"
    "\<And>b. b \<noteq> a \<Longrightarrow> bs_seen s' b = bs_seen s b"
proof -
  let ?m = "seen_by a s" and ?n = "of_nat (min 2048 (length d)) :: u64"
  have n: "unat ?n = min 2048 (length d)" by (simp add: unsigned_of_nat take_bit_nat_eq_self)
  have p: "checked_add (ms_packets ?m) 1 = Inr (ms_packets ?m + 1)" "unat (ms_packets ?m + 1) = unat (ms_packets ?m) + 1"
    using assms(2) by (simp_all add: checked_add_def unat_word_ariths(1))
  have q: "checked_add (ms_bytes ?m) ?n = Inr (ms_bytes ?m + ?n)" "unat (ms_bytes ?m + ?n) = unat (ms_bytes ?m) + unat ?n"
    using assms(3) n by (simp_all add: checked_add_def unat_word_ariths(1))
  show thesis
    by (rule that [of "s\<lparr>bs_seen := (bs_seen s)(a \<mapsto> \<lparr>ms_packets = ms_packets ?m + 1, ms_bytes = ms_bytes ?m + ?n\<rparr>)\<rparr>"])
      (use assms(1) p q n in \<open>simp_all add: receive_datagram_def seen_by_def Let_def\<close>)
qed

lemma receive_counts:
  assumes "\<not> bs_poisoned s" "\<And>a. unat (ms_packets (seen_by a s)) + length ds < 2 ^ 64"
    and "\<And>a. unat (ms_bytes (seen_by a s)) + 2048 * length ds < 2 ^ 64"
  shows "\<exists>s'. receive_all ds s = (Inr (), s') \<and> \<not> bs_poisoned s' \<and> bs_port s' = bs_port s
    \<and> (\<forall>a. unat (ms_packets (seen_by a s')) = unat (ms_packets (seen_by a s)) + length (from_address a ds)
        \<and> unat (ms_bytes (seen_by a s')) = unat (ms_bytes (seen_by a s)) + counted_bytes (from_address a ds))"
  using assms
proof (induction ds arbitrary: s)
  case Nil
  then show ?case by (simp add: from_address_def counted_bytes_def)
next
  case (Cons x ds)
  obtain a d where x: "x = (a, d)" by fastforce
  obtain s1 where s1: "receive_datagram a d s = (Inr (), s1)" "\<not> bs_poisoned s1" "bs_port s1 = bs_port s"
      "unat (ms_packets (seen_by a s1)) = unat (ms_packets (seen_by a s)) + 1"
      "unat (ms_bytes (seen_by a s1)) = unat (ms_bytes (seen_by a s)) + min 2048 (length d)"
      "\<And>b. b \<noteq> a \<Longrightarrow> bs_seen s1 b = bs_seen s b"
  proof (rule receive_one)
    show "unat (ms_packets (seen_by a s)) < 2 ^ 64 - 1" using Cons.prems(2) [of a] by simp
    show "unat (ms_bytes (seen_by a s)) + 2048 < 2 ^ 64" using Cons.prems(3) [of a] by simp
  qed (use Cons.prems(1) in blast)+
  have same: "seen_by b s1 = seen_by b s" if "b \<noteq> a" for b using s1(6) [OF that] by (simp add: seen_by_def)
  have packets: "unat (ms_packets (seen_by b s1)) + length ds < 2 ^ 64" for b
    using Cons.prems(2) [of b] s1(4) same [of b] by (cases "b = a") simp_all
  have amount: "unat (ms_bytes (seen_by b s1)) + 2048 * length ds < 2 ^ 64" for b
    using Cons.prems(3) [of b] s1(5) same [of b] by (cases "b = a") (simp_all add: min_def)
  obtain s' where s': "receive_all ds s1 = (Inr (), s')" "\<not> bs_poisoned s'" "bs_port s' = bs_port s1"
      "\<forall>b. unat (ms_packets (seen_by b s')) = unat (ms_packets (seen_by b s1)) + length (from_address b ds)
        \<and> unat (ms_bytes (seen_by b s')) = unat (ms_bytes (seen_by b s1)) + counted_bytes (from_address b ds)"
    using Cons.IH [OF s1(2) packets amount] by blast
  have "unat (ms_packets (seen_by b s')) = unat (ms_packets (seen_by b s)) + length (from_address b (x # ds))
      \<and> unat (ms_bytes (seen_by b s')) = unat (ms_bytes (seen_by b s)) + counted_bytes (from_address b (x # ds))" for b
    using s'(4) s1(4,5) same [of b] by (cases "b = a") (simp_all add: x from_address_def counted_bytes_def)
  then show ?case using s' s1(1,3) by (auto simp: x thenE_def bindE_def)
qed

section \<open>A test\<close>

lemma read_byte:
  assumes "r_mode r = ByteMode" "\<not> r_type_checked r" "cursor_rest r = b # bs"
  obtains r' where "read_u8 r = (Inr b, r')" "r_mode r' = ByteMode" "\<not> r_type_checked r'" "cursor_rest r' = bs"
proof -
  let ?r = "r\<lparr>r_pos := r_pos r + 1\<rparr>"
  have "1 \<le> length (cursor_rest r)" using assms(3) by simp
  then have "read_u8 r = (Inr b, ?r)"
    using assms by (simp add: read_u8_def read_scalar_def expect_type_def thenE_def bindE_def monad_simps
        cursor_read_exact_def)
  moreover have "cursor_rest ?r = bs"
    using assms(3) by (simp add: cursor_rest_def drop_Suc tl_drop [symmetric]) 
  ultimately show thesis using that [of ?r] assms(1,2) by simp
qed

text \<open>A request in the framing of bytes reads its task and its operation.\<close>

lemma bandwidth_task:
  assumes "r_mode r = ByteMode" "cursor_rest r = 1 # operation # bs"
  obtains r' where "bandwidth_handle peer token r = handle_bandwidth_task peer token r'"
    "\<not> r_type_checked r'" "r_mode r' = ByteMode" "cursor_rest r' = operation # bs"
proof -
  let ?q = "reader_set_type_checked False r"
  have "r_mode ?q = ByteMode" "\<not> r_type_checked ?q" "cursor_rest ?q = 1 # operation # bs"
    using assms by (simp_all add: reader_set_type_checked_def cursor_rest_def)
  then obtain r' where r': "read_u8 ?q = (Inr 1, r')" "r_mode r' = ByteMode" "\<not> r_type_checked r'"
      "cursor_rest r' = operation # bs"
    by (rule read_byte)
  then have "bandwidth_handle peer token r = handle_bandwidth_task peer token r'"
    by (simp add: fun_eq_iff bandwidth_handle_def bind_run_rd [of read_u8, OF r'(1)] BANDWIDTH_TASK_def)
  then show thesis using that r' by blast
qed

text \<open>The bytes of the answer to a start.\<close>

definition accepted_bytes :: "u16 \<Rightarrow> u8 \<Rightarrow> u8 \<Rightarrow> u8 \<Rightarrow> u8 \<Rightarrow> bytes \<Rightarrow> bytes" where
  "accepted_bytes port a b c d token = [5] @ to_le (0 :: u64) @ [0] @ to_le (1024 :: u32) @ to_le (400 :: u32)
     @ to_le (0 :: u32) @ to_le (2000 :: u32) @ to_le (0 :: u32) @ to_le (0 :: u32) @ to_le (0 :: u32)
     @ to_le port @ [a, b, c, d] @ token"

lemma raw_write:
  assumes "w_mode w = ByteMode" "\<not> w_type_checked w"
  shows "write_u8 b w = (Inr (), w\<lparr>w_out := w_out w @ [b]\<rparr>)" "write_u16 h w = (Inr (), w\<lparr>w_out := w_out w @ to_le h\<rparr>)"
    "write_u32 v w = (Inr (), w\<lparr>w_out := w_out w @ to_le v\<rparr>)" "write_u64 q w = (Inr (), w\<lparr>w_out := w_out w @ to_le q\<rparr>)"
    "write_bool t w = (Inr (), w\<lparr>w_out := w_out w @ [if t then 1 else 0]\<rparr>)"
  using assms by (simp_all add: write_u8_def write_u16_def write_u32_def write_u64_def write_bool_def write_scalar_def
      tag_type_def thenE_def bindE_def cursor_write_all_def monad_simps to_le_u8)

lemma raw_write_bytes:
  assumes "w_mode w = ByteMode" "\<not> w_type_checked w"
  shows "foreachE write_u8 bs w = (Inr (), w\<lparr>w_out := w_out w @ bs\<rparr>)"
  using assms by (induction bs arbitrary: w) (simp_all add: monad_simps thenE_def bindE_def raw_write)

lemma accepted_reply:
  "lsg_task_reply (bandwidth_test_accepted \<lparr>ba_packet_size = PACKET_SIZE, ba_packet_count = PACKET_COUNT,
      ba_duration_ms = DURATION_MS, ba_port = port, ba_address = from_le [a, b, c, d], ba_token = token\<rparr>)
    = Inr (encrypted_if_available (accepted_bytes port a b c d token))"
proof -
  have address: "to_le (from_le [a, b, c, d] :: u32) = [a, b, c, d]" by (rule to_le_from_le) simp
  show ?thesis
    by (simp add: lsg_task_reply_def bandwidth_test_accepted_def writer_new_def writer_set_type_checked_def
        writer_set_mode_def thenE_def bindE_def raw_write raw_write_bytes address accepted_bytes_def PACKET_SIZE_def
        PACKET_COUNT_def DURATION_MS_def monad_simps del: from_le.simps)
qed

lemma bandwidth_starts:
  assumes "r_mode r = ByteMode" "cursor_rest r = [1, 0, kind]" "peer (s_id (c_session conn)) = Some (V4 a b c d)"
  shows "bandwidth_handle peer token r conn
    = (Inr (encrypted_if_available (accepted_bytes (bs_port (c_world conn)) a b c d token)), conn)"
proof -
  obtain r1 where r1: "bandwidth_handle peer token r = handle_bandwidth_task peer token r1"
      "\<not> r_type_checked r1" "r_mode r1 = ByteMode" "cursor_rest r1 = 0 # [kind]"
    using bandwidth_task [OF assms(1,2)] .
  obtain r2 where r2: "read_u8 r1 = (Inr 0, r2)" "r_mode r2 = ByteMode" "\<not> r_type_checked r2" "cursor_rest r2 = [kind]"
    using read_byte [OF r1(3,2,4)] .
  obtain r3 where "read_u8 r2 = (Inr kind, r3)" using read_byte [OF r2(2,3,4)] .
  then show ?thesis
    by (simp add: r1(1) handle_bandwidth_task_def bind_run_rd [of read_u8, OF r2(1)] bandwidth_operation_from_u8_def
        bind_run_rd [of read_u8] bind_the_session assms(3) accepted_reply del: from_le.simps)
qed

lemma bandwidth_ends:
  assumes "r_mode r = ByteMode" "cursor_rest r = [1, 1]" "peer (s_id (c_session conn)) = Some who"
    and "take_measurement who (c_world conn) = (Inr m, s)"
  shows "bandwidth_handle peer token r conn = reply_only NoError 1 (conn\<lparr>c_world := s\<rparr>)"
proof -
  obtain r1 where r1: "bandwidth_handle peer token r = handle_bandwidth_task peer token r1"
      "\<not> r_type_checked r1" "r_mode r1 = ByteMode" "cursor_rest r1 = 1 # []"
    using bandwidth_task [OF assms(1,2)] .
  obtain r2 where r2: "read_u8 r1 = (Inr 1, r2)" using read_byte [OF r1(3,2,4)] .
  show ?thesis
    by (simp add: r1(1) handle_bandwidth_task_def bind_run_rd [of read_u8, OF r2] bandwidth_operation_from_u8_def
        bind_the_session assms(3) bind_on_service [of "take_measurement who", OF assms(4)] BANDWIDTH_TASK_def)
qed

text \<open>
  C40. A bandwidth test. The start of a test is answered with the test's parameters, the port of the
  endpoint, the address of the client as the server sees it and the token. Whatever datagrams
  arrive then, from whomever, the end of the test takes exactly the number of datagrams that
  came from the client's address and their bytes, 2048 of each at most, is answered without
  an error, and leaves what was counted for other addresses.
\<close>

theorem bandwidth_test_runs:
  assumes start: "r_mode r = ByteMode" "cursor_rest r = [1, 0, kind]" and finish: "r_mode r2 = ByteMode" "cursor_rest r2 = [1, 1]"
    and peer: "peer (s_id session) = Some (V4 a b c d)" and ok: "\<not> bs_poisoned s" "bs_seen s (V4 a b c d) = None"
    and few: "\<forall>x. unat (ms_packets (seen_by x s)) + length ds < 2 ^ 64 \<and> unat (ms_bytes (seen_by x s)) + 2048 * length ds < 2 ^ 64"
    and tid: "tid < 2 ^ 64 - 1"
  shows "\<exists>s1 m s2 data.
    answer (bandwidth_handle peer token) (session, tid, r) s
      = (Inr (encrypted_if_available (accepted_bytes (bs_port s) a b c d token)), s)
    \<and> receive_all ds s = (Inr (), s1)
    \<and> take_measurement (V4 a b c d) s1 = (Inr m, s2)
    \<and> unat (ms_packets m) = length (from_address (V4 a b c d) ds)
    \<and> unat (ms_bytes m) = counted_bytes (from_address (V4 a b c d) ds)
    \<and> answer (bandwidth_handle peer token) (session, tid, r2) s1 = (Inr (encrypted_if_available data), s2)
    \<and> fst (client_read_code (reader_new data)) = Inr (1, tid, 0, 1)
    \<and> (\<forall>x. x \<noteq> V4 a b c d \<longrightarrow> bs_seen s2 x = bs_seen s1 x)"
proof -
  let ?who = "V4 a b c d"
  have started: "answer (bandwidth_handle peer token) (session, tid, r) s
      = (Inr (encrypted_if_available (accepted_bytes (bs_port s) a b c d token)), s)"
    by (simp add: answer_def bandwidth_starts [OF start] peer)
  obtain s1 where s1: "receive_all ds s = (Inr (), s1)" "\<not> bs_poisoned s1"
      "unat (ms_packets (seen_by ?who s1)) = unat (ms_packets (seen_by ?who s)) + length (from_address ?who ds)"
      "unat (ms_bytes (seen_by ?who s1)) = unat (ms_bytes (seen_by ?who s)) + counted_bytes (from_address ?who ds)"
    using receive_counts [OF ok(1), of ds] few by blast
  let ?s2 = "s1\<lparr>bs_seen := (bs_seen s1)(?who := None)\<rparr>"
  have taken: "take_measurement ?who s1 = (Inr (seen_by ?who s1), ?s2)"
    using s1(2) by (simp add: take_measurement_def seen_by_def)
  let ?conn = "\<lparr>c_session = session, c_sent = [], c_transaction = tid, c_world = ?s2\<rparr> :: BandwidthTestServer conn"
  have "c_transaction ?conn < 2 ^ 64 - 1" using tid by simp
  then obtain data where data: "reply_only NoError 1 ?conn = (Inr (encrypted_if_available data), ?conn\<lparr>c_transaction := tid + 1\<rparr>)"
      "\<forall>extra. fst (client_read_code (reader_new (data @ extra))) = Inr (1, tid, 0, 1)"
    using reply_only_ok [of ?conn NoError 1] by auto
  have "bandwidth_handle peer token r2 (?conn\<lparr>c_world := s1\<rparr>) = reply_only NoError 1 ?conn"
    using bandwidth_ends [of r2 peer "?conn\<lparr>c_world := s1\<rparr>" ?who, OF finish] peer taken by simp
  then have finished: "answer (bandwidth_handle peer token) (session, tid, r2) s1 = (Inr (encrypted_if_available data), ?s2)"
    using data(1) by (simp add: answer_def)
  have counts: "unat (ms_packets (seen_by ?who s1)) = length (from_address ?who ds)"
      "unat (ms_bytes (seen_by ?who s1)) = counted_bytes (from_address ?who ds)"
    using s1(3,4) ok(2) by (simp_all add: seen_by_def no_measurement_def)
  have others: "\<forall>x. x \<noteq> ?who \<longrightarrow> bs_seen ?s2 x = bs_seen s1 x" by simp
  show ?thesis
    by (rule exI [of _ s1], rule exI [of _ "seen_by ?who s1"], rule exI [of _ ?s2], rule exI [of _ data])
      (intro conjI started s1(1) taken counts finished others data(2) [rule_format, of "[]", unfolded append_Nil2])
qed

definition test_reader :: "bytes \<Rightarrow> reader" where
  "test_reader bs = reader_new bs"

definition idle_endpoint :: BandwidthTestServer where
  "idle_endpoint = \<lparr>bs_port = 3076, bs_seen = Map.empty, bs_poisoned = False\<rparr>"

theorem bandwidth_test_runs_witness:
  "\<exists>s1 m s2. answer (bandwidth_handle (\<lambda>_. Some (V4 10 0 0 7)) [1, 2, 3, 4, 5, 6, 7, 8]) (session_new, 3, test_reader [1, 0, 1]) idle_endpoint
      = (Inr (encrypted_if_available (accepted_bytes 3076 10 0 0 7 [1, 2, 3, 4, 5, 6, 7, 8])), idle_endpoint)
    \<and> receive_all [(V4 10 0 0 7, [1, 2]), (V4 10 0 0 8, [1]), (V4 10 0 0 7, [3])] idle_endpoint = (Inr (), s1)
    \<and> take_measurement (V4 10 0 0 7) s1 = (Inr m, s2) \<and> unat (ms_packets m) = 2 \<and> unat (ms_bytes m) = 3"
proof -
  let ?ds = "[(V4 10 0 0 7, [1, 2]), (V4 10 0 0 8, [1]), (V4 10 0 0 7, [3])]"
  have readers: "r_mode (test_reader bs) = ByteMode" "cursor_rest (test_reader bs) = bs" for bs
    by (simp_all add: test_reader_def reader_new_def cursor_rest_def)
  have endpoint: "\<not> bs_poisoned idle_endpoint" "bs_seen idle_endpoint (V4 10 0 0 7) = None" "bs_port idle_endpoint = 3076"
    by (simp_all add: idle_endpoint_def)
  have few: "\<forall>x. unat (ms_packets (seen_by x idle_endpoint)) + length ?ds < 2 ^ 64
      \<and> unat (ms_bytes (seen_by x idle_endpoint)) + 2048 * length ?ds < 2 ^ 64"
    by (simp add: seen_by_def idle_endpoint_def no_measurement_def)
  have tid: "(3 :: u64) < 2 ^ 64 - 1" by simp
  have counts: "length (from_address (V4 10 0 0 7) ?ds) = 2" "counted_bytes (from_address (V4 10 0 0 7) ?ds) = 3"
    by (simp_all add: from_address_def counted_bytes_def)
  show ?thesis
    using bandwidth_test_runs [where peer = "\<lambda>_. Some (V4 10 0 0 7)" and session = session_new and tid = 3
        and token = "[1, 2, 3, 4, 5, 6, 7, 8]", OF readers readers refl endpoint(1,2) few tid]
    unfolding endpoint(3) counts by blast
qed

end
