(* ===== verification/Dw_Lobby.thy ===== *)
theory Dw_Lobby
  imports Bandwidth Stream_Handler Storage_Handler Profile Rich_Presence Group_Service Counter
    Small_Services Matchmaking_Handler Messaging_Handler
begin

text \<open>
  The lobby server of dw-server (dw-server/src/lobby/mod.rs): all services in one table of handlers
  over one world, the callbacks that clean up after a session that ends, and the totals that
  the HTTP side publishes (dw-server/src/population.rs).
\<close>

section \<open>The world\<close>

record dw_world = lsg_world +
  dw_endpoint :: BandwidthTestServer
  dw_streams :: StreamWorld
  dw_counters :: DwCounterService
  dw_groups :: DwGroupService
  dw_registry :: RegistryState
  dw_profiles :: profile_db
  dw_presence :: DwRichPresenceService
  dw_storage :: StorageWorld
  dw_callbacks_poisoned :: bool

text \<open>What comes from outside while a message is handled: the clock, random numbers, the order of
  hash tables and of rows, the sockets, whether the statements with an alias are accepted.\<close>

record dw_env =
  dv_env :: env
  dv_streams :: stream_env
  dv_ids :: "nat \<Rightarrow> bytes"
  dv_secret :: bytes
  dv_sessions :: "u64 list"
  dv_groups :: "u32 list \<Rightarrow> u32 list"
  dv_writable :: "u64 \<Rightarrow> bool"
  dv_peer :: "u64 \<Rightarrow> IpAddr option"
  dv_token :: bytes
  dv_alias_accepted :: bool
  dv_endpoint_bound :: bool

section \<open>The services\<close>

definition in_streams :: "(StreamWorld, 'a) act \<Rightarrow> (dw_world, 'a) act" where
  "in_streams = in_world dw_streams (\<lambda>s w. w\<lparr>dw_streams := s\<rparr>)"

definition in_storage :: "(StorageWorld, 'a) act \<Rightarrow> (dw_world, 'a) act" where
  "in_storage = in_world dw_storage (\<lambda>s w. w\<lparr>dw_storage := s\<rparr>)"

definition in_endpoint :: "(BandwidthTestServer, 'a) act \<Rightarrow> (dw_world, 'a) act" where
  "in_endpoint = in_world dw_endpoint (\<lambda>s w. w\<lparr>dw_endpoint := s\<rparr>)"

definition in_counters :: "(DwCounterService, 'a) act \<Rightarrow> (dw_world, 'a) act" where
  "in_counters = in_world dw_counters (\<lambda>s w. w\<lparr>dw_counters := s\<rparr>)"

definition in_groups :: "(DwGroupService, 'a) act \<Rightarrow> (dw_world, 'a) act" where
  "in_groups = in_world dw_groups (\<lambda>s w. w\<lparr>dw_groups := s\<rparr>)"

definition in_registry :: "(RegistryState, 'a) act \<Rightarrow> (dw_world, 'a) act" where
  "in_registry = in_world dw_registry (\<lambda>s w. w\<lparr>dw_registry := s\<rparr>)"

definition in_profiles :: "(profile_db, 'a) act \<Rightarrow> (dw_world, 'a) act" where
  "in_profiles = in_world dw_profiles (\<lambda>s w. w\<lparr>dw_profiles := s\<rparr>)"

definition in_presence :: "(DwRichPresenceService, 'a) act \<Rightarrow> (dw_world, 'a) act" where
  "in_presence = in_world dw_presence (\<lambda>s w. w\<lparr>dw_presence := s\<rparr>)"

definition configure_lobby_server :: "crypto \<Rightarrow> dw_env \<Rightarrow> dw_world lobby_handlers" where
  "configure_lobby_server c e =
    (add_service Youtube (default_handler youtube_handle)
    \<circ> add_service VoteRank (default_handler vote_rank_handle)
    \<circ> add_service Twitch (default_handler twitch_handle)
    \<circ> add_service TitleUtilities (default_handler (title_utilities_handle (dv_env e)))
    \<circ> add_service Storage (default_handler (\<lambda>r. in_storage (storage_handle (dv_env e) r)))
    \<circ> add_service RichPresence (default_handler (\<lambda>r. in_presence (presence_handle set_info get_info r)))
    \<circ> add_service Profile (default_handler (\<lambda>r. in_profiles (profile_handle (dv_alias_accepted e) (dv_env e) r)))
    \<circ> add_service Performance (default_handler performance_handle)
    \<circ> add_service Messaging (default_handler (messaging_handle c (dv_env e) (dv_writable e)))
    \<circ> add_service MatchMaking (default_handler (\<lambda>r. in_registry
        (matchmaking_handle (dv_ids e) (dv_secret e) (dv_sessions e) r)))
    \<circ> add_service League (default_handler league_handle)
    \<circ> add_service KeyArchive (default_handler key_archive_handle)
    \<circ> add_service Group (default_handler (\<lambda>r. in_groups (group_handle get_group_counts (set_groups (dv_groups e)) r)))
    \<circ> add_service EventLog (default_handler event_log_handle)
    \<circ> add_service Dml (default_handler dml_handle)
    \<circ> add_service Counter (default_handler (\<lambda>r. in_counters (counter_handle get_counter_totals increment_counters r)))
    \<circ> add_service ContentStreaming (default_handler (\<lambda>r. in_streams (content_streaming_handle (dv_streams e) r)))
    \<circ> (if dv_endpoint_bound e
       then add_service BandwidthTest (bandwidth_lobby_handler (\<lambda>r. in_endpoint (bandwidth_handle (dv_peer e) (dv_token e) r)))
       else (\<lambda>handlers. handlers))
    \<circ> add_service Anticheat (default_handler anti_cheat_handle))
    (lobby_server_new c (dv_env e))"

section \<open>The end of a session\<close>

text \<open>The callbacks in the order in which they are registered, called under the lock of their list: one
  that panics stops the others and poisons the lock.\<close>

definition group_callback :: "BdSession \<Rightarrow> (dw_world, bd_error, unit) sm" where
  "group_callback session = (\<lambda>w.
    case remove_all_groups_for_session (s_id session) (dw_groups w) of (x, s) \<Rightarrow> (x, w\<lparr>dw_groups := s\<rparr>))"

definition registry_callback :: "BdSession \<Rightarrow> (dw_world, bd_error, unit) sm" where
  "registry_callback session = (\<lambda>w.
    case remove_connection (s_id session) (dw_registry w) of
      (Inl e, s) \<Rightarrow> (Inl e, w\<lparr>dw_registry := s\<rparr>)
    | (Inr _, s) \<Rightarrow> (Inr (), w\<lparr>dw_registry := s\<rparr>))"

definition router_callback :: "BdSession \<Rightarrow> (dw_world, bd_error, unit) sm" where
  "router_callback session = modifyE (\<lambda>w. w\<lparr>w_router := router_unregister session (w_router w)\<rparr>)"

definition presence_callback :: "BdSession \<Rightarrow> (dw_world, bd_error, unit) sm" where
  "presence_callback session = modifyE (\<lambda>w. w\<lparr>dw_presence := presence_unregistered session (dw_presence w)\<rparr>)"

definition unregister_callbacks :: "BdSession \<Rightarrow> (dw_world, bd_error, unit) sm" where
  "unregister_callbacks session =
    thenE (group_callback session)
    (thenE (registry_callback session)
    (thenE (router_callback session) (presence_callback session)))"

definition dw_unregister_session :: "BdSession \<Rightarrow> (dw_world, bd_error, unit) sm" where
  "dw_unregister_session session = (\<lambda>w.
    if dw_callbacks_poisoned w then (Inl Panic, w)
    else case unregister_callbacks session w of
      (Inl e, w') \<Rightarrow> (Inl e, w'\<lparr>dw_callbacks_poisoned := True\<rparr>)
    | (Inr _, w') \<Rightarrow> (Inr (), w'))"

section \<open>The totals\<close>

record PopulationResponse =
  pr_online :: nat
  pr_playing :: nat
  pr_playlists :: "u32 \<rightharpoonup> nat"

definition population_totals :: "u64 list \<Rightarrow> (dw_world, bd_error, PopulationResponse) sm" where
  "population_totals order = (\<lambda>w.
    case population order (dw_registry w) of
      (Inl e, s) \<Rightarrow> (Inl e, w\<lparr>dw_registry := s\<rparr>)
    | (Inr p, s) \<Rightarrow> (Inr \<lparr>pr_online = online (w_router w), pr_playing = pp_players p,
         pr_playlists = pp_playlists p\<rparr>, w\<lparr>dw_registry := s\<rparr>))"

end
