(* ===== verification/Dw_Properties.thy ===== *)
theory Dw_Properties
  imports Dw_Lobby Stream_Properties
begin

text \<open>
  What the services promise together: whatever message reaches the lobby server, only its sender's
  files and streams change; and what is left of a session that ends.
\<close>

section \<open>Handlers in the world of the server\<close>

lemma confined_weaken: "confined b session I m \<Longrightarrow> confined False session I m"
  by (simp add: confined_def)

lemma confined_harmless:
  assumes "harmless handle" "reader_inv r"
  shows "confined False session I (handle r)"
proof (rule confinedI)
  fix conn :: "'a conn" assume conn: "c_transaction conn < 2 ^ 64 - 1" "I (c_world conn)"
  obtain x conn' where run: "handle r conn = (x, conn')" by fastforce
  have "c_world conn' = c_world conn"
    using assms(1) [unfolded harmless_def, rule_format, of r conn] assms(2) conn(1) run by (cases x) auto
  then show "(False \<longrightarrow> fst (handle r conn) \<noteq> Inl Panic) \<and> I (c_world (snd (handle r conn)))" using run conn(2) by simp
qed

text \<open>A service in its part of the world, with what it promises of that part.\<close>

lemma confined_in_world:
  fixes get :: "'w \<Rightarrow> 's"
  assumes m: "confined False session J m" and get: "\<And>w. I w \<Longrightarrow> J (get w)" and put: "\<And>s w. I w \<Longrightarrow> J s \<Longrightarrow> I (put s w)"
  shows "confined False session I (in_world get put m)"
proof (rule confinedI)
  fix conn :: "'w conn" assume conn: "c_session conn = session" "c_transaction conn < 2 ^ 64 - 1" "I (c_world conn)"
  let ?inner = "\<lparr>c_session = c_session conn, c_sent = c_sent conn, c_transaction = c_transaction conn, c_world = get (c_world conn)\<rparr>"
  obtain x inner where run: "m ?inner = (x, inner)" by fastforce
  have "J (c_world inner)"
    using confinedD(2) [OF m, of ?inner] conn get run by simp
  then show "(False \<longrightarrow> fst (in_world get put m conn) \<noteq> Inl Panic) \<and> I (c_world (snd (in_world get put m conn)))"
    using run put conn(3) by (simp add: in_world_def)
qed

lemma confined_elsewhere:
  assumes "\<And>s w. I w \<Longrightarrow> I (put s w)"
  shows "confined False session I (in_world get put m)"
  using assms by (simp add: confined_def in_world_def split: prod.split)

text \<open>The login and the messages change only the router.\<close>

definition only_router :: "(dw_world, 'a) act \<Rightarrow> bool" where
  "only_router m \<longleftrightarrow> (\<forall>conn. \<exists>router. c_world (snd (m conn)) = (c_world conn)\<lparr>w_router := router\<rparr>)"

lemma only_routerI: "(\<And>conn. c_world (snd (m conn)) = c_world conn) \<Longrightarrow> only_router m"
  unfolding only_router_def by (metis dw_world.surjective lsg_world.surjective lsg_world.update_convs(1))

lemma only_router_bind: "only_router m \<Longrightarrow> (\<And>x. only_router (f x)) \<Longrightarrow> only_router (bindE m f)"
  unfolding only_router_def
proof
  fix conn assume m: "\<forall>conn. \<exists>router. c_world (snd (m conn)) = (c_world conn)\<lparr>w_router := router\<rparr>"
    and f: "\<And>x. \<forall>conn. \<exists>router. c_world (snd (f x conn)) = (c_world conn)\<lparr>w_router := router\<rparr>"
  obtain y conn1 router where 1: "m conn = (y, conn1)" "c_world conn1 = (c_world conn)\<lparr>w_router := router\<rparr>"
    using m by (metis prod.collapse)
  show "\<exists>router. c_world (snd (bindE m f conn)) = (c_world conn)\<lparr>w_router := router\<rparr>"
  proof (cases y)
    case (Inl e)
    then show ?thesis using 1 by (auto simp: bindE_def)
  next
    case (Inr x)
    obtain router' where "c_world (snd (f x conn1)) = (c_world conn1)\<lparr>w_router := router'\<rparr>" using f by blast
    then show ?thesis using 1 Inr by (auto simp: bindE_def)
  qed
qed

lemma confined_only_router: "only_router m \<Longrightarrow> (\<And>w router. I w \<Longrightarrow> I (w\<lparr>w_router := router\<rparr>)) \<Longrightarrow> confined False session I m"
  unfolding only_router_def confined_def by metis

lemma reply_only_world: "c_world (snd (reply_only code op conn)) = c_world conn"
  using next_transaction_world [of conn]
  by (auto simp: reply_only_def snd_lift_bind with_only_error_code_def bindE_def monad_simps split: prod.split sum.split)

lemma only_router_intros:
  "only_router (run_rd p r)" "only_router (reply_only code op)" "only_router (throwE err)" "only_router (returnE v)"
  "only_router (liftE y)" "only_router (ensureE b err)"
proof -
  show "only_router (run_rd p r)" by (rule only_routerI) (auto simp: run_rd_def split: prod.split sum.split)
  show "only_router (reply_only code op)" by (rule only_routerI) (rule reply_only_world)
  show "only_router (throwE err)" "only_router (returnE v)" "only_router (liftE y)" "only_router (ensureE b err)"
    by (rule only_routerI; auto simp: monad_simps liftE_def ensureE_def split: sum.split)+
qed

lemma only_router_login: "only_router (lsg_handle c env r)"
proof -
  have step: "only_router (bindE m f)" if "only_router m" "\<And>x. only_router (f x)" for m :: "(dw_world, 'b) act"
      and f :: "'b \<Rightarrow> (dw_world, BdResponse) act"
    using only_router_bind that .
  have router: "only_router (modifyE (\<lambda>conn. conn\<lparr>c_world := (c_world conn)\<lparr>w_router := g conn\<rparr>\<rparr>))" for g
    by (auto simp: only_router_def modifyE_def)
  have session: "only_router (modifyE (\<lambda>conn. conn\<lparr>c_session := g conn\<rparr>))" for g
    by (rule only_routerI) (simp add: modifyE_def)
  have state: "only_router (\<lambda>conn. (g conn, conn))" for g :: "dw_world conn \<Rightarrow> bd_error + 'b"
    by (rule only_routerI) simp
  show ?thesis unfolding lsg_handle_def thenE_def
    by (intro step only_router_intros) (auto intro!: step only_router_intros router session state split: prod.split)
qed

lemma only_router_messages: "only_router (messaging_handle c env writable r)"
proof -
  have send: "only_router (\<lambda>conn. case s_authentication (c_session conn) of None \<Rightarrow> (Inl Panic, conn)
      | Some auth \<Rightarrow> reply_only NoError 8 (conn\<lparr>c_world := (c_world conn)\<lparr>w_router := g auth conn\<rparr>\<rparr>))" for g
    unfolding only_router_def
  proof
    fix conn show "\<exists>router. c_world (snd (case s_authentication (c_session conn) of None \<Rightarrow> (Inl Panic, conn)
      | Some auth \<Rightarrow> reply_only NoError 8 (conn\<lparr>c_world := (c_world conn)\<lparr>w_router := g auth conn\<rparr>\<rparr>)))
      = (c_world conn)\<lparr>w_router := router\<rparr>"
      by (cases "s_authentication (c_session conn)")
        (auto simp: reply_only_world intro: exI [of _ "w_router (c_world conn)"])
  qed
  show ?thesis unfolding messaging_handle_def send_message_def
    by (intro only_router_bind only_router_intros)
      (auto intro!: only_router_bind only_router_intros send split: prod.split option.split MessagingTaskId.split)
qed

section \<open>Profiles\<close>

definition profile_step :: "u64 \<Rightarrow> profile_db \<Rightarrow> profile_db \<Rightarrow> bool" where
  "profile_step me db0 db \<longleftrightarrow> profiles_ok db
     \<and> (\<forall>t i p. i \<noteq> me \<longrightarrow> profile_of db t i p = profile_of db0 t i p)"

text \<open>With an id that the database cannot hold the statements fail and nothing changes.\<close>

lemma keeps_set_profile:
  assumes auth: "s_authentication session = Some auth"
  shows "keeps False (profile_step (a_user_id auth) db0) (set_profile now ty session data)"
proof (rule keeps_stepI)
  fix db assume step: "profile_step (a_user_id auth) db0 db"
  show "profile_step (a_user_id auth) db0 (snd (set_profile now ty session data db))"
  proof (cases "sql_fits (a_user_id auth)")
    case True
    obtain db' where "update_user_profile now auth ty data db = (Inr (), db')" "profiles_ok db'"
      "\<And>t i p. profile_of db' t i p
        = (if t = title_to_u32 (a_title auth) \<and> i = a_user_id auth \<and> p = ty then Some data else profile_of db t i p)"
      using update_profile_map [OF _ True] step unfolding profile_step_def by metis
    then show ?thesis
      using step by (simp add: set_profile_def authenticated_def auth thenE_def bindE_def monad_simps profile_step_def)
  next
    case False
    then have "update_user_profile now auth ty data db = (Inl Panic, db)"
      by (simp add: update_user_profile_def query_profile_unfit statement_def)
    then show ?thesis using step by (simp add: set_profile_def authenticated_def auth thenE_def bindE_def)
  qed
qed

lemma keeps_delete_profile:
  assumes auth: "s_authentication session = Some auth"
  shows "keeps False (profile_step (a_user_id auth) db0) (delete_profile alias_accepted session)"
proof (rule keeps_stepI)
  fix db assume step: "profile_step (a_user_id auth) db0 db"
  show "profile_step (a_user_id auth) db0 (snd (delete_profile alias_accepted session db))"
  proof (cases "alias_accepted \<and> sql_fits (a_user_id auth)")
    case True
    then have fits: "sql_fits (a_user_id auth)" ..
    obtain db' where "delete_profile True session db = (Inr (Inr ()), db')" "profiles_ok db'"
      "\<And>t i p. profile_of db' t i p
        = (if t = title_to_u32 (a_title auth) \<and> i = a_user_id auth then None else profile_of db t i p)"
      using delete_profile_map [OF _ auth fits] step unfolding profile_step_def by metis
    then show ?thesis using True step by (simp add: profile_step_def)
  next
    case False
    then show ?thesis using step by (auto simp: delete_profile_def authenticated_def auth statement_def split: option.split)
  qed
qed

lemma profiles_confined:
  assumes auth: "s_authentication session = Some auth" and r: "reader_inv r"
  shows "confined False session (profile_step (a_user_id auth) db0) (profile_handle alias_accepted env r)"
proof -
  have reads: "keeps False I (get_public_profiles session users)" "keeps False I (get_private_profile session)" for I users
    unfolding get_public_profiles_def get_private_profile_def
    by (intro keeps_authenticated keeps_stepI; simp split: option.split sum.split prod.split add: Let_def)+
  have ids: "safe (read_all (next_is UnsignedInteger64Type) read_u64)"
    by (intro safe_read_all safe_intros passes_consuming consuming_intros)
  note rest = safe_remaining(1)
  note ops = keeps_set_profile [OF auth] keeps_delete_profile [OF auth] reads ids rest
  show ?thesis unfolding profile_handle_def
    by (intro confined_intros safe_intros r)
      (auto split: option.split ProfileTaskId.split simp: get_public_infos_def get_private_infos_def set_profile_info_def
        delete_profile_info_def intro!: ops confined_intros safe_bind [OF rest] safe_read_bytes)
qed

section \<open>The whole server\<close>

definition dw_ok :: "dw_world \<Rightarrow> bool" where
  "dw_ok w \<longleftrightarrow> files_ok (st_files (dw_storage w)) \<and> publisher_ok (dw_storage w)
     \<and> streams_ok (db_streams (cw_db (dw_streams w))) \<and> profiles_ok (dw_profiles w)"

definition dw_step :: "u64 \<Rightarrow> dw_world \<Rightarrow> dw_world \<Rightarrow> bool" where
  "dw_step me w0 w \<longleftrightarrow> owner_step me (dw_storage w0) (dw_storage w) \<and> lobby_step me (dw_streams w0) (dw_streams w)
     \<and> profile_step me (dw_profiles w0) (dw_profiles w)"

lemma dw_step_refl: "dw_ok w \<Longrightarrow> dw_step me w w"
  by (simp add: dw_ok_def dw_step_def owner_step_refl lobby_step_refl profile_step_def)

text \<open>Every service keeps what is promised of the three.\<close>

lemma services_confined:
  assumes auth: "s_authentication session = Some auth" and r: "reader_inv r"
    and h: "configure_lobby_server c e service = Some h"
  shows "confined False session (dw_step (a_user_id auth) w0) (lh_handle_message h r)"
proof -
  let ?I = "dw_step (a_user_id auth) w0"
  note small = harmless_anti_cheat [THEN confined_harmless, OF r] harmless_dml [THEN confined_harmless, OF r]
    harmless_event_log [THEN confined_harmless, OF r] harmless_key_archive [THEN confined_harmless, OF r]
    harmless_league [THEN confined_harmless, OF r] harmless_performance [THEN confined_harmless, OF r]
    harmless_title_utilities [THEN confined_harmless, OF r] harmless_twitch [THEN confined_harmless, OF r]
    harmless_vote_rank [THEN confined_harmless, OF r] harmless_youtube [THEN confined_harmless, OF r]
  have elsewhere: "confined False session ?I (in_endpoint m1)" "confined False session ?I (in_counters m2)"
      "confined False session ?I (in_groups m3)" "confined False session ?I (in_registry m4)"
      "confined False session ?I (in_presence m5)" for m1 m2 m3 m4 m5
    unfolding in_endpoint_def in_counters_def in_groups_def in_registry_def in_presence_def
    by (rule confined_elsewhere; simp add: dw_step_def)+
  have storage: "confined False session ?I (in_storage (storage_handle env r))" for env
    unfolding in_storage_def
    by (rule confined_in_world [OF confined_weaken [OF storage_confined [OF auth r]]]) (simp_all add: dw_step_def)
  have streams: "confined False session ?I (in_streams (content_streaming_handle se r))" for se
    unfolding in_streams_def
    by (rule confined_in_world [OF streams_confined [OF auth r]]) (simp_all add: dw_step_def)
  have profiles: "confined False session ?I (in_profiles (profile_handle al env r))" for al env
    unfolding in_profiles_def
    by (rule confined_in_world [OF profiles_confined [OF auth r]]) (simp_all add: dw_step_def)
  have router: "confined False session ?I (lsg_handle c env r)" "confined False session ?I (messaging_handle c env wr r)" for env wr
    by (rule confined_only_router [OF only_router_login] confined_only_router [OF only_router_messages]; simp add: dw_step_def)+
  show ?thesis using h
    by (cases service) (auto simp: configure_lobby_server_def add_service_def lobby_server_new_def default_handler_def
        lsg_handler_def bandwidth_lobby_handler_def storage streams profiles router elsewhere small
        split: if_splits)
qed

lemma confined_then_send:
  assumes "confined False session I m"
  shows "confined False session I (bindE m (send c seed))"
proof -
  have "c_world (snd (send c seed resp conn)) = c_world conn" for resp and conn :: "'a conn"
    by (simp add: send_def send_frame_def modifyE_def)
  then show ?thesis using assms by (auto simp: confined_def bindE_def split: prod.split sum.split)
qed

lemma confined_throw: "confined False session I (throwE err)"
  by (simp add: confined_def monad_simps)

lemma lobby_confined:
  assumes auth: "s_authentication session = Some auth" and r: "reader_inv r"
  shows "confined False session (dw_step (a_user_id auth) w0) (lobby_handle_message c seed (configure_lobby_server c e) r)"
proof -
  let ?I = "dw_step (a_user_id auth) w0" and ?handlers = "configure_lobby_server c e"
  have call: "confined False session ?I (call_handler c seed (?handlers s) r2)" if "reader_inv r2" for s r2
  proof (cases "?handlers s")
    case None
    then show ?thesis by (simp add: call_handler_def confined_then_send confined_reply_only)
  next
    case (Some h)
    have "confined False session ?I (bindE (reply_only AccessDenied 0) (send c seed))"
        "confined False session ?I (bindE (lh_handle_message h r2) (send c seed))"
      using confined_then_send confined_reply_only services_confined [OF auth that Some] by blast+
    then show ?thesis using Some by (simp add: call_handler_def confined_def)
  qed
  have bit: "safe (thenE (modifyE (reader_set_mode BitMode)) read_type_checked_bit)"
    by (intro safe_intros)
  have entered: "confined False session ?I (bindE (enter_framing (?handlers s) r1) (\<lambda>(u, r2). call_handler c seed (?handlers s) r2))"
    if "reader_inv r1" for s r1
    unfolding enter_framing_def using that
    by (auto intro!: confined_read [OF bit] confined_return_bind call)
  have "reader_inv (reader_set_type_checked False r)" using r by (simp add: reader_inv_def reader_set_type_checked_def)
  then show ?thesis unfolding lobby_handle_message_def
    by (intro confined_read safe_intros) (auto split: option.split intro: entered confined_throw)
qed

text \<open>
  The composed server. Whatever message an authenticated user sends to the lobby server, for
  whatever service, with any bytes, and whether it succeeds or fails: the tables of files,
  streams and profiles stay in order, the files and the streams of all other users are
  exactly what they were, and so is every profile kept for another user; every stream keeps
  what identifies it.
\<close>

theorem lobby_keeps_others:
  assumes "s_authentication (c_session conn) = Some auth" "dw_ok (c_world conn)"
    and "reader_inv r" "c_transaction conn < 2 ^ 64 - 1"
  shows "\<exists>x conn'. lobby_handle_message c seed (configure_lobby_server c e) r conn = (x, conn') \<and> dw_ok (c_world conn')
    \<and> others (a_user_id auth) (st_files (dw_storage (c_world conn'))) = others (a_user_id auth) (st_files (dw_storage (c_world conn)))
    \<and> other_streams (a_user_id auth) (db_streams (cw_db (dw_streams (c_world conn'))))
      = other_streams (a_user_id auth) (db_streams (cw_db (dw_streams (c_world conn))))
    \<and> stream_identity ` set (db_streams (cw_db (dw_streams (c_world conn))))
      \<subseteq> stream_identity ` set (db_streams (cw_db (dw_streams (c_world conn'))))
    \<and> (\<forall>t i p. i \<noteq> a_user_id auth \<longrightarrow> profile_of (dw_profiles (c_world conn')) t i p = profile_of (dw_profiles (c_world conn)) t i p)"
proof -
  obtain x conn' where run: "lobby_handle_message c seed (configure_lobby_server c e) r conn = (x, conn')" by fastforce
  have "dw_step (a_user_id auth) (c_world conn) (c_world conn')"
    using confinedD(2) [OF lobby_confined [OF assms(1,3)] refl assms(4) dw_step_refl [OF assms(2)]] run by (metis snd_conv)
  then show ?thesis using run
    unfolding dw_step_def owner_step_def lobby_step_def db_step_def streams_step_def profile_step_def dw_ok_def by blast
qed

definition dw_new :: "user_stream list \<Rightarrow> user_file list \<Rightarrow> dw_world" where
  "dw_new streams files = \<lparr>w_keys = key_store_new, w_router = router_new, dw_endpoint = idle_endpoint,
     dw_streams = streams_world streams, dw_counters = counter_service_new, dw_groups = group_service_new,
     dw_registry = registry_new, dw_profiles = [], dw_presence = rich_presence_service_new,
     dw_storage = storage_of files, dw_callbacks_poisoned = False\<rparr>"

definition dw_example :: dw_env where
  "dw_example = \<lparr>dv_env = storage_env, dv_streams = stream_example, dv_ids = \<lambda>_. [], dv_secret = [], dv_sessions = [],
     dv_groups = \<lambda>gs. gs, dv_writable = \<lambda>_. True, dv_peer = \<lambda>_. None, dv_token = [], dv_alias_accepted = False,
     dv_endpoint_bound = True\<rparr>"

definition dw_conn :: "BdSession \<Rightarrow> dw_world \<Rightarrow> dw_world conn" where
  "dw_conn session w = \<lparr>c_session = session, c_sent = [], c_transaction = 3, c_world = w\<rparr>"

lemma reader_inv_test: "reader_inv (test_reader bs)"
  by (simp add: test_reader_def reader_new_def reader_inv_def)

lemma dw_new_parts:
  "dw_storage (dw_new streams files) = storage_of files" "db_streams (cw_db (dw_streams (dw_new streams files))) = streams"
  "dw_profiles (dw_new streams files) = []" "dw_groups (dw_new streams files) = group_service_new"
  "dw_registry (dw_new streams files) = registry_new" "dw_callbacks_poisoned (dw_new streams files) = False"
  "w_router (dw_new streams files) = router_new" "dw_presence (dw_new streams files) = rich_presence_service_new"
  by (simp_all add: dw_new_def)

lemma dw_new_ok: "dw_ok (dw_new [streamed 1 8 None] [stored 1 8 [3]])"
proof -
  have fits: "sql_fits 8" by (simp add: sql_fits_def)
  show ?thesis unfolding dw_ok_def dw_new_parts
    using storage_of_ok(1) storage_of_ok(3) [OF _ fits] streamed_ok [OF fits] by (simp add: profiles_ok_def)
qed

theorem lobby_keeps_others_witness:
  "\<exists>x conn'. lobby_handle_message toy_crypto 0 (configure_lobby_server toy_crypto dw_example) (test_reader [10, 0x87, 1, 0, 3])
      (dw_conn (stream_user 7) (dw_new [streamed 1 8 None] [stored 1 8 [3]])) = (x, conn')
    \<and> dw_ok (c_world conn') \<and> others 7 (st_files (dw_storage (c_world conn'))) = [stored 1 8 [3]]
    \<and> other_streams 7 (db_streams (cw_db (dw_streams (c_world conn')))) = [streamed 1 8 None]"
proof -
  let ?w = "dw_new [streamed 1 8 None] [stored 1 8 [3]]"
  let ?auth = "\<lparr>a_user_id = 7, a_username = [0x61], a_session_key = [], a_title = Iw4\<rparr>"
  let ?conn = "dw_conn (stream_user 7) ?w"
  have conn: "c_world ?conn = ?w" "s_authentication (c_session ?conn) = Some ?auth" "c_transaction ?conn < 2 ^ 64 - 1"
      "dw_ok (c_world ?conn)"
    using dw_new_ok by (simp_all add: dw_conn_def stream_user)
  have mine: "others 7 (st_files (dw_storage ?w)) = [stored 1 8 [3]]"
      "other_streams 7 (db_streams (cw_db (dw_streams ?w))) = [streamed 1 8 None]"
    by (simp_all add: dw_new_parts others_def storage_of_def stored_def other_streams_def streamed_def)
  obtain x conn' where "lobby_handle_message toy_crypto 0 (configure_lobby_server toy_crypto dw_example)
        (test_reader [10, 0x87, 1, 0, 3]) ?conn = (x, conn')"
      "dw_ok (c_world conn')" "others (a_user_id ?auth) (st_files (dw_storage (c_world conn')))
        = others (a_user_id ?auth) (st_files (dw_storage (c_world ?conn)))"
      "other_streams (a_user_id ?auth) (db_streams (cw_db (dw_streams (c_world conn'))))
        = other_streams (a_user_id ?auth) (db_streams (cw_db (dw_streams (c_world ?conn))))"
    using lobby_keeps_others [where c = toy_crypto and seed = 0 and e = dw_example,
        OF conn(2,4) reader_inv_test [of "[10, 0x87, 1, 0, 3]"] conn(3)] by (elim exE conjE) (rule that)
  then show ?thesis unfolding conn(1) SessionAuthentication.select_convs(1) mine by blast
qed

section \<open>The end of a session\<close>

lemma leave_group_ends: "\<exists>s'. leave_group g s = (Inr (), s') \<and> gs_session_groups s' = gs_session_groups s \<and> gs_poisoned s' = gs_poisoned s"
  by (auto simp: leave_group_def split: option.split)

lemma leave_groups_end:
  "\<exists>s'. foreachE leave_group gs s = (Inr (), s') \<and> gs_session_groups s' = gs_session_groups s \<and> gs_poisoned s' = gs_poisoned s"
proof (induction gs arbitrary: s)
  case (Cons g gs)
  obtain s1 where "leave_group g s = (Inr (), s1)" "gs_session_groups s1 = gs_session_groups s" "gs_poisoned s1 = gs_poisoned s"
    using leave_group_ends by blast
  then show ?case using Cons.IH [of s1] by (simp add: thenE_def bindE_def)
qed (simp add: monad_simps)

lemma group_callback_ends:
  assumes "\<not> gs_poisoned (dw_groups w)"
  obtains s where "group_callback session w = (Inr (), w\<lparr>dw_groups := s\<rparr>)"
    "gs_session_groups s = (gs_session_groups (dw_groups w))(s_id session := None)"
    "remove_all_groups_for_session (s_id session) (dw_groups w) = (Inr (), s)"
proof -
  let ?s1 = "(dw_groups w)\<lparr>gs_session_groups := (gs_session_groups (dw_groups w))(s_id session := None)\<rparr>"
  obtain s where "remove_all_groups_for_session (s_id session) (dw_groups w) = (Inr (), s)"
      "gs_session_groups s = (gs_session_groups (dw_groups w))(s_id session := None)"
    using leave_groups_end [of "groups_of (dw_groups w) (s_id session)" ?s1] assms
    by (cases "gs_session_groups (dw_groups w) (s_id session)")
      (auto simp: remove_all_groups_for_session_def groups_of_def)
  then show thesis using that by (simp add: group_callback_def)
qed

lemma registry_callback_ends:
  assumes "\<not> rg_poisoned (dw_registry w)" "registry_ok (dw_registry w)"
  obtains s where "registry_callback session w = (Inr (), w\<lparr>dw_registry := s\<rparr>)" "registry_ok s"
    "rg_sessions s = (rg_sessions (dw_registry w))(s_id session := None)" "\<forall>h. rg_by_host s h \<noteq> Some (s_id session)"
proof -
  let ?s = "snd (forget (s_id session) (dw_registry w))"
  have ok: "registry_ok ?s" by (rule registry_ok_forget [OF assms(2)])
  have gone: "rg_sessions ?s = (rg_sessions (dw_registry w))(s_id session := None)" by (rule forget_sessions(1) [OF assms(2)])
  have "rg_by_host ?s h \<noteq> Some (s_id session)" for h
    using registry_ok_host [OF ok, of h "s_id session"] gone by (metis fun_upd_same option.distinct(1))
  moreover have "registry_callback session w = (Inr (), w\<lparr>dw_registry := ?s\<rparr>)"
    using assms forget_ok [OF assms(2), of "s_id session"]
    by (simp add: registry_callback_def remove_connection_def locked_def bindE_def monad_simps)
  ultimately show thesis using that ok gone by blast
qed

text \<open>
  C18. Who leaves is forgotten. When a session ends and no lock is poisoned, its callbacks run to the end
  without a panic. After them no user is reached through it, it advertises no match and no id
  leads to it, and it is in no group; the presence that the user it is logged in as at the end
  published in it is gone, while a presence that it published under an earlier login as
  another user stays, as every other one does. Everybody else's recipients, matches and groups
  are what they were; counters, files, streams, profiles and keys are untouched; and the
  matches stay consistent, as do the counts of the groups.
\<close>

theorem ended_session_forgotten:
  assumes ok: "\<not> dw_callbacks_poisoned w" "\<not> gs_poisoned (dw_groups w)" "\<not> rg_poisoned (dw_registry w)"
    and registry: "registry_ok (dw_registry w)" and groups: "groups_counted (dw_groups w)"
  shows "\<exists>router registry groups presence.
    dw_unregister_session session w = (Inr (), w\<lparr>w_router := router, dw_registry := registry, dw_groups := groups, dw_presence := presence\<rparr>)
    \<and> (\<forall>u r. mr_recipients router u = Some r \<longleftrightarrow> mr_recipients (w_router w) u = Some r \<and> rc_session r \<noteq> s_id session)
    \<and> registry_ok registry \<and> rg_sessions registry = (rg_sessions (dw_registry w))(s_id session := None)
    \<and> (\<forall>h. rg_by_host registry h \<noteq> Some (s_id session))
    \<and> groups_counted groups \<and> gs_session_groups groups = (gs_session_groups (dw_groups w))(s_id session := None)
    \<and> (\<forall>u. rp_presences presence u = (if map_option fst (rp_presences (dw_presence w) u) = Some (s_id session)
          \<and> map_option a_user_id (s_authentication session) = Some u then None else rp_presences (dw_presence w) u))"
proof -
  obtain g where g: "group_callback session w = (Inr (), w\<lparr>dw_groups := g\<rparr>)"
      "gs_session_groups g = (gs_session_groups (dw_groups w))(s_id session := None)"
      "remove_all_groups_for_session (s_id session) (dw_groups w) = (Inr (), g)"
    using group_callback_ends [OF ok(2)] .
  let ?w1 = "w\<lparr>dw_groups := g\<rparr>"
  obtain r where r: "registry_callback session ?w1 = (Inr (), ?w1\<lparr>dw_registry := r\<rparr>)" "registry_ok r"
      "rg_sessions r = (rg_sessions (dw_registry ?w1))(s_id session := None)" "\<forall>h. rg_by_host r h \<noteq> Some (s_id session)"
    using registry_callback_ends [of ?w1 session] ok(3) registry by auto
  let ?router = "router_unregister session (w_router w)" and ?presence = "presence_unregistered session (dw_presence w)"
  have run: "dw_unregister_session session w
      = (Inr (), w\<lparr>w_router := ?router, dw_registry := r, dw_groups := g, dw_presence := ?presence\<rparr>)"
    using ok(1) g(1) r(1) by (simp add: dw_unregister_session_def unregister_callbacks_def thenE_def bindE_def
        router_callback_def presence_callback_def modifyE_def)
  have recipients: "mr_recipients ?router u = Some q \<longleftrightarrow> mr_recipients (w_router w) u = Some q \<and> rc_session q \<noteq> s_id session" for u q
    by (auto simp: router_unregister_def split: option.splits if_splits)
  have presences: "rp_presences ?presence u = (if map_option fst (rp_presences (dw_presence w) u) = Some (s_id session)
      \<and> map_option a_user_id (s_authentication session) = Some u then None else rp_presences (dw_presence w) u)" for u
    by (auto simp: presence_unregistered_def remove_rich_presence_for_disconnect_def split: option.split)
  show ?thesis
    using run recipients presences r(2-4) leave_counted [OF groups g(3)] g(2)
    by (intro exI [of _ ?router] exI [of _ r] exI [of _ g] exI [of _ ?presence]) simp
qed

text \<open>The user 7 has logged in over session 4, which ends.\<close>

theorem ended_session_forgotten_witness:
  "\<exists>w'. dw_unregister_session (stream_user 7) ((dw_new [] [])\<lparr>w_router := router_register (stream_user 7) router_new\<rparr>) = (Inr (), w')
    \<and> mr_recipients (w_router w') 7 = None \<and> registry_ok (dw_registry w')"
proof -
  let ?w = "(dw_new [] [])\<lparr>w_router := router_register (stream_user 7) router_new\<rparr>"
  have ok: "\<not> dw_callbacks_poisoned ?w" "\<not> gs_poisoned (dw_groups ?w)" "\<not> rg_poisoned (dw_registry ?w)"
      "registry_ok (dw_registry ?w)" "groups_counted (dw_groups ?w)"
    using registry_ok_new by (simp_all add: dw_new_parts group_service_new_def registry_new_def groups_counted_def
        groups_of_def group_count_def members_def)
  have here: "mr_recipients (w_router ?w) 7 = Some \<lparr>rc_session = 4, rc_key = []\<rparr>" "s_id (stream_user 7) = 4"
    by (simp_all add: router_register_def stream_user_def)
  obtain router registry groups presence where
      run: "dw_unregister_session (stream_user 7) ?w
        = (Inr (), ?w\<lparr>w_router := router, dw_registry := registry, dw_groups := groups, dw_presence := presence\<rparr>)"
      and router: "\<forall>u r. mr_recipients router u = Some r \<longleftrightarrow> mr_recipients (w_router ?w) u = Some r \<and> rc_session r \<noteq> s_id (stream_user 7)"
      and registry: "registry_ok registry"
    using ended_session_forgotten [OF ok, of "stream_user 7"] by (elim exE conjE) (rule that)
  have "mr_recipients router 7 = None"
    using router [rule_format, of 7 "the (mr_recipients router 7)"] here by (cases "mr_recipients router 7") auto
  then show ?thesis using run registry by (intro exI [of _ "?w\<lparr>w_router := router, dw_registry := registry, dw_groups := groups, dw_presence := presence\<rparr>"]) simp
qed

text \<open>
  A panic of one callback stops the clean-up for good: when the registry's lock is poisoned, which a
  client's numbers can do in a build that checks overflows, the next session that ends keeps
  its place in the router and its presence, and every later one keeps everything.
\<close>

theorem poisoned_registry_stops_cleanup:
  assumes "\<not> gs_poisoned (dw_groups w)" "rg_poisoned (dw_registry w)"
  shows "\<exists>w1. dw_unregister_session session w = (Inl Panic, w1) \<and> w_router w1 = w_router w
    \<and> dw_presence w1 = dw_presence w \<and> dw_unregister_session later w1 = (Inl Panic, w1)"
proof (cases "dw_callbacks_poisoned w")
  case False
  obtain g where "group_callback session w = (Inr (), w\<lparr>dw_groups := g\<rparr>)" using group_callback_ends [OF assms(1)] .
  moreover have "registry_callback session (w\<lparr>dw_groups := g\<rparr>) = (Inl Panic, w\<lparr>dw_groups := g\<rparr>)"
    using assms(2) by (simp add: registry_callback_def remove_connection_def locked_def)
  ultimately show ?thesis using False
    by (simp add: dw_unregister_session_def unregister_callbacks_def thenE_def bindE_def)
qed (simp add: dw_unregister_session_def)

end
