(* ===== verification/Dw_Sessions.thy ===== *)
theory Dw_Sessions
  imports Dw_Properties
begin

text \<open>
  What the handlers do to the session of their connection, and which sessions the shared state
  refers to: only the login changes a session, by the identity of an authentic proof, and a
  message makes the state refer to no session but its own.
\<close>

section \<open>Handlers that keep the session\<close>

definition same_session :: "('w, 'a) act \<Rightarrow> bool" where
  "same_session m \<longleftrightarrow> (\<forall>conn. c_session (snd (m conn)) = c_session conn)"

named_theorems session_intros \<open>handlers that keep the session\<close>

lemma same_session_bind [session_intros]:
  assumes "same_session m" "\<And>x. same_session (f x)"
  shows "same_session (bindE m f)"
  using assms by (auto simp: same_session_def bindE_def split: prod.split sum.split) (metis snd_conv)+

lemma same_session_then [session_intros]: "same_session m \<Longrightarrow> same_session n \<Longrightarrow> same_session (thenE m n)"
  unfolding thenE_def by (rule same_session_bind)

lemma same_session_basic [session_intros]:
  "same_session (run_rd p r)" "same_session the_session" "same_session (returnE v)" "same_session (throwE err)"
  "same_session (liftE y)" "same_session (ensureE b err)" "same_session (on_service op)" "same_session (on_registry reg)"
  "same_session session_id" "same_session (\<lambda>conn. (g conn, conn))"
  by (auto simp: same_session_def run_rd_def the_session_def monad_simps liftE_def ensureE_def on_service_def
      on_registry_def session_id_def split: prod.split sum.split)

lemma same_session_numbered [session_intros]: "same_session next_transaction_id"
  by (simp add: same_session_def next_transaction_id_def split: sum.split)

lemma same_session_replies [session_intros]:
  "same_session (reply_only code op)" "same_session (reply_results op ws)" "same_session (reply_single op w)"
  "same_session (with_result_slice op slice_of)"
  unfolding reply_only_def reply_results_def reply_single_def with_only_error_code_def with_results_def
    with_single_result_def with_result_slice_def
  by (intro session_intros)+

lemma same_session_cases [session_intros]:
  "(\<And>a b. same_session (f a b)) \<Longrightarrow> same_session (case p of (a, b) \<Rightarrow> f a b)"
  "same_session m \<Longrightarrow> (\<And>x. same_session (g x)) \<Longrightarrow> same_session (case maybe of None \<Rightarrow> m | Some x \<Rightarrow> g x)"
  "(\<And>x. same_session (g x)) \<Longrightarrow> (\<And>y. same_session (h y)) \<Longrightarrow> same_session (case s of Inl x \<Rightarrow> g x | Inr y \<Rightarrow> h y)"
  "same_session m \<Longrightarrow> same_session n \<Longrightarrow> same_session (if b then m else n)"
  by (simp_all split: prod.split option.split sum.split)

lemma same_session_in_world [session_intros]: "same_session m \<Longrightarrow> same_session (in_world get put m)"
  by (auto simp: same_session_def in_world_def split: prod.split) (metis conn.select_convs(1) snd_conv)

section \<open>The services\<close>

lemma session_storage: "same_session (storage_handle env r)"
  unfolding storage_handle_def create_file_def update_file_by_id_def get_file_by_id_def list_files_by_owner_def
    handle_list_publisher_files_def answer_for_file_info_slice_def own_user_id_def
  by (intro session_intros) (auto split: StorageTaskId.split intro!: session_intros)

lemma session_streams: "same_session (content_streaming_handle e r)"
  unfolding content_streaming_handle_def get_file_metadata_by_id_def list_streams_by_owner_def list_streams_def
    list_all_publisher_files_def pre_upload_file_def post_upload_file_def pre_delete_file_def
    pre_download_by_file_id_def pre_download_publisher_file_def list_files_by_owners_def
    answer_for_stream_info_slice_def answer_for_stream_url_def
  by (intro session_intros) (auto split: ContentStreamingTaskId.split intro!: session_intros)

lemma session_profiles: "same_session (profile_handle al env r)"
  unfolding profile_handle_def get_public_infos_def get_private_infos_def set_profile_info_def delete_profile_info_def
  by (intro session_intros) (auto split: ProfileTaskId.split intro!: session_intros)

lemma session_presence: "same_session (presence_handle set_op get_op r)"
  unfolding presence_handle_def handle_set_info_def handle_get_info_def
  by (intro session_intros) (auto split: RichPresenceTaskId.split intro!: session_intros)

lemma session_groups: "same_session (group_handle get_op set_op r)"
  unfolding group_handle_def handle_set_groups_def handle_get_group_counts_def
  by (intro session_intros) (auto split: GroupTaskId.split intro!: session_intros)

lemma session_counters: "same_session (counter_handle get_op inc_op r)"
  unfolding counter_handle_def handle_increment_counters_def handle_get_counter_totals_def
  by (intro session_intros) (auto split: CounterTaskId.split intro!: session_intros)

lemma session_matches: "same_session (matchmaking_handle ids secret order r)"
  unfolding matchmaking_handle_def create_session_def update_session_def delete_session_def find_sessions_def
  by (intro session_intros) (auto split: MatchMakingTaskId.split intro!: session_intros)

lemma session_bandwidth: "same_session (bandwidth_handle peer token r)"
  unfolding bandwidth_handle_def handle_bandwidth_task_def
  by (intro session_intros) (auto split: BandwidthOperation.split IpAddr.split intro!: session_intros)

lemma session_messages: "same_session (messaging_handle c env writable r)"
proof -
  have "same_session (\<lambda>conn. case s_authentication (c_session conn) of None \<Rightarrow> (Inl Panic, conn)
      | Some auth \<Rightarrow> reply_only NoError 8 (conn\<lparr>c_world := (c_world conn)\<lparr>w_router := g auth conn\<rparr>\<rparr>))" for g
    by (simp add: same_session_def same_session_replies(1) [unfolded same_session_def] split: option.split)
  then show ?thesis unfolding messaging_handle_def send_message_def
    by (intro session_intros) (auto split: MessagingTaskId.split intro!: session_intros)
qed

lemma session_harmless:
  assumes "harmless handle" "reader_inv r" "c_transaction conn < 2 ^ 64 - 1"
  shows "c_session (snd (handle r conn)) = c_session conn"
proof -
  obtain x conn' where run: "handle r conn = (x, conn')" by fastforce
  then show ?thesis using assms(1) [unfolded harmless_def, rule_format, of r conn] assms(2,3) by (cases x) auto
qed

lemma services_same_session:
  assumes h: "configure_lobby_server c e service = Some h" "service \<noteq> LobbyService"
    and r: "reader_inv r" "c_transaction conn < 2 ^ 64 - 1"
  shows "c_session (snd (lh_handle_message h r conn)) = c_session conn"
proof -
  note small = session_harmless [OF harmless_anti_cheat r] session_harmless [OF harmless_dml r]
    session_harmless [OF harmless_event_log r] session_harmless [OF harmless_key_archive r]
    session_harmless [OF harmless_league r] session_harmless [OF harmless_performance r]
    session_harmless [OF harmless_title_utilities r] session_harmless [OF harmless_twitch r]
    session_harmless [OF harmless_vote_rank r] session_harmless [OF harmless_youtube r]
  note worlds = in_endpoint_def in_counters_def in_groups_def in_registry_def in_presence_def in_storage_def
    in_streams_def in_profiles_def
  note large = session_storage session_streams session_profiles session_presence session_groups session_counters
    session_matches session_bandwidth
  have state: "c_session (snd (in_world get put m conn)) = c_session conn" if "same_session m" for get put m
    using same_session_in_world [OF that, of get put] by (simp add: same_session_def)
  have messages: "c_session (snd (messaging_handle c env writable r conn)) = c_session conn" for env writable
    by (rule session_messages [unfolded same_session_def, rule_format])
  show ?thesis using h
    by (cases service) (auto simp: configure_lobby_server_def add_service_def lobby_server_new_def default_handler_def
        bandwidth_lobby_handler_def worlds state large messages small split: if_splits)
qed

section \<open>The login\<close>

text \<open>The proof that a message shows: it is for the login service, and the bytes it carries decrypt
  under a valid key to a proof that has not expired and is for the title of the request.\<close>

definition shown_proof :: "crypto \<Rightarrow> env \<Rightarrow> InMemoryKeyStore \<Rightarrow> reader \<Rightarrow> ClientOpaqueAuthProof option" where
  "shown_proof c env keys r =
    (case read_u8 (reader_set_type_checked False r) of
       (Inl _, _) \<Rightarrow> None
     | (Inr service, r1) \<Rightarrow>
         if service \<noteq> lobby_service_to_u8 LobbyService then None
         else case thenE (modifyE (reader_set_mode BitMode)) read_type_checked_bit r1 of
           (Inl _, _) \<Rightarrow> None
         | (Inr _, r2) \<Rightarrow>
             (case lsg_request r2 of
                (Inl _, _) \<Rightarrow> None
              | (Inr (title, buf), _) \<Rightarrow>
                  (case proof_deserialize c (get_valid_keys (e_now env) keys) buf of
                     Inl _ \<Rightarrow> None
                   | Inr p \<Rightarrow> if e_now env \<le> sint (p_time_expires p) \<and> p_title p = title then Some p else None)))"

lemma lsg_handle_outcome:
  assumes "lsg_handle c env r conn = (x, conn')"
  obtains (refused) "conn' = conn"
  | (logged_in) title buf r' p where "lsg_request r = (Inr (title, buf), r')"
      "proof_deserialize c (get_valid_keys (e_now env) (w_keys (c_world conn))) buf = Inr p"
      "e_now env \<le> sint (p_time_expires p)" "p_title p = title"
      "conn' = conn\<lparr>c_session := set_authentication (proof_authentication p) (c_session conn),
        c_world := (c_world conn)\<lparr>w_router := router_register
          (set_authentication (proof_authentication p) (c_session conn)) (w_router (c_world conn))\<rparr>\<rparr>"
proof (cases rule: run_rd_cases [of lsg_request r conn])
  case (1 e)
  then show thesis using assms refused by (simp add: lsg_handle_def bindE_def)
next
  case (2 v r')
  obtain title buf where v: "v = (title, buf)" by fastforce
  let ?des = "proof_deserialize c (get_valid_keys (e_now env) (w_keys (c_world conn))) buf"
  show thesis
  proof (cases ?des)
    case (Inl e)
    then show thesis using assms 2(1) v refused by (simp add: lsg_handle_def bindE_def)
  next
    case (Inr p)
    then have "conn' = (if e_now env \<le> sint (p_time_expires p) \<and> p_title p = title
        then conn\<lparr>c_session := set_authentication (proof_authentication p) (c_session conn),
          c_world := (c_world conn)\<lparr>w_router := router_register
            (set_authentication (proof_authentication p) (c_session conn)) (w_router (c_world conn))\<rparr>\<rparr> else conn)"
      using assms 2(1) v
      by (auto simp: lsg_handle_def bindE_def monad_simps proof_authentication_def set_authentication_def split: if_splits)
    then show thesis using refused logged_in [OF 2(2) [unfolded v] Inr] by (simp split: if_splits)
  qed
qed

text \<open>A message is not read, or it is served by one handler.\<close>

lemma lobby_cases:
  assumes run: "lobby_handle_message c seed handlers r conn = (x, conn')" and r: "reader_inv r"
  obtains (unread) err where "x = Inl err" "conn' = conn"
  | (served) v r1 s r2 where "read_u8 (reader_set_type_checked False r) = (Inr v, r1)"
      "lobby_service_from_u8 v = Some s" "enter_framing (handlers s) r1 conn = (Inr ((), r2), conn)"
      "call_handler c seed (handlers s) r2 conn = (x, conn')" "reader_inv r2"
proof (cases rule: run_rd_cases [of read_u8 "reader_set_type_checked False r" conn])
  case (1 err)
  then have "x = Inl err" "conn' = conn" using run by (simp_all add: lobby_handle_message_def bindE_def)
  then show thesis by (rule unread)
next
  case (2 v r1)
  have "reader_inv (reader_set_type_checked False r)" using r by (simp add: reader_inv_def reader_set_type_checked_def)
  moreover have "safe read_u8" by (intro safe_intros)
  ultimately have r1: "reader_inv r1" using safeD 2(2) by (metis snd_conv)
  have bit: "safe (thenE (modifyE (reader_set_mode BitMode)) read_type_checked_bit)" by (intro safe_intros)
  show thesis
  proof (cases "lobby_service_from_u8 v")
    case None
    then have "x = Inl (IllegalServiceIdError v)" "conn' = conn"
      using run 2(1) by (simp_all add: lobby_handle_message_def bindE_def monad_simps)
    then show thesis by (rule unread)
  next
    case (Some s)
    obtain y conn1 where framed: "enter_framing (handlers s) r1 conn = (y, conn1)" by fastforce
    have conn1: "conn1 = conn" using framed run_rd_state by (metis enter_framing_def returnE_apply snd_conv)
    have whole: "(x, conn') = (case y of Inl err \<Rightarrow> (Inl err, conn) | Inr (_, r2) \<Rightarrow> call_handler c seed (handlers s) r2 conn)"
      using run 2(1) Some framed conn1
      by (simp add: lobby_handle_message_def bindE_def [of "run_rd m q" for m q] bindE_def [of "enter_framing h q" for h q]
          split: sum.splits prod.splits)
    show thesis
    proof (cases y)
      case (Inl err)
      then show thesis using whole unread by simp
    next
      case (Inr ur)
      obtain r2 where ur: "ur = ((), r2)" by (cases ur) simp
      have "reader_inv r2"
      proof (cases "map_option lh_framing (handlers s) \<noteq> Some Bytes")
        case True
        then have "run_rd (thenE (modifyE (reader_set_mode BitMode)) read_type_checked_bit) r1 conn = (Inr ((), r2), conn1)"
          using framed Inr ur by (simp add: enter_framing_def)
        then show ?thesis using safeD [OF bit r1] by (auto simp: run_rd_def split: prod.splits sum.splits)
      next
        case False
        then show ?thesis using framed Inr ur r1 by (simp add: enter_framing_def returnE_apply)
      qed
      then show thesis using served [OF 2(2) Some] framed conn1 whole Inr ur by simp
    qed
  qed
qed

text \<open>Calling the handler: the reply is sent, which changes neither session nor world.\<close>

lemma sent_state:
  "c_world (snd (bindE m (send c seed) conn)) = c_world (snd (m conn))"
  "c_session (snd (bindE m (send c seed) conn)) = c_session (snd (m conn))"
  by (auto simp: bindE_def send_def send_frame_def modifyE_def split: prod.split sum.split)

lemma handlers_closed:
  "configure_lobby_server c e service = Some h \<Longrightarrow> service \<noteq> LobbyService \<Longrightarrow> lh_requires_authentication h"
  by (cases service) (auto simp: configure_lobby_server_def add_service_def lobby_server_new_def default_handler_def
      bandwidth_lobby_handler_def split: if_splits)

lemma login_handler: "configure_lobby_server c e LobbyService = Some (lsg_handler c (dv_env e))"
  by (simp add: configure_lobby_server_def add_service_def lobby_server_new_def)

text \<open>What a message can do to its session and, before the login, to the world.\<close>

lemma lobby_session:
  assumes run: "lobby_handle_message c seed (configure_lobby_server c e) r conn = (x, conn')"
    and r: "reader_inv r" "c_transaction conn < 2 ^ 64 - 1"
  obtains (kept) "c_session conn' = c_session conn"
      "s_authentication (c_session conn) = None \<Longrightarrow> c_world conn' = c_world conn"
  | (logged_in) p where "shown_proof c (dv_env e) (w_keys (c_world conn)) r = Some p"
      "c_session conn' = set_authentication (proof_authentication p) (c_session conn)"
      "c_world conn' = (c_world conn)\<lparr>w_router := router_register (c_session conn') (w_router (c_world conn))\<rparr>"
proof (cases rule: lobby_cases [OF run r(1)])
  case (1 err)
  then show thesis using kept by simp
next
  case (2 v r1 s r2)
  note served = this
  let ?h = "configure_lobby_server c e s"
  have only: "c_session (snd (bindE (reply_only code 0) (send c seed) conn)) = c_session conn"
      "c_world (snd (bindE (reply_only code 0) (send c seed) conn)) = c_world conn" for code
    using same_session_replies(1) [of code 0] by (simp_all add: sent_state reply_only_world same_session_replies(1) [unfolded same_session_def])
  show thesis
  proof (cases "s = LobbyService")
    case True
    obtain y conn1 where login: "lsg_handle c (dv_env e) r2 conn = (y, conn1)" by fastforce
    have "call_handler c seed ?h r2 conn = bindE (lsg_handle c (dv_env e) r2) (send c seed) conn"
      by (simp add: True login_handler call_handler_def lsg_handler_def default_handler_def)
    then have "bindE (lsg_handle c (dv_env e) r2) (send c seed) conn = (x, conn')" using served(4) by simp
    then have state: "c_session conn' = c_session conn1" "c_world conn' = c_world conn1"
      using sent_state [of "lsg_handle c (dv_env e) r2" c seed conn] by (simp_all add: login)
    show thesis
    proof (cases rule: lsg_handle_outcome [OF login])
      case 1
      then show thesis using state kept by simp
    next
      case (2 title buf r' p)
      have "thenE (modifyE (reader_set_mode BitMode)) read_type_checked_bit r1 = (Inr (), r2)"
        using served(3) by (auto simp: True login_handler enter_framing_def lsg_handler_def default_handler_def run_rd_def
            split: prod.splits sum.splits)
      moreover have "v = lobby_service_to_u8 LobbyService" using lobby_service_to_from_u8 [OF served(2)] True by simp
      ultimately have "shown_proof c (dv_env e) (w_keys (c_world conn)) r = Some p"
        using served(1) 2(1-4) by (simp add: shown_proof_def)
      then show thesis using logged_in 2(5) state by simp
    qed
  next
    case other: False
    show thesis
    proof (cases "?h = None \<or> s_authentication (c_session conn) = None")
      case True
      then have "\<exists>code. call_handler c seed ?h r2 conn = bindE (reply_only code 0) (send c seed) conn"
        using handlers_closed [OF _ other] by (auto simp: call_handler_def split: option.split)
      then show thesis using kept only served(4) by (metis snd_conv)
    next
      case False
      then obtain h where h: "?h = Some h" by auto
      then have "call_handler c seed ?h r2 conn = bindE (lh_handle_message h r2) (send c seed) conn"
        using False by (auto simp: call_handler_def)
      then have "c_session conn' = c_session conn"
        using served(4) services_same_session [OF h other served(5) r(2)] sent_state(2) by (metis snd_conv)
      then show thesis by (rule kept) (use False in simp)
    qed
  qed
qed

section \<open>Whom the state refers to\<close>

definition attached :: "dw_world \<Rightarrow> u64 set" where
  "attached w = rc_session ` ran (mr_recipients (w_router w)) \<union> dom (rg_sessions (dw_registry w))
     \<union> dom (gs_session_groups (dw_groups w))"

text \<open>Nothing new but the session itself, and the callbacks are not run meanwhile.\<close>

definition attaches :: "u64 \<Rightarrow> dw_world \<Rightarrow> dw_world \<Rightarrow> bool" where
  "attaches i w0 w \<longleftrightarrow> attached w \<subseteq> insert i (attached w0) \<and> dw_callbacks_poisoned w = dw_callbacks_poisoned w0"

lemma attaches_refl: "attaches i w w"
  by (auto simp: attaches_def)

text \<open>Handlers of a session under an invariant of the world, whatever the reads do.\<close>

definition stays :: "BdSession \<Rightarrow> ('w \<Rightarrow> bool) \<Rightarrow> ('w, 'a) act \<Rightarrow> bool" where
  "stays session J m \<longleftrightarrow> (\<forall>conn. c_session conn = session \<and> J (c_world conn)
     \<longrightarrow> c_session (snd (m conn)) = session \<and> J (c_world (snd (m conn))))"

named_theorems stays_intros \<open>handlers that stay in an invariant\<close>

lemma stays_bind:
  assumes "stays session J m" "\<And>x. stays session J (f x)"
  shows "stays session J (bindE m f)"
  unfolding stays_def
proof (intro allI impI)
  fix conn :: "'a conn" assume conn: "c_session conn = session \<and> J (c_world conn)"
  obtain y conn1 where m: "m conn = (y, conn1)" by fastforce
  then have "c_session conn1 = session \<and> J (c_world conn1)" using assms(1) conn by (force simp: stays_def)
  then show "c_session (snd (bindE m f conn)) = session \<and> J (c_world (snd (bindE m f conn)))"
    using assms(2) m by (cases y) (auto simp: bindE_def stays_def)
qed

lemma stays_bind_read [stays_intros]: "(\<And>x. stays session J (f x)) \<Longrightarrow> stays session J (bindE (run_rd p r) f)"
  by (rule stays_bind) (auto simp: stays_def run_rd_def split: prod.split sum.split)

lemma stays_bind_lift [stays_intros]: "(\<And>x. stays session J (f x)) \<Longrightarrow> stays session J (bindE (liftE y) f)"
  by (rule stays_bind) (simp_all add: stays_def liftE_def)

lemma stays_ensure [stays_intros]: "stays session J n \<Longrightarrow> stays session J (thenE (ensureE b err) n)"
  unfolding thenE_def by (rule stays_bind) (simp_all add: stays_def ensureE_def monad_simps)

lemma stays_bind_session [stays_intros]: "stays session J (f session) \<Longrightarrow> stays session J (bindE the_session f)"
  by (simp add: stays_def bindE_def the_session_def)

lemma stays_bind_id [stays_intros]: "stays session J (f (s_id session)) \<Longrightarrow> stays session J (bindE session_id f)"
  by (simp add: stays_def bindE_def session_id_def)

lemma stays_service: "keeps False J op \<Longrightarrow> stays session J (on_service op)"
  by (auto simp: stays_def keeps_def on_service_def split: prod.split)

lemma stays_bind_service [stays_intros]:
  "keeps False J op \<Longrightarrow> (\<And>x. stays session J (f x)) \<Longrightarrow> stays session J (bindE (on_service op) f)"
  by (rule stays_bind [OF stays_service])

lemma stays_then_service [stays_intros]:
  "keeps False J op \<Longrightarrow> stays session J n \<Longrightarrow> stays session J (thenE (on_service op) n)"
  unfolding thenE_def by (rule stays_bind_service)

lemma stays_bind_registry [stays_intros]:
  "keeps False J op \<Longrightarrow> (\<And>x. stays session J (f x)) \<Longrightarrow> stays session J (bindE (on_registry op) f)"
proof -
  have "on_registry op = on_service op" by (simp add: on_registry_def on_service_def)
  then show "keeps False J op \<Longrightarrow> (\<And>x. stays session J (f x)) \<Longrightarrow> stays session J (bindE (on_registry op) f)"
    using stays_bind_service by metis
qed

lemma stays_replies [stays_intros]: "stays session J (reply_only code op)" "stays session J (reply_results op ws)"
  by (simp_all add: stays_def reply_only_def reply_results_def with_only_error_code_def with_results_def snd_lift_bind
      bindE_def monad_simps next_transaction_id_def split: sum.split prod.split)

lemma stays_cases [stays_intros]:
  "(\<And>a b. stays session J (f a b)) \<Longrightarrow> stays session J (case p of (a, b) \<Rightarrow> f a b)"
  "stays session J m \<Longrightarrow> (\<And>x. stays session J (g x)) \<Longrightarrow> stays session J (case maybe of None \<Rightarrow> m | Some x \<Rightarrow> g x)"
  by (simp_all split: prod.split option.split)

text \<open>Matches and groups.\<close>

lemma registry_keeps:
  assumes i: "i \<in> A"
  shows "keeps False (\<lambda>s. dom (rg_sessions s) \<subseteq> A) (registry_create ids secret i info)"
    "keeps False (\<lambda>s. dom (rg_sessions s) \<subseteq> A) (registry_update ids secret i info)"
    "keeps False (\<lambda>s. dom (rg_sessions s) \<subseteq> A) (registry_delete j host)"
    "keeps False (\<lambda>s. dom (rg_sessions s) \<subseteq> A) (list_for order j query)"
  using i
  by (auto simp: keeps_def registry_create_def registry_update_def registry_delete_def list_for_def locked_def bindE_def
      thenE_def forget_def mint_def remember_def modifyE_def monad_simps split: prod.splits sum.splits option.splits if_splits)

lemma matches_stay:
  assumes "s_id session \<in> A"
  shows "stays session (\<lambda>s. dom (rg_sessions s) \<subseteq> A) (matchmaking_handle ids secret order r)"
  unfolding matchmaking_handle_def create_session_def update_session_def delete_session_def find_sessions_def
  by (intro stays_intros) (auto split: MatchMakingTaskId.split intro!: stays_intros registry_keeps assms)

lemma group_steps_keep:
  "gs_session_groups (snd (foreachE enter_group gs s)) = gs_session_groups s"
  "gs_session_groups (snd (foreachE leave_group gs s)) = gs_session_groups s"
proof -
  show "gs_session_groups (snd (foreachE enter_group gs s)) = gs_session_groups s"
    by (induction gs arbitrary: s)
      (auto simp: monad_simps thenE_def bindE_def enter_group_def split: option.split sum.split)
  show "gs_session_groups (snd (foreachE leave_group gs s)) = gs_session_groups s"
    using leave_groups_end [of gs s] by auto
qed

lemma set_groups_keep:
  "gs_session_groups (snd (thenE (foreachE enter_group gs) (foreachE leave_group hs) s)) = gs_session_groups s"
proof -
  obtain x s1 where "foreachE enter_group gs s = (x, s1)" by fastforce
  then show ?thesis using group_steps_keep(1) [of gs s] group_steps_keep(2) [of hs s1]
    by (cases x) (simp_all add: thenE_def bindE_def)
qed

lemma groups_stay:
  assumes "s_id session \<in> A"
  shows "stays session (\<lambda>s. dom (gs_session_groups s) \<subseteq> A) (group_handle get_group_counts (set_groups order) r)"
proof -
  have get: "keeps False (\<lambda>s. dom (gs_session_groups s) \<subseteq> A) (get_group_counts gs)" for gs
    by (simp add: keeps_def get_group_counts_def)
  have "keeps False (\<lambda>s. dom (gs_session_groups s) \<subseteq> A) (set_groups order session gs)" for gs
    unfolding keeps_def
  proof (intro allI impI)
    fix s :: DwGroupService assume s: "dom (gs_session_groups s) \<subseteq> A"
    have "gs_session_groups (snd (set_groups order session gs s)) = (gs_session_groups s)(s_id session \<mapsto> gs)"
      using set_groups_keep [where s = "s\<lparr>gs_session_groups := (gs_session_groups s)(s_id session \<mapsto> gs)\<rparr>"]
      by (simp add: set_groups_def Let_def)
    then show "(False \<longrightarrow> fst (set_groups order session gs s) \<noteq> Inl Panic)
        \<and> dom (gs_session_groups (snd (set_groups order session gs s))) \<subseteq> A" using s assms by simp
  qed
  then show ?thesis unfolding group_handle_def handle_set_groups_def handle_get_group_counts_def
    by (intro stays_intros) (auto split: GroupTaskId.split intro!: stays_intros get)
qed

section \<open>A message attaches its own session\<close>

lemma attached_unchanged:
  "attached w' = attached w \<Longrightarrow> dw_callbacks_poisoned w' = dw_callbacks_poisoned w \<Longrightarrow> attaches i w0 w \<Longrightarrow> attaches i w0 w'"
  by (simp add: attaches_def)

lemma attached_elsewhere:
  "attached (w\<lparr>dw_endpoint := a\<rparr>) = attached w" "attached (w\<lparr>dw_streams := b\<rparr>) = attached w"
  "attached (w\<lparr>dw_counters := d\<rparr>) = attached w" "attached (w\<lparr>dw_profiles := f\<rparr>) = attached w"
  "attached (w\<lparr>dw_presence := g\<rparr>) = attached w" "attached (w\<lparr>dw_storage := h\<rparr>) = attached w"
  "attached (w\<lparr>w_keys := k\<rparr>) = attached w"
  by (simp_all add: attached_def)

lemma confined_stays:
  assumes stays: "stays session J m" and get: "\<And>w. I w \<Longrightarrow> J (get w)" and put: "\<And>s w. I w \<Longrightarrow> J s \<Longrightarrow> I (put s w)"
  shows "confined False session I (in_world get put m)"
  by (rule confined_in_world [where J = J]) (use assms in \<open>auto simp: stays_def confined_def\<close>)

lemma messages_attach: "confined False session (attaches i w0) (messaging_handle c env writable r)"
proof -
  have same: "attached (w\<lparr>w_router := deliver_all c seeds writable us u name ts p (w_router w)\<rparr>) = attached w" for w :: dw_world and seeds us u name ts p
    by (simp add: attached_def deliver_all_spec)
  have "attached (c_world (snd (messaging_handle c env writable r conn))) = attached (c_world conn)
      \<and> dw_callbacks_poisoned (c_world (snd (messaging_handle c env writable r conn))) = dw_callbacks_poisoned (c_world conn)"
    for conn :: "dw_world conn"
    by (auto simp: messaging_handle_def send_message_def bindE_def run_rd_def reply_only_world same
        split: prod.split sum.split option.split MessagingTaskId.split)
  then show ?thesis unfolding confined_def using attached_unchanged by metis
qed

lemma login_attaches: "confined False session (attaches (s_id session) w0) (lsg_handle c env r)"
proof (rule confinedI)
  fix conn :: "dw_world conn" assume conn: "c_session conn = session" "attaches (s_id session) w0 (c_world conn)"
  obtain x conn' where login: "lsg_handle c env r conn = (x, conn')" by fastforce
  have "attaches (s_id session) w0 (c_world conn')"
  proof (cases rule: lsg_handle_outcome [OF login])
    case 1
    then show ?thesis using conn by simp
  next
    case (2 title buf r' p)
    let ?s = "set_authentication (proof_authentication p) session" and ?w = "c_world conn"
    have "attached (?w\<lparr>w_router := router_register ?s (w_router ?w)\<rparr>) \<subseteq> insert (s_id session) (attached ?w)"
      by (auto simp: attached_def router_register_def set_authentication_def proof_authentication_def ran_def split: if_splits)
    then show ?thesis using conn 2(5) by (auto simp: attaches_def)
  qed
  then show "(False \<longrightarrow> fst (lsg_handle c env r conn) \<noteq> Inl Panic) \<and> attaches (s_id session) w0 (c_world (snd (lsg_handle c env r conn)))"
    using login by simp
qed

lemma services_attach:
  assumes h: "configure_lobby_server c e service = Some h" and r: "reader_inv r"
  shows "confined False session (attaches (s_id session) w0) (lh_handle_message h r)"
proof -
  let ?I = "attaches (s_id session) w0" and ?A = "insert (s_id session) (attached w0)"
  note small = harmless_anti_cheat [THEN confined_harmless, OF r] harmless_dml [THEN confined_harmless, OF r]
    harmless_event_log [THEN confined_harmless, OF r] harmless_key_archive [THEN confined_harmless, OF r]
    harmless_league [THEN confined_harmless, OF r] harmless_performance [THEN confined_harmless, OF r]
    harmless_title_utilities [THEN confined_harmless, OF r] harmless_twitch [THEN confined_harmless, OF r]
    harmless_vote_rank [THEN confined_harmless, OF r] harmless_youtube [THEN confined_harmless, OF r]
  have elsewhere: "confined False session ?I (in_endpoint m1)" "confined False session ?I (in_counters m2)"
      "confined False session ?I (in_presence m3)" "confined False session ?I (in_storage m4)"
      "confined False session ?I (in_streams m5)" "confined False session ?I (in_profiles m6)" for m1 m2 m3 m4 m5 m6
    unfolding in_endpoint_def in_counters_def in_presence_def in_storage_def in_streams_def in_profiles_def
    by (rule confined_elsewhere; simp add: attaches_def attached_elsewhere)+
  have matches: "confined False session ?I (in_registry (matchmaking_handle ids secret order r))" for ids secret order
    unfolding in_registry_def
    by (rule confined_stays [OF matches_stay [where A = ?A]]) (auto simp: attaches_def attached_def)
  have groups: "confined False session ?I (in_groups (group_handle get_group_counts (set_groups order) r))" for order
    unfolding in_groups_def
    by (rule confined_stays [OF groups_stay [where A = ?A]]) (auto simp: attaches_def attached_def)
  show ?thesis using h
    by (cases service) (auto simp: configure_lobby_server_def add_service_def lobby_server_new_def default_handler_def
        lsg_handler_def bandwidth_lobby_handler_def matches groups elsewhere messages_attach login_attaches small
        split: if_splits)
qed

lemma lobby_attaches:
  assumes run: "lobby_handle_message c seed (configure_lobby_server c e) r conn = (x, conn')"
    and r: "reader_inv r" "c_transaction conn < 2 ^ 64 - 1"
  shows "attaches (s_id (c_session conn)) (c_world conn) (c_world conn')"
proof (cases rule: lobby_cases [OF run r(1)])
  case (1 err)
  then show ?thesis using attaches_refl by simp
next
  case (2 v r1 s r2)
  let ?h = "configure_lobby_server c e s" and ?I = "attaches (s_id (c_session conn)) (c_world conn)"
  consider code where "call_handler c seed ?h r2 conn = bindE (reply_only code 0) (send c seed) conn"
    | h where "?h = Some h" "call_handler c seed ?h r2 conn = bindE (lh_handle_message h r2) (send c seed) conn"
  proof (cases ?h)
    case None
    then show thesis by (intro that(1) [of ServiceNotAvailable]) (simp add: call_handler_def)
  next
    case (Some h)
    then show thesis
      by (cases "lh_requires_authentication h \<and> s_authentication (c_session conn) = None")
        (intro that(1) [of AccessDenied], simp add: call_handler_def, intro that(2) [of h], auto simp: call_handler_def)
  qed
  then show ?thesis
  proof cases
    case 1
    then have "bindE (reply_only code 0) (send c seed) conn = (x, conn')" using 2(4) by simp
    then have "c_world conn' = c_world conn"
      using sent_state(1) [of "reply_only code 0" c seed conn] by (simp add: reply_only_world)
    then show ?thesis by (simp add: attaches_refl)
  next
    case 2
    then have "bindE (lh_handle_message h r2) (send c seed) conn = (x, conn')"
      using \<open>call_handler c seed ?h r2 conn = (x, conn')\<close> by simp
    then have "c_world conn' = c_world (snd (lh_handle_message h r2 conn))"
      using sent_state(1) [of "lh_handle_message h r2" c seed conn] by simp
    then show ?thesis
      using confinedD(2) [OF services_attach [OF 2(1) \<open>reader_inv r2\<close>] refl r(2) attaches_refl] by simp
  qed
qed

end
