(* ===== verification/Dw_Runs.thy ===== *)
theory Dw_Runs
  imports Dw_Sessions
begin

text \<open>
  Runs of the lobby port of dw-server: connections are accepted, send messages and end, in any
  order, while datagrams arrive, totals are asked for and keys are handed out. A connection's
  thread that panics unwinds and unregisters its session; when that panics too the process
  aborts. A run is followed until then, or until a thread draws ids of matches for ever under the
  lock of the registry.
\<close>

section \<open>The server\<close>

text \<open>Each connection has its session and the transaction counter of its thread.\<close>

record dw_server =
  sv_world :: dw_world
  sv_sessions :: "u64 \<rightharpoonup> BdSession \<times> u64"
  sv_next :: u64
  sv_stopped :: bool

datatype dw_event =
    Connect
  | Receive u64 dw_env u32 bytes
  | Disconnect u64
  | Datagram IpAddr bytes
  | Totals "u64 list"
  | IssueKey int bytes bytes

text \<open>The drop of the session's registration, at the end of the loop or while a panic unwinds.\<close>

definition end_connection :: "bool \<Rightarrow> BdSession \<Rightarrow> dw_server \<Rightarrow> dw_server" where
  "end_connection panicking session s =
    (case dw_unregister_session session (sv_world s) of
       (x, w) \<Rightarrow> s\<lparr>sv_world := w, sv_sessions := (sv_sessions s)(s_id session := None),
         sv_stopped := (sv_stopped s \<or> (panicking \<and> x \<noteq> Inr ()))\<rparr>)"

definition accept_connection :: "dw_server \<Rightarrow> dw_server" where
  "accept_connection s =
    (case checked_add (sv_next s) 1 of
       Inl _ \<Rightarrow> s
     | Inr counter \<Rightarrow> s\<lparr>sv_next := counter,
         sv_sessions := (sv_sessions s)(sv_next s \<mapsto> (session_new\<lparr>s_id := sv_next s\<rparr>, 0))\<rparr>)"

text \<open>One message of a connection, as its loop has taken it off the stream.\<close>

definition receive_message :: "crypto \<Rightarrow> u64 \<Rightarrow> dw_env \<Rightarrow> u32 \<Rightarrow> bytes \<Rightarrow> dw_server \<Rightarrow> dw_server" where
  "receive_message c i e seed buf s =
    (case sv_sessions s i of
       None \<Rightarrow> s
     | Some (session, transaction) \<Rightarrow>
         (case bd_message_new c session buf of
            Inl err \<Rightarrow> end_connection (err = Panic) session s
          | Inr r \<Rightarrow>
              (case lobby_handle_message c seed (configure_lobby_server c e) r
                 \<lparr>c_session = session, c_sent = [], c_transaction = transaction, c_world = sv_world s\<rparr> of
                 (Inl err, conn) \<Rightarrow>
                   if err = Diverges then s\<lparr>sv_world := c_world conn, sv_stopped := True\<rparr>
                   else end_connection (err = Panic) (c_session conn) (s\<lparr>sv_world := c_world conn\<rparr>)
               | (Inr _, conn) \<Rightarrow> s\<lparr>sv_world := c_world conn,
                   sv_sessions := (sv_sessions s)(i \<mapsto> (c_session conn, c_transaction conn))\<rparr>)))"

fun dw_serve :: "crypto \<Rightarrow> dw_event \<Rightarrow> dw_server \<Rightarrow> dw_server" where
  "dw_serve c Connect s = accept_connection s"
| "dw_serve c (Receive i e seed buf) s = receive_message c i e seed buf s"
| "dw_serve c (Disconnect i) s =
    (case sv_sessions s i of None \<Rightarrow> s | Some (session, _) \<Rightarrow> end_connection False session s)"
| "dw_serve c (Datagram from_ip datagram) s = s\<lparr>sv_world := (sv_world s)
    \<lparr>dw_endpoint := snd (receive_datagram from_ip datagram (dw_endpoint (sv_world s)))\<rparr>\<rparr>"
| "dw_serve c (Totals order) s = s\<lparr>sv_world := snd (population_totals order (sv_world s))\<rparr>"
| "dw_serve c (IssueKey now key iv) s = s\<lparr>sv_world := (sv_world s)
    \<lparr>w_keys := snd (get_current_key now key iv (w_keys (sv_world s)))\<rparr>\<rparr>"

definition dw_start :: "dw_world \<Rightarrow> dw_server" where
  "dw_start w = \<lparr>sv_world = w, sv_sessions = Map.empty, sv_next = 0, sv_stopped = False\<rparr>"

text \<open>The proof that an event shows to the server, with the number of the connection that shows it.\<close>

type_synonym shown = "(u64 \<times> ClientOpaqueAuthProof) set"

definition shown_in :: "crypto \<Rightarrow> dw_event \<Rightarrow> dw_server \<Rightarrow> shown" where
  "shown_in c ev s =
    (case ev of
       Receive i e seed buf \<Rightarrow>
         (case sv_sessions s i of
            None \<Rightarrow> {}
          | Some (session, _) \<Rightarrow>
              (case bd_message_new c session buf of
                 Inl _ \<Rightarrow> {}
               | Inr r \<Rightarrow> Pair i ` set_option (shown_proof c (dv_env e) (w_keys (sv_world s)) r)))
     | _ \<Rightarrow> {})"

text \<open>No connection has used up its transaction numbers.\<close>

definition numbers_left :: "dw_server \<Rightarrow> bool" where
  "numbers_left s \<longleftrightarrow> (\<forall>i session transaction. sv_sessions s i = Some (session, transaction) \<longrightarrow> transaction < 2 ^ 64 - 1)"

text \<open>The runs, with the proofs shown in them. The number of a connection is never given out twice.\<close>

inductive dw_runs :: "crypto \<Rightarrow> dw_world \<Rightarrow> shown \<Rightarrow> dw_server \<Rightarrow> bool" for c w0 where
  start: "dw_runs c w0 {} (dw_start w0)"
| serve: "dw_runs c w0 P s \<Longrightarrow> \<not> sv_stopped s \<Longrightarrow> numbers_left s \<Longrightarrow> dw_runs c w0 (P \<union> shown_in c ev s) (dw_serve c ev s)"

section \<open>The invariant\<close>

definition belongings :: "u64 \<Rightarrow> dw_world \<Rightarrow> user_file list \<times> user_stream list \<times> (u32 \<Rightarrow> ProfileType \<Rightarrow> bytes option)" where
  "belongings u w = (filter (\<lambda>f. uf_owner_id f = u) (st_files (dw_storage w)),
     filter (\<lambda>t. ur_owner_id t = u) (db_streams (cw_db (dw_streams w))), \<lambda>t p. profile_of (dw_profiles w) t u p)"

definition same_data :: "dw_world \<Rightarrow> dw_world \<Rightarrow> bool" where
  "same_data w w' \<longleftrightarrow> dw_storage w' = dw_storage w \<and> dw_streams w' = dw_streams w \<and> dw_profiles w' = dw_profiles w"

lemma same_dataD:
  assumes "same_data w w'"
  shows "belongings u w' = belongings u w" "dw_ok w' \<longleftrightarrow> dw_ok w"
  using assms by (simp_all add: same_data_def belongings_def dw_ok_def)

lemma dw_step_belongings:
  assumes "dw_step me w w'" "u \<noteq> me"
  shows "belongings u w' = belongings u w"
proof -
  have own: "filter (\<lambda>x. f x = u) (filter (\<lambda>x. f x \<noteq> me) xs) = filter (\<lambda>x. f x = u) xs" for f :: "'a \<Rightarrow> u64" and xs
    using assms(2) by (induction xs) auto
  have "others me (st_files (dw_storage w')) = others me (st_files (dw_storage w))"
      "other_streams me (db_streams (cw_db (dw_streams w'))) = other_streams me (db_streams (cw_db (dw_streams w)))"
      "\<forall>t p. profile_of (dw_profiles w') t u p = profile_of (dw_profiles w) t u p"
    using assms unfolding dw_step_def owner_step_def lobby_step_def db_step_def streams_step_def profile_step_def by blast+
  then show ?thesis
    using own [of uf_owner_id "st_files (dw_storage w')"] own [of uf_owner_id "st_files (dw_storage w)"]
      own [of ur_owner_id "db_streams (cw_db (dw_streams w'))"] own [of ur_owner_id "db_streams (cw_db (dw_streams w))"]
    by (simp add: belongings_def others_def other_streams_def)
qed

lemma dw_step_ok: "dw_step me w w' \<Longrightarrow> dw_ok w'"
  unfolding dw_step_def owner_step_def lobby_step_def db_step_def streams_step_def profile_step_def dw_ok_def by blast

text \<open>Unregistering touches no data and, when it succeeds, detaches the session.\<close>

lemma unregister_effect:
  assumes run: "dw_unregister_session session w = (x, w')"
  shows "same_data w w'" "attached w' \<subseteq> attached w" "x = Inr () \<Longrightarrow> s_id session \<notin> attached w'"
    "dw_callbacks_poisoned w' \<longleftrightarrow> x \<noteq> Inr ()"
proof -
  obtain y g where g: "remove_all_groups_for_session (s_id session) (dw_groups w) = (y, g)" by fastforce
  have "gs_session_groups (snd (remove_all_groups_for_session (s_id session) (dw_groups w)))
      = (gs_session_groups (dw_groups w))(s_id session := None)"
    by (simp add: remove_all_groups_for_session_def Let_def group_steps_keep split: option.split)
  then have groups: "gs_session_groups g = (gs_session_groups (dw_groups w))(s_id session := None)" using g by simp
  obtain z r where r: "remove_connection (s_id session) (dw_registry w) = (z, r)" by fastforce
  have registry: "dom (rg_sessions r) \<subseteq> dom (rg_sessions (dw_registry w))"
      "z = Inr b \<Longrightarrow> s_id session \<notin> dom (rg_sessions r)" for b
    using r by (auto simp: remove_connection_def locked_def bindE_def forget_def monad_simps
        split: if_splits option.splits sum.splits prod.splits)
  let ?router = "router_unregister session (w_router w)"
  have router: "rc_session ` ran (mr_recipients ?router) \<subseteq> rc_session ` ran (mr_recipients (w_router w)) - {s_id session}"
    by (auto simp: router_unregister_def ran_def split: option.splits if_splits)
  have whole: "(x, w') = (if dw_callbacks_poisoned w then (Inl Panic, w)
      else case y of Inl err \<Rightarrow> (Inl err, w\<lparr>dw_groups := g, dw_callbacks_poisoned := True\<rparr>)
      | Inr _ \<Rightarrow> (case z of Inl err \<Rightarrow> (Inl err, w\<lparr>dw_groups := g, dw_registry := r, dw_callbacks_poisoned := True\<rparr>)
        | Inr _ \<Rightarrow> (Inr (), w\<lparr>dw_groups := g, dw_registry := r, w_router := ?router,
            dw_presence := presence_unregistered session (dw_presence w)\<rparr>)))"
    using run g r by (auto simp: dw_unregister_session_def unregister_callbacks_def thenE_def bindE_def group_callback_def
        registry_callback_def router_callback_def presence_callback_def modifyE_def split: sum.splits)
  show "same_data w w'" "attached w' \<subseteq> attached w" "x = Inr () \<Longrightarrow> s_id session \<notin> attached w'"
    "dw_callbacks_poisoned w' \<longleftrightarrow> x \<noteq> Inr ()"
    using whole groups registry router
    by (auto simp: same_data_def attached_def split: if_splits sum.splits)
qed

text \<open>What holds in every state of a run.\<close>

definition identity_shown :: "shown \<Rightarrow> u64 \<Rightarrow> BdSession \<Rightarrow> bool" where
  "identity_shown P i session \<longleftrightarrow> s_authentication session = None
     \<or> (\<exists>p. (i, p) \<in> P \<and> s_authentication session = Some (proof_authentication p))"

definition sessions_ok :: "shown \<Rightarrow> dw_server \<Rightarrow> bool" where
  "sessions_ok P s \<longleftrightarrow> (\<forall>i session transaction. sv_sessions s i = Some (session, transaction) \<longrightarrow> s_id session = i
     \<and> identity_shown P i session)"

definition users_shown :: "shown \<Rightarrow> u64 set" where
  "users_shown P = p_user_id ` snd ` P"

definition data_ok :: "dw_world \<Rightarrow> shown \<Rightarrow> dw_world \<Rightarrow> bool" where
  "data_ok w0 P w \<longleftrightarrow> (dw_ok w0
     \<longrightarrow> dw_ok w \<and> (\<forall>u. u \<notin> users_shown P \<longrightarrow> belongings u w = belongings u w0))"

definition attached_ok :: "dw_server \<Rightarrow> bool" where
  "attached_ok s \<longleftrightarrow> dw_callbacks_poisoned (sv_world s) \<or> attached (sv_world s) \<subseteq> dom (sv_sessions s)"

definition run_ok :: "dw_world \<Rightarrow> shown \<Rightarrow> dw_server \<Rightarrow> bool" where
  "run_ok w0 P s \<longleftrightarrow> sessions_ok P s \<and> data_ok w0 P (sv_world s) \<and> attached_ok s"

lemma identity_shown_mono: "identity_shown P i session \<Longrightarrow> P \<subseteq> Q \<Longrightarrow> identity_shown Q i session"
  unfolding identity_shown_def by blast

lemma sessions_ok_mono: "sessions_ok P s \<Longrightarrow> P \<subseteq> Q \<Longrightarrow> sessions_ok Q s"
  unfolding sessions_ok_def using identity_shown_mono by blast

lemma data_ok_mono: "data_ok w0 P w \<Longrightarrow> P \<subseteq> Q \<Longrightarrow> data_ok w0 Q w"
  unfolding data_ok_def users_shown_def by (meson image_mono subsetD)

lemma data_ok_same: "data_ok w0 P w \<Longrightarrow> same_data w w' \<Longrightarrow> data_ok w0 P w'"
  using same_dataD unfolding data_ok_def by metis

text \<open>Ending a connection, also after its message has attached its session.\<close>

lemma end_connection_ok:
  assumes "sessions_ok P s" "data_ok w0 P (sv_world s)"
    and "dw_callbacks_poisoned (sv_world s) \<or> attached (sv_world s) \<subseteq> insert (s_id session) (dom (sv_sessions s))"
  shows "run_ok w0 P (end_connection panicking session s)"
proof -
  obtain x w where run: "dw_unregister_session session (sv_world s) = (x, w)" by fastforce
  have sticky: "dw_callbacks_poisoned (sv_world s) \<Longrightarrow> dw_callbacks_poisoned w"
    using unregister_effect(4) [OF run] run by (auto simp: dw_unregister_session_def)
  have "attached_ok (end_connection panicking session s)"
  proof (cases "dw_callbacks_poisoned w")
    case True
    then show ?thesis using run by (simp add: attached_ok_def end_connection_def)
  next
    case False
    then have "x = Inr ()" "\<not> dw_callbacks_poisoned (sv_world s)" using unregister_effect(4) [OF run] sticky by blast+
    then show ?thesis using unregister_effect(2,3) [OF run] assms(3) run
      by (auto simp: attached_ok_def end_connection_def)
  qed
  then show ?thesis
    using assms(1) data_ok_same [OF assms(2) unregister_effect(1) [OF run]] run
    by (auto simp: run_ok_def sessions_ok_def end_connection_def)
qed

lemma message_reader_inv:
  assumes "bd_message_new c session buf = Inr r"
  shows "reader_inv r"
proof -
  have new: "reader_inv (reader_new bs)" for bs by (simp add: reader_new_def reader_inv_def)
  show ?thesis using assms by (auto simp: bd_message_new_def Let_def new split: list.splits if_splits option.splits sum.splits)
qed

text \<open>What one message does to the data and the session.\<close>

lemma message_data:
  assumes run: "lobby_handle_message c seed (configure_lobby_server c e) r conn = (x, conn')"
    and r: "reader_inv r" "c_transaction conn < 2 ^ 64 - 1" and ok: "data_ok w0 P (c_world conn)"
    and shown: "identity_shown P i (c_session conn)"
  shows "data_ok w0 P (c_world conn')"
proof (cases "s_authentication (c_session conn)")
  case None
  have "same_data (c_world conn) (c_world conn')"
    by (cases rule: lobby_session [OF run r]) (simp_all add: None same_data_def)
  then show ?thesis by (rule data_ok_same [OF ok])
next
  case (Some a)
  then obtain p where p: "(i, p) \<in> P" "a = proof_authentication p" using shown by (auto simp: identity_shown_def)
  show ?thesis unfolding data_ok_def
  proof (rule impI)
    assume "dw_ok w0"
    then have before: "dw_ok (c_world conn)" "\<And>u. u \<notin> users_shown P \<Longrightarrow> belongings u (c_world conn) = belongings u w0"
      using ok unfolding data_ok_def by blast+
    have step: "dw_step (a_user_id a) (c_world conn) (c_world conn')"
      using confinedD(2) [OF lobby_confined [OF Some r(1)] refl r(2) dw_step_refl [OF before(1)]] run by (metis snd_conv)
    have "a_user_id a \<in> users_shown P" using p by (force simp: users_shown_def proof_authentication_def)
    then show "dw_ok (c_world conn') \<and> (\<forall>u. u \<notin> users_shown P \<longrightarrow> belongings u (c_world conn') = belongings u w0)"
      using before(2) dw_step_ok [OF step] dw_step_belongings [OF step] by metis
  qed
qed

lemma receive_ok:
  assumes ok: "run_ok w0 P s" and numbers: "numbers_left s"
  shows "run_ok w0 (P \<union> shown_in c (Receive i e seed buf) s) (receive_message c i e seed buf s)"
proof (cases "sv_sessions s i")
  case None
  then show ?thesis using ok by (simp add: receive_message_def shown_in_def)
next
  case (Some st)
  obtain session tid where st: "st = (session, tid)" by fastforce
  note here = Some [unfolded st]
  let ?Q = "P \<union> shown_in c (Receive i e seed buf) s"
  have s: "sessions_ok P s" "data_ok w0 P (sv_world s)" "attached_ok s" using ok by (simp_all add: run_ok_def)
  have sub: "P \<subseteq> ?Q" by blast
  have Q: "sessions_ok ?Q s" "data_ok w0 ?Q (sv_world s)"
    by (rule sessions_ok_mono [OF s(1) sub]) (rule data_ok_mono [OF s(2) sub])
  have me: "s_id session = i" "identity_shown P i session"
    using s(1) here unfolding sessions_ok_def by blast+
  have inside: "insert i (dom (sv_sessions s)) = dom (sv_sessions s)" using here by auto
  show ?thesis
  proof (cases "bd_message_new c session buf")
    case (Inl err)
    have "run_ok w0 ?Q (end_connection (err = Panic) session s)"
      by (rule end_connection_ok [OF Q]) (use s(3) inside me(1) in \<open>auto simp: attached_ok_def\<close>)
    then show ?thesis using here Inl by (simp add: receive_message_def)
  next
    case (Inr r)
    let ?conn = "\<lparr>c_session = session, c_sent = [], c_transaction = tid, c_world = sv_world s\<rparr> :: dw_world conn"
    obtain x conn' where run: "lobby_handle_message c seed (configure_lobby_server c e) r ?conn = (x, conn')" by fastforce
    have r: "reader_inv r" "c_transaction ?conn < 2 ^ 64 - 1"
      using message_reader_inv [OF Inr] numbers here unfolding numbers_left_def by auto
    have "data_ok w0 P (c_world conn')"
      by (rule message_data [OF run r]) (use s(2) me(2) in simp_all)
    then have data: "data_ok w0 ?Q (c_world conn')" using sub by (rule data_ok_mono)
    have "attaches i (sv_world s) (c_world conn')" using lobby_attaches [OF run r] me(1) by simp
    then have att: "dw_callbacks_poisoned (c_world conn') \<or> attached (c_world conn') \<subseteq> dom (sv_sessions s)"
      using s(3) inside unfolding attaches_def attached_ok_def by blast
    have session': "s_id (c_session conn') = i \<and> identity_shown ?Q i (c_session conn')"
    proof (cases rule: lobby_session [OF run r])
      case 1
      then have "c_session conn' = session" by simp
      then show ?thesis using me identity_shown_mono [OF me(2) sub] by simp
    next
      case (2 p)
      then have "(i, p) \<in> ?Q" using here Inr by (simp add: shown_in_def)
      then show ?thesis using 2(2) me(1) by (auto simp: identity_shown_def set_authentication_def)
    qed
    let ?s = "s\<lparr>sv_world := c_world conn'\<rparr>"
    have Q': "sessions_ok ?Q ?s" "data_ok w0 ?Q (sv_world ?s)" using Q(1) data by (simp_all add: sessions_ok_def)
    have closed: "run_ok w0 ?Q (end_connection (err = Panic) (c_session conn') ?s)" for err
      by (rule end_connection_ok [OF Q']) (use att inside session' in auto)
    have stopped: "run_ok w0 ?Q (?s\<lparr>sv_stopped := True\<rparr>)"
      using Q' att by (simp add: run_ok_def sessions_ok_def attached_ok_def)
    have served: "run_ok w0 ?Q (?s\<lparr>sv_sessions := (sv_sessions s)(i \<mapsto> (c_session conn', c_transaction conn'))\<rparr>)"
      using Q' att session' by (auto simp: run_ok_def sessions_ok_def attached_ok_def)
    show ?thesis using here Inr run closed stopped served
      by (cases x) (auto simp: receive_message_def)
  qed
qed

lemma world_ok:
  assumes "run_ok w0 P s" "same_data (sv_world s) w" "attached w = attached (sv_world s)"
    and "dw_callbacks_poisoned w = dw_callbacks_poisoned (sv_world s)"
  shows "run_ok w0 P (s\<lparr>sv_world := w\<rparr>)"
  using assms data_ok_same [OF _ assms(2)] by (simp add: run_ok_def sessions_ok_def attached_ok_def)

lemma serve_ok:
  assumes ok: "run_ok w0 P s" and numbers: "numbers_left s"
  shows "run_ok w0 (P \<union> shown_in c ev s) (dw_serve c ev s)"
proof (cases ev)
  case Connect
  then show ?thesis using ok
    by (auto simp: accept_connection_def shown_in_def run_ok_def sessions_ok_def identity_shown_def attached_ok_def session_new_def split: sum.split)
next
  case (Receive i e seed buf)
  then show ?thesis using receive_ok [OF ok numbers] by simp
next
  case (Disconnect i)
  have "run_ok w0 P (end_connection False session s)" if "sv_sessions s i = Some (session, tid)" for session tid
    using end_connection_ok [of P s w0 session False] ok that by (auto simp: run_ok_def attached_ok_def)
  then show ?thesis using Disconnect ok by (auto simp: shown_in_def split: option.split)
next
  case (Datagram from_ip datagram)
  then show ?thesis using world_ok [OF ok] by (simp add: shown_in_def same_data_def attached_elsewhere)
next
  case (Totals order)
  have "rg_sessions (snd (population order r)) = rg_sessions r" for r
    by (auto simp: population_def locked_def split: sum.split)
  then have "same_data (sv_world s) (snd (population_totals order (sv_world s)))
      \<and> attached (snd (population_totals order (sv_world s))) = attached (sv_world s)
      \<and> dw_callbacks_poisoned (snd (population_totals order (sv_world s))) = dw_callbacks_poisoned (sv_world s)"
    by (auto simp: population_totals_def same_data_def attached_def split: prod.split sum.split) (metis snd_conv)+
  then show ?thesis using world_ok [OF ok] Totals by (simp add: shown_in_def)
next
  case (IssueKey now key iv)
  then show ?thesis using world_ok [OF ok] by (simp add: shown_in_def same_data_def attached_elsewhere)
qed

lemma runs_ok:
  assumes "dw_runs c w0 P s" "attached w0 = {}"
  shows "run_ok w0 P s"
  using assms
proof (induction rule: dw_runs.induct)
  case start
  then show ?case by (simp add: run_ok_def dw_start_def sessions_ok_def attached_ok_def data_ok_def)
next
  case (serve P s ev)
  then show ?case using serve_ok by blast
qed

section \<open>Properties\<close>

text \<open>
  C17. Nothing refers to a connection that has gone. In every run of the server from its start - connections
  come, send whatever messages and go in any order, whatever else happens - as long as no callback
  of an ended session has panicked: whoever can be reached by messages is reached through a
  connection that is open, every advertised match and every group member is an open
  connection. No player haunts the lists.
\<close>

theorem nothing_dangles:
  assumes "dw_runs c w0 P s" "attached w0 = {}" "\<not> dw_callbacks_poisoned (sv_world s)"
  shows "(\<forall>u r. mr_recipients (w_router (sv_world s)) u = Some r \<longrightarrow> rc_session r \<in> dom (sv_sessions s))
    \<and> dom (rg_sessions (dw_registry (sv_world s))) \<subseteq> dom (sv_sessions s)
    \<and> dom (gs_session_groups (dw_groups (sv_world s))) \<subseteq> dom (sv_sessions s)"
  using runs_ok [OF assms(1,2)] assms(3) by (auto simp: run_ok_def attached_ok_def attached_def ran_def)

text \<open>
  C16. Data is behind proofs. In every run of the server in which no connection has used up its transaction
  numbers: each open connection either has no identity or the one of a proof that this very
  connection showed to the login service, decrypted under a key valid at that time, unexpired,
  for the title of the request. When the tables were in order at the start and the names and
  metadata of the publisher's files can be read, they stay in order, and the files,
  streams and profiles of every user whom none of the proofs names are what they were.
\<close>

theorem data_behind_proofs:
  assumes "dw_runs c w0 P s" "attached w0 = {}" "dw_ok w0"
  shows "(\<forall>i session transaction. sv_sessions s i = Some (session, transaction) \<longrightarrow> s_authentication session = None
      \<or> (\<exists>p. (i, p) \<in> P \<and> s_authentication session = Some (proof_authentication p)))
    \<and> (\<forall>u. (\<forall>(i, p) \<in> P. p_user_id p \<noteq> u) \<longrightarrow> belongings u (sv_world s) = belongings u w0)
    \<and> dw_ok (sv_world s)"
proof -
  have "u \<notin> users_shown P" if "\<forall>(i, p) \<in> P. p_user_id p \<noteq> u" for u using that by (auto simp: users_shown_def)
  then show ?thesis
    using runs_ok [OF assms(1,2)] assms(3) unfolding run_ok_def data_ok_def sessions_ok_def identity_shown_def by blast
qed

text \<open>An example: the server hands out a key, a connection is accepted and logs in with a proof under
  that key, while the tables hold a file and a stream of the user 8.\<close>

definition example_tables :: dw_world where
  "example_tables = dw_new [streamed 1 8 None] [stored 1 8 [3]]"

definition login_dw_env :: dw_env where
  "login_dw_env = dw_example\<lparr>dv_env := login_env\<rparr>"

definition accepted_server :: dw_server where
  "accepted_server = dw_serve toy_crypto Connect (dw_serve toy_crypto (IssueKey 1000 [1] [2]) (dw_start example_tables))"

lemma accepted_server:
  "sv_sessions accepted_server = [0 \<mapsto> (session_new, 0)]" "\<not> sv_stopped accepted_server"
  "sv_world accepted_server = example_tables\<lparr>w_keys := snd (get_current_key 1000 [1] [2] key_store_new)\<rparr>"
  by (simp_all add: accepted_server_def accept_connection_def dw_start_def checked_add_def session_new_def
      example_tables_def dw_new_def)

lemma accepted_run: "dw_runs toy_crypto example_tables {} accepted_server"
proof -
  have "dw_runs toy_crypto example_tables ({} \<union> shown_in toy_crypto (IssueKey 1000 [1] [2]) (dw_start example_tables))
      (dw_serve toy_crypto (IssueKey 1000 [1] [2]) (dw_start example_tables))"
    by (rule dw_runs.serve [OF dw_runs.start]) (simp_all add: dw_start_def numbers_left_def)
  then have 1: "dw_runs toy_crypto example_tables {} (dw_serve toy_crypto (IssueKey 1000 [1] [2]) (dw_start example_tables))"
    by (simp add: shown_in_def)
  have "dw_runs toy_crypto example_tables ({} \<union> shown_in toy_crypto Connect
        (dw_serve toy_crypto (IssueKey 1000 [1] [2]) (dw_start example_tables))) accepted_server"
    unfolding accepted_server_def by (rule dw_runs.serve [OF 1]) (simp_all add: dw_start_def numbers_left_def)
  then show ?thesis by (simp add: shown_in_def)
qed

lemma example_tables: "attached example_tables = {}" "dw_ok example_tables" "\<not> dw_callbacks_poisoned example_tables"
  using dw_new_ok by (simp_all add: example_tables_def attached_def dw_new_def router_new_def registry_new_def group_service_new_def)

lemma login_run:
  obtains p s where "dw_runs toy_crypto example_tables {(0, p)} s" "p_user_id p = 7" "\<not> dw_callbacks_poisoned (sv_world s)"
    "sv_sessions s 0 = Some (set_authentication (proof_authentication example_proof) session_new, 0)"
    "mr_recipients (w_router (sv_world s)) 7 = Some \<lparr>rc_session = 0, rc_key = replicate 24 5\<rparr>"
proof -
  obtain pd where pd: "proof_serialize toy_crypto example_key example_proof = Inr pd"
    using serialize_ok [OF toy_crypto_ok example_proof_ok] .
  have len: "length pd = 128" using serialize_inverse [OF toy_crypto_ok pd] by simp
  let ?bits = "request_header LobbyService @ lsg_request_bits (p_title example_proof) 9 pd"
  let ?buf = "pack (?bits @ replicate 5 False)" and ?w = "sv_world accepted_server"
  have "8 dvd length (?bits @ replicate 5 False)"
    by (simp add: request_header_def lsg_request_bits_def enc_scalar_def tagged_def tag_bits_def len)
  then have bits: "rbits (reader_new ?buf)
      = request_header LobbyService @ lsg_request_bits (p_title example_proof) 9 pd @ replicate 5 False"
    by (simp add: rbits_new bytes_bits_pack)
  have now: "e_now (dv_env login_dw_env) = 1300" by (simp add: login_dw_env_def login_env_def)
  let ?conn = "\<lparr>c_session = session_new, c_sent = [], c_transaction = 0, c_world = ?w\<rparr> :: dw_world conn"
  have keys: "w_keys (c_world ?conn) = snd (get_current_key 1000 [1] [2] key_store_new)" by (simp add: accepted_server)
  have key: "example_key \<in> set (get_valid_keys (e_now (dv_env login_dw_env)) (w_keys (c_world ?conn)))"
    unfolding keys now using current_key_valid_later [OF key_store_ok_new example_first_key, of "[]" 1300] by simp
  have unique: "no_collision toy_crypto (get_valid_keys (e_now (dv_env login_dw_env)) (w_keys (c_world ?conn))) example_key pd"
    unfolding keys now using example_only_key by (auto simp: no_collision_def)
  have expires: "e_now (dv_env login_dw_env) \<le> sint (p_time_expires example_proof)" by (simp add: now example_proof_def)
  let ?me = "set_authentication (proof_authentication example_proof) session_new"
  let ?w' = "?w\<lparr>w_router := router_register ?me (w_router ?w)\<rparr>"
  obtain fr where login: "lobby_handle_message toy_crypto 3 (configure_lobby_server toy_crypto login_dw_env) (reader_new ?buf) ?conn
      = (Inr (), ?conn\<lparr>c_session := ?me, c_sent := [fr], c_world := ?w'\<rparr>)"
    using login_with_proof [where handlers = "configure_lobby_server toy_crypto login_dw_env" and seed = 3 and stream = "[]",
        OF toy_crypto_ok login_handler ready_new bits example_proof_ok pd key unique expires refl] by auto
  let ?ev = "Receive 0 login_dw_env 3 (0 # ?buf)" and ?s = "dw_serve toy_crypto (Receive 0 login_dw_env 3 (0 # ?buf)) accepted_server"
  have message: "bd_message_new toy_crypto session_new (0 # ?buf) = Inr (reader_new ?buf)" by (simp add: bd_message_new_def)
  have s: "?s = accepted_server\<lparr>sv_world := ?w', sv_sessions := (sv_sessions accepted_server)(0 \<mapsto> (?me, 0))\<rparr>"
    using login message by (simp add: receive_message_def accepted_server(1))
  have inv: "reader_inv (reader_new ?buf)" using ready_new by (simp add: ready_def)
  have me: "?me \<noteq> session_new" by (simp add: set_authentication_def session_new_def)
  obtain p where p: "shown_proof toy_crypto (dv_env login_dw_env) (w_keys ?w) (reader_new ?buf) = Some p"
      "?me = set_authentication (proof_authentication p) session_new"
    by (cases rule: lobby_session [OF login inv]) (use me in auto)
  have "shown_in toy_crypto ?ev accepted_server = {(0, p)}"
    using p(1) message by (simp add: shown_in_def accepted_server(1))
  moreover have "dw_runs toy_crypto example_tables ({} \<union> shown_in toy_crypto ?ev accepted_server) ?s"
    by (rule dw_runs.serve [OF accepted_run accepted_server(2)]) (simp add: numbers_left_def accepted_server(1))
  ultimately have run: "dw_runs toy_crypto example_tables {(0, p)} ?s" by simp
  have "s_authentication ?me = Some (proof_authentication p)" unfolding p(2) by (simp add: set_authentication_def)
  then have user: "p_user_id p = 7"
    by (simp add: set_authentication_def proof_authentication_def example_proof_def)
  show thesis
  proof (rule that [OF run user])
    show "\<not> dw_callbacks_poisoned (sv_world ?s)" unfolding s using example_tables(3) by (simp add: accepted_server(3))
    show "sv_sessions ?s 0 = Some (?me, 0)" unfolding s by simp
    show "mr_recipients (w_router (sv_world ?s)) 7 = Some \<lparr>rc_session = 0, rc_key = replicate 24 5\<rparr>"
      unfolding s by (simp add: router_register_def set_authentication_def proof_authentication_def example_proof_def session_new_def)
  qed
qed

theorem nothing_dangles_witness:
  "\<exists>P s. dw_runs toy_crypto example_tables P s
    \<and> mr_recipients (w_router (sv_world s)) 7 = Some \<lparr>rc_session = 0, rc_key = replicate 24 5\<rparr> \<and> 0 \<in> dom (sv_sessions s)"
proof -
  obtain p s where run: "dw_runs toy_crypto example_tables {(0, p)} s" "p_user_id p = 7" "\<not> dw_callbacks_poisoned (sv_world s)"
    "sv_sessions s 0 = Some (set_authentication (proof_authentication example_proof) session_new, 0)"
    "mr_recipients (w_router (sv_world s)) 7 = Some \<lparr>rc_session = 0, rc_key = replicate 24 5\<rparr>"
    by (rule login_run)
  have "0 \<in> dom (sv_sessions s)"
    using nothing_dangles [OF run(1) example_tables(1) run(3)] run(5) by force
  then show ?thesis using run(1,5) by blast
qed

theorem data_behind_proofs_witness:
  "\<exists>p s session. dw_runs toy_crypto example_tables {(0, p)} s \<and> sv_sessions s 0 = Some (session, 0)
    \<and> s_authentication session = Some (proof_authentication p)
    \<and> belongings 8 (sv_world s) = ([stored 1 8 [3]], [streamed 1 8 None], \<lambda>t p. None)"
proof -
  obtain p s where run: "dw_runs toy_crypto example_tables {(0, p)} s" "p_user_id p = 7" "\<not> dw_callbacks_poisoned (sv_world s)"
    "sv_sessions s 0 = Some (set_authentication (proof_authentication example_proof) session_new, 0)"
    "mr_recipients (w_router (sv_world s)) 7 = Some \<lparr>rc_session = 0, rc_key = replicate 24 5\<rparr>"
    by (rule login_run)
  note whole = data_behind_proofs [OF run(1) example_tables(1,2)]
  let ?me = "set_authentication (proof_authentication example_proof) session_new"
  have "s_authentication ?me = None \<or> (\<exists>q. (0, q) \<in> {(0 :: u64, p)} \<and> s_authentication ?me = Some (proof_authentication q))"
    using whole run(4) by blast
  then have "s_authentication ?me = Some (proof_authentication p)" by (simp add: set_authentication_def)
  moreover have "belongings 8 (sv_world s) = belongings 8 example_tables" using whole run(2) by simp
  moreover have "belongings 8 example_tables = ([stored 1 8 [3]], [streamed 1 8 None], \<lambda>t p. None)"
    by (simp add: belongings_def example_tables_def dw_new_parts storage_of_def stored_def streamed_def profile_of_def
        query_profile_def statement_def sql_fits_def)
  ultimately show ?thesis using run(1,4) by metis
qed

section \<open>Stopping the server\<close>

lemma unregister_poisoned:
  assumes "rg_poisoned (dw_registry w)"
  shows "fst (dw_unregister_session session w) \<noteq> Inr ()"
  using assms by (auto simp: dw_unregister_session_def unregister_callbacks_def thenE_def bindE_def group_callback_def
      registry_callback_def remove_connection_def locked_def split: prod.split sum.split)

text \<open>The request of a search, framed as a client frames it, and read by the service.\<close>

definition search_request :: "SessionQuery \<Rightarrow> bool list \<Rightarrow> bool list" where
  "search_request query tr = request_header MatchMaking @ task_bits 5 @ (enc_query query @ tr)"

lemma search_runs:
  assumes a: "s_authentication (c_session conn) = Some a" and q: "query_ok query" "length tr = 16"
    and r: "ready ByteMode False r" "rbits r = search_request query tr @ rest"
    and panics: "list_for (dv_sessions e) (s_id (c_session conn)) query (dw_registry (c_world conn)) = (Inl Panic, reg)"
  shows "lobby_handle_message c seed (configure_lobby_server c e) r conn
    = (Inl Panic, conn\<lparr>c_world := (c_world conn)\<lparr>dw_registry := reg\<rparr>\<rparr>)"
proof -
  let ?h = "default_handler (\<lambda>r. in_registry (matchmaking_handle (dv_ids e) (dv_secret e) (dv_sessions e) r))"
  have h: "configure_lobby_server c e MatchMaking = Some ?h" "lh_framing ?h = BitBuffer"
    by (simp_all add: configure_lobby_server_def add_service_def default_handler_def)
  have open_session: "\<not> (lh_requires_authentication ?h \<and> s_authentication (c_session conn) = None)" using a by simp
  have bits: "rbits r = request_header MatchMaking @ task_bits 5 @ (enc_query query @ tr) @ rest"
    using r(2) by (simp add: search_request_def)
  obtain r' where dispatch: "lobby_handle_message c seed (configure_lobby_server c e) r conn
      = bindE (lh_handle_message ?h r') (send c seed) conn" "ready BitMode True r'" "rbits r' = task_bits 5 @ (enc_query query @ tr) @ rest"
    using lobby_dispatch [where handlers = "configure_lobby_server c e" and s = MatchMaking, OF h open_session r(1) bits] .
  let ?inner = "\<lparr>c_session = c_session conn, c_sent = c_sent conn, c_transaction = c_transaction conn,
      c_world = dw_registry (c_world conn)\<rparr> :: RegistryState conn"
  obtain r1 r2 where task: "run_rd read_u8 r' ?inner = (Inr (5, r1), ?inner)" "run_rd read_u8 r1 ?inner = (Inr (0, r2), ?inner)"
      "ready BitMode True r2" "rbits r2 = (enc_query query @ tr) @ rest"
    using read_task_bytes [OF dispatch(2,3)] .
  have reads: "reads BitMode True (enc_query query @ tr @ []) (bindE query_deserialize (\<lambda>query. thenE read_trailer (returnE query))) query"
    by (intro reads_bind [OF reads_query] reads_then [OF reads_trailer] reads_return q)
  then have reads': "reads BitMode True (enc_query query @ tr) (bindE query_deserialize (\<lambda>query. thenE read_trailer (returnE query))) query"
    by simp
  obtain r3 where read: "run_rd (bindE query_deserialize (\<lambda>query. thenE read_trailer (returnE query))) r2 ?inner
      = (Inr (query, r3), ?inner)"
    using run_rd_consumes [OF consumes_reads [OF reads'] task(3,4)] .
  have "matchmaking_handle (dv_ids e) (dv_secret e) (dv_sessions e) r' ?inner = (Inl Panic, ?inner\<lparr>c_world := reg\<rparr>)"
    using task(1,2) read panics
    by (simp add: matchmaking_handle_def matchmaking_task_from_u8_def find_sessions_def session_id_def on_registry_def bindE_def)
  then show ?thesis unfolding dispatch(1)
    by (simp add: bindE_def default_handler_def in_registry_def in_world_def)
qed

text \<open>
  Two players can stop the server. When one advertises a match whose numbers of free slots overflow in
  a sum, and another searches for matches with free slots, the search panics under the lock
  of the registry; the thread unwinds and unregisters its session, which finds the lock
  poisoned and panics again, and the process aborts.
\<close>

theorem search_stops_server:
  assumes s: "sv_sessions s i = Some (session, transaction)" "s_id session = i" "s_authentication session = Some a"
    and registry: "\<not> rg_poisoned (dw_registry (sv_world s))" "rg_sessions (dw_registry (sv_world s)) j = Some info" "j \<noteq> i"
    and overflow: "matches info query = Inl Panic" "j \<in> set (dv_sessions e)" "length (dv_sessions e) \<le> max_results query"
    and message: "query_ok query" "length tr = 16" "bytes_bits buf = search_request query tr @ rest"
  shows "sv_stopped (dw_serve c (Receive i e seed (0 # buf)) s)"
proof -
  let ?conn = "\<lparr>c_session = session, c_sent = [], c_transaction = transaction, c_world = sv_world s\<rparr> :: dw_world conn"
  let ?reg = "(dw_registry (sv_world s))\<lparr>rg_poisoned := True\<rparr>"
  have "list_loop (rg_sessions (dw_registry (sv_world s))) i query [] (max_results query) (dv_sessions e) = Inl Panic"
    by (rule list_loop_panic [where sessions = "rg_sessions (dw_registry (sv_world s))", OF overflow(3,2) registry(3,2) overflow(1)])
  then have panics: "list_for (dv_sessions e) (s_id (c_session ?conn)) query (dw_registry (c_world ?conn)) = (Inl Panic, ?reg)"
    using registry(1) s(2) by (simp add: list_for_def locked_def)
  have read: "bd_message_new c session (0 # buf) = Inr (reader_new buf)" by (simp add: bd_message_new_def)
  have "lobby_handle_message c seed (configure_lobby_server c e) (reader_new buf) ?conn
      = (Inl Panic, ?conn\<lparr>c_world := (c_world ?conn)\<lparr>dw_registry := ?reg\<rparr>\<rparr>)"
    by (rule search_runs [OF _ message(1,2) ready_new _ panics]) (use s(3) message(3) in \<open>simp_all add: rbits_new\<close>)
  then have "dw_serve c (Receive i e seed (0 # buf)) s
      = end_connection True session (s\<lparr>sv_world := (sv_world s)\<lparr>dw_registry := ?reg\<rparr>\<rparr>)"
    using s(1) read by (simp add: receive_message_def)
  then show ?thesis
    using unregister_poisoned [of "(sv_world s)\<lparr>dw_registry := ?reg\<rparr>" session]
    by (auto simp: end_connection_def split: prod.split)
qed

definition free_slots_query :: SessionQuery where
  "free_slots_query = slots_query\<lparr>sq_kind := 1\<rparr>"

theorem search_stops_server_witness:
  "sv_stopped (dw_serve toy_crypto (Receive 2 (dw_example\<lparr>dv_sessions := [1]\<rparr>) 0
      (0 # pack (search_request free_slots_query (replicate 16 False) @ replicate 5 False)))
    \<lparr>sv_world = (dw_new [] [])\<lparr>dw_registry := bad_registry\<rparr>,
     sv_sessions = [2 \<mapsto> ((stream_user 7)\<lparr>s_id := 2\<rparr>, 0)], sv_next = 3, sv_stopped = False\<rparr>)"
proof (rule search_stops_server [where i = 2 and j = 1 and session = "(stream_user 7)\<lparr>s_id := 2\<rparr>" and transaction = 0
    and info = overflowing_info])
  show "matches overflowing_info free_slots_query = Inl Panic"
    by (simp add: matches_def wants_def free_slots_query_def slots_query_def any_query_def ANY_def free_slots_def overflowing_info_def
        max0_def checked_sadd_def fits_signed_def)
  show "length (dv_sessions (dw_example\<lparr>dv_sessions := [1]\<rparr>)) \<le> max_results free_slots_query"
    by (simp add: max_results_def free_slots_query_def slots_query_def any_query_def)
  show "query_ok free_slots_query" by (simp add: query_ok_def free_slots_query_def slots_query_def any_query_def)
  have "length (search_request free_slots_query (replicate 16 False) @ replicate 5 False) = 352"
    by (simp add: search_request_def request_header_def enc_query_def free_slots_query_def slots_query_def any_query_def)
  then show "bytes_bits (pack (search_request free_slots_query (replicate 16 False) @ replicate 5 False))
      = search_request free_slots_query (replicate 16 False) @ replicate 5 False"
    by (intro bytes_bits_pack) simp
qed (simp_all add: stream_user bad_registry_def)

end
