(* ===== verification/Recording.thy ===== *)
theory Recording
  imports Social_Text
begin

text \<open>
  The upload of match recordings over HTTP (dw-server/src/recording.rs): the headers name the match,
  the body arrives in chunks, is checked to begin like a recording, and is kept compressed under
  a name made of the headers. The Zstandard library, the random nonce and whether an operation of
  the file system succeeds are arguments; the files are a map from paths to contents.
\<close>

section \<open>Parameters\<close>

text \<open>The library: an encoder that takes chunks and a decoder that fills a buffer.\<close>

record ('e, 'd) zstd =
  enc_new :: "'e option"
  enc_write :: "'e \<Rightarrow> bytes \<Rightarrow> ('e \<times> bytes) option"
  enc_finish :: "'e \<Rightarrow> bytes option"
  dec_new :: "'d option"
  dec_run :: "'d \<Rightarrow> bytes \<Rightarrow> nat \<Rightarrow> ('d \<times> nat \<times> bytes) option"

record file_ops =
  fo_create_dir :: bool
  fo_create :: bool
  fo_write :: "nat \<Rightarrow> bool"
  fo_sync :: bool
  fo_rename :: bool
  fo_remove :: bool

type_synonym files = "bytes \<rightharpoonup> bytes"

datatype RecordingStatus =
  RecCreated | RecBadRequest | RecUnsupportedMediaType | RecPayloadTooLarge | RecInternalServerError
  | RecUnprocessableEntity | RecPanic

section \<open>Headers\<close>

definition RECORDING_DIRECTORY :: bytes where "RECORDING_DIRECTORY = str ''recordings''"
definition MAGIC :: bytes where "MAGIC = str ''IW4XREC'' @ [0]"
definition MAX_BYTES :: nat where "MAX_BYTES = 512 * 2 ^ 20"

record Metadata =
  md_xuid :: u64
  md_started :: int
  md_map :: bytes
  md_gametype :: bytes
  md_client :: bytes

datatype Encoding = Identity | Zstd

definition kept_char :: "u8 \<Rightarrow> bool" where
  "kept_char c \<longleftrightarrow> 0x30 \<le> c \<and> c \<le> 0x39 \<or> 0x41 \<le> c \<and> c \<le> 0x5A \<or> 0x61 \<le> c \<and> c \<le> 0x7A \<or> c = 0x5F \<or> c = 0x2E"

definition sanitize :: "bytes \<Rightarrow> bytes" where
  "sanitize s = take 64 (filter kept_char s)"

definition parse_i64 :: "bytes \<Rightarrow> int option" where
  "parse_i64 s =
    (let signed = (\<lambda>negative ds. if ds = [] then None else case digits_value 10 0 ds of
           None \<Rightarrow> None
         | Some n \<Rightarrow> if negative then (if n \<le> 2 ^ 63 then Some (- int n) else None)
             else (if n < 2 ^ 63 then Some (int n) else None))
     in case s of
          [] \<Rightarrow> None
        | b # bs \<Rightarrow> if b = 0x2D then signed True bs else if b = 0x2B then signed False bs else signed False s)"

definition recording_metadata :: "(bytes \<Rightarrow> bytes option) \<Rightarrow> Metadata option" where
  "recording_metadata headers =
    (let val = (\<lambda>name. Option.bind (headers name) header_text)
     in case (val (str ''x-iw4x-map''), val (str ''x-iw4x-gametype''),
              Option.bind (val (str ''x-iw4x-xuid'')) parse_u64, Option.bind (val (str ''x-iw4x-started'')) parse_i64) of
          (Some m, Some g, Some xuid, Some started) \<Rightarrow>
            if sanitize m = [] \<or> sanitize g = [] then None
            else Some \<lparr>md_xuid = xuid, md_started = started, md_map = sanitize m, md_gametype = sanitize g,
              md_client = sanitize (case val (str ''x-iw4x-client'') of None \<Rightarrow> [] | Some c \<Rightarrow> c)\<rparr>
        | _ \<Rightarrow> None)"

definition recording_encoding :: "(bytes \<Rightarrow> bytes option) \<Rightarrow> Encoding option" where
  "recording_encoding headers =
    (case headers (str ''content-encoding'') of
       None \<Rightarrow> Some Identity
     | Some v \<Rightarrow>
         (let t = (case header_text v of None \<Rightarrow> [] | Some t \<Rightarrow> t)
          in if t = str ''identity'' then Some Identity else if t = str ''zstd'' then Some Zstd else None))"

definition declared_length :: "(bytes \<Rightarrow> bytes option) \<Rightarrow> u64 option" where
  "declared_length headers =
    Option.bind (Option.bind (headers (str ''content-length'')) header_text) parse_u64"

section \<open>The first bytes\<close>

record 'd Head =
  hd_bytes :: bytes
  hd_decoder :: "'d option"

definition head_new :: "('e, 'd) zstd \<Rightarrow> Encoding \<Rightarrow> 'd Head option" where
  "head_new z encoding =
    (case encoding of
       Identity \<Rightarrow> Some \<lparr>hd_bytes = [], hd_decoder = None\<rparr>
     | Zstd \<Rightarrow> map_option (\<lambda>d. \<lparr>hd_bytes = [], hd_decoder = Some d\<rparr>) (dec_new z))"

definition head_complete :: "'d Head \<Rightarrow> bool" where
  "head_complete h \<longleftrightarrow> length (hd_bytes h) = length MAGIC"

text \<open>One turn: what is read of the chunk and what is written, at most \<open>want\<close> bytes. Slices beyond the
  chunk or the buffer are panics.\<close>

definition head_run :: "('e, 'd) zstd \<Rightarrow> bytes \<Rightarrow> 'd Head \<Rightarrow> RecordingStatus + ('d Head \<times> nat \<times> bytes)" where
  "head_run z chunk h =
    (let want = length MAGIC - length (hd_bytes h)
     in case hd_decoder h of
          Some d \<Rightarrow>
            (case dec_run z d chunk want of
               None \<Rightarrow> Inl RecUnprocessableEntity
             | Some (d', nread, out) \<Rightarrow>
                 if length out > want \<or> nread > length chunk then Inl RecPanic
                 else Inr (h\<lparr>hd_decoder := Some d'\<rparr>, nread, out))
        | None \<Rightarrow> Inr (h, min want (length chunk), take want chunk))"

lemma head_run_bounds:
  assumes "head_run z chunk h = Inr (h1, nread, out)"
  shows "hd_bytes h1 = hd_bytes h" "nread \<le> length chunk" "length out \<le> length MAGIC - length (hd_bytes h)"
  using assms by (auto simp: head_run_def Let_def split: option.splits if_splits prod.splits)

lemma head_run_progress:
  assumes "head_run z chunk h = Inr (h1, nread, out)" "chunk \<noteq> []" "\<not> (nread = 0 \<and> out = [])"
  shows "length chunk - nread + (length MAGIC - (length (hd_bytes h1) + length out))
    < length chunk + (length MAGIC - length (hd_bytes h))"
  using head_run_bounds [OF assms(1)] assms(2,3) by (cases out) auto

function head_feed :: "('e, 'd) zstd \<Rightarrow> bytes \<Rightarrow> 'd Head \<Rightarrow> RecordingStatus + 'd Head" where
  "head_feed z chunk h =
    (if head_complete h \<or> chunk = [] then Inr h
     else case head_run z chunk h of
       Inl e \<Rightarrow> Inl e
     | Inr (h1, nread, out) \<Rightarrow>
         if nread = 0 \<and> out = [] then Inr h1
         else let h2 = h1\<lparr>hd_bytes := hd_bytes h1 @ out\<rparr>
           in if take (length (hd_bytes h2)) MAGIC = hd_bytes h2 then head_feed z (drop nread chunk) h2
              else Inl RecUnprocessableEntity)"
  by pat_completeness auto
termination
  by (relation "measure (\<lambda>(z, chunk, h). length chunk + (length MAGIC - length (hd_bytes h)))")
    (auto dest!: sym [of _ "head_run _ _ _"] dest: head_run_progress)

declare head_feed.simps [simp del]

section \<open>Storing the body\<close>

text \<open>A chunk is encoded or kept, and appended to the file; \<open>i\<close> counts the writes. What a failing write
  leaves of its bytes in the part is not represented: the upload ends and the part is removed.\<close>

definition write_part :: "file_ops \<Rightarrow> nat \<Rightarrow> bytes \<Rightarrow> bytes \<Rightarrow> files \<Rightarrow> files option" where
  "write_part ops i part out fs =
    (if fo_write ops i then Some (fs(part \<mapsto> (case fs part of None \<Rightarrow> [] | Some d \<Rightarrow> d) @ out)) else None)"

fun store_loop ::
  "('e, 'd) zstd \<Rightarrow> file_ops \<Rightarrow> bytes \<Rightarrow> bytes option list \<Rightarrow> nat \<Rightarrow> nat \<Rightarrow> 'e option \<Rightarrow> 'd Head \<Rightarrow> files
    \<Rightarrow> (RecordingStatus + (nat \<times> 'e option \<times> 'd Head)) \<times> files" where
  "store_loop z ops part [] i received encoder head fs = (Inr (i, encoder, head), fs)"
| "store_loop z ops part (None # chunks) i received encoder head fs = (Inl RecBadRequest, fs)"
| "store_loop z ops part (Some chunk # chunks) i received encoder head fs =
    (let received = received + length chunk
     in if received > MAX_BYTES then (Inl RecPayloadTooLarge, fs)
        else case head_feed z chunk head of
          Inl e \<Rightarrow> (Inl e, fs)
        | Inr head \<Rightarrow>
            (case (case encoder of
                     None \<Rightarrow> Some (None, chunk)
                   | Some en \<Rightarrow> map_option (\<lambda>(en, out). (Some en, out)) (enc_write z en chunk)) of
               None \<Rightarrow> (Inl RecInternalServerError, fs)
             | Some (encoder, out) \<Rightarrow>
                 (case write_part ops i part out fs of
                    None \<Rightarrow> (Inl RecInternalServerError, fs)
                  | Some fs \<Rightarrow> store_loop z ops part chunks (i + 1) received encoder head fs)))"

definition store_end ::
  "('e, 'd) zstd \<Rightarrow> file_ops \<Rightarrow> bytes \<Rightarrow> nat \<Rightarrow> 'e option \<Rightarrow> 'd Head \<Rightarrow> files \<Rightarrow> (RecordingStatus + unit) \<times> files" where
  "store_end z ops part i encoder head fs =
    (if \<not> head_complete head then (Inl RecUnprocessableEntity, fs)
     else
       let sync = (\<lambda>fs. if fo_sync ops then (Inr (), fs) else (Inl RecInternalServerError, fs))
       in case encoder of
            None \<Rightarrow> sync fs
          | Some en \<Rightarrow>
              (case enc_finish z en of
                 None \<Rightarrow> (Inl RecInternalServerError, fs)
               | Some out \<Rightarrow>
                   (case write_part ops i part out fs of
                      None \<Rightarrow> (Inl RecInternalServerError, fs)
                    | Some fs \<Rightarrow> sync fs)))"

definition store_recording ::
  "('e, 'd) zstd \<Rightarrow> file_ops \<Rightarrow> bytes \<Rightarrow> bytes option list \<Rightarrow> Encoding \<Rightarrow> files \<Rightarrow> (RecordingStatus + unit) \<times> files" where
  "store_recording z ops part body encoding fs =
    (if \<not> fo_create ops then (Inl RecInternalServerError, fs)
     else
       let fs = fs(part \<mapsto> [])
       in case (head_new z encoding,
                case encoding of Identity \<Rightarrow> map_option Some (enc_new z) | Zstd \<Rightarrow> Some None) of
            (Some head, Some encoder) \<Rightarrow>
              (case store_loop z ops part body 0 0 encoder head fs of
                 (Inl e, fs) \<Rightarrow> (Inl e, fs)
               | (Inr (i, encoder, head), fs) \<Rightarrow> store_end z ops part i encoder head fs)
          | _ \<Rightarrow> (Inl RecInternalServerError, fs))"

section \<open>The upload\<close>

definition show_int :: "int \<Rightarrow> bytes" where
  "show_int i = (if i < 0 then 0x2D # show_nat (nat (- i)) else show_nat (nat i))"

definition hex_digit :: "u32 \<Rightarrow> u8" where
  "hex_digit d = (if d < 10 then 0x30 + ucast d else 0x57 + ucast d)"

definition show_nonce :: "u32 \<Rightarrow> bytes" where
  "show_nonce n = map (\<lambda>i. hex_digit (drop_bit (28 - 4 * i) n AND 0xF)) [0..<8]"

definition recording_name :: "Metadata \<Rightarrow> u32 \<Rightarrow> bytes" where
  "recording_name m nonce = show_nat (unat (md_xuid m)) @ str ''-'' @ show_int (md_started m) @ str ''-''
     @ md_map m @ str ''-'' @ md_gametype m @ str ''-'' @ show_nonce nonce @ str ''.iw4rec.zst''"

definition recording_path :: "bytes \<Rightarrow> bytes" where
  "recording_path name = RECORDING_DIRECTORY @ str ''/'' @ name"

text \<open>The extension of the file is replaced: the name ends in \<open>.zst\<close>.\<close>

definition part_path :: "bytes \<Rightarrow> bytes" where
  "part_path path = path @ str ''.part''"

definition remove_part :: "file_ops \<Rightarrow> bytes \<Rightarrow> files \<Rightarrow> files" where
  "remove_part ops part fs = (if fo_remove ops then fs(part := None) else fs)"

definition upload_recording ::
  "('e, 'd) zstd \<Rightarrow> file_ops \<Rightarrow> u32 \<Rightarrow> (bytes \<Rightarrow> bytes option) \<Rightarrow> bytes option list \<Rightarrow> files \<Rightarrow> RecordingStatus \<times> files" where
  "upload_recording z ops nonce headers body fs =
    (case recording_metadata headers of
       None \<Rightarrow> (RecBadRequest, fs)
     | Some metadata \<Rightarrow>
         (case recording_encoding headers of
            None \<Rightarrow> (RecUnsupportedMediaType, fs)
          | Some encoding \<Rightarrow>
              if (case declared_length headers of None \<Rightarrow> False | Some n \<Rightarrow> unat n > MAX_BYTES) then (RecPayloadTooLarge, fs)
              else if \<not> fo_create_dir ops then (RecInternalServerError, fs)
              else
                let file_path = recording_path (recording_name metadata nonce); part = part_path file_path
                in case store_recording z ops part body encoding fs of
                     (Inl status, fs) \<Rightarrow> (status, if status = RecPanic then fs else remove_part ops part fs)
                   | (Inr _, fs) \<Rightarrow>
                       if fo_rename ops then (RecCreated, (fs(file_path := fs part))(part := None))
                       else (RecInternalServerError, remove_part ops part fs)))"

section \<open>Names\<close>

lemma sanitize_kept: "list_all kept_char (sanitize s)" "length (sanitize s) \<le> 64"
  by (auto simp: sanitize_def list_all_iff dest: in_set_takeD)

text \<open>Letters, digits, underscores, dots and dashes: no path leaves the directory.\<close>

definition name_char :: "u8 \<Rightarrow> bool" where
  "name_char c \<longleftrightarrow> kept_char c \<or> c = 0x2D"

lemma show_nat_kept: "list_all name_char (show_nat n)"
proof -
  have "kept_char (0x30 + of_nat d)" if "d < 10" for d
  proof -
    from that have "d \<in> {0, 1, 2, 3, 4, 5, 6, 7, 8, 9}" by auto
    then show ?thesis by (auto simp: kept_char_def)
  qed
  then show ?thesis using show_nat_digits(1) [of n] by (fastforce simp: list_all_iff name_char_def)
qed

lemma hex_digit_kept: "kept_char (hex_digit (d AND 0xF))"
proof -
  have "(d AND 0xF) = word_of_nat (unat (d AND 0xF))" by simp
  moreover have "unat (d AND 0xF) < 16"
  proof -
    have "d AND 0xF = take_bit 4 d" by (simp add: take_bit_eq_mask mask_eq_exp_minus_1)
    then have "unat (d AND 0xF) = take_bit 4 (unat d)" by (simp add: unsigned_take_bit_eq)
    then show ?thesis using take_bit_nat_less_exp [of 4 "unat d"] by simp
  qed
  ultimately obtain k where k: "d AND 0xF = of_nat k" "k < 16" by blast
  have "list_all (\<lambda>k. kept_char (hex_digit (of_nat k))) [0..<16]" by code_simp
  then show ?thesis using k by (simp add: list_all_iff)
qed

lemma recording_name_kept:
  assumes "recording_metadata headers = Some m"
  shows "list_all name_char (recording_name m nonce)"
proof -
  have kept: "list_all name_char s" if "list_all kept_char s" for s
    using that by (auto simp: list_all_iff name_char_def)
  have "list_all name_char (md_map m)" "list_all name_char (md_gametype m)"
    using assms sanitize_kept(1) kept by (auto simp: recording_metadata_def Let_def split: option.splits if_splits)
  moreover have "list_all name_char (show_nonce nonce)"
    using hex_digit_kept by (auto simp: show_nonce_def list_all_iff name_char_def)
  moreover have "list_all name_char (show_int i)" for i
    using show_nat_kept by (simp add: show_int_def name_char_def)
  moreover have "list_all name_char (str ''-'')" "list_all name_char (str ''.iw4rec.zst'')"
    by (simp_all add: str_def name_char_def kept_char_def)
  ultimately show ?thesis using show_nat_kept by (simp add: recording_name_def)
qed

section \<open>Contents\<close>

text \<open>What the encoder makes of chunks, and what the head makes of them.\<close>

fun enc_run :: "('e, 'd) zstd \<Rightarrow> 'e \<Rightarrow> bytes list \<Rightarrow> ('e \<times> bytes) option" where
  "enc_run z en [] = Some (en, [])"
| "enc_run z en (c # cs) =
    (case enc_write z en c of
       None \<Rightarrow> None
     | Some (en1, out) \<Rightarrow> map_option (\<lambda>(en2, outs). (en2, out @ outs)) (enc_run z en1 cs))"

fun feed_all :: "('e, 'd) zstd \<Rightarrow> bytes list \<Rightarrow> 'd Head \<Rightarrow> RecordingStatus + 'd Head" where
  "feed_all z [] h = Inr h"
| "feed_all z (c # cs) h = (case head_feed z c h of Inl e \<Rightarrow> Inl e | Inr h \<Rightarrow> feed_all z cs h)"

definition encoded :: "('e, 'd) zstd \<Rightarrow> 'e option \<Rightarrow> bytes list \<Rightarrow> 'e option \<Rightarrow> bytes \<Rightarrow> bool" where
  "encoded z encoder chunks encoder' out \<longleftrightarrow>
    (case encoder of
       None \<Rightarrow> encoder' = None \<and> out = concat chunks
     | Some en \<Rightarrow> (\<exists>en'. encoder' = Some en' \<and> enc_run z en chunks = Some (en', out)))"

lemma store_loop_stored:
  assumes "store_loop z ops part body i received encoder head fs = (Inr (i', encoder', head'), fs')"
    and "fs part = Some d" "received \<le> MAX_BYTES"
  shows "\<exists>chunks out. body = map Some chunks \<and> received + length (concat chunks) \<le> MAX_BYTES
    \<and> feed_all z chunks head = Inr head' \<and> encoded z encoder chunks encoder' out \<and> fs' = fs(part \<mapsto> d @ out)"
  using assms
proof (induction z ops part body i received encoder head fs arbitrary: d rule: store_loop.induct)
  case (1 z ops part i received encoder head fs)
  then show ?case by (intro exI [of _ "[]"]) (auto simp: encoded_def map_upd_triv split: option.split)
next
  case (2 z ops part chunks i received encoder head fs)
  then show ?case by simp
next
  case (3 z ops part chunk chunks i received encoder head fs)
  let ?enc = "case encoder of None \<Rightarrow> Some (None, chunk)
    | Some en \<Rightarrow> map_option (\<lambda>(en, out). (Some en, out)) (enc_write z en chunk)"
  obtain head1 encoder1 out1 fs1 where step: "received + length chunk \<le> MAX_BYTES" "head_feed z chunk head = Inr head1"
      "?enc = Some (encoder1, out1)" "write_part ops i part out1 fs = Some fs1"
      "store_loop z ops part chunks (i + 1) (received + length chunk) encoder1 head1 fs1 = (Inr (i', encoder', head'), fs')"
    using 3(2) by (auto simp: Let_def split: if_splits sum.splits option.splits prod.splits)
  have fs1: "fs1 = fs(part \<mapsto> d @ out1)" using step(4) 3(3) by (simp add: write_part_def split: if_splits)
  obtain cs out where cs: "chunks = map Some cs" "received + length chunk + length (concat cs) \<le> MAX_BYTES"
      "feed_all z cs head1 = Inr head'" "encoded z encoder1 cs encoder' out" "fs' = fs1(part \<mapsto> (d @ out1) @ out)"
    using 3(1) [OF refl _ step(2) step(3) refl step(4) step(5)] step(1) fs1 by fastforce
  have "encoded z encoder (chunk # cs) encoder' (out1 @ out)"
    using step(3) cs(4) by (auto simp: encoded_def split: option.splits)
  then show ?case using cs step(2) fs1 by (intro exI [of _ "chunk # cs"] exI [of _ "out1 @ out"]) simp
qed

text \<open>Without a decoder the head is the first eight bytes, whatever the chunks.\<close>

definition magic_so_far :: "bytes \<Rightarrow> bool" where
  "magic_so_far bs \<longleftrightarrow> take (length (take 8 bs)) MAGIC = take 8 bs"

lemma MAGIC_length [simp]: "length MAGIC = 8"
  by (simp add: MAGIC_def str_def)

lemma head_feed_plain:
  assumes "hd_decoder h = None" "hd_bytes h = take 8 pre" "magic_so_far pre"
  shows "head_feed z chunk h = (if magic_so_far (pre @ chunk) then Inr (h\<lparr>hd_bytes := take 8 (pre @ chunk)\<rparr>)
    else Inl RecUnprocessableEntity)"
proof (cases "head_complete h \<or> chunk = []")
  case True
  then have same: "take 8 (pre @ chunk) = take 8 pre" using assms(2) by (auto simp: head_complete_def)
  then have "magic_so_far (pre @ chunk)" using assms(3) by (simp only: magic_so_far_def same)
  then show ?thesis using True assms(2) same by (subst head_feed.simps) simp
next
  case False
  then have short: "length pre < 8" using assms(2) by (auto simp: head_complete_def)
  let ?want = "8 - length pre" and ?h2 = "h\<lparr>hd_bytes := take 8 (pre @ chunk)\<rparr>"
  have run: "head_run z chunk h = Inr (h, min ?want (length chunk), take ?want chunk)"
    using assms(1,2) short by (simp add: head_run_def Let_def)
  have "head_complete ?h2 \<or> drop (min ?want (length chunk)) chunk = []"
    using short by (auto simp: head_complete_def)
  then have rest: "head_feed z (drop (min ?want (length chunk)) chunk) ?h2 = Inr ?h2"
    by (subst head_feed.simps) simp
  have "hd_bytes h @ take ?want chunk = take 8 (pre @ chunk)" using assms(2) short by simp
  then show ?thesis using False run rest short
    by (subst head_feed.simps) (simp add: Let_def magic_so_far_def)
qed

lemma magic_so_far_append: "magic_so_far (pre @ bs) \<Longrightarrow> magic_so_far pre"
proof -
  assume "magic_so_far (pre @ bs)"
  then have "take (length (take 8 pre)) (take (length (take 8 (pre @ bs))) MAGIC) = take (length (take 8 pre)) (take 8 (pre @ bs))"
    by (simp add: magic_so_far_def)
  then show ?thesis by (simp add: magic_so_far_def min_def split: if_splits)
qed

lemma feed_all_plain:
  assumes "hd_decoder h = None" "hd_bytes h = take 8 pre" "magic_so_far pre"
  shows "feed_all z chunks h = (if magic_so_far (pre @ concat chunks) then Inr (h\<lparr>hd_bytes := take 8 (pre @ concat chunks)\<rparr>)
    else Inl RecUnprocessableEntity)"
  using assms
proof (induction chunks arbitrary: h pre)
  case Nil
  then show ?case by simp
next
  case (Cons c cs)
  show ?case
  proof (cases "magic_so_far (pre @ c)")
    case True
    then show ?thesis using Cons.IH [of "h\<lparr>hd_bytes := take 8 (pre @ c)\<rparr>" "pre @ c"] Cons.prems
      by (simp add: head_feed_plain [OF Cons.prems])
  next
    case False
    then have "\<not> magic_so_far (pre @ c @ concat cs)" using magic_so_far_append [of "pre @ c" "concat cs"] by auto
    then show ?thesis using False by (simp add: head_feed_plain [OF Cons.prems])
  qed
qed

section \<open>Properties\<close>

text \<open>What the server relies on of the library: what a fresh encoder makes of any chunks, closed by its
  end, decodes to the chunks put together.\<close>

definition zstd_ok :: "('e, 'd) zstd \<Rightarrow> (bytes \<Rightarrow> bytes option) \<Rightarrow> bool" where
  "zstd_ok z decompress \<longleftrightarrow> (\<forall>en cs en' out end_bytes. enc_new z = Some en \<longrightarrow> enc_run z en cs = Some (en', out)
     \<longrightarrow> enc_finish z en' = Some end_bytes \<longrightarrow> decompress (out @ end_bytes) = Some (concat cs))"

text \<open>And of its decoder: \<open>decoded z d consumed written\<close> says that a fresh decoder has come to
  the state \<open>d\<close> when it has consumed and written those bytes, in whatever turns. What it has written
  is the beginning of what the consumed bytes and any others after them decode to, if they do;
  and with input and room left a turn consumes or writes something.\<close>

inductive decoded :: "('e, 'd) zstd \<Rightarrow> 'd \<Rightarrow> bytes \<Rightarrow> bytes \<Rightarrow> bool" for z where
  fresh: "dec_new z = Some d \<Longrightarrow> decoded z d [] []"
| turn: "decoded z d consumed written \<Longrightarrow> dec_run z d chunk room = Some (d', n, out)
    \<Longrightarrow> decoded z d' (consumed @ take n chunk) (written @ out)"

definition dec_ok :: "('e, 'd) zstd \<Rightarrow> (bytes \<Rightarrow> bytes option) \<Rightarrow> bool" where
  "dec_ok z decompress \<longleftrightarrow> (\<forall>d consumed written. decoded z d consumed written \<longrightarrow>
     (\<forall>rest plain. decompress (consumed @ rest) = Some plain \<longrightarrow> take (length written) plain = written)
     \<and> (\<forall>chunk room d'. chunk \<noteq> [] \<and> 0 < room \<longrightarrow> dec_run z d chunk room \<noteq> Some (d', 0, [])))"

text \<open>With a decoder the head is what the decoder has written, and until it is complete every byte has gone
  through the decoder.\<close>

definition head_decodes :: "('e, 'd) zstd \<Rightarrow> bytes \<Rightarrow> 'd Head \<Rightarrow> bool" where
  "head_decodes z fed h \<longleftrightarrow> take (length (hd_bytes h)) MAGIC = hd_bytes h
     \<and> (\<exists>d consumed rest. hd_decoder h = Some d \<and> decoded z d consumed (hd_bytes h) \<and> fed = consumed @ rest
          \<and> (rest = [] \<or> head_complete h))"

lemma head_feed_decodes:
  assumes "dec_ok z decompress"
  shows "head_feed z chunk h = Inr h' \<Longrightarrow> head_decodes z fed h \<Longrightarrow> head_decodes z (fed @ chunk) h'"
  using assms
proof (induction z chunk h arbitrary: fed rule: head_feed.induct)
  case (1 z chunk h)
  note run = "1.prems"(1) [unfolded head_feed.simps [of z chunk h]] and ok = "1.prems"(3)
  obtain d consumed rest where h: "take (length (hd_bytes h)) MAGIC = hd_bytes h" "hd_decoder h = Some d"
      "decoded z d consumed (hd_bytes h)" "fed = consumed @ rest" "rest = [] \<or> head_complete h"
    using "1.prems"(2) by (auto simp: head_decodes_def)
  show ?case
  proof (cases "head_complete h \<or> chunk = []")
    case True
    then have "h' = h" using run by simp
    moreover have "fed @ chunk = consumed @ (rest @ chunk)" "rest @ chunk = [] \<or> head_complete h" using h(4,5) True by auto
    ultimately show ?thesis using h(1-3) unfolding head_decodes_def by blast
  next
    case False
    have "length (hd_bytes h) \<le> 8" using arg_cong [OF h(1), of length] by simp
    then have room: "0 < length MAGIC - length (hd_bytes h)" using False by (simp add: head_complete_def)
    obtain h1 nread out where turn: "head_run z chunk h = Inr (h1, nread, out)" using run False by (auto split: sum.splits)
    then obtain d' where d': "dec_run z d chunk (length MAGIC - length (hd_bytes h)) = Some (d', nread, out)"
        "h1 = h\<lparr>hd_decoder := Some d'\<rparr>"
      using h(2) by (auto simp: head_run_def Let_def split: option.splits if_splits)
    have moved: "\<not> (nread = 0 \<and> out = [])" using ok h(3) room d'(1) False unfolding dec_ok_def by blast
    let ?h2 = "h1\<lparr>hd_bytes := hd_bytes h1 @ out\<rparr>"
    have good: "take (length (hd_bytes ?h2)) MAGIC = hd_bytes ?h2" and rest: "head_feed z (drop nread chunk) ?h2 = Inr h'"
      using run False turn moved by (auto simp: Let_def split: if_splits)
    have "decoded z d' (consumed @ take nread chunk) (hd_bytes ?h2)"
      using decoded.turn [OF h(3) d'(1)] d'(2) by simp
    moreover have "fed @ take nread chunk = (consumed @ take nread chunk) @ []" using h(4,5) False by simp
    moreover have "hd_decoder ?h2 = Some d'" using d'(2) by simp
    ultimately have "head_decodes z (fed @ take nread chunk) ?h2" using good unfolding head_decodes_def by blast
    then have "head_decodes z ((fed @ take nread chunk) @ drop nread chunk) h'"
      using "1.IH" [OF False turn refl refl moved refl good rest _ ok] by blast
    then show ?thesis by simp
  qed
qed

lemma feed_all_decodes:
  assumes "dec_ok z decompress"
  shows "feed_all z chunks h = Inr h' \<Longrightarrow> head_decodes z fed h \<Longrightarrow> head_decodes z (fed @ concat chunks) h'"
proof (induction chunks arbitrary: h fed)
  case (Cons c cs)
  then obtain h1 where h1: "head_feed z c h = Inr h1" "feed_all z cs h1 = Inr h'" by (auto split: sum.splits)
  show ?case using Cons.IH [OF h1(2) head_feed_decodes [OF assms h1(1) Cons.prems(2)]] by simp
qed simp

lemma store_end_stored:
  assumes "store_end z ops part i encoder head fs = (Inr (), fs')" "fs part = Some d"
  shows "head_complete head \<and> (\<exists>end_bytes. (case encoder of None \<Rightarrow> end_bytes = [] | Some en \<Rightarrow> enc_finish z en = Some end_bytes)
    \<and> fs' = fs(part \<mapsto> d @ end_bytes))"
  using assms by (auto simp: store_end_def write_part_def Let_def map_upd_triv split: if_splits option.splits)

lemma recording_stored:
  assumes run: "store_recording z ops part body encoding fs = (Inr (), fs')" and ok: "zstd_ok z decompress"
  obtains chunks content where "body = map Some chunks" "length (concat chunks) \<le> MAX_BYTES" "fs' = fs(part \<mapsto> content)"
    "encoding = Zstd \<Longrightarrow> content = concat chunks"
    "encoding = Zstd \<Longrightarrow> dec_ok z decompress
      \<Longrightarrow> \<exists>d consumed rest. decoded z d consumed MAGIC \<and> concat chunks = consumed @ rest"
    "encoding = Identity \<Longrightarrow> decompress content = Some (concat chunks) \<and> take 8 (concat chunks) = MAGIC"
proof -
  obtain head encoder i encoder' head' fs1 where start: "head_new z encoding = Some head"
      "(case encoding of Identity \<Rightarrow> map_option Some (enc_new z) | Zstd \<Rightarrow> Some None) = Some encoder"
    and loop: "store_loop z ops part body 0 0 encoder head (fs(part \<mapsto> [])) = (Inr (i, encoder', head'), fs1)"
    and finish: "store_end z ops part i encoder' head' fs1 = (Inr (), fs')"
    using run by (auto simp: store_recording_def Let_def split: if_splits option.splits prod.splits sum.splits)
  obtain chunks out where stored: "body = map Some chunks" "length (concat chunks) \<le> MAX_BYTES"
      "feed_all z chunks head = Inr head'" "encoded z encoder chunks encoder' out" "fs1 = (fs(part \<mapsto> []))(part \<mapsto> [] @ out)"
    using store_loop_stored [OF loop, of "[]"] by (auto simp: MAX_BYTES_def)
  have fs1: "fs1 part = Some out" "\<And>d. fs1(part \<mapsto> d) = fs(part \<mapsto> d)" using stored(5) by simp_all
  obtain end_bytes where ended: "head_complete head'" "fs' = fs(part \<mapsto> out @ end_bytes)"
      "case encoder' of None \<Rightarrow> end_bytes = [] | Some en \<Rightarrow> enc_finish z en = Some end_bytes"
    using store_end_stored [OF finish fs1(1)] fs1(2) by auto
  show thesis
  proof (rule that [OF stored(1,2) ended(2)])
    show "out @ end_bytes = concat chunks" if "encoding = Zstd"
      using that start(2) stored(4) ended(3) by (auto simp: encoded_def)
    show "\<exists>d consumed rest. decoded z d consumed MAGIC \<and> concat chunks = consumed @ rest"
      if zstd: "encoding = Zstd" and dec: "dec_ok z decompress"
    proof -
      obtain d where d: "dec_new z = Some d" "head = \<lparr>hd_bytes = [], hd_decoder = Some d\<rparr>"
        using zstd start(1) by (auto simp: head_new_def)
      have "head_decodes z [] head" using decoded.fresh [OF d(1)] by (simp add: head_decodes_def d(2))
      then have "head_decodes z ([] @ concat chunks) head'" by (rule feed_all_decodes [OF dec stored(3)])
      then obtain d' consumed rest where "take (length (hd_bytes head')) MAGIC = hd_bytes head'"
          "decoded z d' consumed (hd_bytes head')" "concat chunks = consumed @ rest"
        unfolding head_decodes_def append_Nil by blast
      moreover from this(1) have "hd_bytes head' = MAGIC" using ended(1) by (simp add: head_complete_def)
      ultimately show ?thesis by metis
    qed
    show "decompress (out @ end_bytes) = Some (concat chunks) \<and> take 8 (concat chunks) = MAGIC" if plain: "encoding = Identity"
    proof
      obtain en en' where en: "enc_new z = Some en" "encoder' = Some en'" "enc_run z en chunks = Some (en', out)"
        using plain start(2) stored(4) by (auto simp: encoded_def)
      then show "decompress (out @ end_bytes) = Some (concat chunks)" using ok ended(3) by (simp add: zstd_ok_def)
      have head: "head = \<lparr>hd_bytes = [], hd_decoder = None\<rparr>" using plain start(1) by (simp add: head_new_def)
      have "magic_so_far (concat chunks)" "hd_bytes head' = take 8 (concat chunks)"
        using stored(3) feed_all_plain [of head "[]" z chunks] by (auto simp: head magic_so_far_def split: if_splits)
      then show "take 8 (concat chunks) = MAGIC" using ended(1) by (simp add: head_complete_def magic_so_far_def min_def split: if_splits)
    qed
  qed
qed

text \<open>Whatever happens, only the part is written.\<close>

lemma store_loop_part:
  "p \<noteq> part \<Longrightarrow> snd (store_loop z ops part body i received encoder head fs) p = fs p"
proof (induction z ops part body i received encoder head fs rule: store_loop.induct)
  case (3 z ops part chunk chunks i received encoder head fs)
  then show ?case by (auto simp: Let_def write_part_def split: sum.split option.split prod.split if_splits)
qed auto

lemma store_part:
  assumes "p \<noteq> part"
  shows "snd (store_recording z ops part body encoding fs) p = fs p"
proof -
  have ended: "snd (store_end z ops part i encoder head fs) p = fs p" for i encoder head fs
    using assms by (auto simp: store_end_def write_part_def Let_def split: option.split)
  have looped: "fs1 p = fs p" if "store_loop z ops part body 0 0 encoder head (fs(part \<mapsto> [])) = (x, fs1)" for encoder head x fs1
    using store_loop_part [OF assms, of z ops body 0 0 encoder head "fs(part \<mapsto> [])"] that assms by simp
  show ?thesis using assms ended looped
    by (auto simp: store_recording_def Let_def split: option.split prod.split sum.split)
qed

lemma head_feed_refuses: "head_feed z chunk h \<noteq> Inl RecCreated"
proof (induction z chunk h rule: head_feed.induct)
  case (1 z chunk h)
  have "head_run z chunk h \<noteq> Inl RecCreated"
    by (auto simp: head_run_def Let_def split: option.split)
  then show ?case using 1 by (subst head_feed.simps) (auto simp: Let_def split: sum.split prod.split)
qed

lemma store_loop_refuses: "fst (store_loop z ops part body i received encoder head fs) \<noteq> Inl RecCreated"
proof (induction z ops part body i received encoder head fs rule: store_loop.induct)
  case (3 z ops part chunk chunks i received encoder head fs)
  then show ?case using head_feed_refuses [of z chunk head]
    by (auto simp: Let_def split: sum.split option.split prod.split)
qed auto

lemma store_recording_refuses: "store_recording z ops part body encoding fs \<noteq> (Inl RecCreated, fs')"
proof -
  have "fst (store_end z ops part i encoder head fs) \<noteq> Inl RecCreated" for i encoder head fs
    by (auto simp: store_end_def Let_def split: option.split)
  then have ends: "store_end z ops part i encoder head fs \<noteq> (Inl RecCreated, fs')" for i encoder head fs by (metis fst_conv)
  have "store_loop z ops part body 0 0 encoder head fs \<noteq> (Inl RecCreated, fs1)" for encoder head fs fs1
    using store_loop_refuses by (metis fst_conv)
  then show ?thesis using ends
    by (auto simp: store_recording_def Let_def split: option.splits prod.splits sum.splits if_splits)
qed

lemma path_parts: "part_path path \<noteq> path"
  by (simp add: part_path_def str_def)

definition all_fine :: "('e, 'd) zstd \<Rightarrow> file_ops \<Rightarrow> bool" where
  "all_fine z ops \<longleftrightarrow> fo_create_dir ops \<and> fo_create ops \<and> (\<forall>i. fo_write ops i) \<and> fo_sync ops \<and> fo_rename ops
     \<and> enc_new z \<noteq> None \<and> (\<forall>en c. enc_write z en c \<noteq> None) \<and> (\<forall>en. enc_finish z en \<noteq> None)"

lemma all_fine_write:
  assumes "all_fine z ops"
  obtains en' out where "enc_write z en c = Some (en', out)"
proof (cases "enc_write z en c")
  case None
  moreover have "enc_write z en c \<noteq> None" using assms unfolding all_fine_def by blast
  ultimately show ?thesis by contradiction
next
  case (Some r)
  then show ?thesis using that by (cases r) simp
qed

lemma all_fine_finish:
  assumes "all_fine z ops"
  obtains rest where "enc_finish z en = Some rest"
proof (cases "enc_finish z en")
  case None
  moreover have "enc_finish z en \<noteq> None" using assms unfolding all_fine_def by blast
  ultimately show ?thesis by contradiction
qed (rule that)

lemma store_loop_accepts:
  assumes "all_fine z ops" "received + length (concat chunks) \<le> MAX_BYTES" "feed_all z chunks head = Inr head'"
  shows "\<exists>i' en' fs'. store_loop z ops part (map Some chunks) i received (Some en) head fs = (Inr (i', Some en', head'), fs')"
  using assms(2,3)
proof (induction chunks arbitrary: i received en head fs)
  case (Cons c cs)
  obtain head1 where head1: "head_feed z c head = Inr head1" "feed_all z cs head1 = Inr head'"
    using Cons.prems(2) by (auto split: sum.splits)
  obtain en1 out where "enc_write z en c = Some (en1, out)" by (rule all_fine_write [OF assms(1)])
  moreover obtain fs1 where "write_part ops i part out fs = Some fs1" using assms(1) by (auto simp: all_fine_def write_part_def)
  ultimately show ?case using Cons.IH [OF _ head1(2), of "received + length c" "i + 1" en1 fs1] Cons.prems(1) head1(1)
    by (simp add: Let_def)
qed simp

lemma plain_recording_accepted:
  assumes "all_fine z ops" "length (concat chunks) \<le> MAX_BYTES" "take 8 (concat chunks) = MAGIC"
  shows "\<exists>fs'. store_recording z ops part (map Some chunks) Identity fs = (Inr (), fs')"
proof -
  let ?head = "\<lparr>hd_bytes = [], hd_decoder = None\<rparr>"
  obtain en where en: "enc_new z = Some en" using assms(1) by (auto simp: all_fine_def)
  have "feed_all z chunks ?head = Inr (?head\<lparr>hd_bytes := MAGIC\<rparr>)"
    using feed_all_plain [of ?head "[]" z chunks] assms(3) by (simp add: magic_so_far_def)
  then obtain i en' fs1 where loop: "store_loop z ops part (map Some chunks) 0 0 (Some en) ?head (fs(part \<mapsto> []))
      = (Inr (i, Some en', ?head\<lparr>hd_bytes := MAGIC\<rparr>), fs1)"
    using store_loop_accepts [OF assms(1), of 0] assms(2) by fastforce
  obtain rest where "enc_finish z en' = Some rest" by (rule all_fine_finish [OF assms(1)])
  then have "\<exists>fs'. store_end z ops part i (Some en') (?head\<lparr>hd_bytes := MAGIC\<rparr>) fs1 = (Inr (), fs')"
    using assms(1) by (auto simp: store_end_def all_fine_def head_complete_def write_part_def Let_def)
  then show ?thesis using assms(1) en loop
    by (auto simp: store_recording_def Let_def head_new_def all_fine_def)
qed

text \<open>An example: a library that does not compress, and a recording of nine bytes in two chunks.\<close>

definition plain_zstd :: "(unit, unit) zstd" where
  "plain_zstd = \<lparr>enc_new = Some (), enc_write = \<lambda>_ c. Some ((), c), enc_finish = \<lambda>_. Some [], dec_new = Some (),
     dec_run = \<lambda>_ c n. Some ((), min n (length c), take n c)\<rparr>"

lemma plain_zstd_ok: "zstd_ok plain_zstd Some"
proof -
  have "enc_run plain_zstd () cs = Some ((), concat cs)" for cs
    by (induction cs) (simp_all add: plain_zstd_def)
  then show ?thesis by (simp add: zstd_ok_def) (simp add: plain_zstd_def)
qed

lemma plain_decoded: "decoded plain_zstd d consumed written \<Longrightarrow> written = consumed"
  by (induction rule: decoded.induct) (auto simp: plain_zstd_def min_def)

lemma plain_dec_ok: "dec_ok plain_zstd Some"
proof -
  have "take (length written) plain = written"
    if "decoded plain_zstd d consumed written" "Some (consumed @ rest) = Some plain" for d consumed written rest plain
    using plain_decoded [OF that(1)] that(2) by auto
  moreover have "dec_run plain_zstd d chunk room \<noteq> Some (d', 0, [])" if "chunk \<noteq> []" "0 < room" for d d' chunk room
    using that by (auto simp: plain_zstd_def)
  ultimately show ?thesis unfolding dec_ok_def by metis
qed

definition fine_ops :: file_ops where
  "fine_ops = \<lparr>fo_create_dir = True, fo_create = True, fo_write = \<lambda>_. True, fo_sync = True, fo_rename = True, fo_remove = True\<rparr>"

lemma plain_all_fine: "all_fine plain_zstd fine_ops"
  by (simp add: all_fine_def plain_zstd_def fine_ops_def)

definition match_headers :: "bytes \<Rightarrow> bytes option" where
  "match_headers = [str ''x-iw4x-map'' \<mapsto> str ''mp_rust'', str ''x-iw4x-gametype'' \<mapsto> str ''war'',
     str ''x-iw4x-xuid'' \<mapsto> str ''1'', str ''x-iw4x-started'' \<mapsto> str ''0'']"

lemma match_headers:
  "\<exists>m. recording_metadata match_headers = Some m" "recording_encoding match_headers = Some Identity"
  "declared_length match_headers = None"
  by (simp_all add: recording_metadata_def recording_encoding_def declared_length_def match_headers_def str_def
      header_text_def sanitize_def kept_char_def parse_i64_def parse_u64_def parse_radix_def digit_value_def Let_def)

definition match_body :: "bytes list" where
  "match_body = [[0x49, 0x57, 0x34], [0x58, 0x52, 0x45, 0x43, 0, 7]]"

lemma match_body: "take 8 (concat match_body) = MAGIC" "length (concat match_body) \<le> MAX_BYTES"
  by (simp_all add: match_body_def MAGIC_def str_def MAX_BYTES_def)

text \<open>
  C38. Recordings are what they claim. Whatever headers and chunks a client sends and whichever
  operation of the file system fails but the removal of the part, if no part of that name was there:
  an upload that is answered with Created has stored one file, under the name made of the
  headers and the nonce, of letters, digits, underscores, dots and dashes, where it replaces a file
  of just that name if there was one. Its body arrived whole and within the limit. If it was sent
  uncompressed it begins like a recording, and the file decodes to it; if it was sent compressed
  the file is the body, from whose beginning the decoder has written the eight bytes of a
  recording, so that whatever the file decodes to, if it does, begins like a recording. Any other
  answer leaves all files as they were.
\<close>

theorem recordings_are_checked:
  assumes "upload_recording z ops nonce headers body fs = (status, fs')" "zstd_ok z decompress" "dec_ok z decompress"
    and "fo_remove ops" "\<forall>m. fs (part_path (recording_path (recording_name m nonce))) = None"
  shows "(status = RecCreated \<longrightarrow> (\<exists>m encoding chunks content.
      recording_metadata headers = Some m \<and> recording_encoding headers = Some encoding
      \<and> list_all name_char (recording_name m nonce) \<and> body = map Some chunks \<and> length (concat chunks) \<le> MAX_BYTES
      \<and> fs' = fs(recording_path (recording_name m nonce) \<mapsto> content)
      \<and> (encoding = Zstd \<longrightarrow> content = concat chunks
          \<and> (\<exists>d consumed rest. decoded z d consumed MAGIC \<and> content = consumed @ rest)
          \<and> (\<forall>plain. decompress content = Some plain \<longrightarrow> take 8 plain = MAGIC))
      \<and> (encoding = Identity \<longrightarrow> decompress content = Some (concat chunks) \<and> take 8 (concat chunks) = MAGIC)))
    \<and> (status \<noteq> RecCreated \<and> status \<noteq> RecPanic \<longrightarrow> fs' = fs)"
proof (cases "\<exists>m encoding. recording_metadata headers = Some m \<and> recording_encoding headers = Some encoding
    \<and> \<not> (case declared_length headers of None \<Rightarrow> False | Some n \<Rightarrow> unat n > MAX_BYTES) \<and> fo_create_dir ops")
  case False
  then show ?thesis using assms(1)
    by (auto simp: upload_recording_def split: option.splits if_splits)
next
  case True
  then obtain m encoding where m: "recording_metadata headers = Some m" "recording_encoding headers = Some encoding"
      "\<not> (case declared_length headers of None \<Rightarrow> False | Some n \<Rightarrow> unat n > MAX_BYTES)" "fo_create_dir ops"
    by blast
  let ?path = "recording_path (recording_name m nonce)"
  let ?part = "part_path ?path"
  obtain y fs1 where store: "store_recording z ops ?part body encoding fs = (y, fs1)" by fastforce
  have others: "fs1 p = fs p" if "p \<noteq> ?part" for p
    using store_part [OF that, of z ops body encoding fs] store by simp
  have removed: "fs1(?part := None) = fs" using others assms(5) by auto
  show ?thesis
  proof (cases y)
    case (Inl e)
    then show ?thesis using assms(1,4) m store removed store_recording_refuses [of z ops ?part body encoding fs fs1]
      by (auto simp: upload_recording_def Let_def remove_part_def)
  next
    case (Inr u)
    show ?thesis
    proof (cases "fo_rename ops")
      case False
      then show ?thesis using Inr assms(1,4) m store removed by (auto simp: upload_recording_def Let_def remove_part_def)
    next
      case rename: True
      obtain chunks content where c: "body = map Some chunks" "length (concat chunks) \<le> MAX_BYTES" "fs1 = fs(?part \<mapsto> content)"
          "encoding = Zstd \<Longrightarrow> content = concat chunks"
          "encoding = Zstd \<Longrightarrow> \<exists>d consumed rest. decoded z d consumed MAGIC \<and> concat chunks = consumed @ rest"
          "encoding = Identity \<Longrightarrow> decompress content = Some (concat chunks) \<and> take 8 (concat chunks) = MAGIC"
      proof (rule recording_stored [of z ops ?part body encoding fs fs1 decompress])
        show "store_recording z ops ?part body encoding fs = (Inr (), fs1)" using store Inr by simp
      qed (use assms(2,3) that in blast)+
      have decoded: "take 8 plain = MAGIC" if "encoding = Zstd" "decompress content = Some plain" for plain
      proof -
        obtain d consumed rest where "decoded z d consumed MAGIC" "content = consumed @ rest" using c(4,5) \<open>encoding = Zstd\<close> by metis
        then have "take (length MAGIC) plain = MAGIC" using assms(3) that(2) unfolding dec_ok_def by blast
        then show ?thesis by simp
      qed
      have "(fs1(?path := fs1 ?part))(?part := None) = fs(?path \<mapsto> content)"
        using c(3) path_parts [of ?path] assms(5) by (auto simp: fun_eq_iff)
      then have "status = RecCreated" "fs' = fs(?path \<mapsto> content)"
        using assms(1) m store Inr rename by (simp_all add: upload_recording_def Let_def)
      moreover have "encoding = Zstd \<longrightarrow> content = concat chunks \<and> (\<exists>d consumed rest. decoded z d consumed MAGIC \<and> content = consumed @ rest)
          \<and> (\<forall>plain. decompress content = Some plain \<longrightarrow> take 8 plain = MAGIC)"
        using c(4,5) decoded by simp
      ultimately show ?thesis using m(1,2) recording_name_kept [OF m(1)] c(1,2,6) by blast
    qed
  qed
qed

theorem recordings_are_checked_witness:
  "\<exists>m content. snd (upload_recording plain_zstd fine_ops 5 match_headers (map Some match_body) Map.empty)
      = [recording_path (recording_name m 5) \<mapsto> content]
    \<and> recording_metadata match_headers = Some m \<and> Some content = Some (concat match_body)"
proof -
  let ?up = "upload_recording plain_zstd fine_ops 5 match_headers (map Some match_body) Map.empty"
  obtain m where m: "recording_metadata match_headers = Some m" using match_headers(1) by blast
  obtain fs1 where "store_recording plain_zstd fine_ops (part_path (recording_path (recording_name m 5))) (map Some match_body)
      Identity Map.empty = (Inr (), fs1)"
    using plain_recording_accepted [OF plain_all_fine match_body(2,1)] by blast
  then have "fst ?up = RecCreated"
    using m match_headers(2,3) by (simp add: upload_recording_def Let_def fine_ops_def)
  moreover have "fo_remove fine_ops" "\<forall>m. Map.empty (part_path (recording_path (recording_name m 5))) = None"
    by (simp_all add: fine_ops_def)
  ultimately obtain m' chunks content where c: "recording_metadata match_headers = Some m'" "map Some match_body = map Some chunks"
      "snd ?up = [recording_path (recording_name m' 5) \<mapsto> content]" "Some content = Some (concat chunks)"
    using recordings_are_checked [OF prod.collapse [symmetric, of ?up] plain_zstd_ok plain_dec_ok] match_headers(2) by fastforce
  have "chunks = match_body" using c(2) by (metis inj_map_eq_map inj_Some)
  then show ?thesis using c by blast
qed

text \<open>
  C39. Chunks do not matter. When nothing fails, a recording with good headers that is sent
  uncompressed is accepted exactly if the length it declares, when it declares one that can be read, and its
  bytes, put together, are within the limit and they begin with the eight bytes of a recording,
  however they were cut into chunks.
\<close>

theorem plain_upload_decided:
  assumes "all_fine z ops" "zstd_ok z decompress"
    and "recording_metadata headers = Some m" "recording_encoding headers = Some Identity"
  shows "fst (upload_recording z ops nonce headers (map Some chunks) fs) = RecCreated
    \<longleftrightarrow> (case declared_length headers of None \<Rightarrow> True | Some n \<Rightarrow> unat n \<le> MAX_BYTES)
      \<and> length (concat chunks) \<le> MAX_BYTES \<and> take 8 (concat chunks) = MAGIC"
proof -
  let ?part = "part_path (recording_path (recording_name m nonce))"
  obtain y fs1 where store: "store_recording z ops ?part (map Some chunks) Identity fs = (y, fs1)" by fastforce
  have "fst (upload_recording z ops nonce headers (map Some chunks) fs) = RecCreated
      \<longleftrightarrow> (case declared_length headers of None \<Rightarrow> True | Some n \<Rightarrow> unat n \<le> MAX_BYTES) \<and> y = Inr ()"
    using assms(1,3,4) store store_recording_refuses [of z ops ?part "map Some chunks" Identity fs fs1]
    by (cases y) (auto simp: upload_recording_def Let_def all_fine_def split: option.split)
  moreover have "length (concat chunks) \<le> MAX_BYTES \<and> take 8 (concat chunks) = MAGIC" if y: "y = Inr ()"
  proof -
    obtain chunks' where "map Some chunks = map Some chunks'" "length (concat chunks') \<le> MAX_BYTES" "take 8 (concat chunks') = MAGIC"
      using recording_stored [OF store [unfolded y] assms(2)] by (metis Encoding.distinct(1))
    then show ?thesis by (metis inj_map_eq_map inj_Some)
  qed
  moreover have "y = Inr ()" if "length (concat chunks) \<le> MAX_BYTES" "take 8 (concat chunks) = MAGIC"
    using plain_recording_accepted [OF assms(1) that, of ?part fs] store by auto
  ultimately show ?thesis by blast
qed

definition declared_headers :: "bytes \<Rightarrow> bytes option" where
  "declared_headers = match_headers(str ''content-length'' \<mapsto> str ''9'')"

lemma declared_headers:
  "\<exists>m. recording_metadata declared_headers = Some m" "recording_encoding declared_headers = Some Identity"
  "declared_length declared_headers = Some 9"
  by (simp_all add: recording_metadata_def recording_encoding_def declared_length_def declared_headers_def match_headers_def str_def
      header_text_def sanitize_def kept_char_def parse_i64_def parse_u64_def parse_radix_def digit_value_def Let_def)

theorem plain_upload_decided_witness:
  "(fst (upload_recording plain_zstd fine_ops 5 declared_headers (map Some [[0x49, 0x57, 0x34], [0x58, 0x52, 0x45, 0x43, 0, 7]]) Map.empty) = RecCreated)
    \<and> (fst (upload_recording plain_zstd fine_ops 5 declared_headers (map Some [[0x49], [0x57, 0x35]]) Map.empty) \<noteq> RecCreated)"
proof -
  obtain m where m: "recording_metadata declared_headers = Some m" using declared_headers(1) by blast
  note decided = plain_upload_decided [OF plain_all_fine plain_zstd_ok m declared_headers(2)]
  have "take 8 (concat [[0x49], [0x57, 0x35]]) \<noteq> MAGIC" by (simp add: MAGIC_def str_def)
  moreover have "case declared_length declared_headers of None \<Rightarrow> True | Some n \<Rightarrow> unat n \<le> MAX_BYTES"
    by (simp add: declared_headers(3) MAX_BYTES_def)
  ultimately show ?thesis unfolding decided using match_body unfolding match_body_def by blast
qed

end
