(* ===== verification/Spec2Isabelle.thy ===== *)
theory Spec2Isabelle
  imports Wire_Values ErrorCode Connection KeyStore AuthServer Replies Lobby Request_Loops
    Messaging_Handler Registry_Search Matchmaking_Handler Social_Feed Http_Auth
    Counter Group_Service Rich_Presence Small_Services Profile Storage_Handler Stream_Tokens
    Dw_Runs Recording
begin

text \<open>
  A model of the OBE server (libbitdemon and dw-server): the wire format of its binary protocol,
  the authentication server, the lobby server with its services, and the HTTP side: social
  service, content streams and recordings.

  \<^bold>\<open>How the program is put together.\<close> A game client authenticates (auth server on one port, or
  the HTTP route) and receives a ticket and an opaque proof; it presents the proof to the lobby
  server on another port, whose login service gives its session an identity and a key; further
  messages are encrypted under that key and dispatched by service id to handlers, which read a
  bit stream and answer with task replies, and push messages to other sessions through the
  router. The social service keeps friends, requests, activities and invitations in a database
  and tells polling clients of changes through revisions.

  \<^bold>\<open>Conventions.\<close> A function that mutates an object and can fail is a state transformer into a sum
  (\<open>sm\<close> in Prelude); an error is a value of \<open>bd_error\<close>, a panic of the debug build - overflow, a
  failed assertion, an unwrap - is the error \<open>Panic\<close>, a loop that does not end \<open>Diverges\<close>, and a
  panic under a lock poisons it. Integers are words of their width; strings are their UTF-8
  bytes. Randomness, clocks, socket states and the iteration order of hash maps are arguments.
  The cryptographic primitives are parameters (record \<open>crypto\<close>) with the laws \<open>crypto_ok\<close>, shown
  satisfiable by \<open>toy_crypto\<close>. SQL statements are functions on tables.

  \<^bold>\<open>Wire format.\<close> DataType, Errors, Reader, Bit_Stream, Writer, Codec, Wire_Values, ErrorCode model
  messaging/: the bit reader and writer refine reading and appending bit lists, and every value
  that is written is read back. Crypto and Message model crypto/ and messages and frames
  (bd_message.rs, bd_response.rs), Session and Connection the networking directory: accepted
  encrypted messages are authentic, frames arrive, a connection has the effects of its stream.

  \<^bold>\<open>Authentication.\<close> KeyStore, AuthProof, AuthTicket and AuthServer model auth/: keys stay valid as
  long as proofs under them, proofs are accepted back, and the Steam handler issues them.
  Http_Auth models the HTTP route of dw-server/src/auth, from the parsed request to the answer,
  and joins both: what it issues logs the user in.

  \<^bold>\<open>Lobby.\<close> Protocol, Replies and Request_Loops hold what handlers share: replies as clients read
  them and the loops that read requests, with fuel from the length of the message, which every
  iteration consumes. Router and Messaging_Handler deliver messages, Lobby dispatches and logs
  in, Session_Registry, Registry_Search and Matchmaking_Handler advertise and find game
  sessions; the id table is an index of the sessions in every reachable registry.

  \<^bold>\<open>Social service.\<close> Social_Store holds the tables and statements of friends.rs and activity.rs,
  Social_Graph the contract of the friend actions - a graph - and their refinement of it,
  Social_Text the text functions and the search, Social_Watch revisions and presence of
  watch.rs, Social_Routes the handlers of routes.rs, Social_Feed the properties of the whole:
  changes are announced - all but the first name of a user whom others already have as a friend
  or a request -, polls miss nothing that is announced, only friends can join.

  \<^bold>\<open>Lobby services with state.\<close> Service_Support and Handler_Logic hold what the handlers of
  services share: an operation of a service inside a connection, a world inside a larger one, the
  logic of handlers that never panic and touch only their own world, and \<open>answer\<close>, one request to
  a handler. Over them: Counter (totals are sums of increments), Group_Service (a count is the
  number of members), Rich_Presence (a query shows what was published last, until the session
  that published it ends as that user), Profile (setting and reading refine a map; the statement
  that deletes is one SQLite refuses), Storage_Files and Storage_Handler (files are their owners';
  LIKE refuses a long pattern only when there is a row to compare with), Bandwidth (a test counts
  the client's datagrams). Small_Services holds the ten handlers without state. Each service is
  modelled with its handler in libbitdemon/src/lobby and its store in dw-server/src/lobby.

  \<^bold>\<open>Content streaming.\<close> Stream_Store holds the tables and operations of db.rs, user_file.rs and
  publisher_file.rs, Stream_Handler the lobby handler and the HTTP routes, Stream_Laws what every
  operation keeps of the table, Stream_Properties the invariant and the round trip through
  announcement, upload and download, Stream_Tokens runs of lobby and routes, which collect the
  URLs that the answers carry: a body is stored only under a token from a URL of an answer to the
  owner. Of the library of tokens it is assumed that it accepts no token that was not handed
  out and reads back the claims that were signed.

  \<^bold>\<open>The composed server.\<close> Dw_Lobby puts all services in one table over one world
  (dw-server/src/lobby/mod.rs), with the callbacks of ended sessions in their order and the
  totals of population.rs; Dw_Properties shows that no message touches what others own and what is
  left of a session that ended: no recipient, match or group, and no presence of the user it
  ended as. Dw_Sessions shows that only the login changes a session
  and whom the shared state can refer to; Dw_Runs has the runs of the whole lobby port, as
  steps of an inductive relation labelled with the proofs shown in it and the connections that
  showed them, and their invariants: data is behind proofs, nothing refers to a connection that
  has gone. It also follows a panic through the drop of the session's registration. Recording
  models recording.rs: the chunks of a body, the check of its first bytes through the decoder, and
  the files, with any operation failing. Of Zstandard it is assumed that a decoder that is fed a
  body in pieces writes the beginning of what the whole decompresses to.

  \<^bold>\<open>Locales.\<close> \<open>encoder\<close>, \<open>decoder\<close> and \<open>codec\<close> (what writes and reads a value) are interpreted for
  every scalar, strings and blobs; \<open>key_storage\<close>, \<open>session_directory\<close>, \<open>friend_store\<close> and
  \<open>counter_service\<close> state the contracts of the stores, prove the clients' lemmas from them, and are
  interpreted on the models of the stores.

  \<^bold>\<open>Bounds and fuel.\<close> The loops over requests of unknown length run with fuel from the
  length of the message, of which every turn consumes some; the loop that draws ids of matches is proved to
  return with the first drawn id that no other session has; all others have termination measures. Sums that Rust
  checks are \<open>checked_add\<close>; the sizes of fields, messages and files are those of the constants.

  \<^bold>\<open>Not modelled.\<close> Opening and accepting sockets, their timeouts and the threads: a connection is the
  list of the bytes that it receives, and the operations of different connections are interleaved
  whole (what another connection does between two statements of one operation is left out). The libraries: SQLite (its
  statements are functions on tables, one that fails is a panic of the \<open>expect\<close> on it), JSON,
  base64, the JWT library, Zstandard and the primitives of cryptography (parameters with stated
  laws), axum's route tables. Start-up, configuration and the format of log lines (main.rs,
  config.rs, log.rs), the lock around the database (db.rs), trait declarations and module lists.
  Memory is taken to suffice, also where an array is allocated for the count a message gives.
  Log messages have no effect in the model.
\<close>

end
